(* ===== verification/Prelude.thy ===== *)
theory Prelude imports Main "HOL-Library.List_Lexorder" "HOL-Library.Char_ord" begin

text \<open>
  Shared vocabulary of the development: commands that thread a state and may fail, a small
  Hoare logic for them, and the part of Rust's string library the program uses, on strings that
  are lists of UTF-8 bytes (HOL's \<^typ>\<open>char\<close> is a byte, so slices, comparisons, \<^verbatim>\<open>len\<close>
  and searches for ASCII characters are those of Rust's \<^verbatim>\<open>str\<close>).
\<close>

section \<open>Hint collections\<close>

named_theorems cmd_defs "definitions of the command combinators"
named_theorems hoare_rules "rules of the Hoare logic for commands"
named_theorems str_simps "unconditional rewrite rules of the string operations"

section \<open>Results and commands\<close>

text \<open>A fallible pure function returns \<open>'e + 'a\<close>, \<^term>\<open>Inl\<close> for \<^verbatim>\<open>Err\<close>. A command threads a state.\<close>

type_synonym ('s, 'e, 'a) cmd = "'s \<Rightarrow> ('e + 'a) \<times> 's"

definition bindR :: "'e + 'a \<Rightarrow> ('a \<Rightarrow> 'e + 'b) \<Rightarrow> 'e + 'b" where
  "bindR r f = (case r of Inl e \<Rightarrow> Inl e | Inr a \<Rightarrow> f a)"

lemma bindR_simps [simp]: "bindR (Inl e) f = Inl e" "bindR (Inr a) f = f a"
  by (simp_all add: bindR_def)

lemma bindR_eq_Inr: "bindR r f = Inr b \<longleftrightarrow> (\<exists>a. r = Inr a \<and> f a = Inr b)"
  by (cases r) auto

definition map_errR :: "('e \<Rightarrow> 'f) \<Rightarrow> 'e + 'a \<Rightarrow> 'f + 'a" where
  "map_errR g r = (case r of Inl e \<Rightarrow> Inl (g e) | Inr a \<Rightarrow> Inr a)"

lemma map_errR_simps [simp]: "map_errR g (Inl e) = Inl (g e)" "map_errR g (Inr a) = Inr a"
  by (simp_all add: map_errR_def)

definition ret :: "'a \<Rightarrow> ('s, 'e, 'a) cmd" where [cmd_defs]: "ret a = (\<lambda>s. (Inr a, s))"
definition throw :: "'e \<Rightarrow> ('s, 'e, 'a) cmd" where [cmd_defs]: "throw e = (\<lambda>s. (Inl e, s))"
definition lift :: "'e + 'a \<Rightarrow> ('s, 'e, 'a) cmd" where [cmd_defs]: "lift r = (\<lambda>s. (r, s))"
definition gets :: "('s \<Rightarrow> 'a) \<Rightarrow> ('s, 'e, 'a) cmd" where [cmd_defs]: "gets f = (\<lambda>s. (Inr (f s), s))"
definition modify :: "('s \<Rightarrow> 's) \<Rightarrow> ('s, 'e, unit) cmd" where [cmd_defs]: "modify f = (\<lambda>s. (Inr (), f s))"

definition bindE :: "('s, 'e, 'a) cmd \<Rightarrow> ('a \<Rightarrow> ('s, 'e, 'b) cmd) \<Rightarrow> ('s, 'e, 'b) cmd" where
  [cmd_defs]: "bindE m f = (\<lambda>s. case m s of (Inl e, s') \<Rightarrow> (Inl e, s') | (Inr a, s') \<Rightarrow> f a s')"

text \<open>\<^verbatim>\<open>map_err\<close> on the result of a call, and \<^verbatim>\<open>match call \<open>{\<close> Ok(..) => .., Err(..) => .. \<open>}\<close>\<close>.\<close>

definition map_errE :: "('e \<Rightarrow> 'f) \<Rightarrow> ('s, 'e, 'a) cmd \<Rightarrow> ('s, 'f, 'a) cmd" where
  [cmd_defs]: "map_errE g m = (\<lambda>s. case m s of (r, s') \<Rightarrow> (map_errR g r, s'))"

definition matchE :: "('s, 'e, 'a) cmd \<Rightarrow> ('e + 'a \<Rightarrow> ('s, 'f, 'b) cmd) \<Rightarrow> ('s, 'f, 'b) cmd" where
  [cmd_defs]: "matchE m k = (\<lambda>s. case m s of (r, s') \<Rightarrow> k r s')"

definition guardE :: "bool \<Rightarrow> 'e \<Rightarrow> ('s, 'e, unit) cmd" where
  [cmd_defs]: "guardE b e = (if b then ret () else throw e)"

fun forE :: "'x list \<Rightarrow> ('x \<Rightarrow> ('s, 'e, unit) cmd) \<Rightarrow> ('s, 'e, unit) cmd" where
  "forE [] f = ret ()"
| "forE (x # xs) f = bindE (f x) (\<lambda>_. forE xs f)"

fun foldE :: "('x \<Rightarrow> 'a \<Rightarrow> ('s, 'e, 'a) cmd) \<Rightarrow> 'x list \<Rightarrow> 'a \<Rightarrow> ('s, 'e, 'a) cmd" where
  "foldE f [] a = ret a"
| "foldE f (x # xs) a = bindE (f x a) (foldE f xs)"

fun forR :: "'x list \<Rightarrow> ('x \<Rightarrow> 'e + unit) \<Rightarrow> 'e + unit" where
  "forR [] f = Inr ()"
| "forR (x # xs) f = bindR (f x) (\<lambda>_. forR xs f)"

lemma forR_ok: "forR xs f = Inr () \<longleftrightarrow> (\<forall>x\<in>set xs. f x = Inr ())"
  by (induction xs) (auto simp: bindR_eq_Inr)

lemma bindE_ret [simp]: "bindE (ret a) f = f a"
  by (simp add: cmd_defs)

lemma bindE_throw [simp]: "bindE (throw e) f = throw e"
  by (simp add: cmd_defs)

lemma bindE_assoc: "bindE (bindE m f) g = bindE m (\<lambda>a. bindE (f a) g)"
  by (auto simp: cmd_defs fun_eq_iff split: prod.splits sum.splits)

lemma bindE_Inr: "bindE m f s = (Inr b, t) \<longleftrightarrow> (\<exists>a s'. m s = (Inr a, s') \<and> f a s' = (Inr b, t))"
  by (auto simp: bindE_def split: prod.splits sum.splits)

section \<open>A Hoare logic for commands\<close>

text \<open>
  \<open>valid P m Q E\<close>: from a state in \<open>P\<close>, the command ends in \<open>Q a s'\<close> when it returns \<open>a\<close> and
  in \<open>E e s'\<close> when it fails with \<open>e\<close>. Commands are total functions, so this is total correctness.
\<close>

definition valid :: "('s \<Rightarrow> bool) \<Rightarrow> ('s, 'e, 'a) cmd \<Rightarrow> ('a \<Rightarrow> 's \<Rightarrow> bool) \<Rightarrow> ('e \<Rightarrow> 's \<Rightarrow> bool) \<Rightarrow> bool" where
  "valid P m Q E \<longleftrightarrow>
     (\<forall>s. P s \<longrightarrow> (case m s of (Inr a, s') \<Rightarrow> Q a s' | (Inl e, s') \<Rightarrow> E e s'))"

lemma validI:
  "(\<And>s a s'. P s \<Longrightarrow> m s = (Inr a, s') \<Longrightarrow> Q a s')
   \<Longrightarrow> (\<And>s e s'. P s \<Longrightarrow> m s = (Inl e, s') \<Longrightarrow> E e s') \<Longrightarrow> valid P m Q E"
  by (auto simp: valid_def split: prod.splits sum.splits)

lemma valid_InrD: "valid P m Q E \<Longrightarrow> P s \<Longrightarrow> m s = (Inr a, s') \<Longrightarrow> Q a s'"
  by (auto simp: valid_def split: prod.splits sum.splits)

lemma valid_InlD: "valid P m Q E \<Longrightarrow> P s \<Longrightarrow> m s = (Inl e, s') \<Longrightarrow> E e s'"
  by (auto simp: valid_def split: prod.splits sum.splits)

lemma valid_pre: "valid P m Q E \<Longrightarrow> (\<And>s. P' s \<Longrightarrow> P s) \<Longrightarrow> valid P' m Q E"
  by (auto simp: valid_def)

lemma valid_post:
  "valid P m Q E \<Longrightarrow> (\<And>a s. Q a s \<Longrightarrow> Q' a s) \<Longrightarrow> (\<And>e s. E e s \<Longrightarrow> E' e s) \<Longrightarrow> valid P m Q' E'"
  by (fastforce simp: valid_def split: prod.splits sum.splits)

lemma valid_ret [hoare_rules]: "(\<And>s. P s \<Longrightarrow> Q a s) \<Longrightarrow> valid P (ret a) Q E"
  by (simp add: valid_def ret_def)

lemma valid_throw [hoare_rules]: "(\<And>s. P s \<Longrightarrow> E e s) \<Longrightarrow> valid P (throw e) Q E"
  by (simp add: valid_def throw_def)

lemma valid_bind:
  "valid P m R E \<Longrightarrow> (\<And>a. valid (R a) (f a) Q E) \<Longrightarrow> valid P (bindE m f) Q E"
  by (fastforce simp: valid_def bindE_def split: prod.splits sum.splits)

lemma valid_if [hoare_rules]:
  "(b \<Longrightarrow> valid P m Q E) \<Longrightarrow> (\<not> b \<Longrightarrow> valid P n Q E) \<Longrightarrow> valid P (if b then m else n) Q E"
  by simp

lemma valid_guard [hoare_rules]:
  "(\<And>s. P s \<Longrightarrow> b \<Longrightarrow> Q () s) \<Longrightarrow> (\<And>s. P s \<Longrightarrow> \<not> b \<Longrightarrow> E e s) \<Longrightarrow> valid P (guardE b e) Q E"
  by (auto simp: valid_def cmd_defs)

lemma valid_lift [hoare_rules]:
  "(\<And>s a. P s \<Longrightarrow> r = Inr a \<Longrightarrow> Q a s) \<Longrightarrow> (\<And>s e. P s \<Longrightarrow> r = Inl e \<Longrightarrow> E e s) \<Longrightarrow> valid P (lift r) Q E"
  by (auto simp: valid_def lift_def split: sum.splits)

lemma valid_map_err: "valid P m Q (\<lambda>e. E (g e)) \<Longrightarrow> valid P (map_errE g m) Q E"
  unfolding valid_def map_errE_def
  by (erule all_forward, erule imp_forward, assumption) (auto split: prod.splits sum.splits)

lemma valid_match:
  assumes "valid P m (\<lambda>a. R (Inr a)) (\<lambda>e. R (Inl e))" "\<And>r. valid (R r) (k r) Q E"
  shows "valid P (matchE m k) Q E"
  unfolding valid_def
proof (intro allI impI)
  fix s assume "P s"
  obtain r s' where m: "m s = (r, s')" by (cases "m s")
  have "R r s'" using assms(1) \<open>P s\<close> m by (cases r) (auto simp: valid_def)
  then show "case matchE m k s of (Inl e, s') \<Rightarrow> E e s' | (Inr a, s') \<Rightarrow> Q a s'"
    using assms(2) [of r] m by (auto simp: valid_def matchE_def)
qed

lemma valid_forE:
  "(\<And>x. x \<in> set xs \<Longrightarrow> valid I (f x) (\<lambda>_. I) E) \<Longrightarrow> valid I (forE xs f) (\<lambda>_. I) E"
proof (induction xs)
  case (Cons x xs)
  then show ?case by (auto intro!: valid_bind)
qed (auto intro: hoare_rules)

lemma valid_foldE:
  "(\<And>x a. x \<in> set xs \<Longrightarrow> valid (I a) (f x a) I E) \<Longrightarrow> valid (I a) (foldE f xs a) I E"
proof (induction xs arbitrary: a)
  case (Cons x xs)
  then show ?case by (auto intro!: valid_bind)
qed (auto intro: hoare_rules)

end
