(* ===== verification/Strings.thy ===== *)
theory Strings imports Prelude begin

text \<open>
  The part of Rust's \<^verbatim>\<open>str\<close> API that the program calls, on strings as lists of UTF-8 bytes:
  splitting and searching for an ASCII character, prefix stripping, replacement, trimming of
  Unicode white space, ASCII case folding and decimal numbers. Each is executable; the lemmas are
  the facts about them that the components share.
\<close>

abbreviation nl :: string where "nl \<equiv> [CHR 0x0A]"
abbreviation slash :: char where "slash \<equiv> CHR 0x2F"

definition byte :: "char \<Rightarrow> nat" where "byte c = of_char c"

section \<open>Splitting\<close>

text \<open>\<^verbatim>\<open>s.split(c)\<close>: never empty, one more segment than separators.\<close>

fun split_on :: "char \<Rightarrow> string \<Rightarrow> string list" where
  "split_on c [] = [[]]"
| "split_on c (x # xs) =
     (if x = c then [] # split_on c xs
      else (case split_on c xs of [] \<Rightarrow> [[x]] | s # ss \<Rightarrow> (x # s) # ss))"

fun join :: "string \<Rightarrow> string list \<Rightarrow> string" where
  "join sep [] = []"
| "join sep [s] = s"
| "join sep (s # ss) = s @ sep @ join sep ss"

text \<open>\<^verbatim>\<open>s.rsplit(c).next()\<close>: the last segment. \<^verbatim>\<open>s.split_once(c)\<close>, \<^verbatim>\<open>s.rsplit_once(c)\<close>.\<close>

definition last_seg :: "char \<Rightarrow> string \<Rightarrow> string" where
  "last_seg c s = last (split_on c s)"

fun split_once :: "char \<Rightarrow> string \<Rightarrow> (string \<times> string) option" where
  "split_once c [] = None"
| "split_once c (x # xs) =
     (if x = c then Some ([], xs)
      else case split_once c xs of None \<Rightarrow> None | Some (a, b) \<Rightarrow> Some (x # a, b))"

definition rsplit_once :: "char \<Rightarrow> string \<Rightarrow> (string \<times> string) option" where
  "rsplit_once c s = (case split_once c (rev s) of None \<Rightarrow> None | Some (a, b) \<Rightarrow> Some (rev b, rev a))"

text \<open>\<^verbatim>\<open>s.rfind(c)\<close>: the index of the last occurrence.\<close>

definition rfind :: "char \<Rightarrow> string \<Rightarrow> nat option" where
  "rfind c s = (case rsplit_once c s of None \<Rightarrow> None | Some (a, b) \<Rightarrow> Some (length a))"

fun strip_prefix :: "string \<Rightarrow> string \<Rightarrow> string option" where
  "strip_prefix [] s = Some s"
| "strip_prefix (p # ps) [] = None"
| "strip_prefix (p # ps) (x # xs) = (if p = x then strip_prefix ps xs else None)"

definition starts_with :: "string \<Rightarrow> string \<Rightarrow> bool" where
  "starts_with p s = (strip_prefix p s \<noteq> None)"

definition ends_with :: "string \<Rightarrow> string \<Rightarrow> bool" where
  "ends_with p s = starts_with (rev p) (rev s)"

fun contains_sub :: "string \<Rightarrow> string \<Rightarrow> bool" where
  "contains_sub p [] = (p = [])"
| "contains_sub p (x # xs) = (starts_with p (x # xs) \<or> contains_sub p xs)"

text \<open>\<^verbatim>\<open>s.replace(c, r)\<close> for a character \<^verbatim>\<open>c\<close>.\<close>

definition replace_char :: "char \<Rightarrow> string \<Rightarrow> string \<Rightarrow> string" where
  "replace_char c r s = concat (map (\<lambda>x. if x = c then r else [x]) s)"

section \<open>Trimming and case\<close>

text \<open>The UTF-8 encodings of the characters with the Unicode property \<^verbatim>\<open>White_Space\<close>.\<close>

definition ws_seqs :: "string list" where
  "ws_seqs = [[CHR 0x09], [CHR 0x0A], [CHR 0x0B], [CHR 0x0C], [CHR 0x0D], [CHR 0x20],
     [CHR 0xC2, CHR 0x85], [CHR 0xC2, CHR 0xA0], [CHR 0xE1, CHR 0x9A, CHR 0x80],
     [CHR 0xE2, CHR 0x80, CHR 0x80], [CHR 0xE2, CHR 0x80, CHR 0x81], [CHR 0xE2, CHR 0x80, CHR 0x82],
     [CHR 0xE2, CHR 0x80, CHR 0x83], [CHR 0xE2, CHR 0x80, CHR 0x84], [CHR 0xE2, CHR 0x80, CHR 0x85],
     [CHR 0xE2, CHR 0x80, CHR 0x86], [CHR 0xE2, CHR 0x80, CHR 0x87], [CHR 0xE2, CHR 0x80, CHR 0x88],
     [CHR 0xE2, CHR 0x80, CHR 0x89], [CHR 0xE2, CHR 0x80, CHR 0x8A], [CHR 0xE2, CHR 0x80, CHR 0xA8],
     [CHR 0xE2, CHR 0x80, CHR 0xA9], [CHR 0xE2, CHR 0x80, CHR 0xAF], [CHR 0xE2, CHR 0x81, CHR 0x9F],
     [CHR 0xE3, CHR 0x80, CHR 0x80]]"

fun strip_any :: "string list \<Rightarrow> string \<Rightarrow> string option" where
  "strip_any [] s = None"
| "strip_any (p # ps) s =
     (case strip_prefix p s of Some r \<Rightarrow> (if p = [] then strip_any ps s else Some r)
      | None \<Rightarrow> strip_any ps s)"

lemma strip_prefix_Some: "strip_prefix p s = Some r \<longleftrightarrow> s = p @ r"
  by (induction p s rule: strip_prefix.induct) auto

lemma strip_prefix_append [simp]: "strip_prefix p (p @ r) = Some r"
  by (simp add: strip_prefix_Some)

lemma strip_any_Some: "strip_any ps s = Some r \<Longrightarrow> \<exists>p\<in>set ps. p \<noteq> [] \<and> s = p @ r"
  by (induction ps) (auto simp: strip_prefix_Some split: option.splits if_splits)

lemma strip_any_None: "strip_any ps s = None \<longleftrightarrow> (\<forall>p\<in>set ps. p \<noteq> [] \<longrightarrow> strip_prefix p s = None)"
  by (induction ps) (auto split: option.splits)

lemma strip_any_length: "strip_any ps s = Some r \<Longrightarrow> length r < length s"
  using strip_any_Some by fastforce

function drop_seqs :: "string list \<Rightarrow> string \<Rightarrow> string" where
  "drop_seqs ps s = (case strip_any ps s of None \<Rightarrow> s | Some r \<Rightarrow> drop_seqs ps r)"
  by auto
termination
  by (relation "measure (\<lambda>(ps, s). length s)") (auto dest: strip_any_length)

declare drop_seqs.simps [simp del]

definition trim_start :: "string \<Rightarrow> string" where
  "trim_start s = drop_seqs ws_seqs s"
definition trim_end :: "string \<Rightarrow> string" where
  "trim_end s = rev (drop_seqs (map rev ws_seqs) (rev s))"
definition trim :: "string \<Rightarrow> string" where
  "trim s = trim_end (trim_start s)"

definition in_range :: "char \<Rightarrow> char \<Rightarrow> char \<Rightarrow> bool" where
  "in_range lo hi c \<longleftrightarrow> lo \<le> c \<and> c \<le> hi"

definition ascii_alnum :: "char \<Rightarrow> bool" where
  "ascii_alnum c = list_ex (\<lambda>(lo, hi). in_range lo hi c)
     [(CHR ''0'', CHR ''9''), (CHR ''A'', CHR ''Z''), (CHR ''a'', CHR ''z'')]"

definition to_lower1 :: "char \<Rightarrow> char" where
  "to_lower1 c = (if CHR ''A'' \<le> c \<and> c \<le> CHR ''Z'' then char_of (byte c + 32) else c)"
definition to_ascii_lowercase :: "string \<Rightarrow> string" where
  "to_ascii_lowercase s = map to_lower1 s"

section \<open>Numbers\<close>

text \<open>\<^verbatim>\<open>format!("{n}")\<close> for an unsigned integer.\<close>

fun dec :: "nat \<Rightarrow> string" where
  "dec n = (if n < 10 then [char_of (48 + n)] else dec (n div 10) @ [char_of (48 + n mod 10)])"

declare dec.simps [simp del]

lemma dec_value: "foldl (\<lambda>a c. 10 * a + (byte c - 48)) 0 (dec n) = n"
proof (induction n rule: dec.induct)
  case (1 n)
  have digit: "byte (char_of (48 + m)) = 48 + m" if "m < 10" for m :: nat using that by (simp add: byte_def)
  show ?case
    by (subst dec.simps) (use 1 digit in simp)
qed

lemma dec_inj: "dec m = dec n \<Longrightarrow> m = n"
  by (metis dec_value)

lemma dec_digits: "c \<in> set (dec n) \<Longrightarrow> 48 \<le> byte c \<and> byte c < 58"
proof (induction n rule: dec.induct)
  case (1 n)
  have digit: "48 \<le> byte (char_of (48 + m)) \<and> byte (char_of (48 + m)) < 58" if "m < 10" for m :: nat
    using that by (simp add: byte_def)
  show ?case using 1 digit by (subst (asm) (2) dec.simps) (auto split: if_splits)
qed

section \<open>Lemmas: splitting\<close>

lemma split_on_not_Nil [simp]: "split_on c s \<noteq> []"
  by (induction s) (auto split: list.splits)

lemma split_on_no_sep [simp]: "c \<notin> set s \<Longrightarrow> split_on c s = [s]"
  by (induction s) auto

lemma split_on_append: "c \<notin> set a \<Longrightarrow> split_on c (a @ c # b) = a # split_on c b"
  by (induction a) auto

lemma split_on_segs: "g \<in> set (split_on c s) \<Longrightarrow> c \<notin> set g"
  by (induction s arbitrary: g) (auto split: list.splits if_splits)

lemma split_on_set: "g \<in> set (split_on c s) \<Longrightarrow> set g \<subseteq> set s"
  by (induction s arbitrary: g) (fastforce split: list.splits if_splits)+

lemma join_Cons: "ss \<noteq> [] \<Longrightarrow> join sep (s # ss) = s @ sep @ join sep ss"
  by (cases ss) auto

lemma join_split_on [simp]: "join [c] (split_on c s) = s"
proof (induction s)
  case (Cons x xs)
  then show ?case
    by (cases "split_on c xs"; cases "tl (split_on c xs)") (auto simp: join_Cons)
qed simp

lemma split_on_join: "ss \<noteq> [] \<Longrightarrow> \<forall>s\<in>set ss. c \<notin> set s \<Longrightarrow> split_on c (join [c] ss) = ss"
proof (induction ss)
  case (Cons s ss)
  then show ?case by (cases "ss = []") (auto simp: join_Cons split_on_append)
qed simp

lemma split_on_lines:
  "\<forall>l\<in>set ls. c \<notin> set l \<Longrightarrow> split_on c (concat (map (\<lambda>l. l @ [c]) ls)) = ls @ [[]]"
  by (induction ls) (auto simp: split_on_append)

lemma split_on_length: "c \<in> set s \<Longrightarrow> 2 \<le> length (split_on c s)"
proof (induction s)
  case (Cons x xs)
  then show ?case by (cases "split_on c xs") (auto simp: Suc_le_eq)
qed simp

lemma split_once_Some: "split_once c s = Some (a, b) \<longleftrightarrow> s = a @ c # b \<and> c \<notin> set a"
proof (induction s arbitrary: a)
  case (Cons x xs)
  show ?case using Cons.IH [of "tl a"] by (cases a) (auto split: option.splits)
qed simp

lemma cut_eq: "(c :: char) \<notin> set a \<Longrightarrow> c \<notin> set b \<Longrightarrow> a @ c # s = b @ c # t \<Longrightarrow> a = b \<and> s = t"
  using split_once_Some [of c "a @ c # s"] by (metis option.inject prod.inject)

lemma rcut_eq: "(c :: char) \<notin> set s \<Longrightarrow> c \<notin> set t \<Longrightarrow> a @ c # s = b @ c # t \<Longrightarrow> a = b \<and> s = t"
  using cut_eq [of c "rev s" "rev t" "rev a" "rev b"] by (metis append_Cons append_Nil append_assoc rev.simps(2) rev_append rev_rev_ident set_rev)

lemma split_once_None: "split_once c s = None \<longleftrightarrow> c \<notin> set s"
  by (induction s) (auto split: option.splits)

lemma rsplit_once_Some: "rsplit_once c s = Some (a, b) \<longleftrightarrow> s = a @ c # b \<and> c \<notin> set b"
proof -
  have "rsplit_once c s = Some (a, b) \<longleftrightarrow> split_once c (rev s) = Some (rev b, rev a)"
    by (auto simp: rsplit_once_def split: option.splits)
  also have "\<dots> \<longleftrightarrow> rev s = rev (a @ c # b) \<and> c \<notin> set b"
    by (simp add: split_once_Some)
  finally show ?thesis by (simp only: rev_is_rev_conv)
qed

lemma rsplit_once_None: "rsplit_once c s = None \<longleftrightarrow> c \<notin> set s"
  using split_once_None [of c "rev s"] by (auto simp: rsplit_once_def split: option.splits)

lemma rfind_Some: "rfind c s = Some n \<Longrightarrow> n < length s \<and> s ! n = c \<and> c \<notin> set (drop (Suc n) s)"
  by (auto simp: rfind_def rsplit_once_Some split: option.splits)

lemma starts_with_iff: "starts_with p s \<longleftrightarrow> (\<exists>r. s = p @ r)"
  by (auto simp: starts_with_def strip_prefix_Some)

lemma ends_with_iff: "ends_with p s \<longleftrightarrow> (\<exists>r. s = r @ p)"
  unfolding ends_with_def starts_with_iff by (metis rev_append rev_rev_ident)

lemma replace_char_Nil [simp]: "replace_char c r [] = []"
  and replace_char_Cons [simp]: "replace_char c r (x # xs) = (if x = c then r else [x]) @ replace_char c r xs"
  by (simp_all add: replace_char_def)

lemma replace_char_append [simp]: "replace_char c r (a @ b) = replace_char c r a @ replace_char c r b"
  by (simp add: replace_char_def)

lemma replace_char_id: "c \<notin> set s \<Longrightarrow> replace_char c r s = s"
  by (induction s) auto

section \<open>Lemmas: trimming\<close>

lemma drop_seqs_fix: "strip_any ps (drop_seqs ps s) = None"
  by (induction ps s rule: drop_seqs.induct) (subst drop_seqs.simps, auto split: option.splits)

lemma drop_seqs_None: "strip_any ps s = None \<Longrightarrow> drop_seqs ps s = s"
  by (subst drop_seqs.simps) simp

lemma drop_seqs_suffix: "\<exists>p. s = p @ drop_seqs ps s"
proof (induction ps s rule: drop_seqs.induct)
  case (1 ps s)
  show ?case
  proof (cases "strip_any ps s")
    case (Some r)
    with 1 obtain q where "r = q @ drop_seqs ps r" by blast
    moreover obtain p where "s = p @ r" using strip_any_Some [OF Some] by blast
    ultimately show ?thesis using Some by (subst drop_seqs.simps) (metis append_assoc option.simps(5))
  qed (simp add: drop_seqs_None)
qed

lemma trim_start_suffix: "\<exists>p. s = p @ trim_start s"
  unfolding trim_start_def by (rule drop_seqs_suffix)

lemma trim_end_prefix: "\<exists>p. s = trim_end s @ p"
  unfolding trim_end_def using drop_seqs_suffix [of "rev s" "map rev ws_seqs"]
  by (metis rev_append rev_rev_ident)

lemma trim_infix: "\<exists>p q. s = p @ trim s @ q"
  unfolding trim_def using trim_start_suffix trim_end_prefix by metis

lemma strip_any_prefix_None: "strip_any ps (s @ t) = None \<Longrightarrow> strip_any ps s = None"
  by (auto simp: strip_any_None) (metis append_assoc not_Some_eq strip_prefix_Some)

lemma trim_idem [simp]: "trim (trim s) = trim s"
proof -
  have e: "trim_end (trim_end t) = trim_end t" for t
    by (simp add: trim_end_def drop_seqs_None drop_seqs_fix)
  obtain q where q: "trim_start s = trim_end (trim_start s) @ q" using trim_end_prefix by blast
  have "strip_any ws_seqs (trim_start s) = None" by (simp add: trim_start_def drop_seqs_fix)
  then have "strip_any ws_seqs (trim_end (trim_start s)) = None" using q strip_any_prefix_None by metis
  then have "trim_start (trim s) = trim s" by (simp add: trim_def trim_start_def drop_seqs_None)
  then show ?thesis by (simp add: trim_def e)
qed

lemma trim_set: "set (trim s) \<subseteq> set s"
  by (metis trim_infix set_append Un_iff subsetI)

lemma trim_Nil [simp]: "trim [] = []"
  using trim_infix [of "[]"] by simp

lemma to_ascii_lowercase_simps [simp]:
  "to_ascii_lowercase [] = []" "to_ascii_lowercase (c # s) = to_lower1 c # to_ascii_lowercase s"
  "length (to_ascii_lowercase s) = length s"
  by (simp_all add: to_ascii_lowercase_def)

end
