(* ===== verification/Meta.thy ===== *)
theory Meta imports Strings begin

text \<open>
  \<^verbatim>\<open>src/backend/src/meta.rs\<close>: the \<^verbatim>\<open>rawdb-meta.toml\<close> schema, its validation, the path accessors and
  the canonical serializer \<^verbatim>\<open>to_toml\<close>. The TOML and RFC 3339 libraries are the fields of
  \<^verbatim>\<open>meta_ext\<close>; every function that reaches them takes that record. The lemmas characterise
  what \<^verbatim>\<open>validate\<close> accepts and what the accessors return on accepted paths.
\<close>

type_synonym datetime = nat \<comment> \<open>nanoseconds since the earliest instant of \<^verbatim>\<open>chrono\<close>\<close>

record file_meta =
  fm_path :: string
  fm_sha256 :: "string option"
  fm_license :: "string option"
  fm_notes :: "string option"
  fm_tags :: "string list"

record set_meta =
  sm_maker :: string
  sm_model :: string
  sm_license :: string
  sm_uploaded_by :: "string option"
  sm_uploaded_at :: "datetime option"
  sm_notes :: "string option"
  sm_special :: bool
  sm_approved_at :: "datetime option"
  sm_approved_by :: "string option"
  sm_approved_initial_at :: "datetime option"
  sm_approved_initial_by :: "string option"

record rawdb_meta =
  rm_set :: set_meta
  rm_files :: "file_meta list"

datatype meta_error =
    ParseError
  | EmptyMaker
  | EmptyModel
  | BadPath string string
  | DuplicatePath string

text \<open>\<^verbatim>\<open>DateTime::to_rfc3339\<close>, \<^verbatim>\<open>DateTime::parse_from_rfc3339\<close> and \<^verbatim>\<open>toml::from_str::<RawdbMeta>\<close>.\<close>

record meta_ext =
  to_rfc3339 :: "datetime \<Rightarrow> string"
  from_rfc3339 :: "string \<Rightarrow> datetime option"
  toml_meta :: "string \<Rightarrow> rawdb_meta option"

definition DEFAULT_LICENSE :: string where "DEFAULT_LICENSE = ''CC0 1.0''"

section \<open>Path accessors\<close>

definition category :: "file_meta \<Rightarrow> string" where
  "category f = hd (split_on slash (fm_path f))"

definition file_name :: "file_meta \<Rightarrow> string" where
  "file_name f = last_seg slash (fm_path f)"

definition extension :: "file_meta \<Rightarrow> string option" where
  "extension f = (let name = file_name f in
     case rfind (CHR ''.'') name of
       None \<Rightarrow> None
     | Some dot \<Rightarrow>
         if dot + 1 \<ge> length name then None
         else Some (to_ascii_lowercase (drop (dot + 1) name)))"

section \<open>Validation\<close>

definition validate_path :: "string \<Rightarrow> meta_error + unit" where
  "validate_path path =
     (if path = [] then Inl (BadPath path ''empty'')
      else if starts_with ''/'' path then Inl (BadPath path ''must be relative'')
      else if slash \<notin> set path
      then Inl (BadPath path ''must include a category folder before the file name'')
      else if list_ex (\<lambda>seg. seg = ''.'' \<or> seg = ''..'' \<or> seg = []) (split_on slash path)
      then Inl (BadPath path ''contains invalid segment'')
      else Inr ())"

fun validate_files :: "string set \<Rightarrow> file_meta list \<Rightarrow> meta_error + unit" where
  "validate_files seen [] = Inr ()"
| "validate_files seen (f # fs) =
     bindR (validate_path (fm_path f)) (\<lambda>_.
       if fm_path f \<in> seen then Inl (DuplicatePath (fm_path f))
       else validate_files (insert (fm_path f) seen) fs)"

definition validate :: "rawdb_meta \<Rightarrow> meta_error + unit" where
  "validate m =
     (if trim (sm_maker (rm_set m)) = [] then Inl EmptyMaker
      else if trim (sm_model (rm_set m)) = [] then Inl EmptyModel
      else validate_files {} (rm_files m))"

definition parse :: "'z meta_ext_scheme \<Rightarrow> string \<Rightarrow> meta_error + rawdb_meta" where
  "parse x input = (case toml_meta x input of
       None \<Rightarrow> Inl ParseError
     | Some m \<Rightarrow> bindR (validate m) (\<lambda>_. Inr m))"

section \<open>Serialization\<close>

definition q :: "string \<Rightarrow> string" where
  "q s = (let e = replace_char (CHR 0x09) (CHR 0x5C # ''t'')
                   (replace_char (CHR 0x0A) (CHR 0x5C # ''n'')
                     (replace_char (CHR 0x22) [CHR 0x5C, CHR 0x22]
                       (replace_char (CHR 0x5C) [CHR 0x5C, CHR 0x5C] s)))
          in CHR 0x22 # e @ [CHR 0x22])"

definition arr :: "string list \<Rightarrow> string" where
  "arr items = ''['' @ join '', '' (map q items) @ '']''"

definition str_line :: "string \<Rightarrow> string \<Rightarrow> string" where
  "str_line key v = key @ '' = '' @ q v @ nl"

definition opt_line :: "string \<Rightarrow> string option \<Rightarrow> string" where
  "opt_line key v = (case v of
       Some s \<Rightarrow> if s = [] then [] else str_line key s
     | None \<Rightarrow> [])"

definition time_line :: "'z meta_ext_scheme \<Rightarrow> string \<Rightarrow> datetime option \<Rightarrow> string" where
  "time_line x key v = (case v of Some t \<Rightarrow> str_line key (to_rfc3339 x t) | None \<Rightarrow> [])"

definition set_toml :: "'z meta_ext_scheme \<Rightarrow> set_meta \<Rightarrow> string" where
  "set_toml x s =
     ''[set]'' @ nl
     @ str_line ''maker'' (sm_maker s)
     @ str_line ''model'' (sm_model s)
     @ str_line ''license'' (sm_license s)
     @ opt_line ''uploaded_by'' (sm_uploaded_by s)
     @ time_line x ''uploaded_at'' (sm_uploaded_at s)
     @ time_line x ''approved_at'' (sm_approved_at s)
     @ opt_line ''approved_by'' (sm_approved_by s)
     @ time_line x ''approved_initial_at'' (sm_approved_initial_at s)
     @ opt_line ''approved_initial_by'' (sm_approved_initial_by s)
     @ opt_line ''notes'' (sm_notes s)
     @ (if sm_special s then ''special = true'' @ nl else [])"

definition file_toml :: "file_meta \<Rightarrow> string" where
  "file_toml f =
     nl @ ''[[files]]'' @ nl
     @ str_line ''path'' (fm_path f)
     @ opt_line ''sha256'' (fm_sha256 f)
     @ opt_line ''license'' (fm_license f)
     @ (if fm_tags f = [] then [] else ''tags = '' @ arr (fm_tags f) @ nl)
     @ opt_line ''notes'' (fm_notes f)"

definition to_toml :: "'z meta_ext_scheme \<Rightarrow> rawdb_meta \<Rightarrow> string" where
  "to_toml x m = set_toml x (rm_set m) @ concat (map file_toml (rm_files m))"

section \<open>What validation accepts\<close>

text \<open>The contract of a file path: at least two non-empty segments, none of them \<^verbatim>\<open>.\<close> or \<^verbatim>\<open>..\<close>.\<close>

definition path_segs :: "string list \<Rightarrow> bool" where
  "path_segs ss \<longleftrightarrow> 2 \<le> length ss \<and>
     (\<forall>s\<in>set ss. s \<noteq> [] \<and> s \<noteq> ''.'' \<and> s \<noteq> ''..'' \<and> slash \<notin> set s)"

lemma validate_path_Inr: "validate_path p = Inr () \<longleftrightarrow> path_segs (split_on slash p)"
proof
  assume "validate_path p = Inr ()"
  then show "path_segs (split_on slash p)"
    by (auto simp: validate_path_def path_segs_def list_ex_iff split_on_segs split_on_length
        split: if_splits)
next
  assume a: "path_segs (split_on slash p)"
  then have m: "slash \<in> set p" using split_on_no_sep [of slash p] by (fastforce simp: path_segs_def)
  have "hd (split_on slash p) \<noteq> []" using a unfolding path_segs_def by (metis list.set_sel(1) split_on_not_Nil)
  then have "\<not> starts_with ''/'' p" by (auto simp: starts_with_iff)
  moreover have "\<not> list_ex (\<lambda>seg. seg = ''.'' \<or> seg = ''..'' \<or> seg = []) (split_on slash p)"
    unfolding list_ex_iff using a unfolding path_segs_def by blast
  moreover have "p \<noteq> []" using m by auto
  ultimately show "validate_path p = Inr ()" using m by (simp only: validate_path_def if_False not_True_eq_False simp_thms)
qed

lemma validate_files_ok:
  "validate_files seen fs = Inr () \<longleftrightarrow>
     (\<forall>f\<in>set fs. validate_path (fm_path f) = Inr ()) \<and> distinct (map fm_path fs)
     \<and> seen \<inter> fm_path ` set fs = {}"
  by (induction fs arbitrary: seen) (auto simp: bindR_eq_Inr)

lemma validate_Inr:
  "validate m = Inr () \<longleftrightarrow>
     trim (sm_maker (rm_set m)) \<noteq> [] \<and> trim (sm_model (rm_set m)) \<noteq> []
     \<and> (\<forall>f\<in>set (rm_files m). path_segs (split_on slash (fm_path f)))
     \<and> distinct (map fm_path (rm_files m))"
  by (auto simp: validate_def validate_files_ok validate_path_Inr)

lemma parse_validated: "parse x t = Inr m \<Longrightarrow> validate m = Inr ()"
  by (auto simp: parse_def bindR_eq_Inr split: option.splits)

lemma parse_Inr: "parse x t = Inr m \<longleftrightarrow> toml_meta x t = Some m \<and> validate m = Inr ()"
  by (auto simp: parse_def bindR_eq_Inr split: option.splits)

lemma extension_Some:
  assumes "extension f = Some e"
  obtains a b where "file_name f = a @ CHR ''.'' # b" "b \<noteq> []" "CHR ''.'' \<notin> set b" "e = to_ascii_lowercase b"
proof -
  from assms obtain a b where ab: "rsplit_once (CHR ''.'') (file_name f) = Some (a, b)"
    and e: "length a + 1 < length (file_name f)" "e = to_ascii_lowercase (drop (length a + 1) (file_name f))"
    by (auto simp: extension_def rfind_def Let_def split: option.splits if_splits)
  then have "file_name f = a @ CHR ''.'' # b" "CHR ''.'' \<notin> set b" by (auto simp: rsplit_once_Some)
  with e show ?thesis by (intro that) auto
qed

end
