(* ===== verification/Db.thy ===== *)
theory Db imports Meta begin

text \<open>
  \<^verbatim>\<open>src/backend/src/cache/db.rs\<close>: the per-pod SQLite cache. A table is the list of its rows in rowid
  order, with the columns of the schema (time stamps are the stored RFC 3339 texts); a write is
  the sequence of SQL statements of its transaction, with the primary and foreign keys of the
  schema checked on insert, cascading on delete, and a rollback when a statement fails; the
  change counters of the three domains are bumped after the commit. \<^verbatim>\<open>Utc::now()\<close> is an argument.
  The connection pools and the file system are not modelled: a connection is always available.
\<close>

section \<open>Schema\<close>

record sets_row =
  s_maker :: string
  s_model :: string
  s_license :: string
  s_notes :: "string option"
  s_uploaded_at :: "string option"
  s_uploaded_by :: "string option"
  s_meta_etag :: "string option"
  s_special :: bool
  s_last_indexed_at :: string
  s_approved_at :: "string option"
  s_approved_by :: "string option"
  s_approved_initial_at :: "string option"
  s_approved_initial_by :: "string option"

record files_row =
  f_maker :: string
  f_model :: string
  f_path :: string
  f_category :: string
  f_extension :: "string option"
  f_size :: int
  f_license :: "string option"
  f_notes :: "string option"
  f_etag :: "string option"
  f_sha256 :: "string option"

record tags_row =
  t_maker :: string
  t_model :: string
  t_file_path :: "string option"
  t_tag :: string

record fts_row =
  ft_maker :: string
  ft_model :: string
  ft_notes :: "string option"
  ft_tags :: string

record psets_row =
  p_maker :: string
  p_model :: string
  p_upload_id :: string
  p_license :: string
  p_notes :: "string option"
  p_uploaded_at :: "string option"
  p_uploaded_by :: "string option"
  p_meta_etag :: "string option"
  p_last_indexed_at :: string

record pfiles_row =
  pf_maker :: string
  pf_model :: string
  pf_upload_id :: string
  pf_path :: string
  pf_category :: string
  pf_extension :: "string option"
  pf_size :: int
  pf_license :: "string option"
  pf_notes :: "string option"
  pf_etag :: "string option"
  pf_sha256 :: "string option"

record users_row =
  u_sub :: string
  u_display_name :: "string option"
  u_blocked :: bool
  u_added_at :: "string option"
  u_added_by :: "string option"
  u_api_key_hash :: "string option"

datatype domain = Sets | Pending | Scan

text \<open>The tables, and the in-memory counters \<^verbatim>\<open>Generations\<close> (their 64-bit wrap-around is out of reach).\<close>

record db =
  sets :: "sets_row list"
  files :: "files_row list"
  tags :: "tags_row list"
  sets_fts :: "fts_row list"
  pending_sets :: "psets_row list"
  pending_files :: "pfiles_row list"
  users :: "users_row list"
  user_roles :: "(string \<times> string) list"
  users_etag :: "string option option"
  scan_state :: "string option option"
  gens :: "domain \<Rightarrow> nat"

datatype db_error = PrimaryKey | ForeignKey

definition empty_db :: db where
  "empty_db = \<lparr>sets = [], files = [], tags = [], sets_fts = [], pending_sets = [], pending_files = [],
     users = [], user_roles = [], users_etag = None, scan_state = None, gens = (\<lambda>_. 0)\<rparr>"

record size_info =
  si_size :: nat
  si_etag :: "string option"

text \<open>\<^verbatim>\<open>n as i64\<close> on a \<^verbatim>\<open>u64\<close>, and the way back \<^verbatim>\<open>i.max(0) as u64\<close>.\<close>

definition as_i64 :: "nat \<Rightarrow> int" where
  "as_i64 n = (let m = n mod 2 ^ 64 in if m < 2 ^ 63 then int m else int m - 2 ^ 64)"

definition u64_of :: "int \<Rightarrow> nat" where
  "u64_of i = nat (max i 0)"

section \<open>Change counters\<close>

definition stamp :: "domain list \<Rightarrow> db \<Rightarrow> nat" where
  "stamp domains d = sum_list (map (gens d) domains)"

definition bump :: "domain \<Rightarrow> db \<Rightarrow> db" where
  "bump k d = d \<lparr>gens := (gens d)(k := gens d k + 1)\<rparr>"

text \<open>A transaction: commit and bump, or roll back.\<close>

definition commit :: "domain option \<Rightarrow> (db \<Rightarrow> db_error + db) \<Rightarrow> (db, db_error, unit) cmd" where
  "commit touched tx = (\<lambda>d. case tx d of
       Inl e \<Rightarrow> (Inl e, d)
     | Inr d' \<Rightarrow> (Inr (), case touched of None \<Rightarrow> d' | Some k \<Rightarrow> bump k d'))"

section \<open>Approved sets\<close>

definition of_set :: "string \<Rightarrow> string \<Rightarrow> sets_row \<Rightarrow> bool" where
  "of_set mk md r \<longleftrightarrow> s_maker r = mk \<and> s_model r = md"
definition file_of :: "string \<Rightarrow> string \<Rightarrow> files_row \<Rightarrow> bool" where
  "file_of mk md r \<longleftrightarrow> f_maker r = mk \<and> f_model r = md"
definition tag_of :: "string \<Rightarrow> string \<Rightarrow> tags_row \<Rightarrow> bool" where
  "tag_of mk md r \<longleftrightarrow> t_maker r = mk \<and> t_model r = md"
definition fts_of :: "string \<Rightarrow> string \<Rightarrow> fts_row \<Rightarrow> bool" where
  "fts_of mk md r \<longleftrightarrow> ft_maker r = mk \<and> ft_model r = md"

definition set_table_row :: "'z meta_ext_scheme \<Rightarrow> datetime \<Rightarrow> rawdb_meta \<Rightarrow> string option \<Rightarrow> sets_row" where
  "set_table_row x now m etag = (let s = rm_set m in
     \<lparr>s_maker = sm_maker s, s_model = sm_model s, s_license = sm_license s, s_notes = sm_notes s,
      s_uploaded_at = map_option (to_rfc3339 x) (sm_uploaded_at s), s_uploaded_by = sm_uploaded_by s,
      s_meta_etag = etag, s_special = sm_special s, s_last_indexed_at = to_rfc3339 x now,
      s_approved_at = map_option (to_rfc3339 x) (sm_approved_at s), s_approved_by = sm_approved_by s,
      s_approved_initial_at = map_option (to_rfc3339 x) (sm_approved_initial_at s),
      s_approved_initial_by = sm_approved_initial_by s\<rparr>)"

text \<open>\<^verbatim>\<open>INSERT .. ON CONFLICT(maker, model) DO UPDATE\<close>: every other column comes from the new row.\<close>

definition upsert_row :: "sets_row \<Rightarrow> sets_row list \<Rightarrow> sets_row list" where
  "upsert_row r rows =
     (if list_ex (of_set (s_maker r) (s_model r)) rows
      then map (\<lambda>old. if of_set (s_maker r) (s_model r) old then r else old) rows
      else rows @ [r])"

definition file_table_row :: "string \<Rightarrow> string \<Rightarrow> file_meta \<Rightarrow> size_info \<Rightarrow> files_row" where
  "file_table_row mk md f si =
     \<lparr>f_maker = mk, f_model = md, f_path = fm_path f, f_category = category f, f_extension = extension f,
      f_size = as_i64 (si_size si), f_license = fm_license f, f_notes = fm_notes f,
      f_etag = si_etag si, f_sha256 = fm_sha256 f\<rparr>"

definition insert_file_row :: "files_row \<Rightarrow> db \<Rightarrow> db_error + db" where
  "insert_file_row r d =
     (if \<not> list_ex (of_set (f_maker r) (f_model r)) (sets d) then Inl ForeignKey
      else if list_ex (\<lambda>old. file_of (f_maker r) (f_model r) old \<and> f_path old = f_path r) (files d) then Inl PrimaryKey
      else Inr (d \<lparr>files := files d @ [r]\<rparr>))"

definition insert_tag_rows :: "string \<Rightarrow> string \<Rightarrow> file_meta \<Rightarrow> db \<Rightarrow> db" where
  "insert_tag_rows mk md f d = d \<lparr>tags := tags d @
     map (\<lambda>t. \<lparr>t_maker = mk, t_model = md, t_file_path = Some (fm_path f), t_tag = t\<rparr>) (fm_tags f)\<rparr>"

fun insert_set_files :: "string \<Rightarrow> string \<Rightarrow> (file_meta \<times> size_info) list \<Rightarrow> db \<Rightarrow> db_error + db" where
  "insert_set_files mk md [] d = Inr d"
| "insert_set_files mk md ((f, si) # fs) d =
     bindR (insert_file_row (file_table_row mk md f si) d)
       (\<lambda>d1. insert_set_files mk md fs (insert_tag_rows mk md f d1))"

definition upsert_set_tx ::
  "'z meta_ext_scheme \<Rightarrow> datetime \<Rightarrow> rawdb_meta \<Rightarrow> string option \<Rightarrow> (file_meta \<times> size_info) list
     \<Rightarrow> db \<Rightarrow> db_error + db" where
  "upsert_set_tx x now m etag fs d =
     (let mk = sm_maker (rm_set m); md = sm_model (rm_set m);
          d1 = d \<lparr>sets := upsert_row (set_table_row x now m etag) (sets d),
                  files := filter (Not \<circ> file_of mk md) (files d),
                  tags := filter (Not \<circ> tag_of mk md) (tags d)\<rparr>
      in bindR (insert_set_files mk md fs d1) (\<lambda>d2.
           Inr (d2 \<lparr>sets_fts := filter (Not \<circ> fts_of mk md) (sets_fts d2)
                      @ [\<lparr>ft_maker = mk, ft_model = md, ft_notes = sm_notes (rm_set m),
                         ft_tags = join '' '' (concat (map fm_tags (rm_files m)))\<rparr>]\<rparr>)))"

definition upsert_set ::
  "'z meta_ext_scheme \<Rightarrow> datetime \<Rightarrow> rawdb_meta \<Rightarrow> string option \<Rightarrow> (file_meta \<times> size_info) list
     \<Rightarrow> (db, db_error, unit) cmd" where
  "upsert_set x now m etag fs = commit (Some Sets) (upsert_set_tx x now m etag fs)"

text \<open>\<^verbatim>\<open>files\<close> cascades from \<^verbatim>\<open>sets\<close>, but the statements delete it first.\<close>

definition delete_set_tx :: "string \<Rightarrow> string \<Rightarrow> db \<Rightarrow> db_error + db" where
  "delete_set_tx mk md d = Inr (d
     \<lparr>tags := filter (Not \<circ> tag_of mk md) (tags d),
      files := filter (Not \<circ> file_of mk md) (files d),
      sets_fts := filter (Not \<circ> fts_of mk md) (sets_fts d),
      sets := filter (Not \<circ> of_set mk md) (sets d)\<rparr>)"

definition delete_set :: "string \<Rightarrow> string \<Rightarrow> (db, db_error, unit) cmd" where
  "delete_set mk md = commit (Some Sets) (delete_set_tx mk md)"

section \<open>Pending uploads\<close>

definition pending_of :: "string \<Rightarrow> psets_row \<Rightarrow> bool" where
  "pending_of u r \<longleftrightarrow> p_upload_id r = u"

definition pset_key :: "psets_row \<Rightarrow> string \<times> string \<times> string" where
  "pset_key r = (p_maker r, p_model r, p_upload_id r)"
definition pfile_parent :: "pfiles_row \<Rightarrow> string \<times> string \<times> string" where
  "pfile_parent r = (pf_maker r, pf_model r, pf_upload_id r)"

text \<open>\<^verbatim>\<open>DELETE FROM pending_sets WHERE upload_id = ?\<close>, cascading to the files of each deleted row.\<close>

definition delete_pending_rows :: "string \<Rightarrow> db \<Rightarrow> db" where
  "delete_pending_rows u d =
     (let gone = map pset_key (filter (pending_of u) (pending_sets d)) in
      d \<lparr>pending_sets := filter (Not \<circ> pending_of u) (pending_sets d),
         pending_files := filter (\<lambda>r. pfile_parent r \<notin> set gone) (pending_files d)\<rparr>)"

definition pset_table_row ::
  "'z meta_ext_scheme \<Rightarrow> datetime \<Rightarrow> string \<Rightarrow> rawdb_meta \<Rightarrow> string option \<Rightarrow> psets_row" where
  "pset_table_row x now u m etag = (let s = rm_set m in
     \<lparr>p_maker = sm_maker s, p_model = sm_model s, p_upload_id = u, p_license = sm_license s,
      p_notes = sm_notes s, p_uploaded_at = map_option (to_rfc3339 x) (sm_uploaded_at s),
      p_uploaded_by = sm_uploaded_by s, p_meta_etag = etag, p_last_indexed_at = to_rfc3339 x now\<rparr>)"

definition insert_pset_row :: "psets_row \<Rightarrow> db \<Rightarrow> db_error + db" where
  "insert_pset_row r d =
     (if list_ex (\<lambda>old. pset_key old = pset_key r) (pending_sets d) then Inl PrimaryKey
      else Inr (d \<lparr>pending_sets := pending_sets d @ [r]\<rparr>))"

definition pfile_table_row :: "string \<Rightarrow> string \<Rightarrow> string \<Rightarrow> file_meta \<Rightarrow> size_info \<Rightarrow> pfiles_row" where
  "pfile_table_row mk md u f si =
     \<lparr>pf_maker = mk, pf_model = md, pf_upload_id = u, pf_path = fm_path f, pf_category = category f,
      pf_extension = extension f, pf_size = as_i64 (si_size si), pf_license = fm_license f,
      pf_notes = fm_notes f, pf_etag = si_etag si, pf_sha256 = fm_sha256 f\<rparr>"

definition insert_pfile_row :: "pfiles_row \<Rightarrow> db \<Rightarrow> db_error + db" where
  "insert_pfile_row r d =
     (if \<not> list_ex (\<lambda>old. pset_key old = pfile_parent r) (pending_sets d) then Inl ForeignKey
      else if list_ex (\<lambda>old. pfile_parent old = pfile_parent r \<and> pf_path old = pf_path r) (pending_files d)
      then Inl PrimaryKey
      else Inr (d \<lparr>pending_files := pending_files d @ [r]\<rparr>))"

fun insert_pending_files ::
  "string \<Rightarrow> string \<Rightarrow> string \<Rightarrow> (file_meta \<times> size_info) list \<Rightarrow> db \<Rightarrow> db_error + db" where
  "insert_pending_files mk md u [] d = Inr d"
| "insert_pending_files mk md u ((f, si) # fs) d =
     bindR (insert_pfile_row (pfile_table_row mk md u f si) d) (insert_pending_files mk md u fs)"

definition upsert_pending_tx ::
  "'z meta_ext_scheme \<Rightarrow> datetime \<Rightarrow> string \<Rightarrow> rawdb_meta \<Rightarrow> string option \<Rightarrow> (file_meta \<times> size_info) list
     \<Rightarrow> db \<Rightarrow> db_error + db" where
  "upsert_pending_tx x now u m etag fs d =
     bindR (insert_pset_row (pset_table_row x now u m etag) (delete_pending_rows u d))
       (insert_pending_files (sm_maker (rm_set m)) (sm_model (rm_set m)) u fs)"

definition upsert_pending ::
  "'z meta_ext_scheme \<Rightarrow> datetime \<Rightarrow> string \<Rightarrow> rawdb_meta \<Rightarrow> string option \<Rightarrow> (file_meta \<times> size_info) list
     \<Rightarrow> (db, db_error, unit) cmd" where
  "upsert_pending x now u m etag fs = commit (Some Pending) (upsert_pending_tx x now u m etag fs)"

definition delete_pending_by_upload_id :: "string \<Rightarrow> (db, db_error, unit) cmd" where
  "delete_pending_by_upload_id u = commit (Some Pending) (\<lambda>d. Inr (delete_pending_rows u d))"

section \<open>Users and scan state\<close>

record user_row =
  ur_sub :: string
  ur_display_name :: "string option"
  ur_blocked :: bool
  ur_added_at :: "datetime option"
  ur_added_by :: "string option"
  ur_roles :: "string list"
  ur_api_key_hash :: "string option"

definition user_table_row :: "'z meta_ext_scheme \<Rightarrow> user_row \<Rightarrow> users_row" where
  "user_table_row x u =
     \<lparr>u_sub = ur_sub u, u_display_name = ur_display_name u, u_blocked = ur_blocked u,
      u_added_at = map_option (to_rfc3339 x) (ur_added_at u), u_added_by = ur_added_by u,
      u_api_key_hash = ur_api_key_hash u\<rparr>"

fun insert_roles :: "string \<Rightarrow> string list \<Rightarrow> db \<Rightarrow> db_error + db" where
  "insert_roles sub [] d = Inr d"
| "insert_roles sub (r # rs) d =
     (if (sub, r) \<in> set (user_roles d) then Inl PrimaryKey
      else insert_roles sub rs (d \<lparr>user_roles := user_roles d @ [(sub, r)]\<rparr>))"

fun insert_users :: "'z meta_ext_scheme \<Rightarrow> user_row list \<Rightarrow> db \<Rightarrow> db_error + db" where
  "insert_users x [] d = Inr d"
| "insert_users x (u # us) d =
     (if list_ex (\<lambda>old. u_sub old = ur_sub u) (users d) then Inl PrimaryKey
      else bindR (insert_roles (ur_sub u) (ur_roles u) (d \<lparr>users := users d @ [user_table_row x u]\<rparr>))
             (insert_users x us))"

definition replace_users_tx :: "'z meta_ext_scheme \<Rightarrow> string option \<Rightarrow> user_row list \<Rightarrow> db \<Rightarrow> db_error + db" where
  "replace_users_tx x etag us d =
     bindR (insert_users x us (d \<lparr>user_roles := [], users := []\<rparr>)) (\<lambda>d1. Inr (d1 \<lparr>users_etag := Some etag\<rparr>))"

definition replace_users :: "'z meta_ext_scheme \<Rightarrow> string option \<Rightarrow> user_row list \<Rightarrow> (db, db_error, unit) cmd" where
  "replace_users x etag us = commit None (replace_users_tx x etag us)"

definition set_last_full_scan_at :: "'z meta_ext_scheme \<Rightarrow> datetime \<Rightarrow> (db, db_error, unit) cmd" where
  "set_last_full_scan_at x t = commit (Some Scan) (\<lambda>d. Inr (d \<lparr>scan_state := Some (Some (to_rfc3339 x t))\<rparr>))"

end
