(* ===== verification/Sql_Order.thy ===== *)
theory Sql_Order imports Strings "HOL-Library.Option_ord" "HOL-Library.Multiset" begin

text \<open>
  SQL's \<^verbatim>\<open>ORDER BY\<close> for the queries of \<^verbatim>\<open>cache/db.rs\<close>: a sort key is a three-way comparison, keys are
  combined left to right, \<^verbatim>\<open>DESC\<close> swaps the arguments, \<^verbatim>\<open>NULL\<close> is below every value, and
  \<^verbatim>\<open>COLLATE NOCASE\<close> folds ASCII letters. Sorting is stable in the order the rows are visited. The
  locale \<open>sql_order\<close> states what a comparison must satisfy and proves what sorting by it gives; it
  is interpreted on the orders of the queries.
\<close>

datatype cmp3 = Lt | Eq | Gt

definition by_key :: "('a \<Rightarrow> 'k::linorder) \<Rightarrow> 'a \<Rightarrow> 'a \<Rightarrow> cmp3" where
  "by_key f a b = (if f a < f b then Lt else if f a = f b then Eq else Gt)"

definition desc :: "('a \<Rightarrow> 'a \<Rightarrow> cmp3) \<Rightarrow> 'a \<Rightarrow> 'a \<Rightarrow> cmp3" where
  "desc c a b = c b a"

definition then_by :: "('a \<Rightarrow> 'a \<Rightarrow> cmp3) \<Rightarrow> ('a \<Rightarrow> 'a \<Rightarrow> cmp3) \<Rightarrow> 'a \<Rightarrow> 'a \<Rightarrow> cmp3" where
  "then_by c c' a b = (case c a b of Eq \<Rightarrow> c' a b | r \<Rightarrow> r)"

definition nocase :: "string \<Rightarrow> string" where "nocase s = to_ascii_lowercase s"

fun insert_by :: "('a \<Rightarrow> 'a \<Rightarrow> cmp3) \<Rightarrow> 'a \<Rightarrow> 'a list \<Rightarrow> 'a list" where
  "insert_by c a [] = [a]"
| "insert_by c a (b # bs) = (if c a b = Gt then b # insert_by c a bs else a # b # bs)"

fun order_by :: "('a \<Rightarrow> 'a \<Rightarrow> cmp3) \<Rightarrow> 'a list \<Rightarrow> 'a list" where
  "order_by c [] = []"
| "order_by c (a # as) = insert_by c a (order_by c as)"

lemma mset_insert_by [simp]: "mset (insert_by c a bs) = add_mset a (mset bs)"
  by (induction bs) auto

lemma mset_order_by [simp]: "mset (order_by c as) = mset as"
  by (induction as) auto

lemma set_order_by [simp]: "set (order_by c as) = set as"
  by (metis mset_order_by set_mset_mset)

lemma length_order_by [simp]: "length (order_by c as) = length as"
  by (metis mset_order_by size_mset)

lemma distinct_order_by [simp]: "distinct (order_by c as) = distinct as"
  by (metis mset_order_by mset_eq_imp_distinct_iff)

lemma distinct_map_order_by [simp]: "distinct (map f (order_by c as)) = distinct (map f as)"
  by (metis mset_map mset_order_by mset_eq_imp_distinct_iff)

locale sql_order =
  fixes c :: "'a \<Rightarrow> 'a \<Rightarrow> cmp3"
  assumes swap: "c a b = Gt \<longleftrightarrow> c b a = Lt"
    and trans: "c a b \<noteq> Gt \<Longrightarrow> c b d \<noteq> Gt \<Longrightarrow> c a d \<noteq> Gt"
begin

lemma sorted_insert: "sorted_wrt (\<lambda>a b. c a b \<noteq> Gt) bs \<Longrightarrow> sorted_wrt (\<lambda>a b. c a b \<noteq> Gt) (insert_by c a bs)"
proof (induction bs)
  case (Cons b bs)
  show ?case
  proof (cases "c a b = Gt")
    case True
    have "c b x \<noteq> Gt" if "x \<in> set (insert_by c a bs)" for x
    proof -
      have "set (insert_by c a bs) = insert a (set bs)" by (metis mset_insert_by set_mset_add_mset_insert set_mset_mset)
      then show ?thesis using that True Cons.prems swap [of a b] by auto
    qed
    with True Cons show ?thesis by auto
  next
    case False
    then show ?thesis using Cons.prems trans [of a b] by auto
  qed
qed simp

lemma sorted: "sorted_wrt (\<lambda>a b. c a b \<noteq> Gt) (order_by c as)"
  by (induction as) (auto intro: sorted_insert)

lemma refl: "c a a \<noteq> Gt"
  using swap [of a a] by auto

lemma eq_sym: "c a b = Eq \<longleftrightarrow> c b a = Eq"
  using swap [of a b] swap [of b a] by (cases "c a b"; cases "c b a") auto

lemma lt_trans: "c a b = Lt \<Longrightarrow> c b d \<noteq> Gt \<Longrightarrow> c a d = Lt"
  using trans [of b d a] swap [of d a] swap [of b a] by (cases "c a d") auto

lemma trans_lt: "c a b \<noteq> Gt \<Longrightarrow> c b d = Lt \<Longrightarrow> c a d = Lt"
  using trans [of d a b] swap [of d a] swap [of d b] by (cases "c a d") auto

lemma eq_trans: "c a b = Eq \<Longrightarrow> c b d = Eq \<Longrightarrow> c a d = Eq"
  using trans [of a b d] trans [of d b a] eq_sym swap by (metis cmp3.exhaust cmp3.distinct(5))

text \<open>The first \<open>n\<close> rows are the least ones: no row left out comes before one that is taken.\<close>

lemma take_least:
  assumes "x \<in> set (take n (order_by c as))" "y \<in> set (drop n (order_by c as))"
  shows "c x y \<noteq> Gt"
proof -
  have "sorted_wrt (\<lambda>a b. c a b \<noteq> Gt) (take n (order_by c as) @ drop n (order_by c as))"
    using sorted [of as] by simp
  then show ?thesis using assms unfolding sorted_wrt_append by blast
qed

end

lemma by_key_simps: "by_key f a b = Gt \<longleftrightarrow> f b < f a" "by_key f a b = Lt \<longleftrightarrow> f a < f b"
  "by_key f a b = Eq \<longleftrightarrow> f a = f b"
  by (auto simp: by_key_def)

lemma sql_order_by_key: "sql_order (by_key f)"
  by unfold_locales (auto simp: by_key_simps)

lemma sql_order_desc: "sql_order c \<Longrightarrow> sql_order (desc c)"
  unfolding sql_order_def desc_def by (metis cmp3.exhaust)

lemma sql_order_then_by:
  assumes c: "sql_order c" and c': "sql_order c'" shows "sql_order (then_by c c')"
proof
  fix a b d
  show "then_by c c' a b = Gt \<longleftrightarrow> then_by c c' b a = Lt"
    using sql_order.swap [OF c, of a b] sql_order.swap [OF c', of a b] sql_order.eq_sym [OF c, of a b]
    by (auto simp: then_by_def split: cmp3.splits)
  assume "then_by c c' a b \<noteq> Gt" "then_by c c' b d \<noteq> Gt"
  then show "then_by c c' a d \<noteq> Gt"
    using sql_order.lt_trans [OF c, of a b d] sql_order.trans_lt [OF c, of a b d]
      sql_order.eq_trans [OF c, of a b d] sql_order.trans [OF c', of a b d]
    by (auto simp: then_by_def split: cmp3.splits)
qed

lemmas sql_orders = sql_order_by_key sql_order_desc sql_order_then_by

end
