(* ===== verification/Db_Query.thy ===== *)
theory Db_Query imports Db Sql_Order "HOL-Library.Product_Lexorder" begin

text \<open>
  \<^verbatim>\<open>src/backend/src/cache/db.rs\<close>: the read operations of the cache. A query is the list
  comprehension its SQL text denotes over the tables of \<open>Db\<close>, with \<^verbatim>\<open>ORDER BY\<close>, \<^verbatim>\<open>LIMIT\<close> and
  \<^verbatim>\<open>OFFSET\<close>. FTS5 matching, \<^verbatim>\<open>GROUP_CONCAT\<close>'s unspecified order and the Unicode tables behind
  \<^verbatim>\<open>is_alphanumeric\<close> are fields of \<open>db_ext\<close>; \<^verbatim>\<open>LIKE\<close> is modelled.
\<close>

record db_ext = meta_ext +
  fts_match :: "string \<Rightarrow> fts_row \<Rightarrow> bool"
  group_concat :: "string list \<Rightarrow> string"
  alnum_nonascii :: "string \<Rightarrow> bool"

section \<open>Point reads\<close>

text \<open>\<^verbatim>\<open>query_row(..).optional()\<close>: the first row, if any.\<close>

definition first_row :: "('a \<Rightarrow> bool) \<Rightarrow> 'a list \<Rightarrow> 'a option" where
  "first_row P rows = List.find P rows"

definition get_set_meta_etag :: "string \<Rightarrow> string \<Rightarrow> db \<Rightarrow> string option" where
  "get_set_meta_etag mk md d = Option.bind (first_row (of_set mk md) (sets d)) s_meta_etag"

definition list_set_keys :: "db \<Rightarrow> (string \<times> string) list" where
  "list_set_keys d = map (\<lambda>r. (s_maker r, s_model r)) (sets d)"

record set_row =
  sr_maker :: string
  sr_model :: string
  sr_license :: string
  sr_notes :: "string option"
  sr_uploaded_at :: "datetime option"
  sr_uploaded_by :: "string option"
  sr_special :: bool
  sr_approved_at :: "datetime option"
  sr_approved_by :: "string option"
  sr_approved_initial_at :: "datetime option"
  sr_approved_initial_by :: "string option"

definition parse_ts :: "'z meta_ext_scheme \<Rightarrow> string option \<Rightarrow> datetime option" where
  "parse_ts x s = Option.bind s (from_rfc3339 x)"

definition row_to_set :: "'z meta_ext_scheme \<Rightarrow> sets_row \<Rightarrow> set_row" where
  "row_to_set x r =
     \<lparr>sr_maker = s_maker r, sr_model = s_model r, sr_license = s_license r, sr_notes = s_notes r,
      sr_uploaded_at = parse_ts x (s_uploaded_at r), sr_uploaded_by = s_uploaded_by r,
      sr_special = s_special r, sr_approved_at = parse_ts x (s_approved_at r),
      sr_approved_by = s_approved_by r, sr_approved_initial_at = parse_ts x (s_approved_initial_at r),
      sr_approved_initial_by = s_approved_initial_by r\<rparr>"

definition get_set :: "'z meta_ext_scheme \<Rightarrow> string \<Rightarrow> string \<Rightarrow> db \<Rightarrow> set_row option" where
  "get_set x mk md d = map_option (row_to_set x) (first_row (of_set mk md) (sets d))"

text \<open>\<^verbatim>\<open>WHERE approved_initial_at IS NOT NULL ORDER BY approved_initial_at DESC, maker, model LIMIT ?\<close>\<close>

definition recent_order :: "sets_row \<Rightarrow> sets_row \<Rightarrow> cmp3" where
  "recent_order = then_by (desc (by_key s_approved_initial_at)) (then_by (by_key s_maker) (by_key s_model))"

definition recent_sets :: "'z meta_ext_scheme \<Rightarrow> nat \<Rightarrow> db \<Rightarrow> set_row list" where
  "recent_sets x limit d = map (row_to_set x) (take limit
     (order_by recent_order (filter (\<lambda>r. s_approved_initial_at r \<noteq> None) (sets d))))"

record file_row =
  fr_path :: string
  fr_category :: string
  fr_extension :: "string option"
  fr_size :: nat
  fr_license :: "string option"
  fr_notes :: "string option"
  fr_sha256 :: "string option"

definition row_to_file :: "files_row \<Rightarrow> file_row" where
  "row_to_file r =
     \<lparr>fr_path = f_path r, fr_category = f_category r, fr_extension = f_extension r,
      fr_size = u64_of (f_size r), fr_license = f_license r, fr_notes = f_notes r, fr_sha256 = f_sha256 r\<rparr>"

definition list_files :: "string \<Rightarrow> string \<Rightarrow> db \<Rightarrow> file_row list" where
  "list_files mk md d = map row_to_file
     (order_by (then_by (by_key f_category) (by_key f_path)) (filter (file_of mk md) (files d)))"

section \<open>Search\<close>

text \<open>\<^verbatim>\<open>chars()\<close>: a lead byte with its continuation bytes.\<close>

definition cont_byte :: "char \<Rightarrow> bool" where
  "cont_byte c \<longleftrightarrow> 128 \<le> byte c \<and> byte c < 192"

fun utf8_chars :: "string \<Rightarrow> string list" where
  "utf8_chars [] = []"
| "utf8_chars (c # s) =
     (case utf8_chars s of
        [] \<Rightarrow> [[c]]
      | d # ds \<Rightarrow> if d \<noteq> [] \<and> cont_byte (hd d) then (c # d) # ds else [c] # d # ds)"

definition is_alphanumeric :: "'z db_ext_scheme \<Rightarrow> string \<Rightarrow> bool" where
  "is_alphanumeric x ch = (case ch of [] \<Rightarrow> False
     | [c] \<Rightarrow> if byte c < 128 then ascii_alnum c else alnum_nonascii x [c]
     | _ \<Rightarrow> alnum_nonascii x ch)"

text \<open>After normalisation the only white space is the space, so \<^verbatim>\<open>split_whitespace\<close> splits there.\<close>

definition normalize_query :: "'z db_ext_scheme \<Rightarrow> string \<Rightarrow> string" where
  "normalize_query x s =
     concat (map (\<lambda>ch. if is_alphanumeric x ch \<or> ch = ''_'' then ch else '' '') (utf8_chars s))"

definition fts_tokens :: "'z db_ext_scheme \<Rightarrow> string \<Rightarrow> string list" where
  "fts_tokens x s = filter (\<lambda>tok. 3 \<le> length (utf8_chars tok))
     (filter (\<lambda>tok. tok \<noteq> []) (split_on (CHR '' '') (normalize_query x s)))"

definition fts5_sanitize :: "'z db_ext_scheme \<Rightarrow> string \<Rightarrow> string option" where
  "fts5_sanitize x s =
     (let phrases = map (\<lambda>tok. CHR 0x22 # tok @ [CHR 0x22]) (fts_tokens x s)
      in if phrases = [] then None else Some (join '' '' phrases))"

definition like_escape :: "string \<Rightarrow> string" where
  "like_escape s = concat (map (\<lambda>c.
     if c = CHR 0x5C \<or> c = CHR ''%'' \<or> c = CHR ''_'' then [CHR 0x5C, c] else [c]) s)"

text \<open>
  SQLite's \<^verbatim>\<open>text LIKE pattern ESCAPE '\'\<close>: ASCII letters compare without case, \<^verbatim>\<open>%\<close> matches any
  text, \<^verbatim>\<open>_\<close> one character (a lead byte and its continuation bytes).
\<close>

fun like :: "string \<Rightarrow> string \<Rightarrow> bool" where
  "like [] t = (t = [])"
| "like (p # ps) [] = (p = CHR ''%'' \<and> like ps [])"
| "like (p # ps) (c # t) =
     (if p = CHR ''%'' then like ps (c # t) \<or> like (p # ps) t
      else if p = CHR ''_'' then like ps (dropWhile cont_byte t)
      else if p = CHR 0x5C then
        (case ps of [] \<Rightarrow> False | e # ps' \<Rightarrow> to_lower1 e = to_lower1 c \<and> like ps' t)
      else to_lower1 p = to_lower1 c \<and> like ps t)"

datatype sort_field = Maker | Model | License | FileCount | TotalSize | Tags | UploadedAt
datatype sort_order = Asc | Desc

record set_query =
  sq_maker :: "string option"
  sq_model :: "string option"
  sq_license :: "string option"
  sq_extension :: "string option"
  sq_tags :: "string list"
  sq_fts :: "string option"
  sq_include_special :: bool
  sq_sort_field :: "sort_field option"
  sq_sort_order :: sort_order
  sq_limit :: "nat option"
  sq_offset :: "nat option"

record set_summary =
  ss_maker :: string
  ss_model :: string
  ss_license :: string
  ss_notes :: "string option"
  ss_uploaded_at :: "datetime option"
  ss_uploaded_by :: "string option"
  ss_file_count :: nat
  ss_total_size :: nat
  ss_special :: bool
  ss_tags :: "string list"

record search_page =
  pg_sets :: "set_summary list"
  pg_total :: nat
  pg_limit :: nat
  pg_offset :: nat

text \<open>The \<^verbatim>\<open>WHERE\<close> clauses on a set row, in the order they are appended.\<close>

definition like_contains :: "string \<Rightarrow> string \<Rightarrow> bool" where
  "like_contains needle t = like (''%'' @ like_escape needle @ ''%'') t"

definition where_ok :: "set_query \<Rightarrow> db \<Rightarrow> sets_row \<Rightarrow> bool" where
  "where_ok sq d s \<longleftrightarrow>
     (case sq_maker sq of None \<Rightarrow> True | Some m \<Rightarrow> like_contains m (s_maker s))
     \<and> (case sq_model sq of None \<Rightarrow> True | Some m \<Rightarrow> like_contains m (s_model s))
     \<and> (case sq_license sq of None \<Rightarrow> True | Some l \<Rightarrow> s_license s = l)
     \<and> (sq_include_special sq \<or> \<not> s_special s)
     \<and> (case sq_extension sq of None \<Rightarrow> True
         | Some e \<Rightarrow> list_ex (\<lambda>f. file_of (s_maker s) (s_model s) f \<and> f_extension f = Some e) (files d))
     \<and> list_all (\<lambda>tag. list_ex (\<lambda>t. tag_of (s_maker s) (s_model s) t \<and> t_tag t = tag) (tags d)) (sq_tags sq)"

text \<open>\<^verbatim>\<open>FROM sets s [JOIN sets_fts ..] WHERE ..\<close>: a set occurs once per joined FTS row.\<close>

definition matching_rows :: "'z db_ext_scheme \<Rightarrow> set_query \<Rightarrow> db \<Rightarrow> sets_row list" where
  "matching_rows x sq d =
     (let joined = (case Option.bind (sq_fts sq) (fts5_sanitize x) of
          None \<Rightarrow> sets d
        | Some text \<Rightarrow> concat (map (\<lambda>s. map (\<lambda>_. s)
            (filter (\<lambda>ft. fts_of (s_maker s) (s_model s) ft \<and> fts_match x text ft) (sets_fts d))) (sets d)))
      in filter (where_ok sq d) joined)"

text \<open>One row of the \<^verbatim>\<open>GROUP BY s.maker, s.model\<close>, with its aggregates.\<close>

record group_row =
  g_set :: sets_row
  g_file_count :: nat
  g_total_size :: int
  g_sort_tags :: string

definition set_tags :: "string \<Rightarrow> string \<Rightarrow> db \<Rightarrow> string list" where
  "set_tags mk md d = remdups (map t_tag (filter (tag_of mk md) (tags d)))"

definition group_rows :: "'z db_ext_scheme \<Rightarrow> set_query \<Rightarrow> db \<Rightarrow> group_row list" where
  "group_rows x sq d =
     (let rows = matching_rows x sq d in
      map (\<lambda>s. let fs = filter (file_of (s_maker s) (s_model s)) (files d) in
             \<lparr>g_set = s,
              g_file_count = length (remdups (map f_path fs)),
              g_total_size = int (length (filter (\<lambda>s'. s' = s) rows)) * sum_list (map f_size fs),
              g_sort_tags = group_concat x (set_tags (s_maker s) (s_model s) d)\<rparr>)
        (remdups rows))"

definition camera_order :: "group_row \<Rightarrow> group_row \<Rightarrow> cmp3" where
  "camera_order = then_by (by_key (\<lambda>g. nocase (s_maker (g_set g)))) (by_key (\<lambda>g. nocase (s_model (g_set g))))"

fun field_order :: "sort_field \<Rightarrow> group_row \<Rightarrow> group_row \<Rightarrow> cmp3" where
  "field_order Maker = by_key (\<lambda>g. nocase (s_maker (g_set g)))"
| "field_order Model = by_key (\<lambda>g. nocase (s_model (g_set g)))"
| "field_order License = by_key (\<lambda>g. nocase (s_license (g_set g)))"
| "field_order FileCount = by_key g_file_count"
| "field_order TotalSize = by_key g_total_size"
| "field_order Tags = by_key (\<lambda>g. nocase (g_sort_tags g))"
| "field_order UploadedAt = by_key (\<lambda>g. case s_uploaded_at (g_set g) of None \<Rightarrow> [] | Some t \<Rightarrow> t)"

fun in_direction :: "sort_order \<Rightarrow> (group_row \<Rightarrow> group_row \<Rightarrow> cmp3) \<Rightarrow> group_row \<Rightarrow> group_row \<Rightarrow> cmp3" where
  "in_direction Asc c = c"
| "in_direction Desc c = desc c"

definition search_order :: "set_query \<Rightarrow> group_row \<Rightarrow> group_row \<Rightarrow> cmp3" where
  "search_order sq = (case sq_sort_field sq of
       None \<Rightarrow> camera_order
     | Some f \<Rightarrow> then_by (in_direction (sq_sort_order sq) (field_order f)) camera_order)"

definition search_limit :: "set_query \<Rightarrow> nat" where
  "search_limit sq = min 500 (max 1 (case sq_limit sq of None \<Rightarrow> 50 | Some l \<Rightarrow> l))"

definition search_offset :: "set_query \<Rightarrow> nat" where
  "search_offset sq = (case sq_offset sq of None \<Rightarrow> 0 | Some n \<Rightarrow> n)"

definition summary :: "'z meta_ext_scheme \<Rightarrow> db \<Rightarrow> group_row \<Rightarrow> set_summary" where
  "summary x d g = (let s = g_set g in
     \<lparr>ss_maker = s_maker s, ss_model = s_model s, ss_license = s_license s, ss_notes = s_notes s,
      ss_uploaded_at = parse_ts x (s_uploaded_at s), ss_uploaded_by = s_uploaded_by s,
      ss_file_count = g_file_count g, ss_total_size = u64_of (g_total_size g), ss_special = s_special s,
      ss_tags = order_by (by_key (\<lambda>t. t)) (set_tags (s_maker s) (s_model s) d)\<rparr>)"

definition search_sets :: "'z db_ext_scheme \<Rightarrow> set_query \<Rightarrow> db \<Rightarrow> search_page" where
  "search_sets x sq d =
     \<lparr>pg_sets = map (summary x d)
        (take (search_limit sq) (drop (search_offset sq) (order_by (search_order sq) (group_rows x sq d)))),
      pg_total = length (matching_rows x sq d),
      pg_limit = search_limit sq,
      pg_offset = search_offset sq\<rparr>"

section \<open>Counts and distinct values\<close>

definition count_sets :: "db \<Rightarrow> nat" where "count_sets d = length (sets d)"

definition count_models :: "db \<Rightarrow> nat" where
  "count_models d = length (remdups (map (\<lambda>s. (s_maker s, s_model s)) (filter (\<lambda>s. \<not> s_special s) (sets d))))"

definition count_special :: "db \<Rightarrow> nat" where
  "count_special d = length (filter s_special (sets d))"

definition count_files :: "db \<Rightarrow> nat" where "count_files d = length (files d)"

definition distinct_makers :: "bool \<Rightarrow> db \<Rightarrow> string list" where
  "distinct_makers include_special d = order_by (by_key nocase)
     (remdups (map s_maker (filter (\<lambda>s. include_special \<or> \<not> s_special s) (sets d))))"

definition pair_order :: "string \<times> string \<Rightarrow> string \<times> string \<Rightarrow> cmp3" where
  "pair_order = then_by (by_key (\<lambda>p. nocase (fst p))) (by_key (\<lambda>p. nocase (snd p)))"

definition distinct_maker_models :: "bool \<Rightarrow> db \<Rightarrow> (string \<times> string) list" where
  "distinct_maker_models include_special d = order_by pair_order
     (remdups (map (\<lambda>s. (s_maker s, s_model s)) (filter (\<lambda>s. include_special \<or> \<not> s_special s) (sets d))))"

definition tag_counts :: "db \<Rightarrow> (string \<times> nat) list" where
  "tag_counts d = (let ts = map t_tag (tags d) in
     order_by (then_by (desc (by_key snd)) (by_key (\<lambda>p. nocase (fst p))))
       (map (\<lambda>t. (t, length (filter (\<lambda>u. u = t) ts))) (remdups ts)))"

definition count_pending :: "db \<Rightarrow> nat" where "count_pending d = length (pending_sets d)"

definition pending_maker_models :: "db \<Rightarrow> (string \<times> string) list" where
  "pending_maker_models d = order_by pair_order (remdups (map (\<lambda>r. (p_maker r, p_model r)) (pending_sets d)))"

definition count_users :: "db \<Rightarrow> nat" where "count_users d = length (users d)"

text \<open>The hash map \<^verbatim>\<open>path -> tags\<close>; an absent key is an empty list.\<close>

definition file_tags :: "string \<Rightarrow> string \<Rightarrow> db \<Rightarrow> string \<Rightarrow> string list" where
  "file_tags mk md d path = map t_tag (filter (\<lambda>r. t_file_path r = Some path)
     (order_by (then_by (by_key t_file_path) (by_key t_tag))
        (filter (\<lambda>r. tag_of mk md r \<and> t_file_path r \<noteq> None) (tags d))))"

section \<open>Pending uploads, users, scan state\<close>

definition get_pending_meta_etag :: "string \<Rightarrow> db \<Rightarrow> string option" where
  "get_pending_meta_etag u d = Option.bind (first_row (pending_of u) (pending_sets d)) p_meta_etag"

record pending_set_row =
  psr_maker :: string
  psr_model :: string
  psr_upload_id :: string
  psr_license :: string
  psr_notes :: "string option"
  psr_uploaded_at :: "datetime option"

definition row_to_pending :: "'z meta_ext_scheme \<Rightarrow> psets_row \<Rightarrow> pending_set_row" where
  "row_to_pending x r =
     \<lparr>psr_maker = p_maker r, psr_model = p_model r, psr_upload_id = p_upload_id r, psr_license = p_license r,
      psr_notes = p_notes r, psr_uploaded_at = parse_ts x (p_uploaded_at r)\<rparr>"

text \<open>\<^verbatim>\<open>ORDER BY uploaded_at DESC NULLS LAST, upload_id LIMIT ?\<close>: \<^verbatim>\<open>NULL\<close> is the least value.\<close>

definition pending_order :: "psets_row \<Rightarrow> psets_row \<Rightarrow> cmp3" where
  "pending_order = then_by (desc (by_key p_uploaded_at)) (by_key p_upload_id)"

definition recent_pending :: "'z meta_ext_scheme \<Rightarrow> nat \<Rightarrow> db \<Rightarrow> pending_set_row list" where
  "recent_pending x limit d = map (row_to_pending x) (take limit (order_by pending_order (pending_sets d)))"

definition row_to_pfile :: "pfiles_row \<Rightarrow> file_row" where
  "row_to_pfile r =
     \<lparr>fr_path = pf_path r, fr_category = pf_category r, fr_extension = pf_extension r,
      fr_size = u64_of (pf_size r), fr_license = pf_license r, fr_notes = pf_notes r, fr_sha256 = pf_sha256 r\<rparr>"

definition list_pending_files :: "string \<Rightarrow> db \<Rightarrow> file_row list" where
  "list_pending_files u d = map row_to_pfile
     (order_by (then_by (by_key pf_category) (by_key pf_path))
        (filter (\<lambda>r. pf_upload_id r = u) (pending_files d)))"

definition list_pending_upload_ids :: "db \<Rightarrow> string list" where
  "list_pending_upload_ids d = map p_upload_id (pending_sets d)"

definition get_users_etag :: "db \<Rightarrow> string option" where
  "get_users_etag d = Option.bind (users_etag d) (\<lambda>e. e)"

definition last_full_scan_at :: "'z meta_ext_scheme \<Rightarrow> db \<Rightarrow> datetime option" where
  "last_full_scan_at x d = parse_ts x (Option.bind (scan_state d) (\<lambda>t. t))"

definition row_to_user :: "'z meta_ext_scheme \<Rightarrow> users_row \<Rightarrow> user_row" where
  "row_to_user x r =
     \<lparr>ur_sub = u_sub r, ur_display_name = u_display_name r, ur_blocked = u_blocked r,
      ur_added_at = parse_ts x (u_added_at r), ur_added_by = u_added_by r, ur_roles = [],
      ur_api_key_hash = u_api_key_hash r\<rparr>"

definition load_roles :: "string \<Rightarrow> db \<Rightarrow> string list" where
  "load_roles sub d = map snd (filter (\<lambda>r. fst r = sub) (user_roles d))"

definition get_user :: "'z meta_ext_scheme \<Rightarrow> string \<Rightarrow> db \<Rightarrow> user_row option" where
  "get_user x sub d = map_option (\<lambda>r. (row_to_user x r) \<lparr>ur_roles := load_roles sub d\<rparr>)
     (first_row (\<lambda>r. u_sub r = sub) (users d))"

definition find_user_by_api_key_hash :: "'z meta_ext_scheme \<Rightarrow> string \<Rightarrow> db \<Rightarrow> user_row option" where
  "find_user_by_api_key_hash x h d = map_option (\<lambda>r. (row_to_user x r) \<lparr>ur_roles := load_roles (u_sub r) d\<rparr>)
     (first_row (\<lambda>r. u_api_key_hash r = Some h) (users d))"

section \<open>Full export\<close>

record export_file =
  ef_path :: string
  ef_category :: string
  ef_extension :: "string option"
  ef_size :: nat
  ef_license :: "string option"
  ef_notes :: "string option"
  ef_sha256 :: "string option"
  ef_tags :: "string list"

record export_set =
  es_maker :: string
  es_model :: string
  es_license :: string
  es_notes :: "string option"
  es_uploaded_at :: "datetime option"
  es_uploaded_by :: "string option"
  es_special :: bool
  es_tags :: "string list"
  es_files :: "export_file list"

text \<open>The hash maps of the function are total functions to lists, the empty list for an absent key.\<close>

fun collect_tags ::
  "tags_row list \<Rightarrow> (string \<times> string \<Rightarrow> string list) \<times> (string \<times> string \<times> string \<Rightarrow> string list)
     \<Rightarrow> (string \<times> string \<Rightarrow> string list) \<times> (string \<times> string \<times> string \<Rightarrow> string list)" where
  "collect_tags [] acc = acc"
| "collect_tags (r # rs) (st, ft) =
     (let sk = (t_maker r, t_model r); tag = t_tag r;
          st' = (if tag \<in> set (st sk) then st else st(sk := st sk @ [tag]));
          ft' = (case t_file_path r of None \<Rightarrow> ft
                 | Some fp \<Rightarrow> let fk = (t_maker r, t_model r, fp) in ft(fk := ft fk @ [tag]))
      in collect_tags rs (st', ft'))"

definition export_file_of :: "(string \<times> string \<times> string \<Rightarrow> string list) \<Rightarrow> files_row \<Rightarrow> export_file" where
  "export_file_of ft r =
     \<lparr>ef_path = f_path r, ef_category = f_category r, ef_extension = f_extension r,
      ef_size = u64_of (f_size r), ef_license = f_license r, ef_notes = f_notes r, ef_sha256 = f_sha256 r,
      ef_tags = ft (f_maker r, f_model r, f_path r)\<rparr>"

fun collect_files ::
  "(string \<times> string \<times> string \<Rightarrow> string list) \<Rightarrow> files_row list
     \<Rightarrow> (string \<times> string \<Rightarrow> export_file list) \<Rightarrow> (string \<times> string \<Rightarrow> export_file list)" where
  "collect_files ft [] acc = acc"
| "collect_files ft (r # rs) acc =
     (let k = (f_maker r, f_model r) in collect_files ft rs (acc(k := acc k @ [export_file_of ft r])))"

fun collect_sets ::
  "'z meta_ext_scheme \<Rightarrow> sets_row list \<Rightarrow> (string \<times> string \<Rightarrow> string list)
     \<Rightarrow> (string \<times> string \<Rightarrow> export_file list) \<Rightarrow> export_set list" where
  "collect_sets x [] st fb = []"
| "collect_sets x (s # ss) st fb =
     (let k = (s_maker s, s_model s) in
      \<lparr>es_maker = s_maker s, es_model = s_model s, es_license = s_license s, es_notes = s_notes s,
       es_uploaded_at = parse_ts x (s_uploaded_at s), es_uploaded_by = s_uploaded_by s,
       es_special = s_special s, es_tags = st k, es_files = fb k\<rparr>
      # collect_sets x ss (st(k := [])) (fb(k := [])))"

definition export_all :: "'z meta_ext_scheme \<Rightarrow> db \<Rightarrow> export_set list" where
  "export_all x d =
     (let (st, ft) = collect_tags (tags d) (\<lambda>_. [], \<lambda>_. []);
          fb = collect_files ft (order_by (then_by (by_key f_maker) (then_by (by_key f_model)
                  (then_by (by_key f_category) (by_key f_path)))) (files d)) (\<lambda>_. [])
      in collect_sets x (order_by (then_by (by_key s_maker) (by_key s_model)) (sets d)) st fb)"

end
