(* ===== verification/Db_Inv.thy ===== *)
theory Db_Inv imports Db_Query begin

text \<open>
  The invariant of the cache (primary keys, foreign keys, one FTS row per set, one pending row per
  upload, tags only of indexed files), closed forms of the writing transactions, preservation of
  the invariant, and the read-back and frame facts of each write.
\<close>

section \<open>Closed forms of the set transactions\<close>

definition set_file_rows :: "string \<Rightarrow> string \<Rightarrow> (file_meta \<times> size_info) list \<Rightarrow> files_row list" where
  "set_file_rows mk md fs = map (\<lambda>(f, si). file_table_row mk md f si) fs"

definition set_tag_rows :: "string \<Rightarrow> string \<Rightarrow> (file_meta \<times> size_info) list \<Rightarrow> tags_row list" where
  "set_tag_rows mk md fs = concat (map (\<lambda>(f, si).
     map (\<lambda>t. \<lparr>t_maker = mk, t_model = md, t_file_path = Some (fm_path f), t_tag = t\<rparr>) (fm_tags f)) fs)"

definition paths :: "(file_meta \<times> size_info) list \<Rightarrow> string list" where
  "paths fs = map (\<lambda>(f, si). fm_path f) fs"

lemma row_simps [simp]:
  "f_maker (file_table_row mk md f si) = mk" "f_model (file_table_row mk md f si) = md"
  "f_path (file_table_row mk md f si) = fm_path f"
  "s_maker (set_table_row x now m e) = sm_maker (rm_set m)"
  "s_model (set_table_row x now m e) = sm_model (rm_set m)"
  "s_meta_etag (set_table_row x now m e) = e" "s_special (set_table_row x now m e) = sm_special (rm_set m)"
  "paths [] = []" "paths ((f, si) # fs) = fm_path f # paths fs"
  by (simp_all add: file_table_row_def set_table_row_def paths_def Let_def)

lemma insert_set_files_eq:
  assumes "list_ex (of_set mk md) (sets d)"
  shows "insert_set_files mk md fs d =
    (if distinct (paths fs) \<and> (\<forall>r\<in>set (files d). file_of mk md r \<longrightarrow> f_path r \<notin> set (paths fs))
     then Inr (d \<lparr>files := files d @ set_file_rows mk md fs, tags := tags d @ set_tag_rows mk md fs\<rparr>)
     else Inl PrimaryKey)"
  using assms
proof (induction fs arbitrary: d)
  case (Cons p fs)
  obtain f si where p: "p = (f, si)" by (cases p)
  show ?case
  proof (cases "list_ex (\<lambda>old. file_of mk md old \<and> f_path old = fm_path f) (files d)")
    case True
    then show ?thesis using Cons.prems by (auto simp: p insert_file_row_def list_ex_iff)
  next
    case False
    let ?d1 = "insert_tag_rows mk md f (d \<lparr>files := files d @ [file_table_row mk md f si]\<rparr>)"
    have s: "insert_set_files mk md (p # fs) d = insert_set_files mk md fs ?d1"
      using False Cons.prems by (simp add: p insert_file_row_def)
    have c: "(\<forall>r\<in>set (files ?d1). file_of mk md r \<longrightarrow> f_path r \<notin> set (paths fs)) \<longleftrightarrow>
        (\<forall>r\<in>set (files d). file_of mk md r \<longrightarrow> f_path r \<notin> set (paths fs)) \<and> fm_path f \<notin> set (paths fs)"
      by (auto simp: insert_tag_rows_def file_of_def)
    have "list_ex (of_set mk md) (sets ?d1)" using Cons.prems by (simp add: insert_tag_rows_def)
    note IH = Cons.IH [OF this]
    show ?thesis
      unfolding s IH c using False
      by (auto simp: p insert_tag_rows_def set_file_rows_def set_tag_rows_def list_ex_iff)
  qed
qed (simp add: set_file_rows_def set_tag_rows_def)

lemma upsert_row_has: "list_ex (of_set (s_maker r) (s_model r)) (upsert_row r rows)"
  by (auto simp: upsert_row_def list_ex_iff of_set_def)

text \<open>What \<open>upsert_set\<close> writes when no two of the files share a path.\<close>

definition set_written ::
  "'z meta_ext_scheme \<Rightarrow> datetime \<Rightarrow> rawdb_meta \<Rightarrow> string option \<Rightarrow> (file_meta \<times> size_info) list \<Rightarrow> db \<Rightarrow> db" where
  "set_written x now m etag fs d = (let mk = sm_maker (rm_set m); md = sm_model (rm_set m) in
     d \<lparr>sets := upsert_row (set_table_row x now m etag) (sets d),
        files := filter (Not \<circ> file_of mk md) (files d) @ set_file_rows mk md fs,
        tags := filter (Not \<circ> tag_of mk md) (tags d) @ set_tag_rows mk md fs,
        sets_fts := filter (Not \<circ> fts_of mk md) (sets_fts d)
          @ [\<lparr>ft_maker = mk, ft_model = md, ft_notes = sm_notes (rm_set m),
              ft_tags = join '' '' (concat (map fm_tags (rm_files m)))\<rparr>]\<rparr>)"

lemma upsert_set_eq:
  "upsert_set x now m etag fs d =
     (if distinct (paths fs) then (Inr (), bump Sets (set_written x now m etag fs d)) else (Inl PrimaryKey, d))"
proof -
  have ex: "list_ex (of_set (sm_maker (rm_set m)) (sm_model (rm_set m)))
      (upsert_row (set_table_row x now m etag) (sets d))"
    using upsert_row_has [of "set_table_row x now m etag"] by simp
  show ?thesis
    by (auto simp: upsert_set_def commit_def upsert_set_tx_def Let_def insert_set_files_eq ex set_written_def
        file_of_def)
qed

definition set_deleted :: "string \<Rightarrow> string \<Rightarrow> db \<Rightarrow> db" where
  "set_deleted mk md d = d
     \<lparr>tags := filter (Not \<circ> tag_of mk md) (tags d),
      files := filter (Not \<circ> file_of mk md) (files d),
      sets_fts := filter (Not \<circ> fts_of mk md) (sets_fts d),
      sets := filter (Not \<circ> of_set mk md) (sets d)\<rparr>"

lemma delete_set_eq: "delete_set mk md d = (Inr (), bump Sets (set_deleted mk md d))"
  by (simp add: delete_set_def commit_def delete_set_tx_def set_deleted_def)

section \<open>Closed forms of the pending transactions\<close>

definition pending_file_rows ::
  "string \<Rightarrow> string \<Rightarrow> string \<Rightarrow> (file_meta \<times> size_info) list \<Rightarrow> pfiles_row list" where
  "pending_file_rows mk md u fs = map (\<lambda>(f, si). pfile_table_row mk md u f si) fs"

lemma prow_simps [simp]:
  "pf_maker (pfile_table_row mk md u f si) = mk" "pf_model (pfile_table_row mk md u f si) = md"
  "pf_upload_id (pfile_table_row mk md u f si) = u" "pf_path (pfile_table_row mk md u f si) = fm_path f"
  "pfile_parent (pfile_table_row mk md u f si) = (mk, md, u)"
  "p_upload_id (pset_table_row x now u m e) = u" "p_meta_etag (pset_table_row x now u m e) = e"
  "pset_key (pset_table_row x now u m e) = (sm_maker (rm_set m), sm_model (rm_set m), u)"
  by (simp_all add: pfile_table_row_def pset_table_row_def pfile_parent_def pset_key_def Let_def)

lemma insert_pending_files_eq:
  assumes "(mk, md, u) \<in> pset_key ` set (pending_sets d)"
  shows "insert_pending_files mk md u fs d =
    (if distinct (paths fs)
        \<and> (\<forall>r\<in>set (pending_files d). pfile_parent r = (mk, md, u) \<longrightarrow> pf_path r \<notin> set (paths fs))
     then Inr (d \<lparr>pending_files := pending_files d @ pending_file_rows mk md u fs\<rparr>)
     else Inl PrimaryKey)"
  using assms
proof (induction fs arbitrary: d)
  case (Cons p fs)
  obtain f si where p: "p = (f, si)" by (cases p)
  have ex: "list_ex (\<lambda>old. pset_key old = (mk, md, u)) (pending_sets d)"
    using Cons.prems by (auto simp: list_ex_iff)
  show ?case
  proof (cases "list_ex (\<lambda>old. pfile_parent old = (mk, md, u) \<and> pf_path old = fm_path f) (pending_files d)")
    case True
    then show ?thesis using ex by (auto simp: p insert_pfile_row_def list_ex_iff)
  next
    case False
    let ?d1 = "d \<lparr>pending_files := pending_files d @ [pfile_table_row mk md u f si]\<rparr>"
    have s: "insert_pending_files mk md u (p # fs) d = insert_pending_files mk md u fs ?d1"
      using False ex by (simp add: p insert_pfile_row_def)
    have c: "(\<forall>r\<in>set (pending_files ?d1). pfile_parent r = (mk, md, u) \<longrightarrow> pf_path r \<notin> set (paths fs)) \<longleftrightarrow>
        (\<forall>r\<in>set (pending_files d). pfile_parent r = (mk, md, u) \<longrightarrow> pf_path r \<notin> set (paths fs))
        \<and> fm_path f \<notin> set (paths fs)"
      by auto
    have "(mk, md, u) \<in> pset_key ` set (pending_sets ?d1)" using Cons.prems by simp
    note IH = Cons.IH [OF this]
    show ?thesis
      unfolding s IH c using False by (auto simp: p pending_file_rows_def list_ex_iff)
  qed
qed (simp add: pending_file_rows_def)

text \<open>Foreign key of \<^verbatim>\<open>pending_files\<close>, and what \<open>upsert_pending\<close> writes.\<close>

definition pending_fk :: "db \<Rightarrow> bool" where
  "pending_fk d \<longleftrightarrow> pfile_parent ` set (pending_files d) \<subseteq> pset_key ` set (pending_sets d)"

definition pending_written ::
  "'z meta_ext_scheme \<Rightarrow> datetime \<Rightarrow> string \<Rightarrow> rawdb_meta \<Rightarrow> string option \<Rightarrow> (file_meta \<times> size_info) list \<Rightarrow> db \<Rightarrow> db" where
  "pending_written x now u m etag fs d = d
     \<lparr>pending_sets := filter (Not \<circ> pending_of u) (pending_sets d) @ [pset_table_row x now u m etag],
      pending_files := filter (\<lambda>r. pf_upload_id r \<noteq> u) (pending_files d)
        @ pending_file_rows (sm_maker (rm_set m)) (sm_model (rm_set m)) u fs\<rparr>"

lemma delete_pending_rows_eq:
  assumes "pending_fk d"
  shows "delete_pending_rows u d = d
    \<lparr>pending_sets := filter (Not \<circ> pending_of u) (pending_sets d),
     pending_files := filter (\<lambda>r. pf_upload_id r \<noteq> u) (pending_files d)\<rparr>"
proof -
  have "pfile_parent r \<notin> pset_key ` {r \<in> set (pending_sets d). pending_of u r} \<longleftrightarrow> pf_upload_id r \<noteq> u"
    if r: "r \<in> set (pending_files d)" for r
  proof -
    obtain q where q: "q \<in> set (pending_sets d)" "pfile_parent r = pset_key q"
      using assms r unfolding pending_fk_def by (metis image_iff subsetD)
    then show ?thesis by (auto simp: pfile_parent_def pset_key_def pending_of_def image_iff)
  qed
  then have "filter (\<lambda>r. pfile_parent r \<notin> pset_key ` {r \<in> set (pending_sets d). pending_of u r}) (pending_files d)
      = filter (\<lambda>r. pf_upload_id r \<noteq> u) (pending_files d)"
    by (intro filter_cong) auto
  then show ?thesis by (simp add: delete_pending_rows_def Let_def)
qed

lemma upsert_pending_eq:
  assumes "pending_fk d"
  shows "upsert_pending x now u m etag fs d =
     (if distinct (paths fs) then (Inr (), bump Pending (pending_written x now u m etag fs d))
      else (Inl PrimaryKey, d))"
proof -
  have "\<not> list_ex (\<lambda>old. pset_key old = (sm_maker (rm_set m), sm_model (rm_set m), u))
      (filter (Not \<circ> pending_of u) (pending_sets d))"
    by (auto simp: list_ex_iff pset_key_def pending_of_def)
  then show ?thesis
    by (auto simp: upsert_pending_def commit_def upsert_pending_tx_def delete_pending_rows_eq [OF assms]
        insert_pset_row_def insert_pending_files_eq pending_written_def pfile_parent_def)
qed

lemma delete_pending_eq:
  assumes "pending_fk d"
  shows "delete_pending_by_upload_id u d = (Inr (), bump Pending (d
    \<lparr>pending_sets := filter (Not \<circ> pending_of u) (pending_sets d),
     pending_files := filter (\<lambda>r. pf_upload_id r \<noteq> u) (pending_files d)\<rparr>))"
  by (simp add: delete_pending_by_upload_id_def commit_def delete_pending_rows_eq [OF assms])

section \<open>The invariant\<close>

definition set_key :: "sets_row \<Rightarrow> string \<times> string" where "set_key r = (s_maker r, s_model r)"
definition file_key :: "files_row \<Rightarrow> string \<times> string \<times> string" where
  "file_key r = (f_maker r, f_model r, f_path r)"
definition fts_key :: "fts_row \<Rightarrow> string \<times> string" where "fts_key r = (ft_maker r, ft_model r)"
definition pfile_key :: "pfiles_row \<Rightarrow> string \<times> string" where
  "pfile_key r = (pf_upload_id r, pf_path r)"

definition sets_inv :: "db \<Rightarrow> bool" where
  "sets_inv d \<longleftrightarrow> distinct (map set_key (sets d)) \<and> distinct (map file_key (files d))
     \<and> (\<forall>r\<in>set (files d). (f_maker r, f_model r) \<in> set_key ` set (sets d))
     \<and> (\<forall>t\<in>set (tags d). \<exists>p. t_file_path t = Some p \<and> (t_maker t, t_model t, p) \<in> file_key ` set (files d))
     \<and> distinct (map fts_key (sets_fts d)) \<and> fts_key ` set (sets_fts d) = set_key ` set (sets d)"

definition pending_inv :: "db \<Rightarrow> bool" where
  "pending_inv d \<longleftrightarrow> distinct (map p_upload_id (pending_sets d)) \<and> distinct (map pfile_key (pending_files d))
     \<and> pending_fk d"

definition users_inv :: "db \<Rightarrow> bool" where
  "users_inv d \<longleftrightarrow> distinct (map u_sub (users d)) \<and> distinct (user_roles d)
     \<and> fst ` set (user_roles d) \<subseteq> u_sub ` set (users d)"

definition db_inv :: "db \<Rightarrow> bool" where
  "db_inv d \<longleftrightarrow> sets_inv d \<and> pending_inv d \<and> users_inv d"

lemma distinct_map_filter_Not: "distinct (map k xs) \<Longrightarrow> distinct (map k (filter P xs))"
  by (rule distinct_map_filter)

lemma set_key_upsert:
  "map set_key (upsert_row r rows) =
     (if set_key r \<in> set_key ` set rows then map set_key rows else map set_key rows @ [set_key r])"
proof -
  have ex: "list_ex (of_set (s_maker r) (s_model r)) rows \<longleftrightarrow> set_key r \<in> set_key ` set rows"
    by (simp add: list_ex_iff of_set_def set_key_def image_iff) metis
  show ?thesis by (auto simp: upsert_row_def ex) (auto simp: of_set_def set_key_def)
qed

lemma upsert_keys: "set_key ` set (upsert_row r rows) = insert (set_key r) (set_key ` set rows)"
  using arg_cong [OF set_key_upsert [of r rows], of set] by (auto split: if_splits)

lemma upsert_distinct: "distinct (map set_key rows) \<Longrightarrow> distinct (map set_key (upsert_row r rows))"
  unfolding set_key_upsert by auto

lemma file_key_rows: "map file_key (set_file_rows mk md fs) = map (\<lambda>p. (mk, md, p)) (paths fs)"
  by (auto simp: set_file_rows_def paths_def file_key_def split: prod.splits)

lemma image_but: "k ` {r \<in> A. k r \<noteq> c} = k ` A - {c}"
  by auto

lemma distinct_tagged: "distinct (map (\<lambda>p. (a, b, p)) xs) = distinct xs"
  by (auto simp: distinct_map inj_on_def)

lemma set_tag_rows_ok:
  "t \<in> set (set_tag_rows mk md fs) \<Longrightarrow> t_maker t = mk \<and> t_model t = md \<and> (\<exists>p\<in>set (paths fs). t_file_path t = Some p)"
  unfolding set_tag_rows_def paths_def by force

lemma set_file_rows_of: "r \<in> set (set_file_rows mk md fs) \<Longrightarrow> f_maker r = mk \<and> f_model r = md"
  by (auto simp: set_file_rows_def)

lemma sets_inv_written:
  assumes i: "sets_inv d" and dp: "distinct (paths fs)"
  shows "sets_inv (set_written x now m etag fs d)"
proof -
  define mk md where k: "mk = sm_maker (rm_set m)" "md = sm_model (rm_set m)"
  let ?old = "filter (Not \<circ> file_of mk md) (files d)" and ?new = "set_file_rows mk md fs"
  have sk: "set_key (set_table_row x now m etag) = (mk, md)" by (simp add: set_key_def k)
  have nk: "file_key ` set ?new = (\<lambda>p. (mk, md, p)) ` set (paths fs)"
    using arg_cong [OF file_key_rows [of mk md fs], of set] by simp
  have A: "distinct (map file_key (?old @ ?new))"
  proof -
    have "distinct (map file_key ?old)" using i by (auto simp: sets_inv_def intro: distinct_map_filter_Not)
    moreover have "distinct (map file_key ?new)" using dp by (simp only: file_key_rows distinct_tagged)
    moreover have "file_key ` set ?old \<inter> file_key ` set ?new = {}"
      unfolding nk by (auto simp: file_key_def file_of_def)
    ultimately show ?thesis by simp
  qed
  have B: "(f_maker r, f_model r) \<in> insert (mk, md) (set_key ` set (sets d))"
    if "r \<in> set (?old @ ?new)" for r
    using that i by (auto simp: sets_inv_def dest: set_file_rows_of)
  have C: "\<exists>p. t_file_path t = Some p \<and> (t_maker t, t_model t, p) \<in> file_key ` set (?old @ ?new)"
    if t: "t \<in> set (filter (Not \<circ> tag_of mk md) (tags d) @ set_tag_rows mk md fs)" for t
  proof (cases "t \<in> set (set_tag_rows mk md fs)")
    case True
    from set_tag_rows_ok [OF this] show ?thesis using nk by (simp add: image_Un image_iff) blast
  next
    case False
    with t have "t \<in> set (tags d)" and n: "\<not> tag_of mk md t" by auto
    then obtain p r where "t_file_path t = Some p" "r \<in> set (files d)" "(t_maker t, t_model t, p) = file_key r"
      using i by (auto simp: sets_inv_def)
    with n show ?thesis by (intro exI [of _ p]) (auto simp: file_key_def tag_of_def file_of_def image_iff)
  qed
  have D: "distinct (map fts_key (filter (Not \<circ> fts_of mk md) (sets_fts d) @ [f]))
      \<and> fts_key ` set (filter (Not \<circ> fts_of mk md) (sets_fts d) @ [f]) = insert (mk, md) (set_key ` set (sets d))"
    if "fts_key f = (mk, md)" for f
  proof -
    have u: "(Not \<circ> fts_of mk md) = (\<lambda>r. fts_key r \<noteq> (mk, md))" by (auto simp: fts_of_def fts_key_def)
    have "distinct (map fts_key (filter (\<lambda>r. fts_key r \<noteq> (mk, md)) (sets_fts d)))"
      using i by (auto simp: sets_inv_def intro: distinct_map_filter_Not)
    moreover have "fts_key ` {r \<in> set (sets_fts d). fts_key r \<noteq> (mk, md)} = set_key ` set (sets d) - {(mk, md)}"
      unfolding image_but using i by (simp add: sets_inv_def)
    ultimately show ?thesis using that unfolding u by auto
  qed
  have "distinct (map set_key (sets d))" using i by (simp add: sets_inv_def)
  note E = upsert_distinct [OF this, of "set_table_row x now m etag"]
  let ?d = "set_written x now m etag fs d"
  have f: "sets ?d = upsert_row (set_table_row x now m etag) (sets d)" "files ?d = ?old @ ?new"
    "tags ?d = filter (Not \<circ> tag_of mk md) (tags d) @ set_tag_rows mk md fs"
    by (simp_all add: set_written_def Let_def k)
  obtain r where r: "sets_fts ?d = filter (Not \<circ> fts_of mk md) (sets_fts d) @ [r]" "fts_key r = (mk, md)"
    by (simp add: set_written_def Let_def k fts_key_def)
  show ?thesis
    unfolding sets_inv_def f r(1) upsert_keys sk using A B C D [OF r(2)] E by blast
qed

end
