(* ===== verification/Meta_Toml.thy ===== *)
theory Meta_Toml imports Meta begin

text \<open>
  A reference reader for the subset of TOML that \<^verbatim>\<open>meta::to_toml\<close> writes (basic strings with
  escapes, arrays of strings, booleans, \<^verbatim>\<open>[set]\<close> and \<^verbatim>\<open>[[files]]\<close>), after the TOML 1.0 grammar, and
  the decoding of the tables into the structs as serde derives it. The lemmas show that the
  writer's quoting is prefix-free and injection-safe and that the reader returns what was written,
  with empty optional strings read back as absent. It is the specification of the serializer: no
  definition of this theory translates code of the repository.
\<close>

datatype tval = TStr string | TArr "string list" | TBool bool

section \<open>Reading values\<close>

definition toml_control :: "char \<Rightarrow> bool" where
  "toml_control c \<longleftrightarrow> byte c < 32 \<and> byte c \<noteq> 9 \<or> byte c = 127"

definition unescape :: "char \<Rightarrow> char option" where
  "unescape c =
     (if c = CHR ''n'' then Some (CHR 0x0A) else if c = CHR ''t'' then Some (CHR 0x09)
      else if c = CHR ''r'' then Some (CHR 0x0D) else if c = CHR ''b'' then Some (CHR 0x08)
      else if c = CHR ''f'' then Some (CHR 0x0C)
      else if c = CHR 0x22 \<or> c = CHR 0x5C then Some c else None)"

text \<open>The rest of a basic string after its opening quote, and what follows the closing one.\<close>

fun read_str :: "string \<Rightarrow> (string \<times> string) option" where
  "read_str [] = None"
| "read_str (c # s) =
     (if c = CHR 0x22 then Some ([], s)
      else if c = CHR 0x5C then
        (case s of [] \<Rightarrow> None
         | d # s' \<Rightarrow> (case unescape d of None \<Rightarrow> None
             | Some u \<Rightarrow> map_option (apfst ((#) u)) (read_str s')))
      else if toml_control c then None
      else map_option (apfst ((#) c)) (read_str s))"

fun skip_blank :: "string \<Rightarrow> string" where
  "skip_blank [] = []"
| "skip_blank (c # s) = (if c = CHR '' '' \<or> c = CHR 0x09 then skip_blank s else c # s)"

text \<open>Array elements; the fuel is the length of the text.\<close>

fun read_items :: "nat \<Rightarrow> string \<Rightarrow> (string list \<times> string) option" where
  "read_items 0 s = None"
| "read_items (Suc n) s =
     (case skip_blank s of
        [] \<Rightarrow> None
      | c # s1 \<Rightarrow>
          if c = CHR '']'' then Some ([], s1)
          else if c = CHR 0x22 then
            (case read_str s1 of None \<Rightarrow> None
             | Some (v, s2) \<Rightarrow>
                 (case skip_blank s2 of
                    [] \<Rightarrow> None
                  | d # s3 \<Rightarrow>
                      if d = CHR '','' then map_option (apfst ((#) v)) (read_items n s3)
                      else if d = CHR '']'' then Some ([v], s3)
                      else None))
          else None)"

definition read_val :: "string \<Rightarrow> (tval \<times> string) option" where
  "read_val s = (case s of
       [] \<Rightarrow> None
     | c # r \<Rightarrow>
         if c = CHR 0x22 then map_option (apfst TStr) (read_str r)
         else if c = CHR ''['' then map_option (apfst TArr) (read_items (length s) r)
         else case strip_prefix ''true'' s of Some r' \<Rightarrow> Some (TBool True, r')
              | None \<Rightarrow> map_option (\<lambda>r'. (TBool False, r')) (strip_prefix ''false'' s))"

definition bare_key :: "char \<Rightarrow> bool" where
  "bare_key c \<longleftrightarrow> ascii_alnum c \<or> c = CHR ''_'' \<or> c = CHR ''-''"

text \<open>One \<^verbatim>\<open>key = value\<close> line.\<close>

definition read_kv :: "string \<Rightarrow> (string \<times> tval) option" where
  "read_kv l = (case split_once (CHR ''='') l of
       None \<Rightarrow> None
     | Some (a, b) \<Rightarrow>
         let k = rev (skip_blank (rev a)) in
         if k = [] \<or> \<not> list_all bare_key k then None
         else case read_val (skip_blank b) of
             None \<Rightarrow> None
           | Some (v, r) \<Rightarrow> if skip_blank r = [] then Some (k, v) else None)"

section \<open>Reading a document\<close>

text \<open>The lines up to the next header, blank lines skipped; TOML rejects a duplicate key.\<close>

fun read_kvs :: "string list \<Rightarrow> ((string \<times> tval) list \<times> string list) option" where
  "read_kvs [] = Some ([], [])"
| "read_kvs (l # ls) =
     (if skip_blank l = [] then read_kvs ls
      else if hd (skip_blank l) = CHR ''['' then Some ([], l # ls)
      else case read_kv l of None \<Rightarrow> None
           | Some (k, v) \<Rightarrow> (case read_kvs ls of None \<Rightarrow> None
               | Some (kvs, r) \<Rightarrow> if k \<in> fst ` set kvs then None else Some ((k, v) # kvs, r)))"

fun read_tables :: "nat \<Rightarrow> string list \<Rightarrow> (string \<times> tval) list list option" where
  "read_tables 0 ls = None"
| "read_tables (Suc n) [] = Some []"
| "read_tables (Suc n) (l # ls) =
     (if l = ''[[files]]'' then
        (case read_kvs ls of None \<Rightarrow> None
         | Some (kvs, r) \<Rightarrow> map_option ((#) kvs) (read_tables n r))
      else None)"

definition read_doc :: "string \<Rightarrow> ((string \<times> tval) list \<times> (string \<times> tval) list list) option" where
  "read_doc t = (case split_on (CHR 0x0A) t of
       [] \<Rightarrow> None
     | l # ls \<Rightarrow>
         if l = ''[set]'' then
           (case read_kvs ls of None \<Rightarrow> None
            | Some (kvs, r) \<Rightarrow> map_option (Pair kvs) (read_tables (Suc (length r)) r))
         else None)"

section \<open>Decoding into the structs\<close>

text \<open>\<^verbatim>\<open>serde\<close> with \<^verbatim>\<open>default\<close>: an absent key takes the default, a key of the wrong type is an error.\<close>

definition get_str :: "string \<Rightarrow> (string \<times> tval) list \<Rightarrow> string option option" where
  "get_str k kvs = (case map_of kvs k of None \<Rightarrow> Some None | Some (TStr s) \<Rightarrow> Some (Some s) | _ \<Rightarrow> None)"

definition get_time :: "'z meta_ext_scheme \<Rightarrow> string \<Rightarrow> (string \<times> tval) list \<Rightarrow> datetime option option" where
  "get_time x k kvs = (case get_str k kvs of
       None \<Rightarrow> None
     | Some None \<Rightarrow> Some None
     | Some (Some s) \<Rightarrow> map_option Some (from_rfc3339 x s))"

definition get_bool :: "string \<Rightarrow> (string \<times> tval) list \<Rightarrow> bool option" where
  "get_bool k kvs = (case map_of kvs k of None \<Rightarrow> Some False | Some (TBool b) \<Rightarrow> Some b | _ \<Rightarrow> None)"

definition get_arr :: "string \<Rightarrow> (string \<times> tval) list \<Rightarrow> string list option" where
  "get_arr k kvs = (case map_of kvs k of None \<Rightarrow> Some [] | Some (TArr a) \<Rightarrow> Some a | _ \<Rightarrow> None)"

definition decode_file :: "(string \<times> tval) list \<Rightarrow> file_meta option" where
  "decode_file kvs =
     (case (get_str ''path'' kvs, get_str ''sha256'' kvs, get_str ''license'' kvs,
            get_str ''notes'' kvs, get_arr ''tags'' kvs) of
        (Some (Some p), Some h, Some l, Some n, Some t) \<Rightarrow>
          Some \<lparr>fm_path = p, fm_sha256 = h, fm_license = l, fm_notes = n, fm_tags = t\<rparr>
      | _ \<Rightarrow> None)"

definition decode_set :: "'z meta_ext_scheme \<Rightarrow> (string \<times> tval) list \<Rightarrow> set_meta option" where
  "decode_set x kvs =
     (case (get_str ''maker'' kvs, get_str ''model'' kvs, get_str ''license'' kvs,
            get_str ''uploaded_by'' kvs, get_time x ''uploaded_at'' kvs, get_str ''notes'' kvs,
            get_bool ''special'' kvs) of
        (Some (Some mk), Some (Some md), Some l, Some ub, Some ua, Some n, Some sp) \<Rightarrow>
          (case (get_time x ''approved_at'' kvs, get_str ''approved_by'' kvs,
                 get_time x ''approved_initial_at'' kvs, get_str ''approved_initial_by'' kvs) of
             (Some aa, Some ab, Some ia, Some ib) \<Rightarrow>
               Some \<lparr>sm_maker = mk, sm_model = md,
                     sm_license = (case l of None \<Rightarrow> DEFAULT_LICENSE | Some l' \<Rightarrow> l'),
                     sm_uploaded_by = ub, sm_uploaded_at = ua, sm_notes = n, sm_special = sp,
                     sm_approved_at = aa, sm_approved_by = ab,
                     sm_approved_initial_at = ia, sm_approved_initial_by = ib\<rparr>
           | _ \<Rightarrow> None)
      | _ \<Rightarrow> None)"

definition read_toml :: "'z meta_ext_scheme \<Rightarrow> string \<Rightarrow> rawdb_meta option" where
  "read_toml x t = (case read_doc t of
       None \<Rightarrow> None
     | Some (skv, fkvs) \<Rightarrow>
         (case (decode_set x skv, those (map decode_file fkvs)) of
            (Some s, Some fs) \<Rightarrow> Some \<lparr>rm_set = s, rm_files = fs\<rparr>
          | _ \<Rightarrow> None))"

section \<open>Quoting\<close>

definition esc1 :: "char \<Rightarrow> string" where
  "esc1 c = (if c = CHR 0x5C then [CHR 0x5C, CHR 0x5C] else if c = CHR 0x22 then [CHR 0x5C, CHR 0x22]
     else if c = CHR 0x0A then CHR 0x5C # ''n'' else if c = CHR 0x09 then CHR 0x5C # ''t'' else [c])"

text \<open>The strings TOML can carry as \<^verbatim>\<open>to_toml\<close> writes them: no control character it leaves raw.\<close>

definition clean_str :: "string \<Rightarrow> bool" where
  "clean_str s \<longleftrightarrow> list_all (\<lambda>c. toml_control c \<longrightarrow> c = CHR 0x0A) s"

fun clean_val :: "tval \<Rightarrow> bool" where
  "clean_val (TStr s) = clean_str s"
| "clean_val (TArr a) = list_all clean_str a"
| "clean_val (TBool b) = True"

lemma q_esc: "q s = CHR 0x22 # concat (map esc1 s) @ [CHR 0x22]"
proof -
  have "replace_char (CHR 0x09) (CHR 0x5C # ''t'') (replace_char (CHR 0x0A) (CHR 0x5C # ''n'')
      (replace_char (CHR 0x22) [CHR 0x5C, CHR 0x22] (replace_char (CHR 0x5C) [CHR 0x5C, CHR 0x5C] s)))
      = concat (map esc1 s)"
    by (induction s) (auto simp: esc1_def)
  then show ?thesis by (simp add: q_def)
qed

lemma esc1_simps:
  "esc1 (CHR 0x5C) = [CHR 0x5C, CHR 0x5C]" "esc1 (CHR 0x22) = [CHR 0x5C, CHR 0x22]"
  "esc1 (CHR 0x0A) = CHR 0x5C # ''n''" "esc1 (CHR 0x09) = CHR 0x5C # ''t''"
  "c \<noteq> CHR 0x5C \<Longrightarrow> c \<noteq> CHR 0x22 \<Longrightarrow> c \<noteq> CHR 0x0A \<Longrightarrow> c \<noteq> CHR 0x09 \<Longrightarrow> esc1 c = [c]"
  by (simp_all add: esc1_def)

lemma control_quote [simp]: "\<not> toml_control (CHR 0x22)" "\<not> toml_control (CHR 0x5C)"
  by (simp_all add: toml_control_def byte_def)

lemma read_str_esc:
  "clean_str s \<Longrightarrow> read_str (concat (map esc1 s) @ CHR 0x22 # r) = Some (s, r)"
proof (induction s)
  case (Cons c s)
  then have IH: "read_str (concat (map esc1 s) @ CHR 0x22 # r) = Some (s, r)"
    and c: "toml_control c \<longrightarrow> c = CHR 0x0A" by (auto simp: clean_str_def)
  consider "c = CHR 0x5C" | "c = CHR 0x22" | "c = CHR 0x0A" | "c = CHR 0x09"
    | "c \<noteq> CHR 0x5C" "c \<noteq> CHR 0x22" "c \<noteq> CHR 0x0A" "c \<noteq> CHR 0x09" by blast
  then show ?case using IH c by cases (simp_all add: esc1_simps unescape_def)
qed simp

lemma read_str_q: "clean_str s \<Longrightarrow> read_str (tl (q s) @ r) = Some (s, r)"
  by (simp add: q_esc read_str_esc)

lemma q_hd: "q s = CHR 0x22 # tl (q s)"
  by (simp add: q_esc)

lemma q_no_nl: "CHR 0x0A \<notin> set (q s)"
  by (auto simp: q_esc esc1_def split: if_splits)

lemma skip_blank_Cons: "c \<noteq> CHR '' '' \<Longrightarrow> c \<noteq> CHR 0x09 \<Longrightarrow> skip_blank (c # s) = c # s"
  by simp

lemma skip_blank_q [simp]: "skip_blank (q s @ r) = q s @ r" "skip_blank (q s) = q s"
  by (subst (1 2) q_hd, simp)+

lemma read_items_arr:
  "list_all clean_str items \<Longrightarrow> length items < n \<Longrightarrow>
   read_items n (join '', '' (map q items) @ CHR '']'' # r) = Some (items, r)"
proof (induction items arbitrary: n)
  case Nil
  then show ?case by (cases n) auto
next
  case (Cons s ss)
  then obtain m where n: "n = Suc m" by (cases n) auto
  obtain w where w: "q s = CHR 0x22 # w" "\<And>t. read_str (w @ t) = Some (s, t)"
    using q_hd [of s] read_str_q [of s] Cons.prems by auto
  show ?case
  proof (cases ss)
    case Nil
    then show ?thesis using n w by simp
  next
    case (Cons s' ss')
    have "read_items m (CHR '' '' # u) = read_items m u" for u
      by (cases m) auto
    then show ?thesis
      using n w Cons Cons.IH [of m] Cons.prems by simp
  qed
qed

section \<open>Documents\<close>

definition pv :: "tval \<Rightarrow> string" where
  "pv v = (case v of TStr s \<Rightarrow> q s | TArr a \<Rightarrow> arr a | TBool b \<Rightarrow> if b then ''true'' else ''false'')"

definition kv_line :: "string \<times> tval \<Rightarrow> string" where
  "kv_line kv = fst kv @ '' = '' @ pv (snd kv)"

definition good_key :: "string \<Rightarrow> bool" where
  "good_key k \<longleftrightarrow> k \<noteq> [] \<and> list_all bare_key k"

lemma length_join: "length items \<le> length (join '', '' (map q items))"
proof (induction items)
  case (Cons s ss)
  then show ?case by (cases ss) (simp_all add: q_esc)
qed simp

lemma read_val_pv: "clean_val v \<Longrightarrow> read_val (pv v) = Some (v, [])"
proof (cases v)
  case (TStr s)
  assume "clean_val v"
  then obtain w where w: "q s = CHR 0x22 # w" "\<And>t. read_str (w @ t) = Some (s, t)"
    using q_hd [of s] read_str_q [of s] TStr by auto
  from w(2) [of "[]"] show ?thesis by (simp add: TStr pv_def read_val_def w(1))
next
  case (TArr a)
  assume c: "clean_val v"
  have "read_items (length (arr a)) (join '', '' (map q a) @ CHR '']'' # []) = Some (a, [])"
    using c TArr length_join [of a] by (intro read_items_arr) (auto simp: arr_def)
  then show ?thesis by (simp add: TArr pv_def read_val_def arr_def)
qed (auto simp: pv_def read_val_def)

lemma pv_hd: "\<exists>c w. pv v = c # w \<and> c \<noteq> CHR '' '' \<and> c \<noteq> CHR 0x09"
  by (cases v) (auto simp: pv_def arr_def q_esc)

lemma skip_blank_pv [simp]: "skip_blank (pv v) = pv v"
  using pv_hd [of v] by auto

lemma bare_key_chars: "bare_key c \<Longrightarrow> c \<noteq> CHR ''='' \<and> c \<noteq> CHR '' '' \<and> c \<noteq> CHR 0x09 \<and> c \<noteq> CHR ''[''"
  by (auto simp: bare_key_def ascii_alnum_def in_range_def)

lemma read_kv_line:
  assumes k: "good_key k" and v: "clean_val v"
  shows "read_kv (kv_line (k, v)) = Some (k, v)"
proof -
  have "CHR ''='' \<notin> set (k @ '' '')" using k by (auto simp: good_key_def list_all_iff dest: bare_key_chars)
  then have "split_once (CHR ''='') (kv_line (k, v)) = Some (k @ '' '', '' '' @ pv v)"
    by (simp add: split_once_Some kv_line_def)
  moreover have "skip_blank (rev k) = rev k"
    using k by (cases k rule: rev_cases) (auto simp: good_key_def dest: bare_key_chars)
  ultimately show ?thesis
    using k v by (simp add: read_kv_def good_key_def read_val_pv)
qed

lemma kv_line_head: "good_key k \<Longrightarrow> skip_blank (kv_line (k, v)) = kv_line (k, v)
    \<and> kv_line (k, v) \<noteq> [] \<and> hd (kv_line (k, v)) \<noteq> CHR ''[''"
  by (cases k) (auto simp: good_key_def kv_line_def dest: bare_key_chars)

lemma read_kvs_lines:
  "\<forall>(k, v)\<in>set kvs. good_key k \<and> clean_val v \<Longrightarrow> distinct (map fst kvs)
   \<Longrightarrow> read_kvs ls = Some ([], r) \<Longrightarrow> read_kvs (map kv_line kvs @ ls) = Some (kvs, r)"
proof (induction kvs)
  case (Cons kv kvs)
  obtain k v where kv: "kv = (k, v)" by (cases kv)
  with Cons.prems have "good_key k" "clean_val v" by auto
  then show ?case using Cons kv_line_head [of k v] by (auto simp: kv read_kv_line)
qed simp

definition opt_kv :: "string \<Rightarrow> string option \<Rightarrow> (string \<times> tval) list" where
  "opt_kv k v = (case v of Some s \<Rightarrow> if s = [] then [] else [(k, TStr s)] | None \<Rightarrow> [])"

definition time_kv :: "'z meta_ext_scheme \<Rightarrow> string \<Rightarrow> datetime option \<Rightarrow> (string \<times> tval) list" where
  "time_kv x k v = (case v of Some t \<Rightarrow> [(k, TStr (to_rfc3339 x t))] | None \<Rightarrow> [])"

definition set_kvs :: "'z meta_ext_scheme \<Rightarrow> set_meta \<Rightarrow> (string \<times> tval) list" where
  "set_kvs x s =
     [(''maker'', TStr (sm_maker s)), (''model'', TStr (sm_model s)), (''license'', TStr (sm_license s))]
     @ opt_kv ''uploaded_by'' (sm_uploaded_by s) @ time_kv x ''uploaded_at'' (sm_uploaded_at s)
     @ time_kv x ''approved_at'' (sm_approved_at s) @ opt_kv ''approved_by'' (sm_approved_by s)
     @ time_kv x ''approved_initial_at'' (sm_approved_initial_at s)
     @ opt_kv ''approved_initial_by'' (sm_approved_initial_by s) @ opt_kv ''notes'' (sm_notes s)
     @ (if sm_special s then [(''special'', TBool True)] else [])"

definition file_kvs :: "file_meta \<Rightarrow> (string \<times> tval) list" where
  "file_kvs f =
     [(''path'', TStr (fm_path f))] @ opt_kv ''sha256'' (fm_sha256 f) @ opt_kv ''license'' (fm_license f)
     @ (if fm_tags f = [] then [] else [(''tags'', TArr (fm_tags f))]) @ opt_kv ''notes'' (fm_notes f)"

definition file_lines :: "file_meta \<Rightarrow> string list" where
  "file_lines f = [] # ''[[files]]'' # map kv_line (file_kvs f)"

definition unlines :: "string list \<Rightarrow> string" where
  "unlines ls = concat (map (\<lambda>l. l @ nl) ls)"

lemma unlines_simps [simp]: "unlines [] = []" "unlines (l # ls) = l @ nl @ unlines ls"
  "unlines (a @ b) = unlines a @ unlines b"
  by (simp_all add: unlines_def)

lemma line_bundle:
  "str_line k s = unlines (map kv_line [(k, TStr s)])"
  "opt_line k v = unlines (map kv_line (opt_kv k v))"
  "time_line x k t = unlines (map kv_line (time_kv x k t))"
  by (auto simp: str_line_def kv_line_def pv_def opt_line_def opt_kv_def time_line_def time_kv_def
      split: option.splits)

lemma file_toml_lines: "file_toml f = unlines (file_lines f)"
  by (simp add: file_toml_def file_lines_def file_kvs_def line_bundle)
     (simp add: kv_line_def pv_def)

lemma set_toml_lines: "set_toml x s = unlines (''[set]'' # map kv_line (set_kvs x s))"
  by (simp add: set_toml_def set_kvs_def line_bundle) (simp add: kv_line_def pv_def)

lemma to_toml_lines:
  "to_toml x m = unlines (''[set]'' # map kv_line (set_kvs x (rm_set m)) @ concat (map file_lines (rm_files m)))"
proof -
  have "concat (map file_toml fs) = unlines (concat (map file_lines fs))" for fs
    by (induction fs) (simp_all add: file_toml_lines)
  then show ?thesis by (simp add: to_toml_def set_toml_lines)
qed

lemma join_no_nl: "\<forall>s\<in>set ss. CHR 0x0A \<notin> set s \<Longrightarrow> CHR 0x0A \<notin> set (join '', '' ss)"
proof (induction ss)
  case (Cons s ss)
  then show ?case by (cases ss) auto
qed simp

lemma kv_line_no_nl: "good_key k \<Longrightarrow> CHR 0x0A \<notin> set (kv_line (k, v))"
proof -
  assume "good_key k"
  then have "CHR 0x0A \<notin> set k" by (auto simp: good_key_def list_all_iff bare_key_def ascii_alnum_def in_range_def)
  moreover have "CHR 0x0A \<notin> set (pv v)"
    using join_no_nl [of "map q (case v of TArr a \<Rightarrow> a)"] by (cases v) (auto simp: pv_def q_no_nl arr_def)
  ultimately show ?thesis by (simp add: kv_line_def)
qed

section \<open>Round trip\<close>

text \<open>What a value reads back as: an empty optional string is not written, so it comes back absent.\<close>

definition norm_opt :: "string option \<Rightarrow> string option" where
  "norm_opt v = (if v = Some [] then None else v)"

definition norm_file :: "file_meta \<Rightarrow> file_meta" where
  "norm_file f = f \<lparr>fm_sha256 := norm_opt (fm_sha256 f), fm_license := norm_opt (fm_license f),
                    fm_notes := norm_opt (fm_notes f)\<rparr>"

definition norm_set :: "set_meta \<Rightarrow> set_meta" where
  "norm_set s = s \<lparr>sm_uploaded_by := norm_opt (sm_uploaded_by s), sm_notes := norm_opt (sm_notes s),
                   sm_approved_by := norm_opt (sm_approved_by s),
                   sm_approved_initial_by := norm_opt (sm_approved_initial_by s)\<rparr>"

definition norm_meta :: "rawdb_meta \<Rightarrow> rawdb_meta" where
  "norm_meta m = \<lparr>rm_set = norm_set (rm_set m), rm_files = map norm_file (rm_files m)\<rparr>"

definition clean_opt :: "string option \<Rightarrow> bool" where
  "clean_opt v = (case v of None \<Rightarrow> True | Some s \<Rightarrow> clean_str s)"

definition clean_set :: "set_meta \<Rightarrow> bool" where
  "clean_set s \<longleftrightarrow> clean_str (sm_maker s) \<and> clean_str (sm_model s) \<and> clean_str (sm_license s)
     \<and> clean_opt (sm_uploaded_by s) \<and> clean_opt (sm_notes s) \<and> clean_opt (sm_approved_by s)
     \<and> clean_opt (sm_approved_initial_by s)"

definition clean_file :: "file_meta \<Rightarrow> bool" where
  "clean_file f \<longleftrightarrow> clean_str (fm_path f) \<and> clean_opt (fm_sha256 f) \<and> clean_opt (fm_license f)
     \<and> clean_opt (fm_notes f) \<and> list_all clean_str (fm_tags f)"

definition clean_meta :: "rawdb_meta \<Rightarrow> bool" where
  "clean_meta m \<longleftrightarrow> clean_set (rm_set m) \<and> list_all clean_file (rm_files m)"

text \<open>The documented behaviour of \<^verbatim>\<open>chrono\<close>: an RFC 3339 text is printable and parses back.\<close>

definition time_ok :: "'z meta_ext_scheme \<Rightarrow> bool" where
  "time_ok x \<longleftrightarrow> (\<forall>t. clean_str (to_rfc3339 x t) \<and> from_rfc3339 x (to_rfc3339 x t) = Some t)"

lemma map_of_opt_kv: "map_of (opt_kv k v) = (\<lambda>j. if j = k then map_option TStr (norm_opt v) else None)"
  by (auto simp: opt_kv_def norm_opt_def fun_eq_iff split: option.splits)

lemma map_of_time_kv:
  "map_of (time_kv x k v) = (\<lambda>j. if j = k then map_option (\<lambda>t. TStr (to_rfc3339 x t)) v else None)"
  by (auto simp: time_kv_def fun_eq_iff split: option.splits)

lemma decode_file_kvs: "decode_file (file_kvs f) = Some (norm_file f)"
  by (simp add: decode_file_def file_kvs_def get_str_def get_arr_def map_add_def map_of_opt_kv norm_file_def
      split: option.splits)

lemma get_str_kvs:
  assumes "map_of kvs k = map_option TStr v" shows "get_str k kvs = Some v"
  using assms by (cases v) (auto simp: get_str_def)

lemma get_time_kvs:
  assumes "time_ok x" "map_of kvs k = map_option (\<lambda>t. TStr (to_rfc3339 x t)) v"
  shows "get_time x k kvs = Some v"
  using assms by (cases v) (auto simp: get_time_def get_str_def time_ok_def)

lemma lookup_set_kvs:
  "map_of (set_kvs x s) ''maker'' = Some (TStr (sm_maker s))"
  "map_of (set_kvs x s) ''model'' = Some (TStr (sm_model s))"
  "map_of (set_kvs x s) ''license'' = Some (TStr (sm_license s))"
  "map_of (set_kvs x s) ''uploaded_by'' = map_option TStr (norm_opt (sm_uploaded_by s))"
  "map_of (set_kvs x s) ''notes'' = map_option TStr (norm_opt (sm_notes s))"
  "map_of (set_kvs x s) ''approved_by'' = map_option TStr (norm_opt (sm_approved_by s))"
  "map_of (set_kvs x s) ''approved_initial_by'' = map_option TStr (norm_opt (sm_approved_initial_by s))"
  "map_of (set_kvs x s) ''uploaded_at'' = map_option (\<lambda>t. TStr (to_rfc3339 x t)) (sm_uploaded_at s)"
  "map_of (set_kvs x s) ''approved_at'' = map_option (\<lambda>t. TStr (to_rfc3339 x t)) (sm_approved_at s)"
  "map_of (set_kvs x s) ''approved_initial_at'' =
     map_option (\<lambda>t. TStr (to_rfc3339 x t)) (sm_approved_initial_at s)"
  "map_of (set_kvs x s) ''special'' = (if sm_special s then Some (TBool True) else None)"
  by (simp_all add: set_kvs_def map_add_def map_of_opt_kv map_of_time_kv option.case_eq_if)

lemma decode_set_kvs: "time_ok x \<Longrightarrow> decode_set x (set_kvs x s) = Some (norm_set s)"
proof -
  assume t: "time_ok x"
  note gs = get_str_kvs [of "set_kvs x s"] and gt = get_time_kvs [OF t, of "set_kvs x s"]
  have "get_str ''maker'' (set_kvs x s) = Some (Some (sm_maker s))"
    "get_str ''model'' (set_kvs x s) = Some (Some (sm_model s))"
    "get_str ''license'' (set_kvs x s) = Some (Some (sm_license s))"
    "get_bool ''special'' (set_kvs x s) = Some (sm_special s)"
    by (simp_all add: get_str_def get_bool_def lookup_set_kvs)
  then show ?thesis
    by (simp add: decode_set_def norm_set_def gs [OF lookup_set_kvs(4)] gs [OF lookup_set_kvs(5)]
        gs [OF lookup_set_kvs(6)] gs [OF lookup_set_kvs(7)] gt [OF lookup_set_kvs(8)]
        gt [OF lookup_set_kvs(9)] gt [OF lookup_set_kvs(10)])
qed

lemma good_keys [simp]:
  "good_key ''maker''" "good_key ''model''" "good_key ''license''" "good_key ''uploaded_by''"
  "good_key ''uploaded_at''" "good_key ''approved_at''" "good_key ''approved_by''"
  "good_key ''approved_initial_at''" "good_key ''approved_initial_by''" "good_key ''notes''"
  "good_key ''special''" "good_key ''path''" "good_key ''sha256''" "good_key ''tags''"
  by (simp_all add: good_key_def bare_key_def ascii_alnum_def in_range_def less_eq_char_def)

lemma opt_kv_ok: "(j, v) \<in> set (opt_kv k s) \<Longrightarrow> clean_opt s \<Longrightarrow> j = k \<and> clean_val v"
  by (auto simp: opt_kv_def clean_opt_def split: option.splits if_splits)

lemma time_kv_ok: "(j, v) \<in> set (time_kv x k t) \<Longrightarrow> time_ok x \<Longrightarrow> j = k \<and> clean_val v"
  by (auto simp: time_kv_def time_ok_def split: option.splits)

lemma file_kvs_ok: "clean_file f \<Longrightarrow> \<forall>(k, v)\<in>set (file_kvs f). good_key k \<and> clean_val v"
  by (auto simp: file_kvs_def clean_file_def dest!: opt_kv_ok split: if_splits)

lemma set_kvs_ok:
  "clean_set s \<Longrightarrow> time_ok x \<Longrightarrow> \<forall>(k, v)\<in>set (set_kvs x s). good_key k \<and> clean_val v"
  by (auto simp: set_kvs_def clean_set_def dest!: opt_kv_ok time_kv_ok split: if_splits)

text \<open>Key lists built from optional entries with distinct keys are distinct.\<close>

definition keyed :: "string list \<Rightarrow> (string \<times> tval) list \<Rightarrow> bool" where
  "keyed ks kvs \<longleftrightarrow> distinct (map fst kvs) \<and> fst ` set kvs \<subseteq> set ks"

lemma keyed_append: "keyed [k] a \<Longrightarrow> keyed ks b \<Longrightarrow> k \<notin> set ks \<Longrightarrow> keyed (k # ks) (a @ b)"
  by (auto simp: keyed_def)

lemma keyed_Cons: "keyed ks b \<Longrightarrow> k \<notin> set ks \<Longrightarrow> keyed (k # ks) ((k, v) # b)"
  by (auto simp: keyed_def)

lemma keyed_one: "keyed [k] (opt_kv k s)" "keyed [k] (time_kv x k t)"
  "keyed [k] (if b then [] else [(k, v)])" "keyed [k] (if b then [(k, v)] else [])"
  by (auto simp: keyed_def opt_kv_def time_kv_def split: option.splits)

lemma file_kvs_distinct: "distinct (map fst (file_kvs f))"
proof -
  have "keyed [''path'', ''sha256'', ''license'', ''tags'', ''notes''] (file_kvs f)"
    unfolding file_kvs_def append_Cons append_Nil by (intro keyed_Cons keyed_append keyed_one) simp_all
  then show ?thesis by (simp add: keyed_def)
qed

lemma set_kvs_distinct: "distinct (map fst (set_kvs x s))"
proof -
  have "keyed [''maker'', ''model'', ''license'', ''uploaded_by'', ''uploaded_at'', ''approved_at'',
      ''approved_by'', ''approved_initial_at'', ''approved_initial_by'', ''notes'', ''special'']
     (set_kvs x s)"
    unfolding set_kvs_def append_Cons append_Nil by (intro keyed_Cons keyed_append keyed_one) simp_all
  then show ?thesis by (simp add: keyed_def)
qed

lemma read_kvs_header: "read_kvs ([] # ''[[files]]'' # ls) = Some ([], ''[[files]]'' # ls)"
  "read_kvs [[]] = Some ([], [])"
  by simp_all

lemma read_kvs_files:
  "read_kvs (concat (map file_lines fs) @ [[]]) =
     Some ([], case fs of [] \<Rightarrow> [] | f # fs' \<Rightarrow> ''[[files]]'' # map kv_line (file_kvs f)
                                          @ concat (map file_lines fs') @ [[]])"
  by (cases fs) (simp_all add: file_lines_def)

lemma read_tables_files:
  "list_all clean_file (f # fs) \<Longrightarrow> length fs + 1 < n \<Longrightarrow>
   read_tables n (''[[files]]'' # map kv_line (file_kvs f) @ concat (map file_lines fs) @ [[]])
     = Some (map file_kvs (f # fs))"
proof (induction fs arbitrary: f n)
  case Nil
  then obtain m where n: "n = Suc (Suc m)" by (cases n; cases "n - 1") auto
  have "read_kvs (map kv_line (file_kvs f) @ [[]]) = Some (file_kvs f, [])"
    using Nil file_kvs_ok by (intro read_kvs_lines) (auto simp: file_kvs_distinct)
  then show ?case using n by simp
next
  case (Cons g fs)
  then obtain m where n: "n = Suc m" "length fs + 1 < m" by (cases n) auto
  have "read_kvs (map kv_line (file_kvs f) @ concat (map file_lines (g # fs)) @ [[]])
      = Some (file_kvs f, ''[[files]]'' # map kv_line (file_kvs g) @ concat (map file_lines fs) @ [[]])"
    using Cons.prems file_kvs_ok [of f] by (intro read_kvs_lines) (auto simp: file_kvs_distinct file_lines_def)
  moreover have "read_tables m (''[[files]]'' # map kv_line (file_kvs g) @ concat (map file_lines fs) @ [[]])
      = Some (map file_kvs (g # fs))"
    using Cons n by (intro Cons.IH) auto
  ultimately show ?case using n by simp
qed

lemma read_doc_to_toml:
  assumes "clean_meta m" "time_ok x"
  shows "read_doc (to_toml x m) = Some (set_kvs x (rm_set m), map file_kvs (rm_files m))"
proof -
  define ls where "ls = map kv_line (set_kvs x (rm_set m)) @ concat (map file_lines (rm_files m))"
  have c: "clean_set (rm_set m)" "list_all clean_file (rm_files m)" using assms by (auto simp: clean_meta_def)
  have "CHR 0x0A \<notin> set l" if "l \<in> set (''[set]'' # ls)" for l
  proof -
    have "\<exists>k v. good_key k \<and> l = kv_line (k, v)" if "l \<in> kv_line ` set kvs" "\<forall>(k, v)\<in>set kvs. good_key k \<and> clean_val v"
      for kvs using that by auto
    moreover have "l \<in> kv_line ` set (set_kvs x (rm_set m)) \<or> (\<exists>f\<in>set (rm_files m). l \<in> kv_line ` set (file_kvs f))
        \<or> l \<in> {[], ''[[files]]'', ''[set]''}" using that by (auto simp: ls_def file_lines_def split: if_splits)
    ultimately show ?thesis
      using set_kvs_ok [OF c(1) assms(2)] file_kvs_ok c(2) kv_line_no_nl by (fastforce simp: list_all_iff)
  qed
  then have "split_on (CHR 0x0A) (to_toml x m) = ''[set]'' # ls @ [[]]"
    using split_on_lines [of "''[set]'' # ls" "CHR 0x0A"] by (simp add: to_toml_lines unlines_def ls_def)
  moreover have "read_kvs (ls @ [[]]) = Some (set_kvs x (rm_set m), case rm_files m of [] \<Rightarrow> []
      | f # fs' \<Rightarrow> ''[[files]]'' # map kv_line (file_kvs f) @ concat (map file_lines fs') @ [[]])"
    unfolding ls_def append_assoc
    using set_kvs_ok [OF c(1) assms(2)] by (intro read_kvs_lines) (auto simp: set_kvs_distinct read_kvs_files)
  moreover have "read_tables (Suc (length r)) r = Some (map file_kvs (rm_files m))"
    if r: "r = (case rm_files m of [] \<Rightarrow> []
      | f # fs' \<Rightarrow> ''[[files]]'' # map kv_line (file_kvs f) @ concat (map file_lines fs') @ [[]])" for r
  proof (cases "rm_files m")
    case (Cons f fs)
    have "length fs \<le> length (concat (map file_lines fs))"
      by (induction fs) (auto simp: file_lines_def)
    then have "length fs + 1 < Suc (length r)" using r Cons by simp
    then show ?thesis using c(2) r unfolding Cons list.case by (simp only: read_tables_files)
  qed (use r in simp)
  ultimately show ?thesis by (simp add: read_doc_def del: read_tables.simps)
qed

lemma those_map_decode: "those (map decode_file (map file_kvs fs)) = Some (map norm_file fs)"
  by (induction fs) (simp_all add: decode_file_kvs)

lemma read_toml_to_toml:
  "clean_meta m \<Longrightarrow> time_ok x \<Longrightarrow> read_toml x (to_toml x m) = Some (norm_meta m)"
  unfolding read_toml_def by (simp only: read_doc_to_toml option.case prod.case decode_set_kvs
      those_map_decode norm_meta_def)

lemma norm_validate [simp]: "validate (norm_meta m) = validate m"
proof -
  have "validate_files seen (map norm_file fs) = validate_files seen fs" for seen fs
    by (induction fs arbitrary: seen) (simp_all add: norm_file_def)
  then show ?thesis by (simp add: validate_def norm_meta_def norm_set_def)
qed

end
