(* ===== verification/Db_Props.thy ===== *)
theory Db_Props imports Db_Inv Meta_Toml begin

text \<open>
  Preservation of the cache invariant by every write, and what the reads return after a write:
  the written rows for the written key, the rows of before for every other key.
\<close>

section \<open>Preservation\<close>

lemma sets_inv_gens [simp]: "sets_inv (d \<lparr>gens := g\<rparr>) = sets_inv d"
  "pending_inv (d \<lparr>gens := g\<rparr>) = pending_inv d" "users_inv (d \<lparr>gens := g\<rparr>) = users_inv d"
  by (simp_all add: sets_inv_def pending_inv_def users_inv_def pending_fk_def)

lemma inv_bump [simp]: "db_inv (bump k d) = db_inv d"
  by (simp add: bump_def db_inv_def)

lemma sets_inv_deleted: "sets_inv d \<Longrightarrow> sets_inv (set_deleted mk md d)"
proof -
  assume i: "sets_inv d"
  have u: "(Not \<circ> fts_of mk md) = (\<lambda>r. fts_key r \<noteq> (mk, md))" "(Not \<circ> of_set mk md) = (\<lambda>r. set_key r \<noteq> (mk, md))"
    by (auto simp: fts_of_def fts_key_def of_set_def set_key_def)
  have "\<exists>p. t_file_path t = Some p \<and> (t_maker t, t_model t, p) \<in> file_key ` {r \<in> set (files d). \<not> file_of mk md r}"
    if t: "t \<in> set (tags d)" "\<not> tag_of mk md t" for t
  proof -
    obtain p r where "t_file_path t = Some p" "r \<in> set (files d)" "(t_maker t, t_model t, p) = file_key r"
      using i t(1) by (auto simp: sets_inv_def)
    with t(2) show ?thesis by (intro exI [of _ p]) (auto simp: file_key_def tag_of_def file_of_def image_iff)
  qed
  moreover have "(f_maker r, f_model r) \<in> set_key ` set (sets d) - {(mk, md)}"
    if "r \<in> set (files d)" "\<not> file_of mk md r" for r
    using that i by (auto simp: sets_inv_def file_of_def)
  ultimately show ?thesis
    using i by (simp add: sets_inv_def set_deleted_def u image_but distinct_map_filter_Not)
qed

lemma set_written_other [simp]:
  "pending_inv (set_written x now m e fs d) = pending_inv d" "users_inv (set_written x now m e fs d) = users_inv d"
  "pending_inv (set_deleted mk md d) = pending_inv d" "users_inv (set_deleted mk md d) = users_inv d"
  by (simp_all add: set_written_def set_deleted_def Let_def pending_inv_def pending_fk_def users_inv_def)

lemma pending_written_other [simp]:
  "sets_inv (pending_written x now u m e fs d) = sets_inv d"
  "users_inv (pending_written x now u m e fs d) = users_inv d"
  by (simp_all add: pending_written_def sets_inv_def users_inv_def)

lemma pending_inv_fk: "pending_inv d \<Longrightarrow> pending_fk d"
  by (simp add: pending_inv_def)

lemma distinct_tagged1: "distinct (map (\<lambda>p. (a, p)) xs) = distinct xs"
  by (auto simp: distinct_map inj_on_def)

lemma pfile_key_rows: "map pfile_key (pending_file_rows mk md u fs) = map (\<lambda>p. (u, p)) (paths fs)"
  by (auto simp: pending_file_rows_def paths_def pfile_key_def split: prod.splits)

lemma pending_file_rows_of: "r \<in> set (pending_file_rows mk md u fs) \<Longrightarrow> pfile_parent r = (mk, md, u) \<and> pf_upload_id r = u"
  by (auto simp: pending_file_rows_def)

lemma pending_fk_kept:
  assumes "pending_fk d" "r \<in> set (pending_files d)" "pf_upload_id r \<noteq> u"
  shows "pfile_parent r \<in> pset_key ` {q \<in> set (pending_sets d). \<not> pending_of u q}"
proof -
  obtain q where "q \<in> set (pending_sets d)" "pfile_parent r = pset_key q"
    using assms unfolding pending_fk_def by blast
  with assms(3) show ?thesis by (auto simp: pfile_parent_def pset_key_def pending_of_def)
qed

lemma pending_inv_written:
  assumes i: "pending_inv d" and dp: "distinct (paths fs)"
  shows "pending_inv (pending_written x now u m e fs d)"
proof -
  let ?new = "pending_file_rows (sm_maker (rm_set m)) (sm_model (rm_set m)) u fs"
  have nk: "pfile_key ` set ?new \<subseteq> {u} \<times> UNIV"
    using arg_cong [OF pfile_key_rows [of "sm_maker (rm_set m)" "sm_model (rm_set m)" u fs], of set] by auto
  have "distinct (map pfile_key ?new)" using dp by (simp only: pfile_key_rows distinct_tagged1)
  moreover have "distinct (map pfile_key (filter (\<lambda>r. pf_upload_id r \<noteq> u) (pending_files d)))"
    using i by (auto simp: pending_inv_def intro: distinct_map_filter_Not)
  moreover have "pfile_key ` {r \<in> set (pending_files d). pf_upload_id r \<noteq> u} \<inter> pfile_key ` set ?new = {}"
    using nk by (fastforce simp: pfile_key_def)
  moreover have "distinct (map p_upload_id (filter (Not \<circ> pending_of u) (pending_sets d)))"
    "u \<notin> p_upload_id ` {q \<in> set (pending_sets d). \<not> pending_of u q}"
    using i by (auto simp: pending_inv_def pending_of_def intro: distinct_map_filter_Not)
  ultimately show ?thesis
    using pending_fk_kept [OF pending_inv_fk [OF i], of _ u]
    by (auto simp: pending_inv_def pending_written_def pending_fk_def dest: pending_file_rows_of)
qed

lemma pending_inv_deleted:
  assumes i: "pending_inv d"
  shows "pending_inv (d \<lparr>pending_sets := filter (Not \<circ> pending_of u) (pending_sets d),
    pending_files := filter (\<lambda>r. pf_upload_id r \<noteq> u) (pending_files d)\<rparr>)"
  using i pending_fk_kept [OF pending_inv_fk [OF i], of _ u]
  by (auto simp: pending_inv_def pending_fk_def intro!: distinct_map_filter_Not)

lemma insert_roles_eq:
  "insert_roles sub rs d = (if distinct rs \<and> (\<forall>r\<in>set rs. (sub, r) \<notin> set (user_roles d))
     then Inr (d \<lparr>user_roles := user_roles d @ map (Pair sub) rs\<rparr>) else Inl PrimaryKey)"
  by (induction rs arbitrary: d) auto

definition users_written :: "'z meta_ext_scheme \<Rightarrow> user_row list \<Rightarrow> db \<Rightarrow> db" where
  "users_written x us d = d \<lparr>users := users d @ map (user_table_row x) us,
     user_roles := user_roles d @ concat (map (\<lambda>u. map (Pair (ur_sub u)) (ur_roles u)) us)\<rparr>"

lemma u_sub_row [simp]: "u_sub (user_table_row x u) = ur_sub u"
  by (simp add: user_table_row_def)

lemma insert_users_eq:
  assumes "users_inv d"
  shows "insert_users x us d =
    (if distinct (map ur_sub us) \<and> (\<forall>u\<in>set us. ur_sub u \<notin> u_sub ` set (users d) \<and> distinct (ur_roles u))
     then Inr (users_written x us d) else Inl PrimaryKey)"
  using assms
proof (induction us arbitrary: d)
  case Nil
  then show ?case by (simp add: users_written_def)
next
  case (Cons u us)
  let ?d1 = "d \<lparr>users := users d @ [user_table_row x u]\<rparr>"
  let ?d2 = "?d1 \<lparr>user_roles := user_roles d @ map (Pair (ur_sub u)) (ur_roles u)\<rparr>"
  have ex: "list_ex (\<lambda>old. u_sub old = ur_sub u) (users d) \<longleftrightarrow> ur_sub u \<in> u_sub ` set (users d)"
    by (simp add: list_ex_iff image_iff) metis
  show ?case
  proof (cases "ur_sub u \<notin> u_sub ` set (users d) \<and> distinct (ur_roles u)")
    case True
    then have no: "\<forall>r. (ur_sub u, r) \<notin> set (user_roles d)"
      using Cons.prems by (force simp: users_inv_def)
    have i: "users_inv ?d2"
      using Cons.prems True no by (auto simp: users_inv_def distinct_map inj_on_def)
    have "insert_users x (u # us) d = insert_users x us ?d2"
      using True no ex by (simp add: insert_roles_eq)
    also note Cons.IH [OF i]
    also have "(distinct (map ur_sub us) \<and> (\<forall>v\<in>set us. ur_sub v \<notin> u_sub ` set (users ?d2) \<and> distinct (ur_roles v)))
        \<longleftrightarrow> distinct (map ur_sub (u # us)) \<and> (\<forall>v\<in>set (u # us). ur_sub v \<notin> u_sub ` set (users d) \<and> distinct (ur_roles v))"
      using True by (auto simp: image_iff)
    also have "users_written x us ?d2 = users_written x (u # us) d" by (simp add: users_written_def)
    finally show ?thesis .
  next
    case False
    then have "insert_users x (u # us) d = Inl PrimaryKey"
      using ex by (auto simp: insert_roles_eq)
    with False show ?thesis by auto
  qed
qed

text \<open>\<^verbatim>\<open>replace_users\<close> fails exactly when two users share a \<^verbatim>\<open>sub\<close> or a user lists a role twice.\<close>

lemma replace_users_eq:
  "replace_users x etag us d =
    (if distinct (map ur_sub us) \<and> (\<forall>u\<in>set us. distinct (ur_roles u))
     then (Inr (), users_written x us (d \<lparr>user_roles := [], users := []\<rparr>) \<lparr>users_etag := Some etag\<rparr>)
     else (Inl PrimaryKey, d))"
proof -
  have "users_inv (d \<lparr>user_roles := [], users := []\<rparr>)" by (simp add: users_inv_def)
  from insert_users_eq [OF this, of x us] show ?thesis
    by (simp add: replace_users_def commit_def replace_users_tx_def)
qed

lemma users_inv_replaced:
  assumes "distinct (map ur_sub us)" "\<forall>u\<in>set us. distinct (ur_roles u)"
  shows "users_inv (users_written x us (d \<lparr>user_roles := [], users := []\<rparr>) \<lparr>users_etag := e\<rparr>)"
proof -
  have "distinct (concat (map (\<lambda>u. map (Pair (ur_sub u)) (ur_roles u)) us))"
    using assms by (induction us) (auto simp: distinct_map inj_on_def)
  then show ?thesis using assms(1) by (auto simp: users_inv_def users_written_def comp_def image_image)
qed

section \<open>The invariant under every write\<close>

lemma db_inv_empty [simp]: "db_inv empty_db"
  by (simp add: db_inv_def sets_inv_def pending_inv_def pending_fk_def users_inv_def empty_db_def)

lemma upsert_set_inv: "db_inv d \<Longrightarrow> db_inv (snd (upsert_set x now m e fs d))"
  by (auto simp: upsert_set_eq db_inv_def sets_inv_written) (simp_all add: bump_def sets_inv_written)

lemma delete_set_inv: "db_inv d \<Longrightarrow> db_inv (snd (delete_set mk md d))"
  by (simp add: delete_set_eq) (simp add: db_inv_def sets_inv_deleted)

lemma upsert_pending_inv: "db_inv d \<Longrightarrow> db_inv (snd (upsert_pending x now u m e fs d))"
  by (auto simp: upsert_pending_eq pending_inv_fk db_inv_def) (simp_all add: bump_def pending_inv_written)

lemma delete_pending_inv: "db_inv d \<Longrightarrow> db_inv (snd (delete_pending_by_upload_id u d))"
proof -
  assume i: "db_inv d"
  then have "pending_inv d" by (simp add: db_inv_def)
  with i show ?thesis
    by (simp add: delete_pending_eq pending_inv_fk)
      (simp add: db_inv_def pending_inv_deleted, simp add: sets_inv_def users_inv_def)
qed

lemma replace_users_inv: "db_inv d \<Longrightarrow> db_inv (snd (replace_users x e us d))"
  using users_inv_replaced [of us]
  by (auto simp: replace_users_eq db_inv_def)
     (simp_all add: sets_inv_def pending_inv_def pending_fk_def users_written_def)

lemma set_last_scan_inv: "db_inv d \<Longrightarrow> db_inv (snd (set_last_full_scan_at x t d))"
  by (simp add: set_last_full_scan_at_def commit_def)
     (simp add: db_inv_def sets_inv_def pending_inv_def pending_fk_def users_inv_def)

lemmas db_inv_writes = upsert_set_inv delete_set_inv upsert_pending_inv delete_pending_inv
  replace_users_inv set_last_scan_inv

section \<open>Reading back\<close>

lemma find_filter_other: "(\<And>r. P r \<Longrightarrow> Q r) \<Longrightarrow> List.find P (filter Q rows) = List.find P rows"
  by (induction rows) auto

lemma find_filter_none: "(\<And>r. P r \<Longrightarrow> \<not> Q r) \<Longrightarrow> List.find P (filter Q rows) = None"
  by (induction rows) auto

lemma find_append: "List.find P (a @ b) = (case List.find P a of None \<Rightarrow> List.find P b | Some r \<Rightarrow> Some r)"
  by (induction a) auto

lemma find_upsert: "List.find (of_set mk md) (upsert_row r rows) =
    (if s_maker r = mk \<and> s_model r = md then Some r else List.find (of_set mk md) rows)"
proof (cases "s_maker r = mk \<and> s_model r = md")
  case True
  then have P: "of_set mk md r" "s_maker r = mk" "s_model r = md" by (simp_all add: of_set_def)
  have "List.find (of_set mk md) (map (\<lambda>old. if of_set mk md old then r else old) rows) =
      (if list_ex (of_set mk md) rows then Some r else None)"
    using P by (induction rows) simp_all
  moreover have "List.find (of_set mk md) rows = None" if "\<not> list_ex (of_set mk md) rows"
    using that by (simp add: find_None_iff list_ex_iff)
  ultimately show ?thesis using P by (simp add: upsert_row_def find_append)
next
  case False
  then have P: "\<not> of_set mk md r" "\<And>old. of_set (s_maker r) (s_model r) old \<Longrightarrow> \<not> of_set mk md old"
    by (auto simp: of_set_def)
  have "List.find (of_set mk md) (map (\<lambda>old. if of_set (s_maker r) (s_model r) old then r else old) rows) =
      List.find (of_set mk md) rows"
    using P by (induction rows) auto
  then show ?thesis using P False by (auto simp: upsert_row_def find_append split: option.splits)
qed

lemma filter_other: "(\<And>r. P r \<Longrightarrow> Q r) \<Longrightarrow> filter P (filter Q rows) = filter P rows"
  by (induction rows) auto

lemma filter_none: "(\<And>r. P r \<Longrightarrow> \<not> Q r) \<Longrightarrow> filter P (filter Q rows) = []"
  by (induction rows) auto

lemma filter_but_same: "filter P (filter (Not \<circ> P) rows) = []"
  by (rule filter_none) simp

lemma file_of_other: "(mk, md) \<noteq> (mk', md') \<Longrightarrow> filter (file_of mk md) (filter (Not \<circ> file_of mk' md') rows)
    = filter (file_of mk md) rows"
  by (rule filter_other) (auto simp: file_of_def)

lemma tag_of_other: "(mk, md) \<noteq> (mk', md') \<Longrightarrow> filter (tag_of mk md) (filter (Not \<circ> tag_of mk' md') rows)
    = filter (tag_of mk md) rows"
  by (rule filter_other) (auto simp: tag_of_def)

lemma filter_fresh: "(\<And>r. r \<in> set rows \<Longrightarrow> P r) \<Longrightarrow> filter P rows = rows"
  by simp

definition set_row_of :: "rawdb_meta \<Rightarrow> set_row" where
  "set_row_of m = (let s = rm_set m in
     \<lparr>sr_maker = sm_maker s, sr_model = sm_model s, sr_license = sm_license s, sr_notes = sm_notes s,
      sr_uploaded_at = sm_uploaded_at s, sr_uploaded_by = sm_uploaded_by s, sr_special = sm_special s,
      sr_approved_at = sm_approved_at s, sr_approved_by = sm_approved_by s,
      sr_approved_initial_at = sm_approved_initial_at s, sr_approved_initial_by = sm_approved_initial_by s\<rparr>)"

definition file_row_of :: "file_meta \<times> size_info \<Rightarrow> file_row" where
  "file_row_of p = (let f = fst p in
     \<lparr>fr_path = fm_path f, fr_category = category f, fr_extension = extension f, fr_size = si_size (snd p),
      fr_license = fm_license f, fr_notes = fm_notes f, fr_sha256 = fm_sha256 f\<rparr>)"

lemma parse_ts_written: "time_ok x \<Longrightarrow> parse_ts x (map_option (to_rfc3339 x) t) = t"
  by (cases t) (auto simp: parse_ts_def time_ok_def)

lemma row_to_set_written: "time_ok x \<Longrightarrow> row_to_set x (set_table_row x now m e) = set_row_of m"
  by (simp add: row_to_set_def set_table_row_def set_row_of_def Let_def parse_ts_written)

lemma u64_as_i64: "n < 2 ^ 63 \<Longrightarrow> u64_of (as_i64 n) = n"
  by (simp add: u64_of_def as_i64_def Let_def)

lemma row_to_file_written:
  "si_size si < 2 ^ 63 \<Longrightarrow> row_to_file (file_table_row mk md f si) = file_row_of (f, si)"
  by (simp add: row_to_file_def file_table_row_def file_row_of_def u64_as_i64)

lemma get_set_written:
  "first_row (of_set mk md) (sets (set_written x now m e fs d)) =
     (if sm_maker (rm_set m) = mk \<and> sm_model (rm_set m) = md then Some (set_table_row x now m e)
      else first_row (of_set mk md) (sets d))"
  by (simp add: first_row_def set_written_def Let_def find_upsert)

lemma set_files_written:
  "filter (file_of mk md) (files (set_written x now m e fs d)) =
     (if sm_maker (rm_set m) = mk \<and> sm_model (rm_set m) = md then set_file_rows mk md fs
      else filter (file_of mk md) (files d))"
proof -
  have "filter (file_of mk md) (filter (Not \<circ> file_of mk' md') rows) =
      (if mk' = mk \<and> md' = md then [] else filter (file_of mk md) rows)" for mk' md' rows
    using file_of_other [of mk md mk' md' rows] filter_but_same [of "file_of mk md" rows] by auto
  moreover have "filter (file_of mk md) (set_file_rows mk' md' fs) =
      (if mk' = mk \<and> md' = md then set_file_rows mk' md' fs else [])" for mk' md'
    by (auto simp: filter_empty_conv file_of_def intro!: filter_fresh dest: set_file_rows_of)
  ultimately show ?thesis by (simp add: set_written_def Let_def del: filter_filter)
qed

lemma set_tags_written:
  "filter (tag_of mk md) (tags (set_written x now m e fs d)) =
     (if sm_maker (rm_set m) = mk \<and> sm_model (rm_set m) = md then set_tag_rows mk md fs
      else filter (tag_of mk md) (tags d))"
proof -
  have "filter (tag_of mk md) (filter (Not \<circ> tag_of mk' md') rows) =
      (if mk' = mk \<and> md' = md then [] else filter (tag_of mk md) rows)" for mk' md' rows
    using tag_of_other [of mk md mk' md' rows] filter_but_same [of "tag_of mk md" rows] by auto
  moreover have "filter (tag_of mk md) (set_tag_rows mk' md' fs) =
      (if mk' = mk \<and> md' = md then set_tag_rows mk' md' fs else [])" for mk' md'
    by (auto simp: filter_empty_conv tag_of_def intro!: filter_fresh dest: set_tag_rows_ok)
  ultimately show ?thesis by (simp add: set_written_def Let_def del: filter_filter)
qed

lemma file_tags_filter:
  "file_tags mk md d path = map t_tag (filter (\<lambda>r. t_file_path r = Some path)
     (order_by (then_by (by_key t_file_path) (by_key t_tag))
        (filter (\<lambda>r. t_file_path r \<noteq> None) (filter (tag_of mk md) (tags d)))))"
  by (simp add: file_tags_def conj_commute)

text \<open>Everything a reader can learn about one set.\<close>

definition set_view :: "'z meta_ext_scheme \<Rightarrow> string \<Rightarrow> string \<Rightarrow> db
    \<Rightarrow> set_row option \<times> string option \<times> file_row list \<times> (string \<Rightarrow> string list)" where
  "set_view x mk md d = (get_set x mk md d, get_set_meta_etag mk md d, list_files mk md d, file_tags mk md d)"

lemma set_view_written_other:
  "(mk, md) \<noteq> (sm_maker (rm_set m), sm_model (rm_set m)) \<Longrightarrow>
   set_view x mk md (set_written x now m e fs d) = set_view x mk md d"
  by (auto simp: set_view_def get_set_def get_set_meta_etag_def get_set_written list_files_def
      set_files_written file_tags_filter set_tags_written fun_eq_iff)

lemma set_view_deleted_other:
  "(mk, md) \<noteq> (mk', md') \<Longrightarrow> set_view x mk md (set_deleted mk' md' d) = set_view x mk md d"
proof -
  assume n: "(mk, md) \<noteq> (mk', md')"
  have "first_row (of_set mk md) (filter (Not \<circ> of_set mk' md') rows) = first_row (of_set mk md) rows" for rows
    unfolding first_row_def by (rule find_filter_other) (use n in \<open>auto simp: of_set_def\<close>)
  then show ?thesis
    by (simp add: set_view_def get_set_def get_set_meta_etag_def list_files_def file_tags_filter
        set_deleted_def fun_eq_iff file_of_other [OF n] tag_of_other [OF n] del: filter_filter)
qed

lemma set_view_bump [simp]: "set_view x mk md (bump k d) = set_view x mk md d"
  by (simp add: set_view_def get_set_def get_set_meta_etag_def list_files_def file_tags_def bump_def fun_eq_iff)

lemma set_view_deleted:
  "set_view x mk md (set_deleted mk md d) = (None, None, [], \<lambda>_. [])"
proof -
  have "first_row (of_set mk md) (filter (Not \<circ> of_set mk md) rows) = None" for rows
    unfolding first_row_def by (rule find_filter_none) simp
  moreover have "filter (tag_of mk md) (tags (set_deleted mk md d)) = []"
    "filter (file_of mk md) (files (set_deleted mk md d)) = []"
    by (simp_all add: set_deleted_def filter_but_same del: filter_filter)
  ultimately show ?thesis
    unfolding set_view_def get_set_def get_set_meta_etag_def list_files_def file_tags_filter fun_eq_iff
    by (simp add: set_deleted_def fun_eq_iff del: filter_filter)
qed

lemma list_files_written:
  assumes "\<forall>(f, si)\<in>set fs. si_size si < 2 ^ 63"
  shows "mset (list_files (sm_maker (rm_set m)) (sm_model (rm_set m)) (set_written x now m e fs d))
     = mset (map file_row_of fs)"
proof -
  have "row_to_file (file_table_row mk md f si) = file_row_of (f, si)" if "(f, si) \<in> set fs" for mk md f si
    using assms that by (auto simp: row_to_file_written)
  then have "map row_to_file (set_file_rows mk md fs) = map file_row_of fs" for mk md
    by (auto simp: set_file_rows_def)
  then show ?thesis
    unfolding list_files_def set_files_written mset_map mset_order_by by (simp flip: mset_map)
qed

definition pending_view :: "string \<Rightarrow> db \<Rightarrow> psets_row option \<times> string option \<times> file_row list" where
  "pending_view u d = (first_row (pending_of u) (pending_sets d), get_pending_meta_etag u d, list_pending_files u d)"

lemma pending_view_bump [simp]: "pending_view u (bump k d) = pending_view u d"
  by (simp add: pending_view_def get_pending_meta_etag_def list_pending_files_def bump_def)

lemma find_pending_other:
  "u \<noteq> v \<Longrightarrow> List.find (pending_of u) (filter (Not \<circ> pending_of v) rows) = List.find (pending_of u) rows"
  by (rule find_filter_other) (auto simp: pending_of_def)

lemma pending_rows_other:
  "u \<noteq> v \<Longrightarrow> filter (\<lambda>r. pf_upload_id r = u) (filter (\<lambda>r. pf_upload_id r \<noteq> v) rows)
     = filter (\<lambda>r. pf_upload_id r = u) rows"
  by (rule filter_other) auto

lemma pending_file_rows_filter:
  "filter (\<lambda>r. pf_upload_id r = v) (pending_file_rows mk md u fs) = (if v = u then pending_file_rows mk md u fs else [])"
  by (auto simp: filter_empty_conv intro!: filter_fresh dest: pending_file_rows_of)

lemma pending_view_written_other:
  "u \<noteq> v \<Longrightarrow> pending_view u (pending_written x now v m e fs d) = pending_view u d"
  by (simp add: pending_view_def get_pending_meta_etag_def list_pending_files_def first_row_def pending_written_def
      find_append find_pending_other pending_rows_other pending_file_rows_filter pending_of_def
      split: option.splits del: filter_filter)

lemma pending_view_deleted:
  "pending_view v (d \<lparr>pending_sets := filter (Not \<circ> pending_of u) (pending_sets d),
     pending_files := filter (\<lambda>r. pf_upload_id r \<noteq> u) (pending_files d)\<rparr>)
   = (if v = u then (None, None, []) else pending_view v d)"
proof (cases "v = u")
  case True
  have "List.find (pending_of u) (filter (Not \<circ> pending_of u) rows) = None" for rows
    by (rule find_filter_none) simp
  moreover have "filter (\<lambda>r. pf_upload_id r = u) (filter (\<lambda>r. pf_upload_id r \<noteq> u) rows) = []" for rows
    by (rule filter_none) simp
  ultimately show ?thesis using True
    by (simp add: pending_view_def get_pending_meta_etag_def list_pending_files_def first_row_def del: filter_filter)
next
  case False
  then show ?thesis
    by (simp add: pending_view_def get_pending_meta_etag_def list_pending_files_def first_row_def
        find_pending_other pending_rows_other del: filter_filter)
qed

lemma pending_view_written:
  assumes "\<forall>(f, si)\<in>set fs. si_size si < 2 ^ 63"
  shows "first_row (pending_of u) (pending_sets (pending_written x now u m e fs d)) = Some (pset_table_row x now u m e)"
    "get_pending_meta_etag u (pending_written x now u m e fs d) = e"
    "mset (list_pending_files u (pending_written x now u m e fs d)) = mset (map file_row_of fs)"
proof -
  have "List.find (pending_of u) (filter (Not \<circ> pending_of u) rows) = None" for rows
    by (rule find_filter_none) simp
  then show f: "first_row (pending_of u) (pending_sets (pending_written x now u m e fs d)) = Some (pset_table_row x now u m e)"
    by (simp add: first_row_def pending_written_def find_append pending_of_def [of _ "pset_table_row x now u m e"])
  then show "get_pending_meta_etag u (pending_written x now u m e fs d) = e"
    by (simp add: get_pending_meta_etag_def)
  have "row_to_pfile (pfile_table_row mk md u f si) = file_row_of (f, si)" if "(f, si) \<in> set fs" for mk md f si
    using assms that by (auto simp: row_to_pfile_def pfile_table_row_def file_row_of_def u64_as_i64)
  then have m: "map row_to_pfile (pending_file_rows mk md u fs) = map file_row_of fs" for mk md
    by (auto simp: pending_file_rows_def)
  have "filter (\<lambda>r. pf_upload_id r = u) (filter (\<lambda>r. pf_upload_id r \<noteq> u) rows) = []" for rows
    by (rule filter_none) simp
  then show "mset (list_pending_files u (pending_written x now u m e fs d)) = mset (map file_row_of fs)"
    unfolding list_pending_files_def mset_map mset_order_by
    by (simp add: pending_written_def pending_file_rows_filter m flip: mset_map del: filter_filter)
qed

section \<open>Users\<close>

lemma load_roles_written:
  assumes "u \<in> set us" "distinct (map ur_sub us)"
  shows "load_roles (ur_sub u) (users_written x us (d \<lparr>user_roles := [], users := []\<rparr>) \<lparr>users_etag := e\<rparr>) = ur_roles u"
proof -
  have other: "filter (\<lambda>r. fst r = s) (map (Pair s') rs) = (if s' = s then map (Pair s') rs else [])"
    for s s' :: string and rs :: "string list" by (induction rs) auto
  have none: "s \<notin> ur_sub ` set us \<Longrightarrow>
      filter (\<lambda>r. fst r = s) (concat (map (\<lambda>u. map (Pair (ur_sub u)) (ur_roles u)) us)) = []" for s us
    by (induction us) (auto simp: other)
  from assms have "map snd (filter (\<lambda>r. fst r = ur_sub u) (concat (map (\<lambda>u. map (Pair (ur_sub u)) (ur_roles u)) us)))
      = ur_roles u"
  proof (induction us)
    case (Cons v us)
    then show ?case using none [of "ur_sub u" us] by (cases "v = u") (auto simp: other comp_def image_iff)
  qed simp
  then show ?thesis by (simp add: load_roles_def users_written_def)
qed

lemma get_user_written:
  assumes "u \<in> set us" "distinct (map ur_sub us)" "time_ok x"
  shows "get_user x (ur_sub u) (users_written x us (d \<lparr>user_roles := [], users := []\<rparr>) \<lparr>users_etag := e\<rparr>) = Some u"
proof -
  from assms(1,2) have "List.find (\<lambda>r. u_sub r = ur_sub u) (map (user_table_row x) us) = Some (user_table_row x u)"
    by (induction us) (auto simp: image_iff)
  moreover have "row_to_user x (user_table_row x u) = u \<lparr>ur_roles := []\<rparr>"
    using assms(3) by (simp add: row_to_user_def user_table_row_def parse_ts_written)
  ultimately show ?thesis
    by (simp add: get_user_def first_row_def users_written_def load_roles_written [OF assms(1,2), unfolded users_written_def])
       (simp add: load_roles_written [OF assms(1,2), unfolded users_written_def, simplified])
qed

end
