(* ===== verification/Db_Search.thy ===== *)
theory Db_Search imports Db_Props begin

text \<open>
  What the search and export queries of the cache return: substring search through \<^verbatim>\<open>like_escape\<close> is
  literal, the FTS query is a list of quoted tokens, a search page is a window of the ordered
  matching sets with correct totals, and the full export holds every set with its files and tags.
\<close>

section \<open>LIKE\<close>

lemma contains_sub_iff: "contains_sub p s \<longleftrightarrow> (\<exists>a b. s = a @ p @ b)"
proof (induction s)
  case (Cons x xs)
  note IH = Cons.IH
  show ?case
  proof
    assume "contains_sub p (x # xs)"
    then consider "starts_with p (x # xs)" | "contains_sub p xs" by auto
    then show "\<exists>a b. x # xs = a @ p @ b"
    proof cases
      case 1
      then show ?thesis by (metis append_Nil starts_with_iff)
    next
      case 2
      then show ?thesis using Cons.IH by (metis append_Cons)
    qed
  next
    assume "\<exists>a b. x # xs = a @ p @ b"
    then obtain a b where ab: "x # xs = a @ p @ b" by blast
    then show "contains_sub p (x # xs)"
    proof (cases a)
      case Nil
      then have "starts_with p (x # xs)" using ab unfolding starts_with_iff by auto
      then show ?thesis by simp
    next
      case (Cons y a')
      then have "contains_sub p xs" using ab IH by auto
      then show ?thesis by simp
    qed
  qed
qed simp

lemma like_percent: "like (CHR ''%'' # ps) t \<longleftrightarrow> (\<exists>a b. t = a @ b \<and> like ps b)"
proof (induction t)
  case (Cons c t)
  have "(\<exists>a b. c # t = a @ b \<and> like ps b) \<longleftrightarrow> like ps (c # t) \<or> (\<exists>a b. t = a @ b \<and> like ps b)"
    by (auto simp: Cons_eq_append_conv)
  then show ?case using Cons by simp
qed simp

lemma like_escape_simps [simp]: "like_escape [] = []"
  "like_escape (c # s) = (if c = CHR 0x5C \<or> c = CHR ''%'' \<or> c = CHR ''_'' then [CHR 0x5C, c] else [c]) @ like_escape s"
  by (simp_all add: like_escape_def)

lemma like_escaped:
  "like (like_escape n @ ps) t \<longleftrightarrow> (\<exists>a b. t = a @ b \<and> to_ascii_lowercase a = to_ascii_lowercase n \<and> like ps b)"
proof (induction n arbitrary: t)
  case Nil
  then show ?case by (auto simp: to_ascii_lowercase_def)
next
  case (Cons c n)
  have low: "to_ascii_lowercase a = to_lower1 c # u \<longleftrightarrow> (\<exists>c' a'. a = c' # a' \<and> to_lower1 c' = to_lower1 c \<and> to_ascii_lowercase a' = u)"
    for a u by (cases a) auto
  show ?case
  proof (cases t)
    case Nil
    then show ?thesis by (auto simp: low)
  next
    case (Cons d t')
    have "like (like_escape (c # n) @ ps) t \<longleftrightarrow> to_lower1 c = to_lower1 d \<and> like (like_escape n @ ps) t'"
      by (auto simp: Cons)
    also have "\<dots> \<longleftrightarrow> (\<exists>a b. t = a @ b \<and> to_ascii_lowercase a = to_ascii_lowercase (c # n) \<and> like ps b)"
      unfolding Cons.IH by (auto simp: low Cons Cons_eq_append_conv) metis+
    finally show ?thesis .
  qed
qed

lemma like_all: "like ''%'' t"
  by (simp add: like_percent)

lemma like_contains_literal:
  "like_contains n t \<longleftrightarrow> contains_sub (to_ascii_lowercase n) (to_ascii_lowercase t)"
proof -
  have "like_contains n t \<longleftrightarrow> (\<exists>a b c. t = a @ b @ c \<and> to_ascii_lowercase b = to_ascii_lowercase n)"
    by (auto simp: like_contains_def like_percent like_escaped)
  also have "\<dots> \<longleftrightarrow> (\<exists>a c. to_ascii_lowercase t = a @ to_ascii_lowercase n @ c)"
  proof
    assume "\<exists>a b c. t = a @ b @ c \<and> to_ascii_lowercase b = to_ascii_lowercase n"
    then show "\<exists>a c. to_ascii_lowercase t = a @ to_ascii_lowercase n @ c"
      by (auto simp: to_ascii_lowercase_def) blast
  next
    assume "\<exists>a c. to_ascii_lowercase t = a @ to_ascii_lowercase n @ c"
    then obtain a c where "map to_lower1 t = a @ map to_lower1 n @ c" by (auto simp: to_ascii_lowercase_def)
    then obtain t1 u where "t = t1 @ u" and u: "map to_lower1 n @ c = map to_lower1 u"
      unfolding map_eq_append_conv by blast
    moreover obtain t2 t3 where "u = t2 @ t3" "map to_lower1 n = map to_lower1 t2"
      using u [symmetric] unfolding map_eq_append_conv by blast
    ultimately have "t = t1 @ t2 @ t3" "map to_lower1 t2 = map to_lower1 n" by simp_all
    then show "\<exists>a b c. t = a @ b @ c \<and> to_ascii_lowercase b = to_ascii_lowercase n"
      unfolding to_ascii_lowercase_def by blast
  qed
  finally show ?thesis by (simp add: contains_sub_iff)
qed

section \<open>FTS queries\<close>

definition plain_byte :: "char \<Rightarrow> bool" where
  "plain_byte c \<longleftrightarrow> ascii_alnum c \<or> c = CHR ''_'' \<or> 128 \<le> byte c"

text \<open>The characters \<^verbatim>\<open>char::is_alphanumeric\<close> accepts beyond ASCII have no ASCII byte in UTF-8.\<close>

definition alnum_ok :: "'z db_ext_scheme \<Rightarrow> bool" where
  "alnum_ok x \<longleftrightarrow> (\<forall>ch. alnum_nonascii x ch \<longrightarrow> (\<forall>c\<in>set ch. 128 \<le> byte c))"

lemma alphanumeric_bytes:
  "alnum_ok x \<Longrightarrow> is_alphanumeric x ch \<Longrightarrow> c \<in> set ch \<Longrightarrow> plain_byte c"
  by (cases ch; cases "tl ch")
     (auto simp: is_alphanumeric_def alnum_ok_def plain_byte_def split: if_splits)

lemma normalized_bytes:
  "alnum_ok x \<Longrightarrow> c \<in> set (normalize_query x s) \<Longrightarrow> c = CHR '' '' \<or> plain_byte c"
  by (auto simp: normalize_query_def plain_byte_def [of "CHR ''_''"] dest: alphanumeric_bytes split: if_splits)

lemma fts_token:
  assumes "alnum_ok x" "tok \<in> set (fts_tokens x s)"
  shows "3 \<le> length (utf8_chars tok) \<and> (\<forall>c\<in>set tok. plain_byte c)"
proof -
  have t: "tok \<in> set (split_on (CHR '' '') (normalize_query x s))" "3 \<le> length (utf8_chars tok)"
    using assms(2) by (auto simp: fts_tokens_def)
  moreover have "CHR '' '' \<notin> set tok" using t(1) by (rule split_on_segs)
  ultimately show ?thesis using normalized_bytes [OF assms(1)] split_on_set [OF t(1)] by blast
qed

section \<open>Search pages\<close>

lemma find_unique_row:
  assumes "distinct (map k rows)" "r \<in> set rows" "\<And>r'. P r' \<longleftrightarrow> k r' = k r"
  shows "List.find P rows = Some r"
  using assms
proof (induction rows)
  case (Cons a rows)
  then show ?case by (cases "a = r") (auto simp: image_iff)
qed simp

lemma filter_key_le1: "distinct (map k rows) \<Longrightarrow> (\<And>r. P r \<Longrightarrow> k r = c) \<Longrightarrow> length (filter P rows) \<le> 1"
proof (induction rows)
  case (Cons a rows)
  have "filter P rows = []" if "P a"
    using Cons.prems that by (force simp: filter_empty_conv image_iff)
  with Cons show ?case by auto
qed simp

lemma concat_at_most_once:
  assumes "\<And>s. s \<in> set ss \<Longrightarrow> length (f s) \<le> 1"
  shows "concat (map (\<lambda>s. map (\<lambda>_. s) (f s)) ss) = filter (\<lambda>s. f s \<noteq> []) ss"
  using assms
proof (induction ss)
  case (Cons s ss)
  have "length (f s) \<le> 1" using Cons.prems by simp
  with Cons show ?case by (cases "f s") auto
qed simp

text \<open>Under the invariant the join multiplies no row: the matching rows are a sublist of the sets.\<close>

definition search_hit :: "'z db_ext_scheme \<Rightarrow> set_query \<Rightarrow> db \<Rightarrow> sets_row \<Rightarrow> bool" where
  "search_hit x sq d s \<longleftrightarrow> where_ok sq d s \<and>
     (case Option.bind (sq_fts sq) (fts5_sanitize x) of None \<Rightarrow> True
      | Some text \<Rightarrow> list_ex (\<lambda>ft. fts_of (s_maker s) (s_model s) ft \<and> fts_match x text ft) (sets_fts d))"

lemma matching_rows_eq: "sets_inv d \<Longrightarrow> matching_rows x sq d = filter (search_hit x sq d) (sets d)"
proof -
  assume i: "sets_inv d"
  have "length (filter (\<lambda>ft. fts_of (s_maker s) (s_model s) ft \<and> fts_match x qt ft) (sets_fts d)) \<le> 1"
    for s :: sets_row and qt
    using i by (intro filter_key_le1 [of fts_key _ _ "set_key s"]) (auto simp: sets_inv_def fts_of_def fts_key_def set_key_def)
  then have "concat (map (\<lambda>s. map (\<lambda>_. s) (filter (\<lambda>ft. fts_of (s_maker s) (s_model s) ft \<and> fts_match x qt ft)
       (sets_fts d))) (sets d))
     = filter (\<lambda>s. list_ex (\<lambda>ft. fts_of (s_maker s) (s_model s) ft \<and> fts_match x qt ft) (sets_fts d)) (sets d)" for qt
    by (subst concat_at_most_once) (auto simp: filter_empty_conv list_ex_iff)
  then show ?thesis
    by (auto simp: matching_rows_def search_hit_def Let_def conj_commute split: option.splits intro: filter_cong)
qed

lemma matching_rows_distinct: "sets_inv d \<Longrightarrow> distinct (map set_key (matching_rows x sq d))"
  by (simp add: matching_rows_eq sets_inv_def distinct_map_filter_Not)

lemma filter_self: "distinct xs \<Longrightarrow> a \<in> set xs \<Longrightarrow> filter (\<lambda>b. b = a) xs = [a]"
  by (induction xs) (auto simp: filter_empty_conv)

lemma group_rows_eq:
  assumes i: "sets_inv d"
  shows "group_rows x sq d = map (\<lambda>s. let fs = filter (file_of (s_maker s) (s_model s)) (files d) in
     \<lparr>g_set = s, g_file_count = length fs, g_total_size = sum_list (map f_size fs),
      g_sort_tags = group_concat x (set_tags (s_maker s) (s_model s) d)\<rparr>) (matching_rows x sq d)"
proof -
  have dm: "distinct (matching_rows x sq d)"
    using matching_rows_distinct [OF i, of x sq] by (simp add: distinct_map)
  have fd: "distinct (map f_path (filter (file_of mk md) (files d)))" for mk md
  proof -
    have "distinct (map file_key (filter (file_of mk md) (files d)))"
      using i by (simp add: sets_inv_def distinct_map_filter_Not)
    then show ?thesis by (auto simp: distinct_map inj_on_def file_key_def file_of_def)
  qed
  have r: "remdups (map f_path (filter (file_of mk md) (files d))) = map f_path (filter (file_of mk md) (files d))" for mk md
    by (rule distinct_remdups_id [OF fd])
  show ?thesis
    unfolding group_rows_def Let_def distinct_remdups_id [OF dm]
    by (rule map_cong [OF refl]) (simp add: r filter_self [OF dm])
qed

lemma search_order_ok: "sql_order (search_order sq)"
proof -
  have "sql_order (in_direction so c)" if "sql_order c" for so and c :: "group_row \<Rightarrow> group_row \<Rightarrow> cmp3"
    using that by (cases so) (auto intro: sql_orders)
  moreover have "sql_order (field_order f)" for f by (cases f) (auto intro: sql_orders)
  moreover have "sql_order camera_order" unfolding camera_order_def by (intro sql_orders)
  ultimately show ?thesis by (auto simp: search_order_def intro: sql_orders split: option.splits)
qed

lemma recent_order_ok: "sql_order recent_order" and pending_order_ok: "sql_order pending_order"
  unfolding recent_order_def pending_order_def by (intro sql_orders)+

text \<open>The orders of the queries satisfy the contract, so their results are sorted.\<close>

interpretation search: sql_order "search_order sq" for sq
  by (rule search_order_ok)

interpretation recent: sql_order recent_order
  by (rule recent_order_ok)

interpretation newest_pending: sql_order pending_order
  by (rule pending_order_ok)

section \<open>Full export\<close>

text \<open>The list of distinct elements in the order of first occurrence, as the export builds it.\<close>

definition dedup_onto :: "string list \<Rightarrow> string list \<Rightarrow> string list" where
  "dedup_onto acc xs = foldl (\<lambda>st t. if t \<in> set st then st else st @ [t]) acc xs"

lemma dedup_onto_simps [simp]: "dedup_onto acc [] = acc"
  "dedup_onto acc (t # xs) = dedup_onto (if t \<in> set acc then acc else acc @ [t]) xs"
  by (simp_all add: dedup_onto_def)

lemma dedup_onto_set: "set (dedup_onto acc xs) = set acc \<union> set xs"
  by (induction xs arbitrary: acc) auto

lemma dedup_onto_distinct: "distinct acc \<Longrightarrow> distinct (dedup_onto acc xs)"
  by (induction xs arbitrary: acc) auto

lemma collect_tags_eq:
  "collect_tags ts (st, ft) =
     ((\<lambda>k. dedup_onto (st k) (map t_tag (filter (tag_of (fst k) (snd k)) ts))),
      (\<lambda>k. ft k @ map t_tag (filter (\<lambda>t. tag_of (fst k) (fst (snd k)) t \<and> t_file_path t = Some (snd (snd k))) ts)))"
proof (induction ts arbitrary: st ft)
  case (Cons t ts)
  show ?case
    by (cases "t_file_path t") (auto simp: Cons.IH Let_def fun_eq_iff tag_of_def)
qed simp

lemma collect_files_eq:
  "collect_files ft rs fb k = fb k @ map (export_file_of ft) (filter (file_of (fst k) (snd k)) rs)"
  by (induction rs arbitrary: fb) (auto simp: Let_def file_of_def)

definition exported :: "'z meta_ext_scheme \<Rightarrow> (string \<times> string \<Rightarrow> string list)
    \<Rightarrow> (string \<times> string \<Rightarrow> export_file list) \<Rightarrow> sets_row \<Rightarrow> export_set" where
  "exported x st fb s =
     \<lparr>es_maker = s_maker s, es_model = s_model s, es_license = s_license s, es_notes = s_notes s,
      es_uploaded_at = parse_ts x (s_uploaded_at s), es_uploaded_by = s_uploaded_by s,
      es_special = s_special s, es_tags = st (set_key s), es_files = fb (set_key s)\<rparr>"

lemma collect_sets_eq:
  "distinct (map set_key ss) \<Longrightarrow> collect_sets x ss st fb = map (exported x st fb) ss"
proof (induction ss arbitrary: st fb)
  case (Cons s ss)
  have "map (exported x (st(set_key s := [])) (fb(set_key s := []))) ss = map (exported x st fb) ss"
    using Cons.prems by (intro map_cong [OF refl]) (auto simp: exported_def, (metis imageI)+)
  then show ?case using Cons by (simp add: exported_def [of x st fb s] set_key_def [of s] Let_def)
qed simp

text \<open>The export entry of one set, stated over the tables.\<close>

definition export_tags_of :: "db \<Rightarrow> files_row \<Rightarrow> string list" where
  "export_tags_of d r = map t_tag (filter (\<lambda>t. tag_of (f_maker r) (f_model r) t \<and> t_file_path t = Some (f_path r)) (tags d))"

lemma export_all_eq:
  assumes "sets_inv d"
  obtains st fb where "export_all x d = map (exported x st fb) (order_by (then_by (by_key s_maker) (by_key s_model)) (sets d))"
    "\<And>k. set (st k) = t_tag ` {t \<in> set (tags d). tag_of (fst k) (snd k) t} \<and> distinct (st k)"
    "\<And>k. mset (fb k) = mset (map (\<lambda>r. (export_file_of (\<lambda>_. []) r) \<lparr>ef_tags := export_tags_of d r\<rparr>)
       (filter (file_of (fst k) (snd k)) (files d)))"
proof -
  define st ft where "st = (\<lambda>k. dedup_onto [] (map t_tag (filter (tag_of (fst k) (snd k)) (tags d))))"
    and "ft = (\<lambda>k. map t_tag (filter (\<lambda>t. tag_of (fst k) (fst (snd k)) t \<and> t_file_path t = Some (snd (snd k))) (tags d)))"
  define fb where "fb = collect_files ft (order_by (then_by (by_key f_maker) (then_by (by_key f_model)
     (then_by (by_key f_category) (by_key f_path)))) (files d)) (\<lambda>_. [])"
  have "distinct (map set_key (order_by (then_by (by_key s_maker) (by_key s_model)) (sets d)))"
    using assms by (simp add: sets_inv_def)
  from collect_sets_eq [OF this, of x st fb]
  have "export_all x d = map (exported x st fb) (order_by (then_by (by_key s_maker) (by_key s_model)) (sets d))"
    by (simp add: export_all_def collect_tags_eq st_def ft_def fb_def)
  moreover have "set (st k) = t_tag ` {t \<in> set (tags d). tag_of (fst k) (snd k) t} \<and> distinct (st k)" for k
    by (simp add: st_def dedup_onto_set dedup_onto_distinct)
  moreover have e: "export_file_of ft = (\<lambda>r. (export_file_of (\<lambda>_. []) r) \<lparr>ef_tags := export_tags_of d r\<rparr>)"
    by (simp add: export_file_of_def ft_def export_tags_of_def fun_eq_iff)
  have "mset (fb k) = mset (map (\<lambda>r. (export_file_of (\<lambda>_. []) r) \<lparr>ef_tags := export_tags_of d r\<rparr>)
       (filter (file_of (fst k) (snd k)) (files d)))" for k
    by (simp only: fb_def collect_files_eq e append_Nil mset_map mset_filter mset_order_by)
  ultimately show ?thesis by (rule that)
qed

end
