(* ===== verification/Samples.thy ===== *)
theory Samples imports Db_Search begin

text \<open>
  Concrete values at which the properties are instantiated: time stamps written in unary, the
  reference reader as the TOML library, and a small metadata file with two samples.
\<close>

definition base_ext :: meta_ext where
  "base_ext = \<lparr>to_rfc3339 = (\<lambda>t. replicate t (CHR ''x'')),
     from_rfc3339 = (\<lambda>s. if list_all (\<lambda>c. c = CHR ''x'') s then Some (length s) else None),
     toml_meta = (\<lambda>_. None)\<rparr>"

definition sample_ext :: db_ext where
  "sample_ext = \<lparr>to_rfc3339 = to_rfc3339 base_ext, from_rfc3339 = from_rfc3339 base_ext,
     toml_meta = read_toml base_ext, fts_match = (\<lambda>_ _. True), group_concat = join '','',
     alnum_nonascii = (\<lambda>_. False)\<rparr>"

definition sample_set :: set_meta where
  "sample_set = \<lparr>sm_maker = ''Canon'', sm_model = ''EOS R5'', sm_license = ''CC0 1.0'',
     sm_uploaded_by = Some ''u1'', sm_uploaded_at = Some 3, sm_notes = Some [CHR ''a'', CHR 0x5C, CHR 0x0A], sm_special = False,
     sm_approved_at = Some 5, sm_approved_by = Some ''adm'', sm_approved_initial_at = Some 4,
     sm_approved_initial_by = Some ''''\<rparr>"

definition sample_file :: file_meta where
  "sample_file = \<lparr>fm_path = ''raw/a.CR3'', fm_sha256 = None, fm_license = None, fm_notes = None,
     fm_tags = [''night'', ''iso'']\<rparr>"

definition sample_file2 :: file_meta where
  "sample_file2 = \<lparr>fm_path = ''jpg/b.jpg'', fm_sha256 = Some ''ff'', fm_license = None, fm_notes = Some ''n'',
     fm_tags = []\<rparr>"

definition sample_meta :: rawdb_meta where
  "sample_meta = \<lparr>rm_set = sample_set, rm_files = [sample_file, sample_file2]\<rparr>"

definition sample_files :: "(file_meta \<times> size_info) list" where
  "sample_files = [(sample_file, \<lparr>si_size = 100, si_etag = Some ''e1''\<rparr>),
                   (sample_file2, \<lparr>si_size = 7, si_etag = None\<rparr>)]"

lemmas sample_defs = sample_ext_def base_ext_def sample_set_def sample_file_def sample_file2_def
  sample_meta_def sample_files_def

lemma read_toml_cong:
  assumes "from_rfc3339 x = from_rfc3339 y" shows "read_toml x = read_toml y"
proof -
  have t: "get_time x = get_time y" unfolding get_time_def assms ..
  have d: "decode_set x = decode_set y" unfolding decode_set_def t ..
  show ?thesis unfolding read_toml_def d ..
qed

lemma sample_toml: "toml_meta sample_ext = read_toml sample_ext"
proof -
  have "read_toml sample_ext = read_toml base_ext" by (rule read_toml_cong) (simp add: sample_ext_def)
  then show ?thesis by (simp add: sample_ext_def)
qed

lemma sample_time_ok: "time_ok sample_ext"
  by (auto simp: time_ok_def sample_ext_def base_ext_def clean_str_def toml_control_def byte_def list_all_iff)

lemma sample_alnum_ok: "alnum_ok sample_ext"
  by (simp add: alnum_ok_def sample_ext_def)

lemma sample_clean: "clean_meta sample_meta"
  by code_simp

lemma sample_validate: "validate sample_meta = Inr ()"
  by code_simp

lemma sample_paths: "distinct (paths sample_files)" "\<forall>(f, si)\<in>set sample_files. si_size si < 2 ^ 63"
  by (simp_all add: sample_defs paths_def)

end
