(* ===== verification/Data_Claims.thy ===== *)
theory Data_Claims imports Samples begin

text \<open>
  The properties of the metadata format and of the cache, each with a closed instance.
\<close>

section \<open>Metadata\<close>

text \<open>
  C19. A metadata file that \<^verbatim>\<open>to_toml\<close> writes is read back by \<^verbatim>\<open>parse\<close> as the value it was written from
  (empty optional strings come back absent), for every TOML library that reads the canonical
  subset as TOML 1.0 says, whatever quotes, backslashes and line breaks the strings contain.
\<close>

theorem meta_toml_roundtrip:
  assumes "clean_meta m" "validate m = Inr ()" "time_ok x"
    and toml: "\<forall>t m'. read_toml x t = Some m' \<longrightarrow> toml_meta x t = Some m'"
  shows "parse x (to_toml x m) = Inr (norm_meta m)"
  using toml [rule_format, OF read_toml_to_toml [OF assms(1,3)]] assms(2) by (simp add: parse_Inr)

lemma meta_toml_roundtrip_witness:
  "parse sample_ext (to_toml sample_ext sample_meta) = Inr (norm_meta sample_meta)"
  by (rule meta_toml_roundtrip) (simp_all add: sample_clean sample_validate sample_time_ok sample_toml)

text \<open>
  \<^verbatim>\<open>meta::q\<close> is prefix-free and cannot be escaped from: after a quoted string the TOML reader stands
  exactly at the text that follows it, and the value is the one quoted, if and only if the string
  has no control character other than tab and line feed; otherwise no TOML reader accepts it.
\<close>

lemma quote_read_iff:
  "read_str (tl (q s) @ r) = (if clean_str s then Some (s, r) else None)"
proof (cases "clean_str s")
  case False
  have "\<not> clean_str s \<Longrightarrow> read_str (concat (map esc1 s) @ CHR 0x22 # r) = None" for s
  proof (induction s)
    case (Cons c s)
    consider "c = CHR 0x5C" | "c = CHR 0x22" | "c = CHR 0x0A" | "c = CHR 0x09"
      | "c \<noteq> CHR 0x5C" "c \<noteq> CHR 0x22" "c \<noteq> CHR 0x0A" "c \<noteq> CHR 0x09" by blast
    then show ?case using Cons
      by cases (auto simp: esc1_simps unescape_def clean_str_def toml_control_def byte_def)
  qed (simp add: clean_str_def)
  with False show ?thesis by (simp add: q_esc)
qed (simp add: read_str_q)

text \<open>
  \<^verbatim>\<open>validate\<close> accepts a metadata value exactly when maker and model are not blank, no path occurs
  twice, and every path is two or more segments joined by slashes, none empty, \<^verbatim>\<open>.\<close> or \<^verbatim>\<open>..\<close>; its first
  segment is the category and its last the file name.
\<close>

lemma validate_accepts:
  "validate m = Inr () \<longleftrightarrow>
     trim (sm_maker (rm_set m)) \<noteq> [] \<and> trim (sm_model (rm_set m)) \<noteq> []
     \<and> distinct (map fm_path (rm_files m))
     \<and> (\<forall>f\<in>set (rm_files m). \<exists>ss. path_segs ss \<and> fm_path f = join ''/'' ss
           \<and> category f = hd ss \<and> file_name f = last ss)"
proof -
  have "path_segs (split_on slash (fm_path f)) \<longleftrightarrow> (\<exists>ss. path_segs ss \<and> fm_path f = join ''/'' ss
           \<and> category f = hd ss \<and> file_name f = last ss)" for f
  proof
    assume "path_segs (split_on slash (fm_path f))"
    then show "\<exists>ss. path_segs ss \<and> fm_path f = join ''/'' ss \<and> category f = hd ss \<and> file_name f = last ss"
      by (intro exI [of _ "split_on slash (fm_path f)"]) (simp add: category_def file_name_def last_seg_def)
  next
    assume "\<exists>ss. path_segs ss \<and> fm_path f = join ''/'' ss \<and> category f = hd ss \<and> file_name f = last ss"
    then obtain ss where ss: "path_segs ss" "fm_path f = join ''/'' ss" by blast
    have "2 \<le> length ss" and n: "\<forall>s\<in>set ss. slash \<notin> set s" using ss(1) unfolding path_segs_def by blast+
    then have "ss \<noteq> []" by (cases ss) simp_all
    then have "split_on slash (fm_path f) = ss" unfolding ss(2) using n by (rule split_on_join)
    with ss show "path_segs (split_on slash (fm_path f))" by simp
  qed
  then show ?thesis unfolding validate_Inr by blast
qed

lemma validate_accepts_witness:
  "\<exists>ss. path_segs ss \<and> fm_path sample_file = join ''/'' ss \<and> category sample_file = hd ss \<and> file_name sample_file = last ss"
  using validate_accepts [of sample_meta, THEN iffD1, OF sample_validate] by (simp add: sample_meta_def)

lemma sample_key: "sm_maker (rm_set sample_meta) = ''Canon''" "sm_model (rm_set sample_meta) = ''EOS R5''"
  by (simp_all add: sample_meta_def sample_set_def)

section \<open>The cache: writes\<close>

text \<open>The states the cache can be in: what a sequence of writes makes of the empty schema.\<close>

inductive db_reach :: "'z meta_ext_scheme \<Rightarrow> db \<Rightarrow> bool" for x where
  reach_open: "db_reach x empty_db"
| reach_upsert_set: "db_reach x d \<Longrightarrow> db_reach x (snd (upsert_set x now m etag fs d))"
| reach_delete_set: "db_reach x d \<Longrightarrow> db_reach x (snd (delete_set mk md d))"
| reach_upsert_pending: "db_reach x d \<Longrightarrow> db_reach x (snd (upsert_pending x now u m etag fs d))"
| reach_delete_pending: "db_reach x d \<Longrightarrow> db_reach x (snd (delete_pending_by_upload_id u d))"
| reach_users: "db_reach x d \<Longrightarrow> db_reach x (snd (replace_users x etag us d))"
| reach_scan: "db_reach x d \<Longrightarrow> db_reach x (snd (set_last_full_scan_at x t d))"

text \<open>
  C3. Whatever writes ran, successful or rolled back, the cache is consistent: primary and foreign
  keys hold, tags belong to indexed files, the search table has one row for every set, an upload
  id names one pending row, and roles belong to users.
\<close>

theorem cache_consistent: "db_reach x d \<Longrightarrow> db_inv d"
  by (induction rule: db_reach.induct) (simp_all add: db_inv_writes)

lemma cache_consistent_witness:
  "db_inv (snd (upsert_set sample_ext 9 sample_meta (Some ''e'') sample_files empty_db))"
  by (rule cache_consistent) (rule reach_upsert_set, rule reach_open)

lemma file_tags_written:
  assumes "distinct (paths fs)" "(f, si) \<in> set fs"
  shows "mset (file_tags (sm_maker (rm_set m)) (sm_model (rm_set m)) (set_written x now m e fs d) (fm_path f)) = mset (fm_tags f)"
proof -
  have none: "p \<notin> set (paths fs) \<Longrightarrow> filter (\<lambda>r. t_file_path r = Some p) (set_tag_rows mk md fs) = []"
    for p fs mk md by (auto simp: filter_empty_conv dest!: set_tag_rows_ok)
  have one: "map t_tag (filter (\<lambda>r. t_file_path r = Some (fm_path f)) (set_tag_rows mk md fs)) = fm_tags f" for mk md
    using assms
  proof (induction fs)
    case (Cons p fs)
    obtain g sj where p: "p = (g, sj)" by (cases p)
    have head: "map t_tag (filter (\<lambda>r. t_file_path r = Some (fm_path f)) (map (\<lambda>t. \<lparr>t_maker = mk, t_model = md,
        t_file_path = Some (fm_path g), t_tag = t\<rparr>) ts)) = (if fm_path g = fm_path f then ts else [])" for ts
      by (induction ts) auto
    have split: "set_tag_rows mk md (p # fs) = map (\<lambda>t. \<lparr>t_maker = mk, t_model = md,
        t_file_path = Some (fm_path g), t_tag = t\<rparr>) (fm_tags g) @ set_tag_rows mk md fs"
      by (simp add: set_tag_rows_def p)
    have mem: "fm_path h \<in> set (paths fs)" if "(h, sj) \<in> set fs" for h sj
      using that by (force simp: paths_def)
    show ?case
    proof (cases "fm_path g = fm_path f")
      case True
      then have n: "fm_path g \<notin> set (paths fs)" and "f = g" using Cons.prems mem [of f si] by (auto simp: p)
      then show ?thesis unfolding split filter_append map_append head by (simp add: none [OF n])
    next
      case False
      then show ?thesis using Cons unfolding split filter_append map_append head by (auto simp: p)
    qed
  qed simp
  have all: "filter (\<lambda>r. t_file_path r \<noteq> None) (set_tag_rows mk md fs) = set_tag_rows mk md fs" for mk md
    by (rule filter_fresh) (auto dest: set_tag_rows_ok)
  show ?thesis
    unfolding file_tags_filter set_tags_written mset_map mset_filter mset_order_by
    by (simp only: simp_thms if_True all one mset_map [symmetric] mset_filter [symmetric])
qed

lemma upsert_set_reads:
  assumes "time_ok x" "\<forall>(f, si)\<in>set fs. si_size si < 2 ^ 63" "distinct (paths fs)"
    and k: "mk = sm_maker (rm_set m)" "md = sm_model (rm_set m)"
    and d'_def: "d' = bump Sets (set_written x now m etag fs d)"
  shows "get_set x mk md d' = Some (set_row_of m)" "get_set_meta_etag mk md d' = etag"
    "mset (list_files mk md d') = mset (map file_row_of fs)"
    "\<forall>(f, si)\<in>set fs. mset (file_tags mk md d' (fm_path f)) = mset (fm_tags f)"
    "\<forall>mk' md'. (mk', md') \<noteq> (mk, md) \<longrightarrow> set_view x mk' md' d' = set_view x mk' md' d"
proof -
  let ?w = "set_written x now m etag fs d"
  have "set_view x mk md d' = set_view x mk md ?w" for mk md by (simp add: d'_def)
  then have v: "get_set x mk md d' = get_set x mk md ?w" "get_set_meta_etag mk md d' = get_set_meta_etag mk md ?w"
    "list_files mk md d' = list_files mk md ?w" "file_tags mk md d' = file_tags mk md ?w" for mk md
    by (simp_all add: set_view_def)
  show "get_set x mk md d' = Some (set_row_of m)" "get_set_meta_etag mk md d' = etag"
    unfolding v using assms(1) by (simp_all add: k get_set_def get_set_meta_etag_def get_set_written row_to_set_written)
  show "mset (list_files mk md d') = mset (map file_row_of fs)"
    unfolding v unfolding k using assms(2) by (rule list_files_written)
  show "\<forall>(f, si)\<in>set fs. mset (file_tags mk md d' (fm_path f)) = mset (fm_tags f)"
    unfolding v using file_tags_written [OF assms(3)] unfolding k by blast
  show "\<forall>mk' md'. (mk', md') \<noteq> (mk, md) \<longrightarrow> set_view x mk' md' d' = set_view x mk' md' d"
    unfolding k d'_def by (simp add: set_view_written_other)
qed

text \<open>
  C1. Indexing a set is atomic and exact. If two files share a path the transaction fails and
  changes nothing; otherwise it succeeds, and the set reads back with exactly the metadata,
  etag, files and file tags that were given, while every other set reads as before.
\<close>

theorem upsert_set_exact:
  assumes "time_ok x" "\<forall>(f, si)\<in>set fs. si_size si < 2 ^ 63"
    and k: "mk = sm_maker (rm_set m)" "md = sm_model (rm_set m)"
    and run: "upsert_set x now m etag fs d = (r, d')"
  shows "if distinct (paths fs)
     then r = Inr () \<and> get_set x mk md d' = Some (set_row_of m) \<and> get_set_meta_etag mk md d' = etag
       \<and> mset (list_files mk md d') = mset (map file_row_of fs)
       \<and> (\<forall>(f, si)\<in>set fs. mset (file_tags mk md d' (fm_path f)) = mset (fm_tags f))
       \<and> (\<forall>mk' md'. (mk', md') \<noteq> (mk, md) \<longrightarrow> set_view x mk' md' d' = set_view x mk' md' d)
     else r = Inl PrimaryKey \<and> d' = d"
proof (cases "distinct (paths fs)")
  case True
  then have "r = Inr ()" "d' = bump Sets (set_written x now m etag fs d)" using run by (auto simp: upsert_set_eq)
  with True upsert_set_reads [OF assms(1,2) True k refl] show ?thesis by simp
qed (use run in \<open>simp add: upsert_set_eq\<close>)

lemma upsert_set_exact_witness:
  "get_set sample_ext ''Canon'' ''EOS R5'' (snd (upsert_set sample_ext 9 sample_meta (Some ''e'') sample_files empty_db))
     = Some (set_row_of sample_meta)"
proof -
  obtain r d' where run: "upsert_set sample_ext 9 sample_meta (Some ''e'') sample_files empty_db = (r, d')"
    by fastforce
  show ?thesis
    using upsert_set_exact [OF sample_time_ok sample_paths(2) refl refl run] sample_paths(1)
    by (simp add: run sample_key)
qed

text \<open>
  Indexing a pending upload replaces whatever was recorded for that upload id, also under another
  maker or model, with exactly the given files, and leaves every other upload untouched; it fails,
  changing nothing, exactly when two files share a path.
\<close>

lemma upsert_pending_exact:
  assumes "db_inv d" "\<forall>(f, si)\<in>set fs. si_size si < 2 ^ 63"
    and run: "upsert_pending x now u m etag fs d = (r, d')"
  shows "if distinct (paths fs)
     then r = Inr () \<and> filter (pending_of u) (pending_sets d') = [pset_table_row x now u m etag]
       \<and> get_pending_meta_etag u d' = etag
       \<and> mset (list_pending_files u d') = mset (map file_row_of fs)
       \<and> (\<forall>v. v \<noteq> u \<longrightarrow> pending_view v d' = pending_view v d)
     else r = Inl PrimaryKey \<and> d' = d"
proof -
  have fk: "pending_fk d" using assms(1) by (simp add: db_inv_def pending_inv_fk)
  show ?thesis
  proof (cases "distinct (paths fs)")
    case True
    let ?w = "pending_written x now u m etag fs d"
    have d': "r = Inr ()" "d' = bump Pending ?w" using run True by (auto simp: upsert_pending_eq [OF fk])
    have f: "filter (pending_of u) (pending_sets ?w) = [pset_table_row x now u m etag]"
      by (simp add: pending_written_def filter_but_same pending_of_def [of _ "pset_table_row x now u m etag"] del: filter_filter)
    note w = pending_view_written [OF assms(2), where x = x and now = now and u = u and m = m and e = etag and d = d]
    have "pending_view v d' = pending_view v d" if "v \<noteq> u" for v
      using that by (simp add: d' pending_view_written_other)
    moreover have "pending_view u d' = pending_view u ?w" by (simp add: d')
    ultimately show ?thesis using True w f d'(1)
      by (simp add: pending_view_def) (simp add: d'(2) bump_def)
  qed (use run in \<open>simp add: upsert_pending_eq [OF fk]\<close>)
qed

lemma upsert_pending_exact_witness:
  "get_pending_meta_etag ''u'' (snd (upsert_pending sample_ext 9 ''u'' sample_meta (Some ''e'') sample_files empty_db)) = Some ''e''"
proof -
  obtain r d' where run: "upsert_pending sample_ext 9 ''u'' sample_meta (Some ''e'') sample_files empty_db = (r, d')"
    by fastforce
  show ?thesis
    using upsert_pending_exact [OF db_inv_empty sample_paths(2) run] sample_paths(1) by (simp add: run)
qed

text \<open>
  Deleting a set or a pending upload removes everything recorded for it and nothing else.
\<close>

lemma deletes_exact:
  assumes "db_inv d"
  shows "fst (delete_set mk md d) = Inr () \<and> fst (delete_pending_by_upload_id u d) = Inr ()
     \<and> set_view x mk' md' (snd (delete_set mk md d)) =
         (if (mk', md') = (mk, md) then (None, None, [], \<lambda>_. []) else set_view x mk' md' d)
     \<and> pending_view v (snd (delete_pending_by_upload_id u d)) = (if v = u then (None, None, []) else pending_view v d)
     \<and> pending_view v (snd (delete_set mk md d)) = pending_view v d
     \<and> set_view x mk' md' (snd (delete_pending_by_upload_id u d)) = set_view x mk' md' d"
proof -
  have fk: "pending_fk d" using assms by (simp add: db_inv_def pending_inv_fk)
  have "pending_view v (set_deleted mk md d) = pending_view v d"
    by (simp add: pending_view_def get_pending_meta_etag_def list_pending_files_def set_deleted_def)
  moreover have "set_view x mk' md' (d \<lparr>pending_sets := a, pending_files := b\<rparr>) = set_view x mk' md' d" for a b
    by (simp add: set_view_def get_set_def get_set_meta_etag_def list_files_def file_tags_def fun_eq_iff)
  ultimately show ?thesis
    by (auto simp: delete_set_eq delete_pending_eq [OF fk] set_view_deleted set_view_deleted_other pending_view_deleted)
qed

lemma deletes_exact_witness: "fst (delete_set ''Canon'' ''EOS R5'' empty_db) = Inr ()"
  by (rule conjunct1 [OF deletes_exact [OF db_inv_empty]])

text \<open>
  Replacing the users table is atomic: it fails, changing nothing, exactly when two users share a
  \<^verbatim>\<open>sub\<close> or a user lists a role twice; otherwise every given user reads back unchanged and no other
  user is left.
\<close>

lemma replace_users_exact:
  assumes "time_ok x" and run: "replace_users x etag us d = (r, d')"
  shows "if distinct (map ur_sub us) \<and> (\<forall>u\<in>set us. distinct (ur_roles u))
     then r = Inr () \<and> get_users_etag d' = etag \<and> (\<forall>u\<in>set us. get_user x (ur_sub u) d' = Some u)
       \<and> (\<forall>sub. sub \<notin> ur_sub ` set us \<longrightarrow> get_user x sub d' = None)
     else r = Inl PrimaryKey \<and> d' = d"
proof (cases "distinct (map ur_sub us) \<and> (\<forall>u\<in>set us. distinct (ur_roles u))")
  case True
  let ?w = "users_written x us (d \<lparr>user_roles := [], users := []\<rparr>) \<lparr>users_etag := Some etag\<rparr>"
  have d': "r = Inr ()" "d' = ?w" using run True by (auto simp: replace_users_eq split: if_splits)
  have "get_user x sub ?w = None" if "sub \<notin> ur_sub ` set us" for sub
    using that by (auto simp: get_user_def first_row_def users_written_def find_None_iff)
  with True show ?thesis
    using get_user_written [OF _ _ assms(1)] by (simp add: d' get_users_etag_def)
qed (use run in \<open>auto simp: replace_users_eq split: if_splits\<close>)

lemma replace_users_exact_witness:
  "get_user sample_ext ''a'' (snd (replace_users sample_ext None
     [\<lparr>ur_sub = ''a'', ur_display_name = None, ur_blocked = False, ur_added_at = Some 2, ur_added_by = None,
       ur_roles = [''admin'', ''reviewer''], ur_api_key_hash = None\<rparr>] empty_db)) \<noteq> None"
proof -
  let ?u = "\<lparr>ur_sub = ''a'', ur_display_name = None, ur_blocked = False, ur_added_at = Some 2, ur_added_by = None,
       ur_roles = [''admin'', ''reviewer''], ur_api_key_hash = None\<rparr>"
  obtain r d' where run: "replace_users sample_ext None [?u] empty_db = (r, d')" by fastforce
  show ?thesis using replace_users_exact [OF sample_time_ok run] by (simp add: run)
qed

section \<open>The cache: queries\<close>

text \<open>
  Maker and model filters are literal substring searches: whatever \<^verbatim>\<open>%\<close>, \<^verbatim>\<open>_\<close> or backslash the user
  types, the \<^verbatim>\<open>LIKE\<close> pattern built from it matches exactly the texts that contain it, up to ASCII case.
\<close>

lemma like_is_substring:
  "like (''%'' @ like_escape needle @ ''%'') t \<longleftrightarrow>
     (\<exists>a b c. t = a @ b @ c \<and> to_ascii_lowercase b = to_ascii_lowercase needle)"
  by (auto simp: like_percent like_escaped)

text \<open>
  What \<^verbatim>\<open>fts5_sanitize\<close> hands to FTS5 is a list of double-quoted phrases joined by spaces, each of
  three or more characters that are alphanumeric, an underscore or beyond ASCII; no quote, operator
  or column filter typed by the user reaches the query, and with no usable token there is no query.
\<close>

lemma fts_query_shape:
  assumes "alnum_ok x"
  shows "case fts5_sanitize x s of
      None \<Rightarrow> fts_tokens x s = []
    | Some query \<Rightarrow> \<exists>toks. toks \<noteq> [] \<and> query = join '' '' (map (\<lambda>t. CHR 0x22 # t @ [CHR 0x22]) toks)
        \<and> (\<forall>t\<in>set toks. 3 \<le> length (utf8_chars t) \<and> list_all plain_byte t \<and> CHR 0x22 \<notin> set t)"
proof (cases "fts_tokens x s = []")
  case False
  have "3 \<le> length (utf8_chars t) \<and> list_all plain_byte t \<and> CHR 0x22 \<notin> set t" if "t \<in> set (fts_tokens x s)" for t
  proof -
    have "\<not> plain_byte (CHR 0x22)" by (simp add: plain_byte_def ascii_alnum_def in_range_def byte_def less_eq_char_def)
    then show ?thesis using fts_token [OF assms that] by (auto simp: list_all_iff)
  qed
  then show ?thesis using False by (auto simp: fts5_sanitize_def Let_def intro!: exI [of _ "fts_tokens x s"])
qed (simp add: fts5_sanitize_def Let_def)

lemma fts_query_shape_witness:
  "fts5_sanitize sample_ext (CHR 0x22 # ''EOS-R5 OR'') = Some (CHR 0x22 # ''EOS'' @ [CHR 0x22]) \<and>
   (\<exists>toks. toks \<noteq> [] \<and> CHR 0x22 # ''EOS'' @ [CHR 0x22] = join '' '' (map (\<lambda>t. CHR 0x22 # t @ [CHR 0x22]) toks)
     \<and> (\<forall>t\<in>set toks. 3 \<le> length (utf8_chars t) \<and> list_all plain_byte t \<and> CHR 0x22 \<notin> set t))"
proof -
  have e: "fts5_sanitize sample_ext (CHR 0x22 # ''EOS-R5 OR'') = Some (CHR 0x22 # ''EOS'' @ [CHR 0x22])"
    by code_simp
  show ?thesis using fts_query_shape [OF sample_alnum_ok, of "CHR 0x22 # ''EOS-R5 OR''"] unfolding e by simp
qed




text \<open>
  The published feed's query returns, newest first, the \<^verbatim>\<open>limit\<close> most recently published sets (all of
  them when there are fewer), never a set without a publication time, and leaves out no newer one.
\<close>

lemma recent_sets_newest:
  defines "published \<equiv> \<lambda>d. filter (\<lambda>r. s_approved_initial_at r \<noteq> None) (sets d)"
  shows "\<exists>rows rest. recent_sets x limit d = map (row_to_set x) rows \<and> mset (rows @ rest) = mset (published d)
     \<and> length rows = min limit (length (published d))
     \<and> sorted_wrt (\<lambda>a b. s_approved_initial_at b \<le> s_approved_initial_at a) rows
     \<and> list_all (\<lambda>r. list_all (\<lambda>s. s_approved_initial_at s \<le> s_approved_initial_at r) rest) rows"
proof -
  let ?o = "order_by recent_order (published d)"
  have le: "recent_order a b \<noteq> Gt \<Longrightarrow> s_approved_initial_at b \<le> s_approved_initial_at a" for a b
    by (auto simp: recent_order_def then_by_def desc_def by_key_def split: if_splits)
  have "sorted_wrt (\<lambda>a b. recent_order a b \<noteq> Gt) (take limit ?o)"
    using recent.sorted [of "published d"] by (rule sorted_wrt_take)
  then have "sorted_wrt (\<lambda>a b. s_approved_initial_at b \<le> s_approved_initial_at a) (take limit ?o)"
    by (rule sorted_wrt_mono_rel [rotated]) (rule le)
  moreover have "list_all (\<lambda>r. list_all (\<lambda>s. s_approved_initial_at s \<le> s_approved_initial_at r) (drop limit ?o)) (take limit ?o)"
    unfolding list_all_iff using recent.take_least le by blast
  moreover have "mset (take limit ?o @ drop limit ?o) = mset (published d)" by simp
  ultimately show ?thesis
    by (intro exI [of _ "take limit ?o"] exI [of _ "drop limit ?o"])
       (simp add: recent_sets_def published_def)
qed

text \<open>
  C33. The full export of a consistent cache has one entry for every approved set and no other, each with
  the set's files (every one once, with its own tags) and the distinct tags of its files.
\<close>

theorem export_all_exact:
  assumes "db_inv d"
  shows "mset (map (\<lambda>e. (es_maker e, es_model e)) (export_all x d)) = mset (list_set_keys d)
     \<and> (\<forall>e\<in>set (export_all x d).
          mset (map ef_path (es_files e)) = mset (map fr_path (list_files (es_maker e) (es_model e) d))
          \<and> (\<forall>f\<in>set (es_files e). mset (ef_tags f) = mset (file_tags (es_maker e) (es_model e) d (ef_path f)))
          \<and> distinct (es_tags e) \<and> set (es_tags e) = set (set_tags (es_maker e) (es_model e) d))"
proof -
  have "sets_inv d" using assms by (simp add: db_inv_def)
  then obtain st fb where ex: "export_all x d = map (exported x st fb) (order_by (then_by (by_key s_maker) (by_key s_model)) (sets d))"
    and st: "\<And>k. set (st k) = t_tag ` {t \<in> set (tags d). tag_of (fst k) (snd k) t} \<and> distinct (st k)"
    and fb: "\<And>k. mset (fb k) = mset (map (\<lambda>r. (export_file_of (\<lambda>_. []) r) \<lparr>ef_tags := export_tags_of d r\<rparr>)
       (filter (file_of (fst k) (snd k)) (files d)))" by (rule export_all_eq) blast
  have "mset (map ef_path (fb (mk, md))) = mset (map fr_path (list_files mk md d))" for mk md
    unfolding mset_map fb [of "(mk, md)", unfolded mset_map]
    by (simp add: list_files_def export_file_of_def row_to_file_def image_mset.compositionality comp_def)
  moreover have "mset (ef_tags f) = mset (file_tags mk md d (ef_path f))" if "f \<in> set (fb (mk, md))" for f mk md
  proof -
    have "f \<in># mset (fb (mk, md))" using that by simp
    then obtain r where r: "file_of mk md r" "f = (export_file_of (\<lambda>_. []) r) \<lparr>ef_tags := export_tags_of d r\<rparr>"
      unfolding fb by auto
    have "mset (file_tags mk md d p) = mset (map t_tag (filter (\<lambda>t. tag_of mk md t \<and> t_file_path t = Some p) (tags d)))" for p
      unfolding file_tags_def mset_map mset_filter mset_order_by filter_filter_mset
      by (intro arg_cong [where f = "image_mset t_tag"] filter_mset_cong) auto
    then show ?thesis using r
      by (simp add: export_tags_of_def export_file_of_def file_of_def)
  qed
  moreover have "mset (map (\<lambda>e. (es_maker e, es_model e)) (export_all x d)) = mset (list_set_keys d)"
    unfolding ex by (simp add: exported_def list_set_keys_def comp_def image_mset.compositionality)
  ultimately show ?thesis
    by (auto simp: ex exported_def set_key_def st set_tags_def tag_of_def)
qed

lemma export_all_exact_witness:
  "mset (map (\<lambda>e. (es_maker e, es_model e)) (export_all sample_ext (snd (upsert_set sample_ext 9 sample_meta None sample_files empty_db))))
     = mset (list_set_keys (snd (upsert_set sample_ext 9 sample_meta None sample_files empty_db)))"
  by (rule conjunct1 [OF export_all_exact [OF upsert_set_inv [OF db_inv_empty]]])

end
