(* ===== verification/S3.thy ===== *)
theory S3 imports Strings begin

text \<open>
  \<^verbatim>\<open>src/backend/src/s3.rs\<close>: the wrapper over the object store. The SDK's calls are the fields of the
  record \<open>s3\<close>, over an arbitrary state of the outside world; a failing call carries what the
  wrapper inspects of the SDK error. On top of them stand the wrapper's own operations: paging,
  error classification, etag unquoting, conditional writes, copy-source encoding, batched deletes,
  part ordering and the resuming download. Presigned URLs and \<^verbatim>\<open>from_config\<close> only call the SDK and
  are not modelled. Error texts are dropped.
\<close>

section \<open>The SDK's interface\<close>

datatype sdk_failure =
    ServiceError "string option" nat bool \<comment> \<open>error code, HTTP status, decoded as the operation's not-found variant\<close>
  | OtherFailure

record raw_object =
  ro_key :: "string option"
  ro_size :: "int option"
  ro_etag :: "string option"
  ro_modified :: "nat option"

record list_result =
  lr_contents :: "raw_object list"
  lr_prefixes :: "string option list"

record raw_head =
  rh_length :: "int option"
  rh_etag :: "string option"
  rh_modified :: "nat option"

text \<open>A body is the sequence of reads it will deliver: non-empty chunks, then the end or an error.\<close>

record raw_get =
  rg_chunks :: "string list"
  rg_broken :: bool
  rg_length :: "int option"
  rg_type :: "string option"
  rg_etag :: "string option"

record 's s3 =
  bucket :: string
  conditional_writes :: bool
  clock :: "'s \<Rightarrow> nat"
  list_objects_v2 :: "string \<Rightarrow> string option \<Rightarrow> 's \<Rightarrow> (sdk_failure + list_result) list \<times> 's"
  head_object :: "string \<Rightarrow> ('s, sdk_failure, raw_head) cmd"
  get_object :: "string \<Rightarrow> string option \<Rightarrow> ('s, sdk_failure, raw_get) cmd"
  put_object :: "string \<Rightarrow> string \<Rightarrow> string option \<Rightarrow> string option \<Rightarrow> string option \<Rightarrow> ('s, sdk_failure, string option) cmd"
  copy_object :: "string \<Rightarrow> string \<Rightarrow> ('s, sdk_failure, unit) cmd"
  delete_object :: "string \<Rightarrow> ('s, sdk_failure, unit) cmd"
  delete_objects :: "string list \<Rightarrow> ('s, sdk_failure, string list) cmd"
  sdk_create_multipart :: "string \<Rightarrow> ('s, sdk_failure, string option) cmd"
  sdk_complete_multipart :: "string \<Rightarrow> string \<Rightarrow> (int \<times> string) list \<Rightarrow> ('s, sdk_failure, unit) cmd"
  sdk_abort_multipart :: "string \<Rightarrow> string \<Rightarrow> ('s, sdk_failure, unit) cmd"

section \<open>Results of the wrapper\<close>

datatype s3_error = NotFound string | PreconditionFailed | Other

record object_info =
  oi_key :: string
  oi_size :: nat
  oi_etag :: "string option"
  oi_modified :: "nat option"

record head_info =
  hi_size :: nat
  hi_etag :: "string option"
  hi_modified :: "nat option"

record got_stream =
  gs_chunks :: "string list"
  gs_broken :: bool
  gs_length :: "int option"
  gs_type :: "string option"
  gs_etag :: "string option"

section \<open>Helpers\<close>

text \<open>\<^verbatim>\<open>s.trim_matches('"')\<close>\<close>

definition strip_etag_quotes :: "string \<Rightarrow> string" where
  "strip_etag_quotes s =
     rev (dropWhile (\<lambda>c. c = CHR 0x22) (rev (dropWhile (\<lambda>c. c = CHR 0x22) s)))"

definition hex_digit :: "nat \<Rightarrow> char" where
  "hex_digit n = (if n < 10 then char_of (48 + n) else char_of (55 + n))"

text \<open>The bytes \<^verbatim>\<open>utf8_percent_encode\<close> encodes with the set \<^verbatim>\<open>SET\<close>: control characters, the listed
  ones and every byte beyond ASCII.\<close>

definition encoded_byte :: "char \<Rightarrow> bool" where
  "encoded_byte c \<longleftrightarrow> byte c < 32 \<or> 127 \<le> byte c \<or>
     c \<in> {CHR '' '', CHR 0x22, CHR ''#'', CHR ''<'', CHR ''>'', CHR ''?'', CHR 0x60, CHR ''{'', CHR ''}''}"

definition percent_encode :: "(char \<Rightarrow> bool) \<Rightarrow> string \<Rightarrow> string" where
  "percent_encode enc s = concat (map (\<lambda>c. if enc c
     then [CHR ''%'', hex_digit (byte c div 16), hex_digit (byte c mod 16)] else [c]) s)"

definition url_encode_key :: "string \<Rightarrow> string" where
  "url_encode_key key = percent_encode encoded_byte key"

definition is_not_found :: "sdk_failure \<Rightarrow> bool" where
  "is_not_found e = (case e of ServiceError _ _ nf \<Rightarrow> nf | OtherFailure \<Rightarrow> False)"

definition is_precondition_failed :: "sdk_failure \<Rightarrow> bool" where
  "is_precondition_failed e = (case e of
       ServiceError (Some code) _ _ \<Rightarrow> code = ''PreconditionFailed''
     | ServiceError None status _ \<Rightarrow> status = 412
     | OtherFailure \<Rightarrow> False)"

definition size_of :: "int option \<Rightarrow> nat" where
  "size_of n = nat (max (case n of None \<Rightarrow> 0 | Some i \<Rightarrow> i) 0)"

section \<open>Listing\<close>

text \<open>The paginator is drained page by page; the first failing page ends the listing.\<close>

fun drain_pages :: "(list_result \<Rightarrow> 'a list) \<Rightarrow> (sdk_failure + list_result) list \<Rightarrow> 'a list \<Rightarrow> unit + 'a list" where
  "drain_pages f [] out = Inr out"
| "drain_pages f (Inl e # pages) out = Inl ()"
| "drain_pages f (Inr p # pages) out = drain_pages f pages (out @ f p)"

definition list_common_prefixes :: "'s s3 \<Rightarrow> string \<Rightarrow> ('s, unit, string list) cmd" where
  "list_common_prefixes c prefix = (\<lambda>s. case list_objects_v2 c prefix (Some ''/'') s of
     (pages, s') \<Rightarrow> (drain_pages (\<lambda>p. List.map_filter (\<lambda>x. x) (lr_prefixes p)) pages [], s'))"

definition object_of :: "raw_object \<Rightarrow> object_info option" where
  "object_of o' = map_option (\<lambda>key. \<lparr>oi_key = key, oi_size = size_of (ro_size o'),
     oi_etag = map_option strip_etag_quotes (ro_etag o'), oi_modified = ro_modified o'\<rparr>) (ro_key o')"

definition list_objects :: "'s s3 \<Rightarrow> string \<Rightarrow> ('s, unit, object_info list) cmd" where
  "list_objects c prefix = (\<lambda>s. case list_objects_v2 c prefix None s of
     (pages, s') \<Rightarrow> (drain_pages (\<lambda>p. List.map_filter object_of (lr_contents p)) pages [], s'))"

section \<open>Single objects\<close>

definition head :: "'s s3 \<Rightarrow> string \<Rightarrow> ('s, unit, head_info option) cmd" where
  "head c key = matchE (head_object c key) (\<lambda>r. case r of
       Inr out \<Rightarrow> ret (Some \<lparr>hi_size = size_of (rh_length out),
                     hi_etag = map_option strip_etag_quotes (rh_etag out), hi_modified = rh_modified out\<rparr>)
     | Inl e \<Rightarrow> if is_not_found e then ret None else throw ())"

definition get_error :: "string \<Rightarrow> sdk_failure \<Rightarrow> s3_error" where
  "get_error key e = (if is_not_found e then NotFound key else Other)"

definition get_stream_range :: "'s s3 \<Rightarrow> string \<Rightarrow> nat option \<Rightarrow> ('s, s3_error, got_stream) cmd" where
  "get_stream_range c key start =
     bindE (map_errE (get_error key) (get_object c key (map_option (\<lambda>n. ''bytes='' @ dec n @ ''-'') start)))
       (\<lambda>resp. ret \<lparr>gs_chunks = rg_chunks resp, gs_broken = rg_broken resp, gs_length = rg_length resp,
          gs_type = rg_type resp, gs_etag = map_option strip_etag_quotes (rg_etag resp)\<rparr>)"

definition get_stream :: "'s s3 \<Rightarrow> string \<Rightarrow> ('s, s3_error, got_stream) cmd" where
  "get_stream c key = get_stream_range c key None"

text \<open>\<^verbatim>\<open>body.collect()\<close>: the whole body in memory, or an error when the stream breaks.\<close>

definition get_bytes :: "'s s3 \<Rightarrow> string \<Rightarrow> ('s, s3_error, string \<times> string option) cmd" where
  "get_bytes c key =
     bindE (map_errE (get_error key) (get_object c key None)) (\<lambda>resp.
       if rg_broken resp then throw Other
       else ret (concat (rg_chunks resp), map_option strip_etag_quotes (rg_etag resp)))"

definition put_bytes ::
  "'s s3 \<Rightarrow> string \<Rightarrow> string \<Rightarrow> string option \<Rightarrow> string option \<Rightarrow> string option \<Rightarrow> ('s, s3_error, string) cmd" where
  "put_bytes c key body content_type if_match if_none_match =
     bindE (map_errE (\<lambda>e. if is_precondition_failed e then PreconditionFailed else Other)
              (put_object c key body content_type if_match if_none_match))
       (\<lambda>etag. ret (case etag of None \<Rightarrow> [] | Some e \<Rightarrow> strip_etag_quotes e))"

definition copy :: "'s s3 \<Rightarrow> string \<Rightarrow> string \<Rightarrow> ('s, unit, unit) cmd" where
  "copy c src_key dst_key =
     map_errE (\<lambda>_. ()) (copy_object c dst_key (bucket c @ ''/'' @ url_encode_key src_key))"

definition delete :: "'s s3 \<Rightarrow> string \<Rightarrow> ('s, unit, unit) cmd" where
  "delete c key = map_errE (\<lambda>_. ()) (delete_object c key)"

text \<open>\<^verbatim>\<open>chunks(n)\<close>\<close>

function chunks :: "nat \<Rightarrow> 'a list \<Rightarrow> 'a list list" where
  "chunks n xs = (if xs = [] \<or> n = 0 then [] else take n xs # chunks n (drop n xs))"
  by auto
termination
  by (relation "measure (\<lambda>(n, xs). length xs)") auto

declare chunks.simps [simp del]

text \<open>
  A batch that is answered carries the keys the store refused to delete (in quiet mode nothing else); the
  wrapper does not look at them.
\<close>

definition delete_prefix :: "'s s3 \<Rightarrow> string \<Rightarrow> ('s, unit, nat) cmd" where
  "delete_prefix c prefix =
     bindE (list_objects c prefix) (\<lambda>objs.
       foldE (\<lambda>chunk deleted.
           bindE (map_errE (\<lambda>_. ()) (delete_objects c (map oi_key chunk))) (\<lambda>refused.
             ret (deleted + length chunk)))
         (chunks 1000 objs) 0)"

section \<open>Multipart uploads\<close>

definition create_multipart_upload :: "'s s3 \<Rightarrow> string \<Rightarrow> ('s, unit, string) cmd" where
  "create_multipart_upload c key =
     bindE (map_errE (\<lambda>_. ()) (sdk_create_multipart c key)) (\<lambda>id.
       case id of None \<Rightarrow> throw () | Some u \<Rightarrow> ret u)"

definition complete_multipart_upload :: "'s s3 \<Rightarrow> string \<Rightarrow> string \<Rightarrow> (int \<times> string) list \<Rightarrow> ('s, unit, unit) cmd" where
  "complete_multipart_upload c key upload_id parts =
     map_errE (\<lambda>_. ()) (sdk_complete_multipart c key upload_id (sort_key fst parts))"

definition abort_multipart_upload :: "'s s3 \<Rightarrow> string \<Rightarrow> string \<Rightarrow> ('s, unit, unit) cmd" where
  "abort_multipart_upload c key upload_id = map_errE (\<lambda>_. ()) (sdk_abort_multipart c key upload_id)"

end
