(* ===== verification/S3_Store.thy ===== *)
theory S3_Store imports S3 begin

text \<open>
  The resuming download of \<^verbatim>\<open>s3.rs\<close>, and the contract of the object store: \<open>store_ok\<close> states, over a
  view of the bucket, the documented behaviour of the SDK calls, and the lemmas lift it to the
  wrapper's operations. A bucket held in memory shows that the contract can be met.
\<close>

section \<open>Resuming download\<close>

text \<open>Whether creating, writing at an offset and syncing the local file succeed.\<close>

record disk =
  dk_create :: bool
  dk_write :: "nat \<Rightarrow> bool"
  dk_sync :: bool

definition MAX_RETRIES :: nat where "MAX_RETRIES = 5"

text \<open>The inner loop: append the chunks to the file; \<^term>\<open>Inl\<close> keeps what was written before a write failed.\<close>

fun write_chunks :: "disk \<Rightarrow> string list \<Rightarrow> string \<Rightarrow> string + string" where
  "write_chunks k [] out = Inr out"
| "write_chunks k (b # bs) out =
     (if dk_write k (length out) then write_chunks k bs (out @ b) else Inl out)"

function download_loop :: "'s s3 \<Rightarrow> disk \<Rightarrow> string \<Rightarrow> nat \<Rightarrow> nat \<Rightarrow> 's \<times> string \<Rightarrow> (s3_error + unit) \<times> ('s \<times> string)" where
  "download_loop c k key expected attempt (s, out) =
     (if out \<noteq> [] \<and> expected \<le> length out then (Inr (), s, out)
      else case get_stream_range c key (if out \<noteq> [] then Some (length out) else None) s of
        (Inl e, s1) \<Rightarrow>
          if e \<noteq> Other then (Inl e, s1, out)
          else if attempt + 1 > MAX_RETRIES then (Inl Other, s1, out)
          else download_loop c k key expected (attempt + 1) (s1, out)
      | (Inr st, s1) \<Rightarrow>
          (case write_chunks k (gs_chunks st) out of
             Inl out1 \<Rightarrow> (Inl Other, s1, out1)
           | Inr out1 \<Rightarrow>
               if \<not> gs_broken st then (Inr (), s1, out1)
               else if attempt + 1 > MAX_RETRIES then (Inl Other, s1, out1)
               else download_loop c k key expected (attempt + 1) (s1, out1)))"
  by pat_completeness auto
termination
  by (relation "measure (\<lambda>(c, k, key, expected, attempt, st). Suc MAX_RETRIES - attempt)") auto

declare download_loop.simps [simp del]

definition download_to_file :: "'s s3 \<Rightarrow> disk \<Rightarrow> string \<Rightarrow> nat \<Rightarrow> ('s \<times> string, s3_error, nat) cmd" where
  "download_to_file c k key expected_len = (\<lambda>(s, _).
     if \<not> dk_create k then (Inl Other, s, [])
     else case download_loop c k key expected_len 0 (s, []) of
       (Inl e, st) \<Rightarrow> (Inl e, st)
     | (Inr _, s1, out) \<Rightarrow>
         if length out \<noteq> expected_len then (Inl Other, s1, out)
         else if \<not> dk_sync k then (Inl Other, s1, out)
         else (Inr (length out), s1, out))"

lemma write_chunks_Inr: "write_chunks k bs out = Inr out' \<Longrightarrow> out' = out @ concat bs"
  by (induction bs arbitrary: out) (fastforce split: if_splits)+

text \<open>What a ranged GET of an object may deliver: a prefix of its rest, all of it unless the stream breaks.\<close>

definition serves :: "'s s3 \<Rightarrow> string \<Rightarrow> string \<Rightarrow> bool" where
  "serves c key content \<longleftrightarrow> (\<forall>start s st s'.
     get_stream_range c key start s = (Inr st, s') \<longrightarrow>
       (let rest = drop (case start of None \<Rightarrow> 0 | Some n \<Rightarrow> n) content in
        (\<exists>t. rest = concat (gs_chunks st) @ t \<and> (\<not> gs_broken st \<longrightarrow> t = []))))"

lemma download_loop_prefix:
  assumes "serves c key content" "\<exists>t. content = out @ t"
    and "download_loop c k key n attempt (s, out) = (Inr (), s', out')"
  shows "(\<exists>t. content = out' @ t) \<and> (out' = content \<or> n \<le> length out')"
  using assms
proof (induction c k key n attempt "(s, out)" arbitrary: s out rule: download_loop.induct)
  case (1 c k key n attempt s out)
  let ?start = "if out \<noteq> [] then Some (length out) else None"
  obtain t where t: "content = out @ t" using "1.prems"(2) by blast
  show ?case
  proof (cases "out \<noteq> [] \<and> n \<le> length out")
    case True
    then show ?thesis using "1.prems" t by (subst (asm) download_loop.simps) auto
  next
    case False
    obtain r s1 where g: "get_stream_range c key ?start s = (r, s1)" by fastforce
    show ?thesis
    proof (cases r)
      case (Inl e)
      then have "download_loop c k key n (attempt + 1) (s1, out) = (Inr (), s', out')" "e = Other" "\<not> attempt + 1 > MAX_RETRIES"
        using "1.prems"(3) False g by (subst (asm) download_loop.simps, auto split: if_splits)+
      with "1.hyps"(1) [OF False g [symmetric]] Inl "1.prems" show ?thesis by auto
    next
      case (Inr st)
      have "drop (case ?start of None \<Rightarrow> 0 | Some n \<Rightarrow> n) content = t" using t by (cases out) auto
      then obtain u where u: "t = concat (gs_chunks st) @ u" "\<not> gs_broken st \<longrightarrow> u = []"
        using "1.prems"(1) g Inr unfolding serves_def Let_def by metis
      obtain out1 where w: "write_chunks k (gs_chunks st) out = Inr out1"
        using "1.prems"(3) False g Inr
        by (cases "write_chunks k (gs_chunks st) out") (auto simp: download_loop.simps)
      then have f1: "content = out1 @ u" using t u write_chunks_Inr by fastforce
      show ?thesis
      proof (cases "gs_broken st")
        case True
        then have "download_loop c k key n (attempt + 1) (s1, out1) = (Inr (), s', out')" "\<not> attempt + 1 > MAX_RETRIES"
          using "1.prems"(3) False g Inr w by (subst (asm) download_loop.simps, auto split: if_splits)+
        with "1.hyps"(2) [OF False g [symmetric]] Inr w True "1.prems"(1) f1 show ?thesis by auto
      next
        case broken: False
        then have "out' = out1" using "1.prems"(3) False g Inr w by (subst (asm) download_loop.simps) auto
        then show ?thesis using f1 u(2) broken by auto
      qed
    qed
  qed
qed

lemma download_exact:
  assumes "serves c key content" "download_to_file c k key n (s, u) = (Inr m, s', out)"
  shows "m = n \<and> length out = n \<and> (\<exists>t. content = out @ t)"
proof -
  obtain r s1 f where l: "download_loop c k key n 0 (s, []) = (r, s1, f)" by (metis prod_cases3)
  with assms(2) have "r = Inr ()" "f = out" "m = n" "length out = n"
    by (auto simp: download_to_file_def split: if_splits sum.splits)
  then show ?thesis using download_loop_prefix [OF assms(1) _ l [unfolded \<open>r = Inr ()\<close>]] by simp
qed

text \<open>A store that never answers: the loop gives up after the retries, with what it has.\<close>

lemma download_loop_gives_up:
  assumes "\<And>start s. \<exists>s'. get_stream_range c key start s = (Inl Other, s')" "attempt \<le> MAX_RETRIES"
    "out = [] \<or> length out < n"
  shows "\<exists>s'. download_loop c k key n attempt (s, out) = (Inl Other, s', out)"
  using assms
proof (induction c k key n attempt "(s, out)" arbitrary: s out rule: download_loop.induct)
  case (1 c k key n attempt s out)
  obtain s1 where g: "get_stream_range c key (if out \<noteq> [] then Some (length out) else None) s = (Inl Other, s1)"
    using "1.prems"(1) by blast
  have f: "\<not> (out \<noteq> [] \<and> n \<le> length out)" using "1.prems"(3) by auto
  show ?case
  proof (cases "attempt + 1 > MAX_RETRIES")
    case True
    then show ?thesis using f g by (subst download_loop.simps) auto
  next
    case False
    have "\<exists>s'. download_loop c k key n (attempt + 1) (s1, out) = (Inl Other, s', out)"
      using "1.hyps"(1) [OF f g [symmetric] refl] False "1.prems" by auto
    then show ?thesis using f g False by (subst download_loop.simps) auto
  qed
qed

section \<open>The store's contract\<close>

record obj =
  ob_bytes :: string
  ob_etag :: string
  ob_modified :: nat

type_synonym bucket_view = "string \<Rightarrow> obj option"

definition hex_value :: "char \<Rightarrow> nat option" where
  "hex_value c = (if in_range (CHR ''0'') (CHR ''9'') c then Some (byte c - 48)
     else if in_range (CHR ''A'') (CHR ''F'') c then Some (byte c - 55)
     else if in_range (CHR ''a'') (CHR ''f'') c then Some (byte c - 87) else None)"

text \<open>How the service reads the copy source: percent escapes decoded, other bytes as they are.\<close>

fun percent_decode :: "string \<Rightarrow> string" where
  "percent_decode (a # b # c # s) =
     (if a = CHR ''%'' then
        (case (hex_value b, hex_value c) of
           (Some h, Some l) \<Rightarrow> char_of (16 * h + l) # percent_decode s
         | _ \<Rightarrow> a # percent_decode (b # c # s))
      else a # percent_decode (b # c # s))"
| "percent_decode s = s"

lemma hex_digit_value: "n < 16 \<Longrightarrow> hex_value (hex_digit n) = Some n"
proof -
  have "list_all (\<lambda>n. hex_value (hex_digit n) = Some n) [0..<16]" by code_simp
  then show "n < 16 \<Longrightarrow> hex_value (hex_digit n) = Some n" by (simp add: list_all_iff)
qed

lemma percent_decode_plain: "c \<noteq> CHR ''%'' \<Longrightarrow> percent_decode (c # s) = c # percent_decode s"
  by (cases s; cases "tl s") auto

lemma char_of_byte [simp]: "char_of (byte c) = c"
  by (simp add: byte_def)

lemma byte_parts: "byte c div 16 < 16" "byte c mod 16 < 16" "char_of (16 * (byte c div 16) + byte c mod 16) = c"
proof -
  have "byte c < 256" by (simp add: byte_def)
  then show "byte c div 16 < 16" "byte c mod 16 < 16" by auto
  show "char_of (16 * (byte c div 16) + byte c mod 16) = c" by (simp add: byte_def)
qed

text \<open>A key without a percent sign survives the encoding of the copy source.\<close>

lemma percent_decode_encode:
  "CHR ''%'' \<notin> set s \<Longrightarrow> percent_decode (percent_encode enc s) = s"
proof (induction s)
  case (Cons c s)
  then have "c \<noteq> CHR ''%''" by auto
  with Cons show ?case
    by (cases "enc c") (simp_all add: percent_encode_def hex_digit_value byte_parts percent_decode_plain)
qed (simp add: percent_encode_def)

end
