(* ===== verification/Scanner.thy ===== *)
theory Scanner imports Db_Search S3_Store begin

text \<open>
  \<^verbatim>\<open>src/backend/src/cache/scanner.rs\<close>: the reconciliation of the object store with the cache. A pod's
  state is the outside world, its cache and its tick cells; a pass runs its per-entry tasks one
  after another in the order a schedule gives (each task touches the cache in one transaction).
  Logging, metrics and events are dropped; a task never panics.
\<close>

datatype sync_domain = SyncUsers | SyncSets | SyncPending

record 's pod =
  world :: 's
  cache :: db
  tick_cells :: "sync_domain \<Rightarrow> string option"

definition on_world :: "('s, 'e, 'a) cmd \<Rightarrow> ('s pod, 'e, 'a) cmd" where
  [cmd_defs]: "on_world m = (\<lambda>p. case m (world p) of (r, s) \<Rightarrow> (r, p \<lparr>world := s\<rparr>))"

definition on_cache :: "(db, 'e, 'a) cmd \<Rightarrow> ('s pod, 'e, 'a) cmd" where
  [cmd_defs]: "on_cache m = (\<lambda>p. case m (cache p) of (r, d) \<Rightarrow> (r, p \<lparr>cache := d\<rparr>))"

datatype scan_error = ScanS3 | ScanDb db_error | ScanParse

definition s3_call :: "('s, 'e, 'a) cmd \<Rightarrow> ('s pod, scan_error, 'a) cmd" where
  [cmd_defs]: "s3_call m = map_errE (\<lambda>_. ScanS3) (on_world m)"

definition db_call :: "(db, db_error, 'a) cmd \<Rightarrow> ('s pod, scan_error, 'a) cmd" where
  [cmd_defs]: "db_call m = map_errE ScanDb (on_cache m)"

definition read_db :: "(db \<Rightarrow> 'a) \<Rightarrow> ('s pod, 'e, 'a) cmd" where
  [cmd_defs]: "read_db f = gets (\<lambda>p. f (cache p))"

text \<open>The external functions the pod uses beside the store: the text formats and the users file.\<close>

record user_entry =
  ue_sub :: string
  ue_display_name :: "string option"
  ue_blocked :: bool
  ue_added_at :: "datetime option"
  ue_added_by :: "string option"
  ue_roles :: "string list"
  ue_api_key_hash :: "string option"

record pod_ext = db_ext +
  toml_users :: "string \<Rightarrow> user_entry list option"
  print_users :: "user_entry list \<Rightarrow> string option"
  schedule :: "string list \<Rightarrow> string list"

definition SAMPLES_PREFIX :: string where "SAMPLES_PREFIX = ''samples/''"
definition PENDING_PREFIX :: string where "PENDING_PREFIX = ''pending/''"
definition USERS_KEY :: string where "USERS_KEY = ''_system/users.toml''"
definition META_FILE :: string where "META_FILE = ''rawdb-meta.toml''"

section \<open>Prefixes\<close>

definition trim_end_slashes :: "string \<Rightarrow> string" where
  "trim_end_slashes s = rev (dropWhile (\<lambda>c. c = slash) (rev s))"

definition split_set_prefix :: "string \<Rightarrow> (string \<times> string) option" where
  "split_set_prefix prefix = (case strip_prefix SAMPLES_PREFIX prefix of
       None \<Rightarrow> None
     | Some r \<Rightarrow> (case split_once slash (trim_end_slashes r) of
         None \<Rightarrow> None
       | Some (maker, model) \<Rightarrow>
           if maker = [] \<or> model = [] \<or> slash \<in> set model then None else Some (maker, model)))"

definition split_pending_prefix :: "string \<Rightarrow> string option" where
  "split_pending_prefix prefix = (case strip_prefix PENDING_PREFIX prefix of
       None \<Rightarrow> None
     | Some r \<Rightarrow> (let rest = trim_end_slashes r in
         if rest = [] \<or> slash \<in> set rest then None else Some rest))"

section \<open>Meta and files of one entry\<close>

text \<open>\<^verbatim>\<open>std::str::from_utf8\<close>: well-formed UTF-8 (RFC 3629).\<close>

fun utf8_valid :: "string \<Rightarrow> bool" where
  "utf8_valid [] = True"
| "utf8_valid (a # s) =
     (if byte a < 128 then utf8_valid s
      else if 194 \<le> byte a \<and> byte a < 224 then
        (case s of b # s1 \<Rightarrow> cont_byte b \<and> utf8_valid s1 | _ \<Rightarrow> False)
      else if 224 \<le> byte a \<and> byte a < 240 then
        (case s of b # c # s2 \<Rightarrow>
            cont_byte b \<and> (byte a = 224 \<longrightarrow> 160 \<le> byte b) \<and> (byte a = 237 \<longrightarrow> byte b < 160)
            \<and> cont_byte c \<and> utf8_valid s2
         | _ \<Rightarrow> False)
      else if 240 \<le> byte a \<and> byte a < 245 then
        (case s of b # c # e # s3 \<Rightarrow>
            cont_byte b \<and> (byte a = 240 \<longrightarrow> 144 \<le> byte b) \<and> (byte a = 244 \<longrightarrow> byte b < 144)
            \<and> cont_byte c \<and> cont_byte e \<and> utf8_valid s3
         | _ \<Rightarrow> False)
      else False)"

definition parse_meta :: "'z meta_ext_scheme \<Rightarrow> string \<Rightarrow> unit + rawdb_meta" where
  "parse_meta x bytes =
     (if \<not> utf8_valid bytes then Inl () else map_errR (\<lambda>_. ()) (parse x bytes))"

fun index_objects :: "string \<Rightarrow> object_info list \<Rightarrow> (string \<Rightarrow> size_info option) \<Rightarrow> (string \<Rightarrow> size_info option)" where
  "index_objects prefix [] by_rel = by_rel"
| "index_objects prefix (obj # objs) by_rel =
     (case strip_prefix prefix (oi_key obj) of
        None \<Rightarrow> index_objects prefix objs by_rel
      | Some rel \<Rightarrow>
          if rel = META_FILE then index_objects prefix objs by_rel
          else index_objects prefix objs (by_rel(rel \<mapsto> \<lparr>si_size = oi_size obj, si_etag = oi_etag obj\<rparr>)))"

fun pair_with :: "(string \<Rightarrow> size_info option) \<Rightarrow> file_meta list \<Rightarrow> (file_meta \<times> size_info) list \<Rightarrow> string list
    \<Rightarrow> (file_meta \<times> size_info) list \<times> string list" where
  "pair_with by_rel [] out missing = (out, missing)"
| "pair_with by_rel (f # fs) out missing =
     (case by_rel (fm_path f) of
        Some si \<Rightarrow> pair_with by_rel fs (out @ [(f, si)]) missing
      | None \<Rightarrow> pair_with by_rel fs out (missing @ [fm_path f]))"

definition pair_files :: "rawdb_meta \<Rightarrow> string \<Rightarrow> object_info list \<Rightarrow> string list + (file_meta \<times> size_info) list" where
  "pair_files m prefix objects =
     (case pair_with (index_objects prefix objects (\<lambda>_. None)) (rm_files m) [] [] of
        (out, missing) \<Rightarrow> if missing = [] then Inr out else Inl missing)"

datatype set_outcome = Updated | Unchanged | MetaMissing | Incomplete

text \<open>\<^verbatim>\<open>uploaded_at\<close> falls back to the meta object's modification time.\<close>

definition with_upload_time :: "datetime option \<Rightarrow> rawdb_meta \<Rightarrow> rawdb_meta" where
  "with_upload_time t m = (if sm_uploaded_at (rm_set m) = None
     then m \<lparr>rm_set := (rm_set m) \<lparr>sm_uploaded_at := t\<rparr>\<rparr> else m)"

definition scan_one_set ::
  "'z pod_ext_scheme \<Rightarrow> 's s3 \<Rightarrow> string \<Rightarrow> string \<Rightarrow> string \<Rightarrow> ('s pod, scan_error, set_outcome) cmd" where
  "scan_one_set x c prefix maker model =
     bindE (s3_call (head c (prefix @ META_FILE))) (\<lambda>h. case h of None \<Rightarrow> ret MetaMissing | Some hd' \<Rightarrow>
     bindE (read_db (get_set_meta_etag maker model)) (\<lambda>prior.
       if prior = hi_etag hd' then ret Unchanged else
     bindE (s3_call (get_bytes c (prefix @ META_FILE))) (\<lambda>(bytes, etag).
       case parse_meta x bytes of Inl _ \<Rightarrow> ret Incomplete | Inr m0 \<Rightarrow>
     (let m = with_upload_time (hi_modified hd') m0 in
     bindE (s3_call (list_objects c prefix)) (\<lambda>objects.
       case pair_files m prefix objects of Inl _ \<Rightarrow> ret Incomplete | Inr fs \<Rightarrow>
     bindE (gets (\<lambda>p. clock c (world p))) (\<lambda>now.
     bindE (db_call (upsert_set x now m etag fs)) (\<lambda>_. ret Updated)))))))"

definition scan_one_pending ::
  "'z pod_ext_scheme \<Rightarrow> 's s3 \<Rightarrow> string \<Rightarrow> string \<Rightarrow> ('s pod, scan_error, set_outcome) cmd" where
  "scan_one_pending x c prefix upload_id =
     bindE (s3_call (head c (prefix @ META_FILE))) (\<lambda>h. case h of None \<Rightarrow> ret MetaMissing | Some hd' \<Rightarrow>
     bindE (read_db (get_pending_meta_etag upload_id)) (\<lambda>prior.
       if prior = hi_etag hd' then ret Unchanged else
     bindE (s3_call (get_bytes c (prefix @ META_FILE))) (\<lambda>(bytes, etag).
       case parse_meta x bytes of Inl _ \<Rightarrow> ret Incomplete | Inr m0 \<Rightarrow>
     (let m = with_upload_time (hi_modified hd') m0 in
     bindE (s3_call (list_objects c prefix)) (\<lambda>objects.
       case pair_files m prefix objects of Inl _ \<Rightarrow> ret Incomplete | Inr fs \<Rightarrow>
     bindE (gets (\<lambda>p. clock c (world p))) (\<lambda>now.
     bindE (db_call (upsert_pending x now upload_id m etag fs)) (\<lambda>_. ret Updated)))))))"

section \<open>Passes\<close>

record pass_result =
  pr_seen :: nat
  pr_updated :: nat
  pr_deleted :: nat
  pr_transient :: nat
  pr_incomplete :: nat

definition no_result :: pass_result where
  "no_result = \<lparr>pr_seen = 0, pr_updated = 0, pr_deleted = 0, pr_transient = 0, pr_incomplete = 0\<rparr>"

definition tally :: "pass_result \<Rightarrow> scan_error + set_outcome \<Rightarrow> pass_result" where
  "tally res joined = (case joined of
       Inr Updated \<Rightarrow> res \<lparr>pr_updated := pr_updated res + 1\<rparr>
     | Inr Unchanged \<Rightarrow> res
     | Inr MetaMissing \<Rightarrow> res
     | Inr Incomplete \<Rightarrow> res \<lparr>pr_incomplete := pr_incomplete res + 1\<rparr>
     | Inl e \<Rightarrow> res \<lparr>pr_transient := pr_transient res + 1\<rparr>)"

text \<open>The joined tasks: each runs to its result, which is folded into the pass result.\<close>

fun run_tasks :: "('k \<Rightarrow> ('s pod, scan_error, set_outcome) cmd) \<Rightarrow> 'k list \<Rightarrow> pass_result \<Rightarrow> 's pod \<Rightarrow> pass_result \<times> 's pod" where
  "run_tasks f [] res p = (res, p)"
| "run_tasks f (k # ks) res p = (case f k p of (r, p1) \<Rightarrow> run_tasks f ks (tally res r) p1)"

text \<open>The deletion sweep; a failing delete is only logged.\<close>

fun sweep :: "('k \<Rightarrow> (db, db_error, unit) cmd) \<Rightarrow> 'k list \<Rightarrow> pass_result \<Rightarrow> 's pod \<Rightarrow> pass_result \<times> 's pod" where
  "sweep del [] res p = (res, p)"
| "sweep del (k # ks) res p = (case del k (cache p) of
       (Inr _, d) \<Rightarrow> sweep del ks (res \<lparr>pr_deleted := pr_deleted res + 1\<rparr>) (p \<lparr>cache := d\<rparr>)
     | (Inl _, d) \<Rightarrow> sweep del ks res (p \<lparr>cache := d\<rparr>))"

definition list_model_prefixes :: "'s s3 \<Rightarrow> ('s pod, scan_error, string list) cmd" where
  "list_model_prefixes c =
     bindE (s3_call (list_common_prefixes c SAMPLES_PREFIX)) (\<lambda>makers.
       foldE (\<lambda>mp acc. bindE (s3_call (list_common_prefixes c mp)) (\<lambda>sub. ret (acc @ sub))) makers [])"

definition scan_samples :: "'z pod_ext_scheme \<Rightarrow> 's s3 \<Rightarrow> ('s pod, scan_error, pass_result) cmd" where
  "scan_samples x c =
     bindE (list_model_prefixes c) (\<lambda>prefixes.
       (\<lambda>p. let live = List.map_filter split_set_prefix prefixes;
               prior = remdups (list_set_keys (cache p));
               tasks = filter (\<lambda>pre. split_set_prefix pre \<noteq> None) (schedule x prefixes);
               (res1, p1) = run_tasks (\<lambda>pre. case split_set_prefix pre of
                    Some (mk, md) \<Rightarrow> scan_one_set x c pre mk md | None \<Rightarrow> ret Unchanged)
                  tasks (no_result \<lparr>pr_seen := length prefixes\<rparr>) p;
               (res2, p2) = sweep (\<lambda>k. delete_set (fst k) (snd k))
                  (filter (\<lambda>k. k \<notin> set live) prior) res1 p1
           in (Inr res2, p2)))"

definition scan_pending :: "'z pod_ext_scheme \<Rightarrow> 's s3 \<Rightarrow> ('s pod, scan_error, pass_result) cmd" where
  "scan_pending x c =
     bindE (s3_call (list_common_prefixes c PENDING_PREFIX)) (\<lambda>prefixes.
       (\<lambda>p. let live = List.map_filter split_pending_prefix prefixes;
               prior = remdups (list_pending_upload_ids (cache p));
               tasks = filter (\<lambda>pre. split_pending_prefix pre \<noteq> None) (schedule x prefixes);
               (res1, p1) = run_tasks (\<lambda>pre. case split_pending_prefix pre of
                    Some u \<Rightarrow> scan_one_pending x c pre u | None \<Rightarrow> ret Unchanged)
                  tasks (no_result \<lparr>pr_seen := length prefixes\<rparr>) p;
               (res2, p2) = sweep delete_pending_by_upload_id (filter (\<lambda>u. u \<notin> set live) prior) res1 p1
           in (Inr res2, p2)))"

section \<open>Users\<close>

definition user_row_of :: "user_entry \<Rightarrow> user_row" where
  "user_row_of e =
     \<lparr>ur_sub = ue_sub e, ur_display_name = ue_display_name e, ur_blocked = ue_blocked e,
      ur_added_at = ue_added_at e, ur_added_by = ue_added_by e, ur_roles = ue_roles e,
      ur_api_key_hash = ue_api_key_hash e\<rparr>"

definition parse_users_toml :: "'z pod_ext_scheme \<Rightarrow> string \<Rightarrow> unit + user_row list" where
  "parse_users_toml x bytes =
     (if \<not> utf8_valid bytes then Inl ()
      else case toml_users x bytes of None \<Rightarrow> Inl () | Some us \<Rightarrow> Inr (map user_row_of us))"

text \<open>Whether the users table was rewritten.\<close>

definition scan_users :: "'z pod_ext_scheme \<Rightarrow> 's s3 \<Rightarrow> ('s pod, scan_error, nat) cmd" where
  "scan_users x c =
     bindE (s3_call (head c USERS_KEY)) (\<lambda>h. case h of
       None \<Rightarrow>
         bindE (read_db get_users_etag) (\<lambda>e.
           if e \<noteq> None then bindE (db_call (replace_users x None [])) (\<lambda>_. ret 1) else ret 0)
     | Some hd' \<Rightarrow>
         bindE (read_db get_users_etag) (\<lambda>e.
           if hi_etag hd' = e then ret 0 else
         bindE (s3_call (get_bytes c USERS_KEY)) (\<lambda>(bytes, etag).
           case parse_users_toml x bytes of Inl _ \<Rightarrow> throw ScanParse | Inr us \<Rightarrow>
         bindE (db_call (replace_users x etag us)) (\<lambda>_. ret 1))))"

section \<open>Whole scans\<close>

record scan_summary =
  sc_samples :: pass_result
  sc_pending :: pass_result
  sc_users_updated :: nat
  sc_transient :: nat
  sc_incomplete :: nat

definition run_once :: "'z pod_ext_scheme \<Rightarrow> 's s3 \<Rightarrow> ('s pod, scan_error, scan_summary) cmd" where
  "run_once x c =
     bindE (scan_samples x c) (\<lambda>a.
     bindE (scan_pending x c) (\<lambda>b.
     bindE (scan_users x c) (\<lambda>u.
     bindE (gets (\<lambda>p. clock c (world p))) (\<lambda>now.
     bindE (db_call (set_last_full_scan_at x now)) (\<lambda>_.
       ret \<lparr>sc_samples = a, sc_pending = b, sc_users_updated = u,
            sc_transient = pr_transient a + pr_transient b,
            sc_incomplete = pr_incomplete a + pr_incomplete b\<rparr>)))))"

definition run_samples_pass :: "'z pod_ext_scheme \<Rightarrow> 's s3 \<Rightarrow> ('s pod, scan_error, unit) cmd" where
  "run_samples_pass x c = bindE (scan_samples x c) (\<lambda>_. ret ())"
definition run_pending_pass :: "'z pod_ext_scheme \<Rightarrow> 's s3 \<Rightarrow> ('s pod, scan_error, unit) cmd" where
  "run_pending_pass x c = bindE (scan_pending x c) (\<lambda>_. ret ())"
definition run_users_pass :: "'z pod_ext_scheme \<Rightarrow> 's s3 \<Rightarrow> ('s pod, scan_error, unit) cmd" where
  "run_users_pass x c = bindE (scan_users x c) (\<lambda>_. ret ())"

definition refresh_one_set :: "'z pod_ext_scheme \<Rightarrow> 's s3 \<Rightarrow> string \<Rightarrow> string \<Rightarrow> ('s pod, scan_error, unit) cmd" where
  "refresh_one_set x c maker model =
     bindE (scan_one_set x c (SAMPLES_PREFIX @ maker @ ''/'' @ model @ ''/'') maker model) (\<lambda>r. case r of
       MetaMissing \<Rightarrow> db_call (delete_set maker model)
     | Incomplete \<Rightarrow> ret ()
     | _ \<Rightarrow> ret ())"

definition refresh_one_pending :: "'z pod_ext_scheme \<Rightarrow> 's s3 \<Rightarrow> string \<Rightarrow> ('s pod, scan_error, unit) cmd" where
  "refresh_one_pending x c upload_id =
     bindE (scan_one_pending x c (PENDING_PREFIX @ upload_id @ ''/'') upload_id) (\<lambda>r. case r of
       MetaMissing \<Rightarrow> db_call (delete_pending_by_upload_id upload_id)
     | Incomplete \<Rightarrow> ret ()
     | _ \<Rightarrow> ret ())"

text \<open>One round of the scanner's loop: the readiness flag and the seconds to wait, with the next state.\<close>

definition INITIAL_SCAN_RETRY :: nat where "INITIAL_SCAN_RETRY = 15"

definition scan_round :: "'z pod_ext_scheme \<Rightarrow> 's s3 \<Rightarrow> nat \<Rightarrow> bool \<times> 's pod \<Rightarrow> (bool \<times> 's pod) \<times> nat" where
  "scan_round x c interval = (\<lambda>(ready, p). case run_once x c p of (r, p1) \<Rightarrow>
     let ready1 = (case r of
         Inr sm \<Rightarrow> if \<not> ready \<and> sc_transient sm = 0 then True else ready
       | Inl _ \<Rightarrow> ready)
     in ((ready1, p1), if ready1 then interval else min INITIAL_SCAN_RETRY interval))"

end
