(* ===== verification/Scanner_Props.thy ===== *)
theory Scanner_Props imports Scanner begin

text \<open>
  The scanner's consistency rule. \<open>entry_cache\<close> is the interface a reconciled entry needs of the cache
  (the stored etag, and a replacement that rolls back when it fails and stores the etag when it
  succeeds); its lemmas hold for approved sets and for pending uploads, the two instances.
\<close>

section \<open>Pairing files with the listing\<close>

lemma pair_with_eq: "pair_with g fs out missing =
    (out @ map (\<lambda>f. (f, the (g (fm_path f)))) (filter (\<lambda>f. g (fm_path f) \<noteq> None) fs),
     missing @ map fm_path (filter (\<lambda>f. g (fm_path f) = None) fs))"
  by (induction fs arbitrary: out missing) (auto split: option.splits)

lemma index_objects_Some:
  "index_objects pre objs g rel = Some si \<Longrightarrow>
     g rel = Some si \<or> (\<exists>obj\<in>set objs. oi_key obj = pre @ rel \<and> rel \<noteq> META_FILE \<and> si = \<lparr>si_size = oi_size obj, si_etag = oi_etag obj\<rparr>)"
proof (induction objs arbitrary: g)
  case (Cons obj objs)
  show ?case
  proof (cases "strip_prefix pre (oi_key obj)")
    case None
    with Cons.prems Cons.IH [of g] show ?thesis by auto
  next
    case (Some r)
    then have "oi_key obj = pre @ r" by (simp add: strip_prefix_Some)
    show ?thesis
    proof (cases "r = META_FILE")
      case True
      with Some Cons.prems Cons.IH [of g] show ?thesis by auto
    next
      case False
      let ?v = "\<lparr>si_size = oi_size obj, si_etag = oi_etag obj\<rparr>"
      have "index_objects pre objs (g(r \<mapsto> ?v)) rel = Some si" using Some False Cons.prems by simp
      from Cons.IH [OF this] consider "(g(r \<mapsto> ?v)) rel = Some si"
        | "\<exists>obj\<in>set objs. oi_key obj = pre @ rel \<and> rel \<noteq> META_FILE \<and> si = \<lparr>si_size = oi_size obj, si_etag = oi_etag obj\<rparr>"
        by blast
      then show ?thesis
        using False \<open>oi_key obj = pre @ r\<close> by cases (auto split: if_splits)
    qed
  qed
qed simp

lemma index_objects_None:
  "index_objects pre objs g rel = None \<longleftrightarrow> g rel = None \<and> (rel = META_FILE \<or> (\<forall>obj\<in>set objs. oi_key obj \<noteq> pre @ rel))"
proof (induction objs arbitrary: g)
  case (Cons obj objs)
  show ?case
  proof (cases "strip_prefix pre (oi_key obj)")
    case None
    then have "oi_key obj \<noteq> pre @ rel" by auto
    with None Cons show ?thesis by simp
  next
    case (Some r)
    then have "oi_key obj = pre @ r" by (simp add: strip_prefix_Some)
    with Some Cons show ?thesis by auto
  qed
qed simp

lemma pair_files_Inr:
  assumes "pair_files m pre objs = Inr fs"
  shows "map fst fs = rm_files m"
    "\<forall>(f, si)\<in>set fs. \<exists>obj\<in>set objs. oi_key obj = pre @ fm_path f \<and> si = \<lparr>si_size = oi_size obj, si_etag = oi_etag obj\<rparr>"
proof -
  let ?g = "index_objects pre objs (\<lambda>_. None)"
  have all: "\<forall>f\<in>set (rm_files m). ?g (fm_path f) \<noteq> None"
    and fs: "fs = map (\<lambda>f. (f, the (?g (fm_path f)))) (rm_files m)"
    using assms by (auto simp: pair_files_def pair_with_eq filter_empty_conv split: if_splits)
  show "map fst fs = rm_files m" by (simp add: fs comp_def)
  show "\<forall>(f, si)\<in>set fs. \<exists>obj\<in>set objs. oi_key obj = pre @ fm_path f \<and> si = \<lparr>si_size = oi_size obj, si_etag = oi_etag obj\<rparr>"
    using all index_objects_Some [of pre objs "\<lambda>_. None"] by (fastforce simp: fs)
qed

lemma pair_files_Inl:
  assumes "pair_files m pre objs = Inl missing"
  shows "missing \<noteq> [] \<and> missing = filter (\<lambda>p. p = META_FILE \<or> (\<forall>obj\<in>set objs. oi_key obj \<noteq> pre @ p)) (map fm_path (rm_files m))"
  using assms
  by (auto simp: pair_files_def pair_with_eq index_objects_None filter_map comp_def split: if_splits)

section \<open>Hoare rules for the pod\<close>

lemma valid_option [hoare_rules]:
  "(v = None \<Longrightarrow> valid P m Q E) \<Longrightarrow> (\<And>y. v = Some y \<Longrightarrow> valid P (f y) Q E) \<Longrightarrow>
   valid P (case v of None \<Rightarrow> m | Some y \<Rightarrow> f y) Q E"
  by (cases v) auto

lemma valid_sum [hoare_rules]:
  "(\<And>e. v = Inl e \<Longrightarrow> valid P (m e) Q E) \<Longrightarrow> (\<And>y. v = Inr y \<Longrightarrow> valid P (f y) Q E) \<Longrightarrow>
   valid P (case v of Inl e \<Rightarrow> m e | Inr y \<Rightarrow> f y) Q E"
  by (cases v) auto

lemma valid_pair [hoare_rules]:
  "(\<And>a b. v = (a, b) \<Longrightarrow> valid P (f a b) Q E) \<Longrightarrow> valid P (case v of (a, b) \<Rightarrow> f a b) Q E"
  by (cases v) auto

lemma valid_s3_call:
  "(\<And>p s. I p \<Longrightarrow> I (p \<lparr>world := s\<rparr>)) \<Longrightarrow> valid I (s3_call m) (\<lambda>_. I) (\<lambda>_. I)"
  by (auto simp: valid_def cmd_defs map_errR_def split: prod.splits sum.splits)

lemma valid_gets: "valid I (gets f) (\<lambda>_. I) E"
  by (simp add: valid_def cmd_defs)

lemma valid_s3_bind:
  "(\<And>a. valid I (f a) Q (\<lambda>_. I)) \<Longrightarrow> (\<And>p s. I p \<Longrightarrow> I (p \<lparr>world := s\<rparr>)) \<Longrightarrow>
   valid I (bindE (s3_call m) f) Q (\<lambda>_. I)"
  by (rule valid_bind [OF valid_s3_call])

lemma valid_gets_bind: "(\<And>a. valid I (f a) Q E) \<Longrightarrow> valid I (bindE (gets g) f) Q E"
  by (rule valid_bind [OF valid_gets])

section \<open>One entry\<close>

definition scan_entry ::
  "'z pod_ext_scheme \<Rightarrow> 's s3 \<Rightarrow> string \<Rightarrow> (db \<Rightarrow> string option)
     \<Rightarrow> (datetime \<Rightarrow> rawdb_meta \<Rightarrow> string option \<Rightarrow> (file_meta \<times> size_info) list \<Rightarrow> (db, db_error, unit) cmd)
     \<Rightarrow> ('s pod, scan_error, set_outcome) cmd" where
  "scan_entry x c prefix prior_etag put =
     bindE (s3_call (head c (prefix @ META_FILE))) (\<lambda>h. case h of None \<Rightarrow> ret MetaMissing | Some hd' \<Rightarrow>
     bindE (read_db prior_etag) (\<lambda>prior.
       if prior = hi_etag hd' then ret Unchanged else
     bindE (s3_call (get_bytes c (prefix @ META_FILE))) (\<lambda>(bytes, etag).
       case parse_meta x bytes of Inl _ \<Rightarrow> ret Incomplete | Inr m0 \<Rightarrow>
     (let m = with_upload_time (hi_modified hd') m0 in
     bindE (s3_call (list_objects c prefix)) (\<lambda>objects.
       case pair_files m prefix objects of Inl _ \<Rightarrow> ret Incomplete | Inr fs \<Rightarrow>
     bindE (gets (\<lambda>p. clock c (world p))) (\<lambda>now.
     bindE (db_call (put now m etag fs)) (\<lambda>_. ret Updated)))))))"

lemma scan_one_set_entry: "scan_one_set x c pre mk md = scan_entry x c pre (get_set_meta_etag mk md) (upsert_set x)"
  by (simp add: scan_one_set_def scan_entry_def)

lemma scan_one_pending_entry:
  "scan_one_pending x c pre u = scan_entry x c pre (get_pending_meta_etag u) (\<lambda>now. upsert_pending x now u)"
  by (simp add: scan_one_pending_def scan_entry_def)

lemma with_upload_time_simps [simp]:
  "rm_files (with_upload_time t m) = rm_files m" "sm_maker (rm_set (with_upload_time t m)) = sm_maker (rm_set m)"
  "sm_model (rm_set (with_upload_time t m)) = sm_model (rm_set m)" "validate (with_upload_time t m) = validate m"
  by (simp_all add: with_upload_time_def validate_def)

lemma parse_meta_Inr: "parse_meta x bytes = Inr m \<Longrightarrow> validate m = Inr () \<and> toml_meta x bytes = Some m"
  by (auto simp: parse_meta_def parse_Inr map_errR_def split: if_splits sum.splits)

text \<open>What is written when an entry is updated: a valid meta, with every declared file and no other.\<close>

definition complete_write :: "rawdb_meta \<Rightarrow> (file_meta \<times> size_info) list \<Rightarrow> bool" where
  "complete_write m fs \<longleftrightarrow> validate m = Inr () \<and> map fst fs = rm_files m"

locale entry_cache =
  fixes prior_etag :: "db \<Rightarrow> string option"
    and put :: "datetime \<Rightarrow> rawdb_meta \<Rightarrow> string option \<Rightarrow> (file_meta \<times> size_info) list \<Rightarrow> (db, db_error, unit) cmd"
    and owns :: "rawdb_meta \<Rightarrow> bool"
  assumes put_rollback: "put now m e fs d = (Inl err, d') \<Longrightarrow> d' = d"
    and put_stores: "put now m e fs d = (Inr (), d') \<Longrightarrow> owns m \<Longrightarrow> prior_etag d' = e"
begin

lemma entry_valid:
  fixes c :: "'s s3"
  shows "valid (\<lambda>p. cache p = d \<and> tick_cells p = t) (scan_entry x c pre prior_etag put)
     (\<lambda>r p. tick_cells p = t \<and> (if r = Updated
        then \<exists>now m e fs. put now m e fs d = (Inr (), cache p) \<and> complete_write m fs else cache p = d))
     (\<lambda>_ p. cache p = d \<and> tick_cells p = t)"
proof -
  let ?I = "\<lambda>p :: 's pod. cache p = d \<and> tick_cells p = t"
  have fin: "valid ?I (ret r) (\<lambda>r p. tick_cells p = t \<and> (if r = Updated
        then \<exists>now m e fs. put now m e fs d = (Inr (), cache p) \<and> complete_write m fs else cache p = d)) (\<lambda>_. ?I)"
    if "r \<noteq> Updated" for r using that by (simp add: valid_def ret_def)
  have wr: "valid ?I (bindE (db_call (put now m e fs)) (\<lambda>_. ret Updated))
      (\<lambda>r p. tick_cells p = t \<and> (if r = Updated
        then \<exists>now m e fs. put now m e fs d = (Inr (), cache p) \<and> complete_write m fs else cache p = d)) (\<lambda>_. ?I)"
    if "complete_write m fs" for now m e fs
    using that put_rollback [of now m e fs d]
    by (auto simp: valid_def cmd_defs map_errR_def split: prod.splits sum.splits)
  show ?thesis
    unfolding scan_entry_def Let_def read_db_def
    by (intro valid_s3_bind valid_gets_bind valid_option valid_if valid_pair valid_sum fin wr)
       (auto simp: complete_write_def dest: parse_meta_Inr pair_files_Inr(1))
qed

lemma unless_updated:
  assumes "scan_entry x c pre prior_etag put p = (r, p')" "r \<noteq> Inr Updated"
  shows "cache p' = cache p \<and> tick_cells p' = tick_cells p"
proof (cases r)
  case (Inl e)
  show ?thesis using valid_InlD [OF entry_valid, of p "cache p" "tick_cells p" x c pre e p'] assms Inl by simp
next
  case (Inr out)
  show ?thesis using valid_InrD [OF entry_valid, of p "cache p" "tick_cells p" x c pre out p'] assms Inr by simp
qed

lemma when_updated:
  assumes "scan_entry x c pre prior_etag put p = (Inr Updated, p')"
  shows "tick_cells p' = tick_cells p
    \<and> (\<exists>now m e fs. put now m e fs (cache p) = (Inr (), cache p') \<and> complete_write m fs
         \<and> (owns m \<longrightarrow> prior_etag (cache p') = e))"
proof -
  obtain now m e fs where w: "tick_cells p' = tick_cells p" "put now m e fs (cache p) = (Inr (), cache p')" "complete_write m fs"
    using valid_InrD [OF entry_valid, of p "cache p" "tick_cells p" x c pre Updated p'] assms by auto
  then show ?thesis using put_stores [OF w(2)] by blast
qed

lemma any_outcome:
  assumes "scan_entry x c pre prior_etag put p = (r, p')"
  shows "tick_cells p' = tick_cells p
    \<and> (cache p' = cache p \<or> (\<exists>now m e fs. put now m e fs (cache p) = (Inr (), cache p') \<and> complete_write m fs))"
  using unless_updated [OF assms] when_updated [of x c pre p p'] assms by (cases "r = Inr Updated") auto

text \<open>An entry whose stored etag is the one the store reports is skipped, without another read.\<close>

lemma skipped:
  "head c (pre @ META_FILE) (world p) = (Inr (Some h), w) \<Longrightarrow> hi_etag h = prior_etag (cache p) \<Longrightarrow>
   scan_entry x c pre prior_etag put p = (Inr Unchanged, p \<lparr>world := w\<rparr>)"
  by (simp add: scan_entry_def cmd_defs)

end

section \<open>The two kinds of entries\<close>

lemma commit_rollback: "commit k tx d = (Inl e, d') \<Longrightarrow> d' = d"
  by (auto simp: commit_def split: sum.splits)

lemma insert_pending_files_sets: "insert_pending_files mk md u fs d = Inr d' \<Longrightarrow> pending_sets d' = pending_sets d"
  by (induction mk md u fs d rule: insert_pending_files.induct)
     (fastforce simp: bindR_eq_Inr insert_pfile_row_def split: if_splits)+

lemma upsert_pending_sets:
  "upsert_pending x now u m e fs d = (Inr (), d') \<Longrightarrow>
   pending_sets d' = filter (Not \<circ> pending_of u) (pending_sets d) @ [pset_table_row x now u m e]"
  by (auto simp: upsert_pending_def commit_def upsert_pending_tx_def bindR_eq_Inr insert_pset_row_def
      delete_pending_rows_def bump_def split: sum.splits if_splits dest!: insert_pending_files_sets)

interpretation set_entry: entry_cache "get_set_meta_etag mk md" "upsert_set x"
    "\<lambda>m. sm_maker (rm_set m) = mk \<and> sm_model (rm_set m) = md" for mk md x
proof
  show "upsert_set x now m e fs d = (Inl err, d') \<Longrightarrow> d' = d" for now m e fs d err d'
    unfolding upsert_set_def by (rule commit_rollback)
  show "upsert_set x now m e fs d = (Inr (), d') \<Longrightarrow> sm_maker (rm_set m) = mk \<and> sm_model (rm_set m) = md \<Longrightarrow>
      get_set_meta_etag mk md d' = e" for now m e fs d d'
    by (auto simp: upsert_set_eq get_set_meta_etag_def get_set_written bump_def split: if_splits)
qed

interpretation pending_entry: entry_cache "get_pending_meta_etag u" "\<lambda>now. upsert_pending x now u" "\<lambda>_. True" for u x
proof
  show "upsert_pending x now u m e fs d = (Inl err, d') \<Longrightarrow> d' = d" for now m e fs d err d'
    unfolding upsert_pending_def by (rule commit_rollback)
  show "get_pending_meta_etag u d' = e" if "upsert_pending x now u m e fs d = (Inr (), d')" for now m e fs d d'
  proof -
    have "List.find (pending_of u) (filter (Not \<circ> pending_of u) rows) = None" for rows
      by (rule find_filter_none) simp
    then show ?thesis using upsert_pending_sets [OF that]
      by (simp add: get_pending_meta_etag_def first_row_def find_append pending_of_def [of _ "pset_table_row x now u m e"])
  qed
qed

section \<open>Sweeps and passes\<close>

locale swept_table =
  fixes keys :: "db \<Rightarrow> 'k set" and del :: "'k \<Rightarrow> (db, db_error, unit) cmd"
  assumes del_key: "\<exists>d'. del k d = (Inr (), d') \<and> keys d' = keys d - {k}"
begin

lemma sweep_keys:
  "sweep del ks res p = (res', p') \<Longrightarrow>
     keys (cache p') = keys (cache p) - set ks \<and> pr_deleted res' = pr_deleted res + length ks
     \<and> pr_transient res' = pr_transient res \<and> world p' = world p"
proof (induction ks arbitrary: res p)
  case (Cons k ks)
  obtain d' where d: "del k (cache p) = (Inr (), d')" "keys d' = keys (cache p) - {k}" using del_key by blast
  from Cons.prems have "sweep del ks (res \<lparr>pr_deleted := pr_deleted res + 1\<rparr>) (p \<lparr>cache := d'\<rparr>) = (res', p')"
    by (simp add: d)
  from Cons.IH [OF this] show ?case using d(2) by auto
qed simp

lemma tasks_keep:
  assumes "\<And>k p r p'. f k p = (r, p') \<Longrightarrow> keys (cache p) \<subseteq> keys (cache p')"
  shows "run_tasks f ks res p = (res', p') \<Longrightarrow> keys (cache p) \<subseteq> keys (cache p')"
proof (induction ks arbitrary: res p)
  case (Cons k ks)
  obtain r p1 where "f k p = (r, p1)" by fastforce
  with Cons assms [of k p r p1] show ?case by fastforce
qed simp

text \<open>Of the entries known before a pass, exactly those still listed remain.\<close>

lemma pass_keys:
  assumes "\<And>k p r p'. f k p = (r, p') \<Longrightarrow> keys (cache p) \<subseteq> keys (cache p')"
    and "run_tasks f ks res p = (res1, p1)" "sweep del (filter (\<lambda>k. k \<notin> live) prior) res1 p1 = (res2, p2)"
    and "set prior = keys (cache p)"
  shows "\<forall>k\<in>keys (cache p). k \<in> keys (cache p2) \<longleftrightarrow> k \<in> live"
proof -
  have "keys (cache p) \<subseteq> keys (cache p1)" by (rule tasks_keep [OF _ assms(2)]) (rule assms(1))
  then show ?thesis using sweep_keys [OF assms(3)] assms(4) by auto
qed

end

lemma delete_pending_keys: "delete_pending_by_upload_id u d = (Inr (), bump Pending (delete_pending_rows u d))"
  by (simp add: delete_pending_by_upload_id_def commit_def)

interpretation set_table: swept_table "\<lambda>d. set (list_set_keys d)" "\<lambda>k. delete_set (fst k) (snd k)"
proof
  fix k :: "string \<times> string" and d
  have "set (list_set_keys (bump Sets (set_deleted (fst k) (snd k) d))) = set (list_set_keys d) - {k}"
    by (auto simp: list_set_keys_def set_deleted_def bump_def of_set_def image_iff prod_eq_iff)
  then show "\<exists>d'. delete_set (fst k) (snd k) d = (Inr (), d') \<and> set (list_set_keys d') = set (list_set_keys d) - {k}"
    by (simp add: delete_set_eq)
qed

interpretation pending_table: swept_table "\<lambda>d. set (list_pending_upload_ids d)" delete_pending_by_upload_id
proof
  fix u d
  have "set (list_pending_upload_ids (bump Pending (delete_pending_rows u d))) = set (list_pending_upload_ids d) - {u}"
    by (auto simp: list_pending_upload_ids_def delete_pending_rows_def bump_def pending_of_def image_iff)
  then show "\<exists>d'. delete_pending_by_upload_id u d = (Inr (), d')
      \<and> set (list_pending_upload_ids d') = set (list_pending_upload_ids d) - {u}"
    by (simp add: delete_pending_keys)
qed

end
