(* ===== verification/Store.thy ===== *)
theory Store imports S3_Store begin

text \<open>
  The contract of the object store, as documented for the SDK's calls, over a view of the bucket:
  before a call takes effect the other pods may have changed the bucket (\<open>st_env\<close>), an etag names
  one content of a key (\<open>st_body\<close>), a conditional write tests and writes in one step, and a write
  that fails without a precondition error may have happened. The lemmas lift the contract to the
  wrapper's operations.
\<close>

section \<open>The contract\<close>

definition quoted :: "string \<Rightarrow> string" where
  "quoted e = CHR 0x22 # e @ [CHR 0x22]"

record 's contract =
  st_view :: "'s \<Rightarrow> bucket_view"
  st_env :: "bucket_view \<Rightarrow> bucket_view \<Rightarrow> bool"
  st_body :: "string \<Rightarrow> string \<Rightarrow> string"

definition named :: "'s contract \<Rightarrow> bucket_view \<Rightarrow> bool" where
  "named S v \<longleftrightarrow> (\<forall>k obj. v k = Some obj \<longrightarrow> ob_bytes obj = st_body S k (ob_etag obj) \<and> CHR 0x22 \<notin> set (ob_etag obj))"

definition get_ok :: "'s s3 \<Rightarrow> 's contract \<Rightarrow> bool" where
  "get_ok c S \<longleftrightarrow> (\<forall>key s r s'. get_object c key None s = (r, s') \<longrightarrow>
     st_env S (st_view S s) (st_view S s') \<and> named S (st_view S s') \<and>
     (case r of
        Inr g \<Rightarrow> (\<exists>obj. st_view S s' key = Some obj \<and> (\<not> rg_broken g \<longrightarrow> concat (rg_chunks g) = ob_bytes obj)
                    \<and> rg_etag g = Some (quoted (ob_etag obj)))
      | Inl e \<Rightarrow> is_not_found e \<longrightarrow> st_view S s' key = None))"

definition head_ok :: "'s s3 \<Rightarrow> 's contract \<Rightarrow> bool" where
  "head_ok c S \<longleftrightarrow> (\<forall>key s r s'. head_object c key s = (r, s') \<longrightarrow>
     st_env S (st_view S s) (st_view S s') \<and> named S (st_view S s') \<and>
     (case r of
        Inr h \<Rightarrow> (\<exists>obj. st_view S s' key = Some obj \<and> rh_etag h = Some (quoted (ob_etag obj))
                    \<and> rh_length h = Some (int (length (ob_bytes obj))) \<and> rh_modified h = Some (ob_modified obj))
      | Inl e \<Rightarrow> is_not_found e \<longrightarrow> st_view S s' key = None))"

definition precondition_broken :: "bucket_view \<Rightarrow> string \<Rightarrow> string option \<Rightarrow> string option \<Rightarrow> bool" where
  "precondition_broken v key im inm \<longleftrightarrow>
     im \<noteq> None \<and> im \<noteq> map_option (\<lambda>obj. quoted (ob_etag obj)) (v key) \<or> inm \<noteq> None \<and> v key \<noteq> None"

definition put_ok :: "'s s3 \<Rightarrow> 's contract \<Rightarrow> bool" where
  "put_ok c S \<longleftrightarrow> (\<forall>key body ct im inm s r s'. put_object c key body ct im inm s = (r, s') \<longrightarrow>
     (\<exists>v. st_env S (st_view S s) v \<and> named S v \<and> named S (st_view S s') \<and>
      (case r of
         Inr e \<Rightarrow> (im = None \<or> (\<exists>obj. v key = Some obj \<and> im = Some (quoted (ob_etag obj))))
             \<and> (inm = None \<or> v key = None)
             \<and> (\<exists>obj. ob_bytes obj = body \<and> e = Some (quoted (ob_etag obj)) \<and> st_view S s' = v(key \<mapsto> obj))
       | Inl f \<Rightarrow> st_view S s' = v \<or>
             \<not> is_precondition_failed f \<and> (\<exists>obj. ob_bytes obj = body \<and> st_view S s' = v(key \<mapsto> obj))) \<and>
      (case r of Inr _ \<Rightarrow> True | Inl f \<Rightarrow> is_precondition_failed f \<longrightarrow> precondition_broken v key im inm)))"

definition list_ok :: "'s s3 \<Rightarrow> 's contract \<Rightarrow> bool" where
  "list_ok c S \<longleftrightarrow> (\<forall>prefix s pages s'. list_objects_v2 c prefix None s = (pages, s') \<longrightarrow>
     st_env S (st_view S s) (st_view S s') \<and> named S (st_view S s') \<and>
     (list_all (\<lambda>p. \<exists>l. p = Inr l) pages \<longrightarrow>
       (let objs = concat (map (\<lambda>p. case p of Inr l \<Rightarrow> List.map_filter object_of (lr_contents l) | Inl _ \<Rightarrow> []) pages) in
        \<forall>k n. (\<exists>oi\<in>set objs. oi_key oi = k \<and> oi_size oi = n) \<longleftrightarrow>
           starts_with prefix k \<and> (\<exists>obj. st_view S s' k = Some obj \<and> n = length (ob_bytes obj)))))"

definition copy_ok :: "'s s3 \<Rightarrow> 's contract \<Rightarrow> bool" where
  "copy_ok c S \<longleftrightarrow> (\<forall>dst source s r s'. copy_object c dst source s = (r, s') \<longrightarrow>
     (\<exists>v. st_env S (st_view S s) v \<and> named S v \<and> named S (st_view S s') \<and>
      (case r of
         Inr _ \<Rightarrow> (\<exists>src obj obj'. percent_decode source = bucket c @ ''/'' @ src \<and> v src = Some obj
                    \<and> ob_bytes obj' = ob_bytes obj \<and> st_view S s' = v(dst \<mapsto> obj'))
       | Inl _ \<Rightarrow> st_view S s' = v \<or> (\<exists>obj'. st_view S s' = v(dst \<mapsto> obj')))))"

definition delete_ok :: "'s s3 \<Rightarrow> 's contract \<Rightarrow> bool" where
  "delete_ok c S \<longleftrightarrow>
     (\<forall>key s r s'. delete_object c key s = (r, s') \<longrightarrow>
       (\<exists>v. st_env S (st_view S s) v \<and> named S v \<and>
         (st_view S s' = v(key := None) \<or> (\<exists>e. r = Inl e) \<and> st_view S s' = v)))
   \<and> (\<forall>keys s r s'. delete_objects c keys s = (r, s') \<longrightarrow>
       (\<exists>v ks. st_env S (st_view S s) v \<and> named S v \<and> set ks \<subseteq> set keys \<and> (\<forall>refused. r = Inr refused \<longrightarrow> set keys - set refused \<subseteq> set ks) \<and>
         st_view S s' = (\<lambda>k. if k \<in> set ks then None else v k)))"

text \<open>A key the store may refuse to delete while it answers the batch.\<close>

definition refusable :: "'s s3 \<Rightarrow> string \<Rightarrow> bool" where
  "refusable c k \<longleftrightarrow> (\<exists>keys s refused s'. delete_objects c keys s = (Inr refused, s') \<and> k \<in> set refused)"

text \<open>
  A listing by directories: the prefixes that end with the first slash beyond the asked one, of the objects
  there are. Only the properties of whole scans ask for it.
\<close>

definition prefixes_ok :: "'s s3 \<Rightarrow> 's contract \<Rightarrow> bool" where
  "prefixes_ok c S \<longleftrightarrow> (\<forall>prefix s pages s'. list_objects_v2 c prefix (Some ''/'') s = (pages, s') \<longrightarrow>
     st_env S (st_view S s) (st_view S s') \<and>
     (list_all (\<lambda>p. \<exists>l. p = Inr l) pages \<longrightarrow>
       set (concat (map (\<lambda>p. case p of Inr l \<Rightarrow> List.map_filter (\<lambda>x. x) (lr_prefixes l) | Inl _ \<Rightarrow> []) pages))
         = {prefix @ a @ ''/'' |a. slash \<notin> set a \<and> (\<exists>k. starts_with (prefix @ a @ ''/'') k \<and> st_view S s' k \<noteq> None)}))"

definition store_ok :: "'s s3 \<Rightarrow> 's contract \<Rightarrow> bool" where
  "store_ok c S \<longleftrightarrow> get_ok c S \<and> head_ok c S \<and> put_ok c S \<and> list_ok c S \<and> copy_ok c S \<and> delete_ok c S
     \<and> reflp (st_env S) \<and> transp (st_env S)"

text \<open>No other pod acts.\<close>

definition quiet :: "'s contract \<Rightarrow> bool" where
  "quiet S \<longleftrightarrow> st_env S = (=)"

section \<open>The wrapper's operations under the contract\<close>

lemma dropWhile_quote: "CHR 0x22 \<notin> set e \<Longrightarrow> dropWhile (\<lambda>c. c = CHR 0x22) (e @ [CHR 0x22]) =
    (if e = [] then [] else e @ [CHR 0x22])"
  by (cases e) auto

lemma strip_quoted: "CHR 0x22 \<notin> set e \<Longrightarrow> strip_etag_quotes (quoted e) = e"
proof -
  assume e: "CHR 0x22 \<notin> set e"
  show ?thesis
  proof (cases "e = []")
    case False
    have "dropWhile (\<lambda>c. c = CHR 0x22) (rev e) = rev e"
      using e by (intro dropWhile_eq_self_iff [THEN iffD2]) (cases e rule: rev_cases, auto)
    then show ?thesis using e False by (simp add: strip_etag_quotes_def quoted_def dropWhile_quote)
  qed (simp add: strip_etag_quotes_def quoted_def)
qed

lemma named_etag: "named S v \<Longrightarrow> v k = Some obj \<Longrightarrow> CHR 0x22 \<notin> set (ob_etag obj)"
  by (auto simp: named_def)

lemma head_view:
  assumes "store_ok c S" "head c key s = (r, s')"
  shows "st_env S (st_view S s) (st_view S s') \<and> named S (st_view S s') \<and>
    (case r of Inr (Some h) \<Rightarrow> \<exists>obj. st_view S s' key = Some obj \<and> hi_etag h = Some (ob_etag obj)
         \<and> hi_size h = length (ob_bytes obj) \<and> hi_modified h = Some (ob_modified obj)
     | Inr None \<Rightarrow> st_view S s' key = None | Inl _ \<Rightarrow> True)"
proof -
  obtain q t where h: "head_object c key s = (q, t)" by fastforce
  have ok: "head_ok c S" using assms(1) by (simp add: store_ok_def)
  note k = ok [unfolded head_ok_def, rule_format, OF h]
  show ?thesis
  proof (cases q)
    case (Inl e)
    with assms(2) h k show ?thesis by (cases "is_not_found e") (auto simp: head_def cmd_defs)
  next
    case (Inr hd')
    then obtain obj where o': "st_view S t key = Some obj" "rh_etag hd' = Some (quoted (ob_etag obj))"
        "rh_length hd' = Some (int (length (ob_bytes obj)))" "rh_modified hd' = Some (ob_modified obj)"
      using k by auto
    have "CHR 0x22 \<notin> set (ob_etag obj)" using k o'(1) named_etag by blast
    with assms(2) h k Inr o' show ?thesis
      by (auto simp: head_def cmd_defs strip_quoted size_of_def)
  qed
qed

lemma get_bytes_view:
  assumes "store_ok c S" "get_bytes c key s = (r, s')"
  shows "st_env S (st_view S s) (st_view S s') \<and> named S (st_view S s') \<and>
    (case r of Inr (b, e) \<Rightarrow> \<exists>obj. st_view S s' key = Some obj \<and> b = ob_bytes obj \<and> e = Some (ob_etag obj)
     | Inl (NotFound k) \<Rightarrow> st_view S s' key = None | Inl Other \<Rightarrow> True | Inl PreconditionFailed \<Rightarrow> False)"
proof -
  obtain q t where g: "get_object c key None s = (q, t)" by fastforce
  have ok: "get_ok c S" using assms(1) by (simp add: store_ok_def)
  note k = ok [unfolded get_ok_def, rule_format, OF g]
  show ?thesis
  proof (cases q)
    case (Inl e)
    with assms(2) g k show ?thesis
      by (cases "is_not_found e") (auto simp: get_bytes_def cmd_defs get_error_def)
  next
    case (Inr res)
    then obtain obj where o': "st_view S t key = Some obj" "rg_etag res = Some (quoted (ob_etag obj))"
        "\<not> rg_broken res \<longrightarrow> concat (rg_chunks res) = ob_bytes obj" using k by auto
    have "CHR 0x22 \<notin> set (ob_etag obj)" using k o'(1) named_etag by blast
    with assms(2) g k Inr o' show ?thesis
      by (cases "rg_broken res") (auto simp: get_bytes_def cmd_defs strip_quoted)
  qed
qed

lemma put_bytes_view:
  assumes "store_ok c S" "put_bytes c key body ct im inm s = (r, s')"
  shows "\<exists>v. st_env S (st_view S s) v \<and> named S v \<and> named S (st_view S s') \<and>
    (case r of
       Inr e \<Rightarrow> (im = None \<or> (\<exists>obj. v key = Some obj \<and> im = Some (quoted (ob_etag obj)))) \<and> (inm = None \<or> v key = None)
           \<and> (\<exists>obj. ob_bytes obj = body \<and> e = ob_etag obj \<and> st_view S s' = v(key \<mapsto> obj))
     | Inl PreconditionFailed \<Rightarrow> st_view S s' = v \<and> precondition_broken v key im inm
     | Inl Other \<Rightarrow> st_view S s' = v \<or> (\<exists>obj. ob_bytes obj = body \<and> st_view S s' = v(key \<mapsto> obj))
     | Inl (NotFound _) \<Rightarrow> False)"
proof -
  obtain q t where g: "put_object c key body ct im inm s = (q, t)" by fastforce
  have ok: "put_ok c S" using assms(1) by (simp add: store_ok_def)
  obtain v where k: "st_env S (st_view S s) v" "named S v" "named S (st_view S t)"
      "case q of
         Inr e \<Rightarrow> (im = None \<or> (\<exists>obj. v key = Some obj \<and> im = Some (quoted (ob_etag obj))))
             \<and> (inm = None \<or> v key = None)
             \<and> (\<exists>obj. ob_bytes obj = body \<and> e = Some (quoted (ob_etag obj)) \<and> st_view S t = v(key \<mapsto> obj))
       | Inl f \<Rightarrow> st_view S t = v \<or>
             \<not> is_precondition_failed f \<and> (\<exists>obj. ob_bytes obj = body \<and> st_view S t = v(key \<mapsto> obj))"
      "case q of Inr _ \<Rightarrow> True | Inl f \<Rightarrow> is_precondition_failed f \<longrightarrow> precondition_broken v key im inm"
    using ok [unfolded put_ok_def, rule_format, OF g] by blast
  show ?thesis
  proof (cases q)
    case (Inl e)
    with assms(2) g k show ?thesis
      by (intro exI [of _ v]) (auto simp: put_bytes_def cmd_defs split: if_splits)
  next
    case (Inr e)
    then obtain obj where o': "ob_bytes obj = body" "e = Some (quoted (ob_etag obj))" "st_view S t = v(key \<mapsto> obj)"
      using k(4) by auto
    then have "CHR 0x22 \<notin> set (ob_etag obj)" using k(3) named_etag [of S "st_view S t" key obj] by simp
    then have r: "r = Inr (ob_etag obj)" "s' = t"
      using assms(2) g Inr o'(2) by (simp_all add: put_bytes_def cmd_defs strip_quoted)
    have "(im = None \<or> (\<exists>obj. v key = Some obj \<and> im = Some (quoted (ob_etag obj)))) \<and> (inm = None \<or> v key = None)"
      using k(4) Inr by simp
    moreover have "\<exists>obj'. ob_bytes obj' = body \<and> ob_etag obj = ob_etag obj' \<and> st_view S s' = v(key \<mapsto> obj')"
      using o' r(2) by blast
    ultimately show ?thesis using k(1-3) r by (intro exI [of _ v]) simp
  qed
qed

lemma copy_view:
  assumes "store_ok c S" "copy c src dst s = (r, s')"
    and clean: "CHR ''%'' \<notin> set (bucket c @ ''/'' @ src)"
  shows "\<exists>v. st_env S (st_view S s) v \<and> named S v \<and> named S (st_view S s') \<and>
    (case r of Inr _ \<Rightarrow> \<exists>obj obj'. v src = Some obj \<and> ob_bytes obj' = ob_bytes obj \<and> st_view S s' = v(dst \<mapsto> obj')
     | Inl _ \<Rightarrow> st_view S s' = v \<or> (\<exists>obj'. st_view S s' = v(dst \<mapsto> obj')))"
proof -
  have e: "percent_decode (bucket c @ ''/'' @ url_encode_key src) = bucket c @ ''/'' @ src"
  proof -
    have plain: "percent_decode (a @ z) = a @ percent_decode z" if "CHR ''%'' \<notin> set a" for a z
      using that by (induction a) (auto simp: percent_decode_plain)
    have "percent_decode ((bucket c @ ''/'') @ url_encode_key src) = (bucket c @ ''/'') @ percent_decode (url_encode_key src)"
      by (rule plain) (use clean in auto)
    then show ?thesis using clean by (simp add: url_encode_key_def percent_decode_encode)
  qed
  obtain q t where g: "copy_object c dst (bucket c @ ''/'' @ url_encode_key src) s = (q, t)" by fastforce
  have ok: "copy_ok c S" using assms(1) by (simp add: store_ok_def)
  obtain v where v: "st_env S (st_view S s) v" "named S v" "named S (st_view S t)"
      "case q of Inr _ \<Rightarrow> (\<exists>src' obj obj'. percent_decode (bucket c @ ''/'' @ url_encode_key src) = bucket c @ ''/'' @ src'
          \<and> v src' = Some obj \<and> ob_bytes obj' = ob_bytes obj \<and> st_view S t = v(dst \<mapsto> obj'))
       | Inl _ \<Rightarrow> st_view S t = v \<or> (\<exists>obj'. st_view S t = v(dst \<mapsto> obj'))"
    using ok [unfolded copy_ok_def, rule_format, OF g] by blast
  have r: "s' = t" "r = (case q of Inr _ \<Rightarrow> Inr () | Inl _ \<Rightarrow> Inl ())"
    using assms(2) g by (cases q; simp add: copy_def cmd_defs)+
  have "case r of Inr _ \<Rightarrow> \<exists>obj obj'. v src = Some obj \<and> ob_bytes obj' = ob_bytes obj \<and> st_view S t = v(dst \<mapsto> obj')
     | Inl _ \<Rightarrow> st_view S t = v \<or> (\<exists>obj'. st_view S t = v(dst \<mapsto> obj'))"
    using v(4) unfolding e r by (cases q) auto
  with v(1-3) r(1) show ?thesis by blast
qed

lemma delete_view:
  assumes "store_ok c S" "delete c key s = (r, s')"
  shows "\<exists>v. st_env S (st_view S s) v \<and> named S v \<and>
    (st_view S s' = v(key := None) \<or> r = Inl () \<and> st_view S s' = v)"
proof -
  obtain q t where g: "delete_object c key s = (q, t)" by fastforce
  have "delete_ok c S" using assms(1) by (simp add: store_ok_def)
  then have "\<exists>v. st_env S (st_view S s) v \<and> named S v \<and>
         (st_view S t = v(key := None) \<or> (\<exists>e. q = Inl e) \<and> st_view S t = v)"
    using g unfolding delete_ok_def by blast
  with assms(2) g show ?thesis by (cases q) (auto simp: delete_def cmd_defs)
qed

lemma drain_pages_Inr:
  "drain_pages f pages out = Inr res \<Longrightarrow> list_all (\<lambda>p. \<exists>l. p = Inr l) pages
     \<and> res = out @ concat (map (\<lambda>p. case p of Inr l \<Rightarrow> f l | Inl _ \<Rightarrow> []) pages)"
  by (induction f pages out rule: drain_pages.induct) auto

lemma list_objects_view:
  assumes "store_ok c S" "list_objects c prefix s = (r, s')"
  shows "st_env S (st_view S s) (st_view S s') \<and> named S (st_view S s') \<and>
    (case r of Inr objs \<Rightarrow> \<forall>k n. (\<exists>oi\<in>set objs. oi_key oi = k \<and> oi_size oi = n) \<longleftrightarrow>
         starts_with prefix k \<and> (\<exists>obj. st_view S s' k = Some obj \<and> n = length (ob_bytes obj))
     | Inl _ \<Rightarrow> True)"
proof -
  obtain pages t where g: "list_objects_v2 c prefix None s = (pages, t)" by fastforce
  have ok: "list_ok c S" using assms(1) by (simp add: store_ok_def)
  note k = ok [unfolded list_ok_def Let_def, rule_format, OF g]
  show ?thesis
  proof (cases r)
    case (Inr objs)
    then have "drain_pages (\<lambda>p. List.map_filter object_of (lr_contents p)) pages [] = Inr objs" "t = s'"
      using assms(2) g by (auto simp: list_objects_def)
    define objs' where "objs' = concat (map (\<lambda>p. case p of Inr l \<Rightarrow> List.map_filter object_of (lr_contents l) | Inl _ \<Rightarrow> []) pages)"
    have "objs = objs'" "list_all (\<lambda>p. \<exists>l. p = Inr l) pages"
      using drain_pages_Inr [OF \<open>drain_pages _ _ _ = _\<close>] by (simp_all add: objs'_def)
    moreover from k this(2) have "\<forall>k n. (\<exists>oi\<in>set objs'. oi_key oi = k \<and> oi_size oi = n) \<longleftrightarrow>
         starts_with prefix k \<and> (\<exists>obj. st_view S t k = Some obj \<and> n = length (ob_bytes obj))"
      unfolding objs'_def by blast
    ultimately show ?thesis using k \<open>t = s'\<close> Inr by simp
  qed (use k assms(2) g in \<open>auto simp: list_objects_def\<close>)
qed

end
