(* ===== verification/Store_Mem.thy ===== *)
theory Store_Mem imports Store "HOL-Library.AList" begin

text \<open>
  A bucket held in memory, as a witness that the store's contract can be met and as the store of
  the concrete instances: objects in key order of creation, an etag per write.
\<close>

record mem =
  mem_objs :: "(string \<times> obj) list"
  mem_seq :: nat

text \<open>An etag stands for the content: the content itself, with quotes spelt without a quote.\<close>

definition tag1 :: "char \<Rightarrow> string" where
  "tag1 c = (if c = CHR 0x22 then ''q0'' else if c = CHR ''q'' then ''q1'' else [c])"

definition mem_tag :: "string \<Rightarrow> string" where
  "mem_tag s = concat (map tag1 s)"

definition mem_view :: "mem \<Rightarrow> bucket_view" where
  "mem_view s k = (case map_of (mem_objs s) k of
     None \<Rightarrow> None | Some ob \<Rightarrow> if ob_etag ob = mem_tag (ob_bytes ob) then Some ob else None)"

definition mem_put :: "string \<Rightarrow> string \<Rightarrow> mem \<Rightarrow> mem" where
  "mem_put key body s =
     \<lparr>mem_objs = AList.update key \<lparr>ob_bytes = body, ob_etag = mem_tag body, ob_modified = mem_seq s\<rparr> (mem_objs s),
      mem_seq = mem_seq s + 1\<rparr>"

definition not_found :: sdk_failure where "not_found = ServiceError (Some ''NoSuchKey'') 404 True"
definition precondition_failure :: sdk_failure where
  "precondition_failure = ServiceError (Some ''PreconditionFailed'') 412 False"

definition raw_of :: "string \<times> obj \<Rightarrow> raw_object" where
  "raw_of p = \<lparr>ro_key = Some (fst p), ro_size = Some (int (length (ob_bytes (snd p)))),
     ro_etag = Some (quoted (ob_etag (snd p))), ro_modified = Some (ob_modified (snd p))\<rparr>"

definition mem_s3 :: "mem s3" where
  "mem_s3 = \<lparr>bucket = ''b'', conditional_writes = True, clock = mem_seq,
     list_objects_v2 = (\<lambda>prefix delim s. case delim of
         None \<Rightarrow> ([Inr \<lparr>lr_contents = map raw_of (filter (\<lambda>p. starts_with prefix (fst p) \<and> mem_view s (fst p) = Some (snd p)) (mem_objs s)), lr_prefixes = []\<rparr>], s)
       | Some d \<Rightarrow> ([Inr \<lparr>lr_contents = [], lr_prefixes = map Some (remdups (concat (map (\<lambda>(k, ob).
             case strip_prefix prefix k of None \<Rightarrow> [] | Some r \<Rightarrow>
             (case split_once slash r of None \<Rightarrow> [] | Some (a, b) \<Rightarrow> [prefix @ a @ ''/'']))
             (filter (\<lambda>p. mem_view s (fst p) = Some (snd p)) (mem_objs s)))))\<rparr>], s)),
     head_object = (\<lambda>k s. case mem_view s k of
         None \<Rightarrow> (Inl not_found, s)
       | Some ob \<Rightarrow> (Inr \<lparr>rh_length = Some (int (length (ob_bytes ob))), rh_etag = Some (quoted (ob_etag ob)),
            rh_modified = Some (ob_modified ob)\<rparr>, s)),
     get_object = (\<lambda>k range s. case (mem_view s k, range) of
         (None, _) \<Rightarrow> (Inl not_found, s)
       | (_, Some _) \<Rightarrow> (Inl OtherFailure, s)
       | (Some ob, None) \<Rightarrow> (Inr \<lparr>rg_chunks = (if ob_bytes ob = [] then [] else [ob_bytes ob]), rg_broken = False,
            rg_length = Some (int (length (ob_bytes ob))), rg_type = None, rg_etag = Some (quoted (ob_etag ob))\<rparr>, s)),
     put_object = (\<lambda>k body ct im inm s.
         if (im \<noteq> None \<and> im \<noteq> map_option (\<lambda>ob. quoted (ob_etag ob)) (mem_view s k)) \<or> (inm \<noteq> None \<and> mem_view s k \<noteq> None)
         then (Inl precondition_failure, s)
         else (Inr (Some (quoted (mem_tag body))), mem_put k body s)),
     copy_object = (\<lambda>dst source s. case strip_prefix ''b/'' (percent_decode source) of
         None \<Rightarrow> (Inl OtherFailure, s)
       | Some src \<Rightarrow> (case mem_view s src of
           None \<Rightarrow> (Inl not_found, s)
         | Some ob \<Rightarrow> (Inr (), mem_put dst (ob_bytes ob) s))),
     delete_object = (\<lambda>k s. (Inr (), s \<lparr>mem_objs := AList.delete k (mem_objs s)\<rparr>)),
     delete_objects = (\<lambda>ks s. (Inr [], s \<lparr>mem_objs := filter (\<lambda>p. fst p \<notin> set ks) (mem_objs s)\<rparr>)),
     sdk_create_multipart = (\<lambda>k s. (Inr (Some ''m''), s)),
     sdk_complete_multipart = (\<lambda>k u parts s. (Inr (), mem_put k [] s)),
     sdk_abort_multipart = (\<lambda>k u s. (Inr (), s))\<rparr>"

lemma tag_quote_free: "CHR 0x22 \<notin> set (mem_tag s)"
  by (auto simp: mem_tag_def tag1_def split: if_splits)

lemma mem_tag_inj: "mem_tag a = mem_tag b \<Longrightarrow> a = b"
proof (induction a arbitrary: b)
  case Nil
  then show ?case by (cases b) (auto simp: mem_tag_def tag1_def split: if_splits)
next
  case (Cons c a)
  then obtain e b' where b: "b = e # b'" by (cases b) (auto simp: mem_tag_def tag1_def split: if_splits)
  with Cons.prems have "tag1 c @ mem_tag a = tag1 e @ mem_tag b'" by (simp add: mem_tag_def)
  then have "c = e \<and> mem_tag a = mem_tag b'" by (auto simp: tag1_def split: if_splits)
  with Cons.IH b show ?case by blast
qed

definition mem_contract :: "mem contract" where
  "mem_contract = \<lparr>st_view = mem_view, st_env = (=), st_body = (\<lambda>k e. inv mem_tag e)\<rparr>"

lemma mem_named: "named mem_contract (mem_view s)"
proof -
  have "inj mem_tag" by (rule injI) (rule mem_tag_inj)
  then show ?thesis
    by (auto simp: named_def mem_contract_def mem_view_def tag_quote_free split: option.splits if_splits)
qed

lemma view_put: "mem_view (mem_put k b s) = (mem_view s)(k \<mapsto> \<lparr>ob_bytes = b, ob_etag = mem_tag b, ob_modified = mem_seq s\<rparr>)"
  by (auto simp: mem_view_def mem_put_def update_conv' fun_eq_iff)

lemma view_delete: "mem_view (s \<lparr>mem_objs := AList.delete k (mem_objs s)\<rparr>) = (mem_view s)(k := None)"
  by (auto simp: mem_view_def delete_conv' fun_eq_iff)

lemma map_of_but: "map_of (filter (\<lambda>p. fst p \<notin> K) xs) k = (if k \<in> K then None else map_of xs k)"
  by (induction xs) auto

lemma view_deletes: "mem_view (s \<lparr>mem_objs := filter (\<lambda>p. fst p \<notin> set ks) (mem_objs s)\<rparr>) =
    (\<lambda>k. if k \<in> set ks then None else mem_view s k)"
  by (auto simp: mem_view_def map_of_but fun_eq_iff)

lemma stored: "\<exists>obj. ob_bytes obj = b \<and> quoted (mem_tag b) = quoted (ob_etag obj)
    \<and> v(k \<mapsto> \<lparr>ob_bytes = b, ob_etag = mem_tag b, ob_modified = n\<rparr>) = v(k \<mapsto> obj)"
  by (rule exI [of _ "\<lparr>ob_bytes = b, ob_etag = mem_tag b, ob_modified = n\<rparr>"]) simp

lemma copied: "\<exists>obj. ob_bytes obj = b \<and> v(k \<mapsto> \<lparr>ob_bytes = b, ob_etag = mem_tag b, ob_modified = n\<rparr>) = v(k \<mapsto> obj)"
  by (rule exI [of _ "\<lparr>ob_bytes = b, ob_etag = mem_tag b, ob_modified = n\<rparr>"]) simp

lemma listed_keys: "(\<exists>oi. oi \<in> set (List.map_filter object_of (map raw_of ps)) \<and> oi_key oi = k \<and> oi_size oi = n)
    \<longleftrightarrow> (\<exists>b. (k, b) \<in> set ps \<and> length (ob_bytes b) = n)"
  by (induction ps) (auto simp: object_of_def raw_of_def map_filter_simps size_of_def)

lemma mem_store_ok: "store_ok mem_s3 mem_contract"
proof -
  have n: "named \<lparr>st_view = mem_view, st_env = (=), st_body = (\<lambda>k e. inv mem_tag e)\<rparr> (mem_view s)" for s
    using mem_named [of s] by (simp add: mem_contract_def)
  have "get_ok mem_s3 mem_contract" "head_ok mem_s3 mem_contract"
    by (auto simp: get_ok_def head_ok_def mem_s3_def n is_not_found_def not_found_def mem_contract_def
        split: option.splits sum.splits)
  moreover have "put_ok mem_s3 mem_contract"
    using n [of "mem_put _ _ _", unfolded view_put] stored
    by (auto simp: put_ok_def mem_s3_def n view_put is_precondition_failed_def precondition_failure_def mem_contract_def
        precondition_broken_def
        split: sum.splits if_splits)
  moreover have "copy_ok mem_s3 mem_contract"
    using n [of "mem_put _ _ _", unfolded view_put] copied
    by (auto simp: copy_ok_def mem_s3_def n view_put mem_contract_def strip_prefix_Some split: sum.splits option.splits)
  moreover have "delete_ok mem_s3 mem_contract"
    by (auto simp: delete_ok_def mem_s3_def n view_delete view_deletes mem_contract_def)
  moreover have "list_ok mem_s3 mem_contract"
  proof -
    have "(k, b) \<in> set (mem_objs s)" if "mem_view s k = Some b" for s k b
      using that map_of_SomeD [of "mem_objs s" k] by (auto simp: mem_view_def split: option.splits if_splits)
    then have "(\<exists>b. ((k, b) \<in> set (mem_objs s) \<and> starts_with prefix k \<and> mem_view s k = Some b) \<and> length (ob_bytes b) = n)
        \<longleftrightarrow> starts_with prefix k \<and> (\<exists>b. mem_view s k = Some b \<and> n = length (ob_bytes b))" for prefix s k n by auto
    then show ?thesis
      by (simp add: list_ok_def mem_s3_def n mem_contract_def Bex_def listed_keys)
  qed
  ultimately show ?thesis
    by (simp add: store_ok_def reflp_def transp_def) (simp add: mem_contract_def)
qed

end
