(* ===== verification/Sample_Pod.thy ===== *)
theory Sample_Pod imports Scanner Store_Mem Samples begin

text \<open>
  A concrete pod for the instances of the properties: a bucket in memory with one complete set, one
  pending upload without its file, and formats that read and write a few known texts.
\<close>

definition plain_user :: "string \<Rightarrow> user_entry" where
  "plain_user s = \<lparr>ue_sub = s, ue_display_name = None, ue_blocked = False, ue_added_at = None,
     ue_added_by = None, ue_roles = [], ue_api_key_hash = None\<rparr>"

definition sub_char :: "char \<Rightarrow> bool" where
  "sub_char c \<longleftrightarrow> in_range (CHR ''a'') (CHR ''z'') c"

definition sample_pod_ext :: pod_ext where
  "sample_pod_ext = \<lparr>to_rfc3339 = to_rfc3339 base_ext, from_rfc3339 = from_rfc3339 base_ext,
     toml_meta = (\<lambda>t. if t = ''M'' then Some sample_meta else None),
     fts_match = (\<lambda>_ _. True), group_concat = join '','', alnum_nonascii = (\<lambda>_. False),
     toml_users = (\<lambda>t. Some (map plain_user (filter (\<lambda>w. w \<noteq> []) (split_on slash t)))),
     print_users = (\<lambda>us. if list_all (\<lambda>u. u = plain_user (ue_sub u) \<and> ue_sub u \<noteq> [] \<and> list_all sub_char (ue_sub u)) us
        then Some (concat (map (\<lambda>u. ue_sub u @ [slash]) us)) else None),
     schedule = (\<lambda>ps. ps)\<rparr>"

definition sample_bucket :: mem where
  "sample_bucket = mem_put ''samples/Canon/EOS R5/rawdb-meta.toml'' ''M''
     (mem_put ''samples/Canon/EOS R5/raw/a.CR3'' ''AAAA''
     (mem_put ''samples/Canon/EOS R5/jpg/b.jpg'' ''BB''
     (mem_put ''pending/u1/rawdb-meta.toml'' ''M''
       \<lparr>mem_objs = [], mem_seq = 3\<rparr>)))"

definition sample_pod :: "mem pod" where
  "sample_pod = \<lparr>world = sample_bucket, cache = empty_db, tick_cells = (\<lambda>_. None)\<rparr>"

lemma mem_quiet: "quiet mem_contract"
  by (simp add: quiet_def mem_contract_def)

definition sample_prefix :: string where "sample_prefix = ''samples/Canon/EOS R5/''"

definition sample_head :: head_info where
  "sample_head = \<lparr>hi_size = 1, hi_etag = Some ''M'', hi_modified = Some 6\<rparr>"

definition sample_objects :: "object_info list" where
  "sample_objects =
    [\<lparr>oi_key = ''samples/Canon/EOS R5/jpg/b.jpg'', oi_size = 2, oi_etag = Some ''BB'', oi_modified = Some 4\<rparr>,
     \<lparr>oi_key = ''samples/Canon/EOS R5/raw/a.CR3'', oi_size = 4, oi_etag = Some ''AAAA'', oi_modified = Some 5\<rparr>,
     \<lparr>oi_key = ''samples/Canon/EOS R5/rawdb-meta.toml'', oi_size = 1, oi_etag = Some ''M'', oi_modified = Some 6\<rparr>]"

definition sample_paired :: "(file_meta \<times> size_info) list" where
  "sample_paired = [(sample_file, \<lparr>si_size = 4, si_etag = Some ''AAAA''\<rparr>), (sample_file2, \<lparr>si_size = 2, si_etag = Some ''BB''\<rparr>)]"

lemma sample_steps:
  "head mem_s3 (sample_prefix @ META_FILE) sample_bucket = (Inr (Some sample_head), sample_bucket)"
  "get_bytes mem_s3 (sample_prefix @ META_FILE) sample_bucket = (Inr (''M'', Some ''M''), sample_bucket)"
  "parse_meta sample_pod_ext ''M'' = Inr sample_meta"
  "list_objects mem_s3 sample_prefix sample_bucket = (Inr sample_objects, sample_bucket)"
  "with_upload_time t sample_meta = sample_meta"
  "pair_files sample_meta sample_prefix sample_objects = Inr sample_paired"
  by (code_simp, code_simp, code_simp, code_simp, simp add: with_upload_time_def sample_meta_def sample_set_def, code_simp)

end
