(* ===== verification/Scan_Claims.thy ===== *)
theory Scan_Claims imports Scanner_Props Sample_Pod begin

text \<open>
  The properties of the scanner: what one scanned entry does against the store's contract, what a
  pass keeps and removes, and that every scan keeps the cache consistent.
\<close>

section \<open>One entry against a quiet store\<close>

text \<open>What the outcome of an entry says of the bucket \<open>v\<close> and of the cache before and after.\<close>

definition entry_outcome ::
  "'z pod_ext_scheme \<Rightarrow> bucket_view \<Rightarrow> string \<Rightarrow> (db \<Rightarrow> string option)
     \<Rightarrow> (datetime \<Rightarrow> rawdb_meta \<Rightarrow> string option \<Rightarrow> (file_meta \<times> size_info) list \<Rightarrow> (db, db_error, unit) cmd)
     \<Rightarrow> db \<Rightarrow> set_outcome \<Rightarrow> db \<Rightarrow> bool" where
  "entry_outcome x v pre prior_etag put d out d' = (case (out, v (pre @ META_FILE)) of
       (MetaMissing, None) \<Rightarrow> d' = d
     | (Unchanged, Some obj) \<Rightarrow> d' = d \<and> prior_etag d = Some (ob_etag obj)
     | (Incomplete, Some obj) \<Rightarrow> d' = d \<and> prior_etag d \<noteq> Some (ob_etag obj) \<and>
         (case parse_meta x (ob_bytes obj) of
            Inl _ \<Rightarrow> True
          | Inr m \<Rightarrow> \<exists>f\<in>set (rm_files m). fm_path f = META_FILE \<or> v (pre @ fm_path f) = None)
     | (Updated, Some obj) \<Rightarrow> prior_etag d \<noteq> Some (ob_etag obj) \<and>
         (case parse_meta x (ob_bytes obj) of
            Inl _ \<Rightarrow> False
          | Inr m \<Rightarrow> \<exists>now fs. put now (with_upload_time (Some (ob_modified obj)) m) (Some (ob_etag obj)) fs d = (Inr (), d')
              \<and> map fst fs = rm_files m
              \<and> (\<forall>(f, si)\<in>set fs. \<exists>o'. v (pre @ fm_path f) = Some o' \<and> si_size si = length (ob_bytes o')))
     | _ \<Rightarrow> False)"

lemma s3_call_eq: "s3_call m p = (case m (world p) of (r, s) \<Rightarrow> (map_errR (\<lambda>_. ScanS3) r, p \<lparr>world := s\<rparr>))"
  by (simp add: s3_call_def map_errE_def on_world_def split: prod.splits)

lemma s3_call_bind: "bindE (s3_call m) f p = (case m (world p) of
    (Inl e, s) \<Rightarrow> (Inl ScanS3, p \<lparr>world := s\<rparr>) | (Inr a, s) \<Rightarrow> f a (p \<lparr>world := s\<rparr>))"
  by (simp add: bindE_def s3_call_eq split: prod.splits sum.splits)

lemma gets_bind: "bindE (gets g) f p = f (g p) p"
  by (simp add: cmd_defs)

lemma db_call_bind: "bindE (db_call m) f p = (case m (cache p) of
    (Inl e, d) \<Rightarrow> (Inl (ScanDb e), p \<lparr>cache := d\<rparr>) | (Inr a, d) \<Rightarrow> f a (p \<lparr>cache := d\<rparr>))"
  by (simp add: cmd_defs map_errR_def split: prod.splits sum.splits)

lemmas pod_steps = s3_call_bind gets_bind db_call_bind read_db_def

text \<open>The last steps: listing, pairing and the write.\<close>

lemma entry_write:
  assumes ok: "store_ok c S" "quiet S"
    and run: "bindE (s3_call (list_objects c pre)) (\<lambda>objects.
       case pair_files m pre objects of Inl _ \<Rightarrow> ret Incomplete | Inr fs \<Rightarrow>
     bindE (gets (\<lambda>p. clock c (world p))) (\<lambda>now.
     bindE (db_call (put now m e fs)) (\<lambda>_. ret Updated))) p = (Inr out, p')"
  shows "st_view S (world p') = st_view S (world p) \<and>
     (out = Incomplete \<and> cache p' = cache p \<and> (\<exists>f\<in>set (rm_files m). fm_path f = META_FILE \<or> st_view S (world p) (pre @ fm_path f) = None)
    \<or> out = Updated \<and> (\<exists>now fs. put now m e fs (cache p) = (Inr (), cache p') \<and> map fst fs = rm_files m
        \<and> (\<forall>(f, si)\<in>set fs. \<exists>o'. st_view S (world p) (pre @ fm_path f) = Some o' \<and> si_size si = length (ob_bytes o'))))"
proof -
  obtain r t where l: "list_objects c pre (world p) = (r, t)" by fastforce
  obtain objs where r: "r = Inr objs" using run l by (cases r) (simp_all add: pod_steps)
  have v: "st_view S t = st_view S (world p)"
    and objs: "\<And>k n. (\<exists>oi\<in>set objs. oi_key oi = k \<and> oi_size oi = n) \<longleftrightarrow>
         starts_with pre k \<and> (\<exists>obj. st_view S t k = Some obj \<and> n = length (ob_bytes obj))"
    using list_objects_view [OF ok(1) l] ok(2) r by (auto simp: quiet_def)
  show ?thesis
  proof (cases "pair_files m pre objs")
    case (Inl missing)
    from pair_files_Inl [OF this] have "missing \<noteq> []" and
      miss: "missing = filter (\<lambda>p. p = META_FILE \<or> (\<forall>obj\<in>set objs. oi_key obj \<noteq> pre @ p)) (map fm_path (rm_files m))"
      by blast+
    obtain q where "q \<in> set missing" using \<open>missing \<noteq> []\<close> by (cases missing) auto
    note this [unfolded miss]
    then obtain f where f: "f \<in> set (rm_files m)" "q = fm_path f" "q = META_FILE \<or> (\<forall>obj\<in>set objs. oi_key obj \<noteq> pre @ q)"
      by auto
    have "st_view S t (pre @ q) = None" if "\<forall>obj\<in>set objs. oi_key obj \<noteq> pre @ q"
    proof (rule ccontr)
      assume "st_view S t (pre @ q) \<noteq> None"
      then show False using objs [of "pre @ q"] that by (auto simp: starts_with_iff)
    qed
    with f have "\<exists>f\<in>set (rm_files m). fm_path f = META_FILE \<or> st_view S (world p) (pre @ fm_path f) = None"
      unfolding v by blast
    with run l r Inl v show ?thesis by (auto simp: pod_steps ret_def)
  next
    case (Inr fs)
    note pf = pair_files_Inr [OF Inr]
    have "\<exists>o'. st_view S t (pre @ fm_path f) = Some o' \<and> si_size si = length (ob_bytes o')" if mem: "(f, si) \<in> set fs" for f si
    proof -
      obtain obj where "obj \<in> set objs" "oi_key obj = pre @ fm_path f" "si = \<lparr>si_size = oi_size obj, si_etag = oi_etag obj\<rparr>"
        using bspec [OF pf(2) mem] by auto
      then show ?thesis using objs [of "pre @ fm_path f" "oi_size obj"] by auto
    qed
    moreover obtain q d' where w: "put (clock c t) m e fs (cache p) = (q, d')" by fastforce
    moreover have "q = Inr ()" "out = Updated" "p' = p \<lparr>world := t, cache := d'\<rparr>"
      using run l r Inr w by (cases q; simp add: pod_steps ret_def)+
    ultimately have "put (clock c t) m e fs (cache p) = (Inr (), cache p') \<and> map fst fs = rm_files m \<and>
        (\<forall>(f, si)\<in>set fs. \<exists>o'. st_view S (world p) (pre @ fm_path f) = Some o' \<and> si_size si = length (ob_bytes o'))"
      using pf(1) v by auto
    with \<open>out = Updated\<close> \<open>p' = _\<close> v show ?thesis by auto
  qed
qed

lemma world_update_simp: "world (p \<lparr>world := t\<rparr>) = t" and cache_world: "cache (p \<lparr>world := t\<rparr>) = cache p"
  by simp_all

lemma scan_entry_quiet:
  assumes ok: "store_ok c S" "quiet S" and run: "scan_entry x c pre prior_etag put p = (Inr out, p')"
  shows "st_view S (world p') = st_view S (world p)
    \<and> entry_outcome x (st_view S (world p)) pre prior_etag put (cache p) out (cache p')"
proof -
  let ?v = "st_view S (world p)"
  obtain r t where h: "head c (pre @ META_FILE) (world p) = (r, t)" by fastforce
  obtain h' where r: "r = Inr h'" using run h by (cases r) (simp_all add: scan_entry_def pod_steps)
  note hv = head_view [OF ok(1) h, unfolded r]
  have v1: "st_view S t = ?v" using hv ok(2) by (simp add: quiet_def)
  show ?thesis
  proof (cases h')
    case None
    with hv v1 run h r show ?thesis by (auto simp: scan_entry_def pod_steps ret_def entry_outcome_def)
  next
    case (Some hd')
    with hv obtain obj where o': "?v (pre @ META_FILE) = Some obj" "hi_etag hd' = Some (ob_etag obj)" "hi_modified hd' = Some (ob_modified obj)"
      using v1 by auto
    show ?thesis
    proof (cases "prior_etag (cache p) = hi_etag hd'")
      case True
      with run h r Some v1 o' show ?thesis by (auto simp: scan_entry_def pod_steps ret_def entry_outcome_def)
    next
      case False
      obtain b q t2 where g: "get_bytes c (pre @ META_FILE) t = (q, t2)" by fastforce
      obtain bs et where q: "q = Inr (bs, et)" using run h r Some False g by (cases q) (auto simp: scan_entry_def pod_steps)
      have v2: "st_view S t2 = ?v" and be: "bs = ob_bytes obj" "et = Some (ob_etag obj)"
        using get_bytes_view [OF ok(1) g] ok(2) q v1 o'(1) by (auto simp: quiet_def)
      show ?thesis
      proof (cases "parse_meta x bs")
        case (Inl e)
        with run h r Some False g q v2 o' be show ?thesis
          by (auto simp: scan_entry_def pod_steps ret_def entry_outcome_def)
      next
        case (Inr m0)
        let ?m = "with_upload_time (hi_modified hd') m0"
        have "bindE (s3_call (list_objects c pre)) (\<lambda>objects.
             case pair_files ?m pre objects of Inl _ \<Rightarrow> ret Incomplete | Inr fs \<Rightarrow>
           bindE (gets (\<lambda>p. clock c (world p))) (\<lambda>now.
           bindE (db_call (put now ?m et fs)) (\<lambda>_. ret Updated))) (p \<lparr>world := t2\<rparr>) = (Inr out, p')"
          using run h r Some False g q Inr by (simp add: scan_entry_def s3_call_bind [of "head c _"]
              s3_call_bind [of "get_bytes c _"] gets_bind [of "\<lambda>p. prior_etag (cache p)"] read_db_def Let_def)
        note w = entry_write [where put = put and m = ?m and e = et, OF ok this]
        have inr: "parse_meta x (ob_bytes obj) = Inr m0" using Inr be by simp
        have ne: "prior_etag (cache p) \<noteq> Some (ob_etag obj)" using False o'(2) by simp
        show ?thesis unfolding entry_outcome_def o'(1)
          using w [unfolded world_update_simp v2 cache_world o' be with_upload_time_simps] ne
          by (cases out) (simp_all add: inr)
      qed
    qed
  qed
qed

section \<open>Invariants of passes\<close>

lemma run_tasks_inv:
  assumes "\<And>k p. I p \<Longrightarrow> I (snd (f k p))" shows "I p \<Longrightarrow> I (snd (run_tasks f ks res p))"
proof (induction ks arbitrary: res p)
  case (Cons k ks)
  then show ?case using assms [of p k] by (auto split: prod.splits)
qed simp

lemma sweep_inv:
  assumes "\<And>k p. I p \<Longrightarrow> I (p \<lparr>cache := snd (del k (cache p))\<rparr>)" shows "I p \<Longrightarrow> I (snd (sweep del ks res p))"
proof (induction ks arbitrary: res p)
  case (Cons k ks)
  then show ?case using assms [of p k] by (auto split: prod.splits sum.splits)
qed simp

definition pod_inv :: "(sync_domain \<Rightarrow> string option) \<Rightarrow> 's pod \<Rightarrow> bool" where
  "pod_inv t p \<longleftrightarrow> db_inv (cache p) \<and> tick_cells p = t"

lemma pod_inv_world [simp]: "pod_inv t (p \<lparr>world := w\<rparr>) = pod_inv t p"
  by (simp add: pod_inv_def)

lemma pod_inv_s3: "valid (pod_inv t) (s3_call m) (\<lambda>_. pod_inv t) (\<lambda>_. pod_inv t)"
  by (rule valid_s3_call) simp

lemma pod_inv_db: "(\<And>d. db_inv d \<Longrightarrow> db_inv (snd (m d))) \<Longrightarrow> valid (pod_inv t) (db_call m) (\<lambda>_. pod_inv t) (\<lambda>_. pod_inv t)"
  unfolding valid_def pod_inv_def
  by (auto simp: cmd_defs map_errR_def split: prod.splits sum.splits) (metis snd_conv)+

lemma entry_inv:
  assumes "\<And>now m e fs d. db_inv d \<Longrightarrow> db_inv (snd (put now m e fs d))"
  shows "valid (pod_inv t) (scan_entry x c pre prior put) (\<lambda>_. pod_inv t) (\<lambda>_. pod_inv t)"
  unfolding scan_entry_def Let_def read_db_def
  by (intro valid_bind [OF pod_inv_s3] valid_gets_bind valid_option valid_if valid_pair valid_sum
        valid_ret valid_bind [OF pod_inv_db] assms) simp_all

lemma valid_snd: "valid I m (\<lambda>_. I) (\<lambda>_. I) \<Longrightarrow> I p \<Longrightarrow> I (snd (m p))"
  unfolding valid_def by (cases "m p"; cases "fst (m p)") fastforce+

lemma set_entry_inv: "pod_inv t p \<Longrightarrow> pod_inv t (snd (scan_one_set x c pre mk md p))"
  unfolding scan_one_set_entry by (rule valid_snd [OF entry_inv]) (rule upsert_set_inv)

lemma pending_entry_inv: "pod_inv t p \<Longrightarrow> pod_inv t (snd (scan_one_pending x c pre u p))"
  unfolding scan_one_pending_entry by (rule valid_snd [OF entry_inv]) (rule upsert_pending_inv)

lemma list_model_prefixes_frame:
  "valid (\<lambda>p. cache p = d \<and> tick_cells p = t) (list_model_prefixes c)
     (\<lambda>_ p. cache p = d \<and> tick_cells p = t) (\<lambda>_ p. cache p = d \<and> tick_cells p = t)"
  unfolding list_model_prefixes_def
  by (rule valid_s3_bind, rule valid_foldE, rule valid_s3_bind, rule valid_ret) simp_all

lemma scan_samples_run:
  assumes "scan_samples x c p = (r, p')"
  obtains e where "list_model_prefixes c p = (Inl e, p')" "r = Inl e"
  | prefixes p0 res1 p1 res2 where "list_model_prefixes c p = (Inr prefixes, p0)" "r = Inr res2"
      "run_tasks (\<lambda>pre. case split_set_prefix pre of Some (mk, md) \<Rightarrow> scan_one_set x c pre mk md | None \<Rightarrow> ret Unchanged)
         (filter (\<lambda>pre. split_set_prefix pre \<noteq> None) (schedule x prefixes)) (no_result \<lparr>pr_seen := length prefixes\<rparr>) p0 = (res1, p1)"
      "sweep (\<lambda>k. delete_set (fst k) (snd k))
         (filter (\<lambda>k. k \<notin> set (List.map_filter split_set_prefix prefixes)) (remdups (list_set_keys (cache p0)))) res1 p1 = (res2, p')"
proof -
  obtain q p0 where l: "list_model_prefixes c p = (q, p0)" by fastforce
  show ?thesis
  proof (cases q)
    case (Inl e)
    with assms l that(1) show ?thesis by (simp add: scan_samples_def bindE_def)
  next
    case (Inr prefixes)
    with assms l that(2) show ?thesis by (auto simp: scan_samples_def bindE_def Let_def split: prod.splits)
  qed
qed

lemma scan_pending_run:
  assumes "scan_pending x c p = (r, p')"
  obtains e where "s3_call (list_common_prefixes c PENDING_PREFIX) p = (Inl e, p')" "r = Inl e"
  | prefixes p0 res1 p1 res2 where "s3_call (list_common_prefixes c PENDING_PREFIX) p = (Inr prefixes, p0)" "r = Inr res2"
      "run_tasks (\<lambda>pre. case split_pending_prefix pre of Some u \<Rightarrow> scan_one_pending x c pre u | None \<Rightarrow> ret Unchanged)
         (filter (\<lambda>pre. split_pending_prefix pre \<noteq> None) (schedule x prefixes)) (no_result \<lparr>pr_seen := length prefixes\<rparr>) p0 = (res1, p1)"
      "sweep delete_pending_by_upload_id
         (filter (\<lambda>u. u \<notin> set (List.map_filter split_pending_prefix prefixes)) (remdups (list_pending_upload_ids (cache p0)))) res1 p1 = (res2, p')"
proof -
  obtain q p0 where l: "s3_call (list_common_prefixes c PENDING_PREFIX) p = (q, p0)" by fastforce
  show ?thesis
  proof (cases q)
    case (Inl e)
    with assms l that(1) show ?thesis by (simp add: scan_pending_def bindE_def)
  next
    case (Inr prefixes)
    with assms l that(2) show ?thesis by (auto simp: scan_pending_def bindE_def Let_def split: prod.splits)
  qed
qed

lemma snd_eq: "f = (a, b) \<Longrightarrow> I (snd f) \<Longrightarrow> I b"
  by simp

lemma scan_samples_inv: "valid (pod_inv t) (scan_samples x c) (\<lambda>_. pod_inv t) (\<lambda>_. pod_inv t)"
proof -
  have l: "valid (pod_inv t) (list_model_prefixes c) (\<lambda>_. pod_inv t) (\<lambda>_. pod_inv t)"
    unfolding list_model_prefixes_def
    by (rule valid_s3_bind, rule valid_foldE, rule valid_s3_bind, rule valid_ret) simp_all
  have step: "pod_inv t p'" if "pod_inv t p" "scan_samples x c p = (r, p')" for p r p'
    using that(2)
  proof (cases rule: scan_samples_run)
    case (1 e)
    then show ?thesis using valid_InlD [OF l that(1)] by blast
  next
    case (2 prefixes p0 res1 p1 res2)
    have "pod_inv t p0" using valid_InrD [OF l that(1) 2(1)] .
    then have "pod_inv t p1"
      by - (rule snd_eq [where I = "pod_inv t", OF 2(3)], rule run_tasks_inv [where I = "pod_inv t"],
          auto simp: ret_def set_entry_inv split: option.splits)
    then show ?thesis
      by - (rule snd_eq [where I = "pod_inv t", OF 2(4)], rule sweep_inv [where I = "pod_inv t"],
          simp_all add: pod_inv_def delete_set_inv)
  qed
  show ?thesis by (rule validI; erule (1) step)
qed

lemma scan_pending_inv: "valid (pod_inv t) (scan_pending x c) (\<lambda>_. pod_inv t) (\<lambda>_. pod_inv t)"
proof -
  have step: "pod_inv t p'" if "pod_inv t p" "scan_pending x c p = (r, p')" for p r p'
    using that(2)
  proof (cases rule: scan_pending_run)
    case (1 e)
    then show ?thesis using valid_InlD [OF pod_inv_s3 that(1)] by blast
  next
    case (2 prefixes p0 res1 p1 res2)
    have "pod_inv t p0" using valid_InrD [OF pod_inv_s3 that(1) 2(1)] .
    then have "pod_inv t p1"
      by - (rule snd_eq [where I = "pod_inv t", OF 2(3)], rule run_tasks_inv [where I = "pod_inv t"],
          auto simp: ret_def pending_entry_inv split: option.splits)
    then show ?thesis
      by - (rule snd_eq [where I = "pod_inv t", OF 2(4)], rule sweep_inv [where I = "pod_inv t"],
          simp_all add: pod_inv_def delete_pending_inv)
  qed
  show ?thesis by (rule validI; erule (1) step)
qed

lemma db_call_inv:
  "(\<And>d. db_inv d \<Longrightarrow> db_inv (snd (m d))) \<Longrightarrow> (\<And>a. valid (pod_inv t) (f a) Q (\<lambda>_. pod_inv t)) \<Longrightarrow>
   valid (pod_inv t) (bindE (db_call m) f) Q (\<lambda>_. pod_inv t)"
  by (rule valid_bind [OF pod_inv_db])

lemma scan_users_inv: "valid (pod_inv t) (scan_users x c) (\<lambda>_. pod_inv t) (\<lambda>_. pod_inv t)"
proof -
  have rw: "valid (pod_inv t) (bindE (db_call (replace_users x e us)) (\<lambda>_. ret 1)) (\<lambda>_. pod_inv t) (\<lambda>_. pod_inv t)" for e us
    by (rule db_call_inv [OF replace_users_inv]) (simp_all add: valid_ret)
  have r: "valid (pod_inv t) (ret n) (\<lambda>_. pod_inv t) (\<lambda>_. pod_inv t)"
    "valid (pod_inv t) (throw e) (\<lambda>_. pod_inv t) (\<lambda>_. pod_inv t)" for n e
    by (simp_all add: valid_ret valid_throw)
  show ?thesis
    unfolding scan_users_def read_db_def
    by (rule valid_bind [OF pod_inv_s3], rule valid_option; rule valid_gets_bind; rule valid_if)
      (rule rw r valid_bind [OF pod_inv_s3] valid_pair valid_sum | assumption)+
qed

lemma run_once_inv: "valid (pod_inv t) (run_once x c) (\<lambda>_. pod_inv t) (\<lambda>_. pod_inv t)"
  unfolding run_once_def
  by (rule valid_bind [OF scan_samples_inv], rule valid_bind [OF scan_pending_inv], rule valid_bind [OF scan_users_inv],
      rule valid_gets_bind, rule db_call_inv [OF set_last_scan_inv]) (simp_all add: valid_ret)

lemma sample_scan:
  "scan_one_set sample_pod_ext mem_s3 sample_prefix ''Canon'' ''EOS R5'' sample_pod =
     (Inr Updated, sample_pod \<lparr>cache := bump Sets (set_written sample_pod_ext 7 sample_meta (Some ''M'') sample_paired empty_db)\<rparr>)"
proof -
  have "get_set_meta_etag mk md empty_db = None" for mk md
    by (simp add: get_set_meta_etag_def empty_db_def first_row_def)
  moreover have "hi_etag sample_head = Some ''M''" "clock mem_s3 sample_bucket = 7"
    by (simp_all add: sample_head_def mem_s3_def sample_bucket_def mem_put_def)
  moreover have "world sample_pod = sample_bucket" "cache sample_pod = empty_db" "sample_pod \<lparr>world := sample_bucket\<rparr> = sample_pod"
    by (simp_all add: sample_pod_def)
  moreover have "distinct (paths sample_paired)"
    by (simp add: paths_def sample_paired_def sample_file_def sample_file2_def)
  ultimately show ?thesis
    by (simp add: scan_one_set_def pod_steps sample_steps Let_def upsert_set_eq ret_def)
qed

section \<open>Claims\<close>

text \<open>
  C9. Scanning one set against a store no one else writes: the bucket is not changed; the outcome says
  truthfully that the metadata object is missing, already indexed under its etag, unreadable or
  lacking a declared file; and only for a metadata that parses, validates and has every declared
  file in the bucket is the cache written, with exactly that metadata, the object's etag and each
  file's size, in one transaction. In every other case, errors included, the cache is not touched.
\<close>

theorem scan_one_set_sound:
  assumes "store_ok c S" "quiet S" and run: "scan_one_set x c pre mk md p = (r, p')"
  shows "tick_cells p' = tick_cells p \<and>
    (case r of
       Inl e \<Rightarrow> cache p' = cache p
     | Inr out \<Rightarrow> st_view S (world p') = st_view S (world p)
         \<and> entry_outcome x (st_view S (world p)) pre (get_set_meta_etag mk md) (upsert_set x) (cache p) out (cache p'))"
proof -
  note run' = run [unfolded scan_one_set_entry]
  show ?thesis
  proof (cases r)
    case (Inl e)
    then show ?thesis using set_entry.unless_updated [OF run'] by simp
  next
    case (Inr out)
    then show ?thesis
      using set_entry.any_outcome [OF run'] scan_entry_quiet [OF assms(1,2) run' [unfolded Inr]] by simp
  qed
qed

lemma scan_one_set_sound_witness:
  "fst (scan_one_set sample_pod_ext mem_s3 sample_prefix ''Canon'' ''EOS R5'' sample_pod) = Inr Updated
   \<and> tick_cells (snd (scan_one_set sample_pod_ext mem_s3 sample_prefix ''Canon'' ''EOS R5'' sample_pod)) = (\<lambda>_. None)"
proof -
  have "fst (scan_one_set sample_pod_ext mem_s3 sample_prefix ''Canon'' ''EOS R5'' sample_pod) = Inr Updated"
    by (simp add: sample_scan)
  then show ?thesis
    using scan_one_set_sound [OF mem_store_ok mem_quiet surjective_pairing, of sample_pod_ext sample_prefix "''Canon''" "''EOS R5''" sample_pod]
    by (simp add: sample_pod_def)
qed

lemma set_keys_kept: "scan_one_set x c pre mk md p = (r, p') \<Longrightarrow> set (list_set_keys (cache p)) \<subseteq> set (list_set_keys (cache p'))"
proof -
  assume run: "scan_one_set x c pre mk md p = (r, p')"
  have k: "set (list_set_keys d) = set_key ` set (sets d)" for d
    by (force simp: list_set_keys_def set_key_def)
  have "set (list_set_keys d) \<subseteq> set (list_set_keys d')" if "upsert_set x now m e fs d = (Inr (), d')" for now m e fs d d'
    using that upsert_keys [of _ "sets d"] unfolding k
    by (auto simp: upsert_set_eq set_written_def bump_def Let_def split: if_splits)
  with set_entry.any_outcome [OF run [unfolded scan_one_set_entry]] show ?thesis
    by (elim conjE disjE exE) (simp, blast)
qed

text \<open>
  C18. A pass over the approved sets that fails to list the bucket leaves the cache as it was; otherwise,
  of the sets known before it, it keeps exactly those whose prefix is still listed, whatever the
  single tasks did.
\<close>

theorem scan_samples_sweeps:
  assumes run: "scan_samples x c p = (r, p')"
  shows "case r of
      Inl e \<Rightarrow> cache p' = cache p
    | Inr res \<Rightarrow> \<exists>prefixes p0. list_model_prefixes c p = (Inr prefixes, p0)
        \<and> (\<forall>k\<in>set (list_set_keys (cache p)).
             k \<in> set (list_set_keys (cache p')) \<longleftrightarrow> (\<exists>pre\<in>set prefixes. split_set_prefix pre = Some k))"
  using run
proof (cases rule: scan_samples_run)
  case (1 e)
  then show ?thesis using valid_InlD [OF list_model_prefixes_frame _ 1(1), of "cache p" "tick_cells p"] by simp
next
  case (2 prefixes p0 res1 p1 res2)
  have c0: "cache p0 = cache p"
    using valid_InrD [OF list_model_prefixes_frame _ 2(1), of "cache p" "tick_cells p"] by simp
  have "\<forall>k\<in>set (list_set_keys (cache p0)). k \<in> set (list_set_keys (cache p'))
      \<longleftrightarrow> k \<in> set (List.map_filter split_set_prefix prefixes)"
    by (rule set_table.pass_keys [OF _ 2(3,4)])
      (auto simp: ret_def dest: set_keys_kept split: option.splits)
  moreover have "k \<in> set (List.map_filter split_set_prefix prefixes) \<longleftrightarrow> (\<exists>pre\<in>set prefixes. split_set_prefix pre = Some k)" for k
    by (force simp: List.map_filter_def)
  ultimately show ?thesis using 2(1,2) c0 by auto
qed

definition stale_pod :: "mem pod" where
  "stale_pod = sample_pod \<lparr>world := \<lparr>mem_objs = [], mem_seq = 0\<rparr>,
     cache := bump Sets (set_written sample_pod_ext 7 sample_meta (Some ''M'') sample_paired empty_db)\<rparr>"

lemma scan_samples_sweeps_witness:
  "(''Canon'', ''EOS R5'') \<in> set (list_set_keys (cache stale_pod))
   \<and> (''Canon'', ''EOS R5'') \<notin> set (list_set_keys (cache (snd (scan_samples sample_pod_ext mem_s3 stale_pod))))"
proof -
  have k: "(''Canon'', ''EOS R5'') \<in> set (list_set_keys (cache stale_pod))"
    by (simp add: stale_pod_def list_set_keys_def set_written_def Let_def upsert_row_def empty_db_def bump_def
        set_table_row_def sample_meta_def sample_set_def)
  have l: "list_model_prefixes mem_s3 stale_pod = (Inr [], stale_pod)"
    by (simp add: list_model_prefixes_def pod_steps list_common_prefixes_def mem_s3_def stale_pod_def ret_def map_filter_simps)
  obtain r p' where run: "scan_samples sample_pod_ext mem_s3 stale_pod = (r, p')" by fastforce
  have "\<exists>res. r = Inr res" using run l by (auto simp: scan_samples_def bindE_def Let_def split: prod.splits)
  with scan_samples_sweeps [OF run] k l show ?thesis by (auto simp: run)
qed

text \<open>
  Whatever the store answers and however a round ends, it leaves the cache consistent and does not
  touch the tick cells.
\<close>

lemma scan_round_consistent:
  assumes "db_inv (cache p)"
  shows "db_inv (cache (snd (fst (scan_round x c interval (ready, p)))))
     \<and> tick_cells (snd (fst (scan_round x c interval (ready, p)))) = tick_cells p"
proof -
  have "pod_inv (tick_cells p) (snd (run_once x c p))"
    using valid_snd [OF run_once_inv] assms by (simp add: pod_inv_def)
  then show ?thesis by (cases "run_once x c p") (simp add: scan_round_def pod_inv_def Let_def)
qed

text \<open>
  The prefix of a set is read back as its maker and model exactly when both are non-empty and have
  no slash; in particular a set whose maker has a slash in it, which \<^verbatim>\<open>validate\<close> accepts, is never scanned.
\<close>

lemma set_prefix_read_back:
  "split_set_prefix (SAMPLES_PREFIX @ mk @ ''/'' @ md @ ''/'') = Some (mk, md)
     \<longleftrightarrow> mk \<noteq> [] \<and> md \<noteq> [] \<and> slash \<notin> set mk \<and> slash \<notin> set md"
proof
  assume l: "split_set_prefix (SAMPLES_PREFIX @ mk @ ''/'' @ md @ ''/'') = Some (mk, md)"
  then have "split_once slash (trim_end_slashes (mk @ ''/'' @ md @ ''/'')) = Some (mk, md)" "mk \<noteq> []" "md \<noteq> []" "slash \<notin> set md"
    by (auto simp: split_set_prefix_def simp del: append_Cons split: option.splits if_splits)
  then show "mk \<noteq> [] \<and> md \<noteq> [] \<and> slash \<notin> set mk \<and> slash \<notin> set md" by (simp add: split_once_Some)
next
  assume r: "mk \<noteq> [] \<and> md \<noteq> [] \<and> slash \<notin> set mk \<and> slash \<notin> set md"
  have "trim_end_slashes (mk @ slash # md @ [slash]) = mk @ slash # md"
    using r by (cases md rule: rev_cases) (auto simp: trim_end_slashes_def)
  moreover have "split_once slash (mk @ slash # md) = Some (mk, md)" using r by (simp add: split_once_Some)
  ultimately show "split_set_prefix (SAMPLES_PREFIX @ mk @ ''/'' @ md @ ''/'') = Some (mk, md)"
    using r by (simp add: split_set_prefix_def)
qed

end
