(* ===== verification/Config.thy ===== *)
theory Config imports Strings begin

text \<open>
  \<^verbatim>\<open>src/backend/src/config.rs\<close>: the settings the modelled parts read (\<open>bind_loopback\<close> stands for
  \<^verbatim>\<open>bind.ip().is_loopback()\<close>), and the checks \<^verbatim>\<open>Config::validate\<close> makes at start-up. Reading the
  environment is clap's and is not modelled.
\<close>

datatype upload_mode = UploadPresigned | UploadStream | UploadEither
datatype download_mode = DownloadPresigned | DownloadStream | DownloadEither
datatype sub_format = SubRaw | SubGithub

record config =
  bind_loopback :: bool
  s3_conditional_writes :: bool
  cf_upload_mode :: upload_mode
  cf_download_mode :: download_mode
  download_rate_limit :: nat
  download_rate_window_secs :: nat
  multipart_part_size :: nat
  max_upload_bytes :: nat
  blocked_extensions :: "string list"
  tags_suggested :: "string list"
  password_auth_enabled :: bool
  admin_password :: "string option"
  admin_password_hash :: "string option"
  session_key :: string
  session_ttl_secs :: nat
  oidc_issuer_url :: "string option"
  oidc_client_id :: "string option"
  oidc_client_secret :: "string option"
  oidc_redirect_url :: "string option"
  oidc_sub_format :: sub_format
  oidc_initial_admin_sub :: "string option"
  github_client_id :: "string option"
  github_client_secret :: "string option"
  github_redirect_url :: "string option"
  github_initial_admin_sub :: "string option"
  public_url :: "string option"
  feed_limit :: nat
  feed_published_title :: string
  feed_pending_title :: string
  inspect_cache_ttl_secs :: nat
  inspect_max_file_bytes :: nat

datatype config_error = NoAdminPassword | ShortSessionKey | SmallPartSize | PartialOidc | PartialGithub | NoLoginPath

definition is_some :: "'a option \<Rightarrow> bool" where
  "is_some v \<longleftrightarrow> v \<noteq> None"

definition github_enabled :: "config \<Rightarrow> bool" where
  "github_enabled c \<longleftrightarrow> is_some (github_client_id c) \<and> is_some (github_client_secret c) \<and> is_some (github_redirect_url c)"

definition oidc_enabled :: "config \<Rightarrow> bool" where
  "oidc_enabled c \<longleftrightarrow> is_some (oidc_issuer_url c) \<and> is_some (oidc_client_id c)
     \<and> is_some (oidc_client_secret c) \<and> is_some (oidc_redirect_url c)"

definition validate_config :: "config \<Rightarrow> config_error + unit" where
  "validate_config c =
     (if password_auth_enabled c \<and> admin_password c = None \<and> admin_password_hash c = None then Inl NoAdminPassword
      else if length (session_key c) < 32 then Inl ShortSessionKey
      else if multipart_part_size c < 5 * 1024 * 1024 then Inl SmallPartSize
      else (let set_count = length (filter (\<lambda>x. x) [is_some (oidc_issuer_url c), is_some (oidc_client_id c),
                is_some (oidc_client_secret c), is_some (oidc_redirect_url c)]);
                gh_count = length (filter (\<lambda>x. x) [is_some (github_client_id c), is_some (github_client_secret c),
                is_some (github_redirect_url c)])
            in if set_count \<noteq> 0 \<and> set_count \<noteq> 4 then Inl PartialOidc
               else if gh_count \<noteq> 0 \<and> gh_count \<noteq> 3 then Inl PartialGithub
               else if \<not> password_auth_enabled c \<and> \<not> oidc_enabled c \<and> \<not> github_enabled c then Inl NoLoginPath
               else Inr ()))"

lemma validate_config_Inr:
  "validate_config c = Inr () \<longleftrightarrow>
     (password_auth_enabled c \<longrightarrow> admin_password c \<noteq> None \<or> admin_password_hash c \<noteq> None)
   \<and> 32 \<le> length (session_key c) \<and> 5 * 1024 * 1024 \<le> multipart_part_size c
   \<and> (oidc_enabled c \<or> oidc_issuer_url c = None \<and> oidc_client_id c = None \<and> oidc_client_secret c = None \<and> oidc_redirect_url c = None)
   \<and> (github_enabled c \<or> github_client_id c = None \<and> github_client_secret c = None \<and> github_redirect_url c = None)
   \<and> (password_auth_enabled c \<or> oidc_enabled c \<or> github_enabled c)"
  by (auto simp: validate_config_def Let_def oidc_enabled_def github_enabled_def is_some_def split: if_splits)

end
