(* ===== verification/App.thy ===== *)
theory App imports Scanner Config begin

text \<open>
  What every handler shares: \<^verbatim>\<open>AppState\<close> (\<^verbatim>\<open>state.rs\<close>) as the record \<open>app\<close> of settings, store and
  external functions beside the pod's mutable state, and \<^verbatim>\<open>AppError\<close> (\<^verbatim>\<open>error.rs\<close>) with the HTTP
  response it becomes. Message texts are dropped.
\<close>

section \<open>Errors\<close>

datatype app_error =
    MissingItem | Forbidden | Unauthorized | Conflict | BadRequest | PayloadTooLarge
  | Unprocessable | TooManyRequests nat | Internal

fun error_status :: "app_error \<Rightarrow> nat" where
  "error_status MissingItem = 404"
| "error_status Forbidden = 403"
| "error_status Unauthorized = 401"
| "error_status Conflict = 409"
| "error_status BadRequest = 400"
| "error_status PayloadTooLarge = 413"
| "error_status Unprocessable = 422"
| "error_status (TooManyRequests s) = 429"
| "error_status Internal = 500"

fun retry_after_header :: "app_error \<Rightarrow> string option" where
  "retry_after_header (TooManyRequests s) = Some (dec s)"
| "retry_after_header e = None"

section \<open>The application\<close>

record session =
  se_sub :: string
  se_source :: string
  se_roles :: "string list"
  se_exp :: int

text \<open>
  \<open>entropy\<close> is the random source (\<^verbatim>\<open>rand\<close>, \<^verbatim>\<open>Uuid::new_v4\<close>), \<open>timestamp\<close> chrono's seconds of the Unix
  epoch, \<open>hash_path\<close> the standard hasher, \<open>parse_ip\<close> the parser of IP addresses, \<open>jwt_*\<close> and \<open>argon2_verify\<close> the libraries'
  functions (\<^term>\<open>None\<close> when the hash does not parse), \<open>tick_body\<close> the JSON of a tick, \<open>presign_*\<close> the
  SDK's presigning.
\<close>

record 's app =
  app_config :: config
  app_s3 :: "'s s3"
  externals :: pod_ext
  entropy :: "nat \<Rightarrow> 's \<Rightarrow> string \<times> 's"
  sha256 :: "string \<Rightarrow> string"
  timestamp :: "datetime \<Rightarrow> int"
  hash_path :: "string \<Rightarrow> nat"
  parse_ip :: "string \<Rightarrow> string option"
  tick_body :: "string \<Rightarrow> datetime \<Rightarrow> string \<Rightarrow> string option"
  jwt_encode :: "string \<Rightarrow> session \<Rightarrow> string option"
  jwt_decode :: "string \<Rightarrow> datetime \<Rightarrow> string \<Rightarrow> session option"
  argon2_verify :: "string \<Rightarrow> string \<Rightarrow> bool option"
  presign_get :: "string \<Rightarrow> ('s, unit, string) cmd"
  presign_put :: "string \<Rightarrow> ('s, unit, string) cmd"
  presign_upload_part :: "string \<Rightarrow> string \<Rightarrow> nat \<Rightarrow> ('s, unit, string) cmd"

type_synonym ('s, 'a) handler = "('s pod, app_error, 'a) cmd"

text \<open>The value of a request header, if it is visible ASCII (\<^verbatim>\<open>headers.get(name)\<close>, \<^verbatim>\<open>to_str().ok()\<close>).\<close>

type_synonym headers = "(string \<times> string) list"

definition header_text :: "string \<Rightarrow> headers \<Rightarrow> string option" where
  "header_text name hs = (case map_of hs name of
       None \<Rightarrow> None
     | Some v \<Rightarrow> if list_all (\<lambda>c. byte c = 9 \<or> 32 \<le> byte c \<and> byte c < 127) v then Some v else None)"

text \<open>A store call whose error becomes \<^verbatim>\<open>AppError::Other\<close>, one whose error is inspected, a cache write.\<close>

definition s3E :: "('s, 'e, 'a) cmd \<Rightarrow> ('s, 'a) handler" where
  [cmd_defs]: "s3E m = map_errE (\<lambda>_. Internal) (on_world m)"

definition s3_map :: "('e \<Rightarrow> app_error) \<Rightarrow> ('s, 'e, 'a) cmd \<Rightarrow> ('s, 'a) handler" where
  [cmd_defs]: "s3_map f m = map_errE f (on_world m)"

definition dbE :: "(db, db_error, 'a) cmd \<Rightarrow> ('s, 'a) handler" where
  [cmd_defs]: "dbE m = map_errE (\<lambda>_. Internal) (on_cache m)"

text \<open>\<^verbatim>\<open>let _ = call\<close>, and a spawned task, which runs at once and whose error is only logged.\<close>

definition ignoring :: "('s pod, 'e, 'a) cmd \<Rightarrow> ('s pod, 'f, unit) cmd" where
  [cmd_defs]: "ignoring m = matchE m (\<lambda>_. ret ())"

definition now_at :: "'s app \<Rightarrow> ('s pod, 'e, datetime) cmd" where
  [cmd_defs]: "now_at a = gets (\<lambda>p. clock (app_s3 a) (world p))"

definition rand_bytes :: "'s app \<Rightarrow> nat \<Rightarrow> ('s pod, 'e, string) cmd" where
  [cmd_defs]: "rand_bytes a n = (\<lambda>p. case entropy a n (world p) of (r, s) \<Rightarrow> (Inr r, p \<lparr>world := s\<rparr>))"

text \<open>\<^verbatim>\<open>format!("{b:02x}")\<close> over bytes.\<close>

definition low_hex :: "nat \<Rightarrow> char" where
  "low_hex n = (if n < 10 then char_of (48 + n) else char_of (87 + n))"

definition hex :: "string \<Rightarrow> string" where
  "hex bytes = concat (map (\<lambda>c. [low_hex (byte c div 16), low_hex (byte c mod 16)]) bytes)"

lemma byte_char_of: "m < 256 \<Longrightarrow> byte (char_of m) = m"
  unfolding byte_def of_char_of by (rule mod_less)

lemma low_hex_byte: "n < 16 \<Longrightarrow> byte (low_hex n) = (if n < 10 then 48 + n else 87 + n)"
proof (cases "n < 10")
  case True
  then show ?thesis unfolding low_hex_def if_P [OF True] by (intro byte_char_of) linarith
next
  case False
  assume "n < 16"
  then show ?thesis unfolding low_hex_def if_not_P [OF False] by (intro byte_char_of) linarith
qed

lemma low_hex_inj:
  assumes "m < 16" "n < 16" "low_hex m = low_hex n" shows "m = n"
proof -
  have "(if m < 10 then 48 + m else 87 + m) = (if n < 10 then 48 + n else 87 + n)"
    using low_hex_byte [OF assms(1)] low_hex_byte [OF assms(2)] assms(3) by argo
  then show ?thesis by (simp split: if_splits)
qed

lemma hex_inj: "hex a = hex b \<Longrightarrow> a = b"
proof (induction a arbitrary: b)
  case Nil
  then show ?case by (cases b) (simp_all add: hex_def)
next
  case (Cons c a)
  then obtain e b' where b: "b = e # b'" by (cases b) (auto simp: hex_def)
  have "byte c div 16 = byte e div 16" "byte c mod 16 = byte e mod 16" "hex a = hex b'"
    using Cons.prems low_hex_inj [OF byte_parts(1) [of c] byte_parts(1) [of e]]
      low_hex_inj [OF byte_parts(2) [of c] byte_parts(2) [of e]] by (simp_all add: b hex_def)
  then have "c = e" by (metis byte_parts(3))
  with Cons.IH [OF \<open>hex a = hex b'\<close>] show ?case by (simp add: b)
qed

lemma hex_length: "length (hex s) = 2 * length s"
  by (induction s) (simp_all add: hex_def)

end
