(* ===== verification/Sync.thy ===== *)
theory Sync imports App Store begin

text \<open>
  \<^verbatim>\<open>src/backend/src/sync_tick.rs\<close>: how a pod tells its peers of a change. A bump writes a fresh tick
  object and remembers its etag; the watcher compares the etags of the three tick objects with the
  remembered ones and runs the scan passes of the domains that changed. The three concurrent HEADs
  are run one after another; the order within a changed set is fixed.
\<close>

fun tick_key :: "sync_domain \<Rightarrow> string" where
  "tick_key SyncUsers = ''_system/sync/users.tick''"
| "tick_key SyncSets = ''_system/sync/sets.tick''"
| "tick_key SyncPending = ''_system/sync/pending.tick''"

definition set_cell :: "sync_domain \<Rightarrow> string \<Rightarrow> 's pod \<Rightarrow> 's pod" where
  "set_cell d etag p = p \<lparr>tick_cells := (tick_cells p)(d := Some etag)\<rparr>"

definition bump_one :: "'s app \<Rightarrow> string \<Rightarrow> sync_domain \<Rightarrow> ('s pod, 'e, unit) cmd" where
  "bump_one a reason d =
     bindE (rand_bytes a 16) (\<lambda>nonce.
     bindE (now_at a) (\<lambda>ts. case tick_body a nonce ts reason of None \<Rightarrow> ret () | Some body \<Rightarrow>
       matchE (on_world (put_bytes (app_s3 a) (tick_key d) body (Some ''application/json'') None None)) (\<lambda>r. case r of
           Inr new_etag \<Rightarrow> modify (set_cell d new_etag)
         | Inl _ \<Rightarrow> ret ())))"

definition bump_ticks :: "'s app \<Rightarrow> sync_domain list \<Rightarrow> string \<Rightarrow> ('s pod, 'e, unit) cmd" where
  "bump_ticks a domains reason = forE domains (bump_one a reason)"

text \<open>\<^verbatim>\<open>tokio::join!\<close> of the three HEADs.\<close>

definition heads :: "'s s3 \<Rightarrow> 's pod \<Rightarrow> (sync_domain \<times> (unit + head_info option)) list \<times> 's pod" where
  "heads c p =
     (case head c (tick_key SyncUsers) (world p) of (u, s1) \<Rightarrow>
      case head c (tick_key SyncSets) s1 of (st, s2) \<Rightarrow>
      case head c (tick_key SyncPending) s2 of (pe, s3) \<Rightarrow>
        ([(SyncUsers, u), (SyncSets, st), (SyncPending, pe)], p \<lparr>world := s3\<rparr>))"

definition seen_etag :: "head_info option \<Rightarrow> string option" where
  "seen_etag h = (case h of None \<Rightarrow> None | Some info \<Rightarrow> hi_etag info)"

definition prime_cells :: "'s s3 \<Rightarrow> ('s pod, unit, unit) cmd" where
  "prime_cells c = (\<lambda>p. case heads c p of (hs, p1) \<Rightarrow>
     forE hs (\<lambda>(d, h). bindE (lift h) (\<lambda>info. case seen_etag info of
         None \<Rightarrow> ret () | Some etag \<Rightarrow> modify (set_cell d etag))) p1)"

definition poll_once :: "'s s3 \<Rightarrow> ('s pod, unit, sync_domain list) cmd" where
  "poll_once c = (\<lambda>p. case heads c p of (hs, p1) \<Rightarrow>
     foldE (\<lambda>(d, h) out. bindE (lift h) (\<lambda>info. case seen_etag info of
         None \<Rightarrow> ret out
       | Some etag \<Rightarrow> bindE (gets (\<lambda>p. tick_cells p d)) (\<lambda>cell.
           if cell = Some etag then ret out
           else bindE (modify (set_cell d etag)) (\<lambda>_. ret (out @ [d]))))) hs [] p1)"

definition run_passes :: "'s app \<Rightarrow> sync_domain list \<Rightarrow> ('s pod, 'e, unit) cmd" where
  "run_passes a domains =
     bindE (if SyncPending \<in> set domains then ignoring (run_pending_pass (externals a) (app_s3 a)) else ret ()) (\<lambda>_.
     bindE (if SyncSets \<in> set domains then ignoring (run_samples_pass (externals a) (app_s3 a)) else ret ()) (\<lambda>_.
     if SyncUsers \<in> set domains then ignoring (run_users_pass (externals a) (app_s3 a)) else ret ()))"

text \<open>One turn of the watcher's loop.\<close>

definition watch_round :: "'s app \<Rightarrow> 's pod \<Rightarrow> 's pod" where
  "watch_round a p = (case poll_once (app_s3 a) p of
       (Inl _, p1) \<Rightarrow> p1
     | (Inr changed, p1) \<Rightarrow> if changed = [] then p1 else snd (run_passes a changed p1 :: (unit + unit) \<times> _))"

section \<open>What a poll sees\<close>

lemma tick_key_inj: "tick_key d = tick_key e \<longleftrightarrow> d = e"
  by (cases d; cases e) simp_all

lemma tick_key_other: "tick_key d \<noteq> USERS_KEY" "\<not> starts_with SAMPLES_PREFIX (tick_key d)" "\<not> starts_with PENDING_PREFIX (tick_key d)"
  by (cases d; simp add: USERS_KEY_def starts_with_def SAMPLES_PREFIX_def PENDING_PREFIX_def)+

definition head_of :: "bucket_view \<Rightarrow> sync_domain \<Rightarrow> unit + head_info option \<Rightarrow> bool" where
  "head_of v d h \<longleftrightarrow> (case h of Inl _ \<Rightarrow> True
     | Inr info \<Rightarrow> seen_etag info = map_option ob_etag (v (tick_key d)))"

lemma heads_view:
  assumes "store_ok c S" "quiet S" "heads c p = (hs, p1)"
  shows "st_view S (world p1) = st_view S (world p) \<and> cache p1 = cache p \<and> tick_cells p1 = tick_cells p
    \<and> map fst hs = [SyncUsers, SyncSets, SyncPending] \<and> (\<forall>(d, h)\<in>set hs. head_of (st_view S (world p)) d h)"
proof -
  have one: "st_view S s' = st_view S s \<and> head_of (st_view S s) d h" if "head c (tick_key d) s = (h, s')" for d h s s'
    using head_view [OF assms(1) that] assms(2)
    by (auto simp: head_of_def seen_etag_def quiet_def split: sum.splits option.splits)
  obtain u s1 where 1: "head c (tick_key SyncUsers) (world p) = (u, s1)" by fastforce
  obtain st s2 where 2: "head c (tick_key SyncSets) s1 = (st, s2)" by fastforce
  obtain pe s3 where 3: "head c (tick_key SyncPending) s2 = (pe, s3)" by fastforce
  show ?thesis
    using assms(3) 1 2 3 one [OF 1] one [OF 2] one [OF 3] by (auto simp: heads_def simp del: tick_key.simps)
qed

lemma poll_fold:
  assumes "foldE (\<lambda>(d, h) out. bindE (lift h) (\<lambda>info. case seen_etag info of
         None \<Rightarrow> ret out
       | Some etag \<Rightarrow> bindE (gets (\<lambda>p. tick_cells p d)) (\<lambda>cell.
           if cell = Some etag then ret out
           else bindE (modify (set_cell d etag)) (\<lambda>_. ret (out @ [d]))))) hs out p = (Inr changed, p')"
    and "\<forall>(d, h)\<in>set hs. head_of v d h" "distinct (map fst hs)"
  shows "world p' = world p \<and> cache p' = cache p
    \<and> (\<forall>d. d \<in> set changed \<longleftrightarrow> d \<in> set out \<or> d \<in> fst ` set hs \<and> v (tick_key d) \<noteq> None \<and> map_option ob_etag (v (tick_key d)) \<noteq> tick_cells p d)
    \<and> (\<forall>d. tick_cells p' d = (if d \<in> fst ` set hs \<and> v (tick_key d) \<noteq> None then map_option ob_etag (v (tick_key d)) else tick_cells p d))"
  using assms
proof (induction hs arbitrary: out p)
  case Nil
  then show ?case by (auto simp: ret_def)
next
  case (Cons x hs)
  obtain d h where x: "x = (d, h)" by (cases x)
  obtain info where h: "h = Inr info" using Cons.prems(1) x by (cases h) (auto simp: cmd_defs)
  have si: "seen_etag info = map_option ob_etag (v (tick_key d))"
    using Cons.prems(2) x h by (simp add: head_of_def)
  have nd: "d \<notin> fst ` set hs" "distinct (map fst hs)" using Cons.prems(3) x by simp_all
  have hs: "\<forall>(d, h)\<in>set hs. head_of v d h" using Cons.prems(2) by simp
  show ?case
  proof (cases "v (tick_key d)")
    case None
    note Cons.IH [OF _ hs nd(2), of out p]
    moreover have "foldE (\<lambda>(d, h) out. bindE (lift h) (\<lambda>info. case seen_etag info of
         None \<Rightarrow> ret out
       | Some etag \<Rightarrow> bindE (gets (\<lambda>p. tick_cells p d)) (\<lambda>cell.
           if cell = Some etag then ret out
           else bindE (modify (set_cell d etag)) (\<lambda>_. ret (out @ [d]))))) hs out p = (Inr changed, p')"
      using Cons.prems(1) x h si None by (simp add: cmd_defs)
    ultimately show ?thesis using None x by auto
  next
    case (Some obj)
    show ?thesis
    proof (cases "tick_cells p d = Some (ob_etag obj)")
      case True
      note Cons.IH [OF _ hs nd(2), of out p]
      moreover have "foldE (\<lambda>(d, h) out. bindE (lift h) (\<lambda>info. case seen_etag info of
           None \<Rightarrow> ret out
         | Some etag \<Rightarrow> bindE (gets (\<lambda>p. tick_cells p d)) (\<lambda>cell.
             if cell = Some etag then ret out
             else bindE (modify (set_cell d etag)) (\<lambda>_. ret (out @ [d]))))) hs out p = (Inr changed, p')"
        using Cons.prems(1) x h si Some True by (simp add: cmd_defs)
      ultimately show ?thesis using True Some x by auto
    next
      case False
      let ?q = "set_cell d (ob_etag obj) p"
      note Cons.IH [OF _ hs nd(2), of "out @ [d]" ?q]
      moreover have "foldE (\<lambda>(d, h) out. bindE (lift h) (\<lambda>info. case seen_etag info of
           None \<Rightarrow> ret out
         | Some etag \<Rightarrow> bindE (gets (\<lambda>p. tick_cells p d)) (\<lambda>cell.
             if cell = Some etag then ret out
             else bindE (modify (set_cell d etag)) (\<lambda>_. ret (out @ [d]))))) hs (out @ [d]) ?q = (Inr changed, p')"
        using Cons.prems(1) x h si Some False by (simp add: cmd_defs)
      ultimately show ?thesis using False Some x nd(1) by (auto simp: set_cell_def)
    qed
  qed
qed

end
