(* ===== verification/Users.thy ===== *)
theory Users imports Sync begin

text \<open>
  \<^verbatim>\<open>src/backend/src/users.rs\<close>: the users file in the bucket, the source of truth for identities and
  roles, changed by compare-and-swap on its etag. The mutator is a function of the current time and
  the file's users.
\<close>

datatype users_error = UsersConcurrent | UsersMissing | UsersOther

definition MAX_CAS_RETRIES :: nat where "MAX_CAS_RETRIES = 5"

definition read_with_etag :: "'z pod_ext_scheme \<Rightarrow> 's s3 \<Rightarrow> ('s, unit, user_entry list \<times> string option) cmd" where
  "read_with_etag x c = matchE (get_bytes c USERS_KEY) (\<lambda>r. case r of
       Inr (bytes, etag) \<Rightarrow>
         if \<not> utf8_valid bytes then throw ()
         else (case toml_users x bytes of None \<Rightarrow> throw () | Some file \<Rightarrow> ret (file, etag))
     | Inl (NotFound _) \<Rightarrow> ret ([], None)
     | Inl PreconditionFailed \<Rightarrow> throw ()
     | Inl Other \<Rightarrow> throw ())"

definition write_users :: "'s s3 \<Rightarrow> string \<Rightarrow> string option \<Rightarrow> ('s, s3_error, string) cmd" where
  "write_users c body current_etag =
     (if \<not> conditional_writes c then put_bytes c USERS_KEY body (Some ''application/toml'') None None
      else case current_etag of
        Some etag \<Rightarrow> put_bytes c USERS_KEY body (Some ''application/toml'')
          (Some (CHR 0x22 # etag @ [CHR 0x22])) None
      | None \<Rightarrow> put_bytes c USERS_KEY body (Some ''application/toml'') None (Some ''*''))"

text \<open>The conditional write of the changed users and what follows it; \<open>retry\<close> is the next turn of the loop.\<close>

definition store_users :: "'s app \<Rightarrow> user_entry list \<Rightarrow> string \<Rightarrow> string option
    \<Rightarrow> ('s pod, users_error, user_entry list) cmd \<Rightarrow> ('s pod, users_error, user_entry list) cmd" where
  "store_users a next body current_etag retry =
     matchE (on_world (write_users (app_s3 a) body current_etag)) (\<lambda>w. case w of
         Inr new_etag \<Rightarrow>
           bindE (map_errE (\<lambda>_. UsersOther)
               (on_cache (replace_users (externals a) (Some new_etag) (map user_row_of next)))) (\<lambda>_.
           bindE (bump_ticks a [SyncUsers] ''users_cas_update'') (\<lambda>_. ret next))
       | Inl PreconditionFailed \<Rightarrow> retry
       | Inl (NotFound k) \<Rightarrow> throw UsersOther
       | Inl Other \<Rightarrow> throw UsersOther)"

fun cas_tries :: "nat \<Rightarrow> 's app \<Rightarrow> (datetime \<Rightarrow> user_entry list \<Rightarrow> users_error + user_entry list)
    \<Rightarrow> ('s pod, users_error, user_entry list) cmd" where
  "cas_tries 0 a mutate = throw UsersConcurrent"
| "cas_tries (Suc n) a mutate =
     bindE (map_errE (\<lambda>_. UsersOther) (on_world (read_with_etag (externals a) (app_s3 a)))) (\<lambda>(current, current_etag).
     bindE (now_at a) (\<lambda>t.
     bindE (lift (mutate t current)) (\<lambda>next.
     if next = current then ret next
     else (case print_users (externals a) next of
         None \<Rightarrow> throw UsersOther
       | Some body \<Rightarrow> store_users a next body current_etag (cas_tries n a mutate)))))"

definition cas_update :: "'s app \<Rightarrow> (datetime \<Rightarrow> user_entry list \<Rightarrow> users_error + user_entry list)
    \<Rightarrow> ('s pod, users_error, user_entry list) cmd" where
  "cas_update a mutate = cas_tries MAX_CAS_RETRIES a mutate"

section \<open>The operations under the store's contract\<close>

text \<open>The users a bucket holds; \<^term>\<open>None\<close> when the file does not parse.\<close>

definition users_in :: "'z pod_ext_scheme \<Rightarrow> bucket_view \<Rightarrow> user_entry list option" where
  "users_in x v = (case v USERS_KEY of None \<Rightarrow> Some []
     | Some obj \<Rightarrow> if utf8_valid (ob_bytes obj) then toml_users x (ob_bytes obj) else None)"

definition users_tag :: "bucket_view \<Rightarrow> string option" where
  "users_tag v = map_option ob_etag (v USERS_KEY)"

lemma read_users_view:
  assumes "store_ok c S" "read_with_etag x c s = (r, s')"
  shows "st_env S (st_view S s) (st_view S s') \<and> named S (st_view S s') \<and>
    (\<forall>current etag. r = Inr (current, etag) \<longrightarrow>
       users_in x (st_view S s') = Some current \<and> etag = users_tag (st_view S s'))"
proof -
  obtain q t where g: "get_bytes c USERS_KEY s = (q, t)" by fastforce
  note k = get_bytes_view [OF assms(1) g]
  have t: "s' = t" using assms(2) g by (auto simp: read_with_etag_def cmd_defs split: sum.splits s3_error.splits option.splits if_splits)
  show ?thesis
    using assms(2) g k unfolding t
    by (auto simp: read_with_etag_def cmd_defs users_in_def users_tag_def split: sum.splits s3_error.splits option.splits if_splits)
qed

lemma same_users: "named S v \<Longrightarrow> named S w \<Longrightarrow> users_tag v = users_tag w \<Longrightarrow> users_in x v = users_in x w"
  by (cases "v USERS_KEY"; cases "w USERS_KEY") (auto simp: users_in_def users_tag_def named_def)

lemma write_users_view:
  assumes "store_ok c S" "conditional_writes c" "write_users c body tag s = (r, s')"
  shows "\<exists>v. st_env S (st_view S s) v \<and> named S v \<and> named S (st_view S s') \<and>
    (case r of
       Inr e \<Rightarrow> users_tag v = tag \<and> (\<exists>obj. ob_bytes obj = body \<and> e = ob_etag obj \<and> st_view S s' = v(USERS_KEY \<mapsto> obj))
     | Inl PreconditionFailed \<Rightarrow> st_view S s' = v \<and> users_tag v \<noteq> tag
     | Inl _ \<Rightarrow> True)"
proof (cases tag)
  case None
  then have "put_bytes c USERS_KEY body (Some ''application/toml'') None (Some ''*'') s = (r, s')"
    using assms(2,3) by (simp add: write_users_def)
  from put_bytes_view [OF assms(1) this] show ?thesis unfolding None
    by (elim exE) (rule exI, auto simp: users_tag_def precondition_broken_def split: sum.splits s3_error.splits)
next
  case (Some etag)
  then have "put_bytes c USERS_KEY body (Some ''application/toml'') (Some (quoted etag)) None s = (r, s')"
    using assms(2,3) by (simp add: write_users_def quoted_def)
  from put_bytes_view [OF assms(1) this] show ?thesis unfolding Some
    by (elim exE) (rule exI, auto simp: users_tag_def quoted_def precondition_broken_def split: sum.splits s3_error.splits)
qed

end
