(* ===== verification/Auth.thy ===== *)
theory Auth imports Users "HOL-Library.Word" begin

unbundle bit_operations_syntax

text \<open>
  \<^verbatim>\<open>src/backend/src/auth.rs\<close>: the password check, the session cookie and the guard of the role-gated
  handlers. A role set is a byte whose bits stand for the roles.
\<close>

definition SESSION_COOKIE :: string where "SESSION_COOKIE = ''rawdb_session''"
definition BOOTSTRAP_SUB :: string where "BOOTSTRAP_SUB = ''bootstrap:admin''"
definition PASSWORD_SOURCE :: string where "PASSWORD_SOURCE = ''password''"
definition OIDC_SOURCE :: string where "OIDC_SOURCE = ''oidc''"
definition ROLE_ADMIN :: string where "ROLE_ADMIN = ''admin''"
definition ROLE_REVIEWER :: string where "ROLE_REVIEWER = ''reviewer''"
definition ROLE_APPROVER :: string where "ROLE_APPROVER = ''approver''"
definition ROLE_EDITOR :: string where "ROLE_EDITOR = ''editor''"
definition ROLE_DELETER :: string where "ROLE_DELETER = ''deleter''"

definition has_role :: "string \<Rightarrow> session \<Rightarrow> bool" where
  "has_role role s = list_ex (\<lambda>r. r = role) (se_roles s)"

section \<open>Password\<close>

text \<open>The comparison whose time does not depend on where the texts differ.\<close>

definition bytes_differ :: "string \<Rightarrow> string \<Rightarrow> 8 word" where
  "bytes_differ x y = foldl (\<lambda>diff (c, d). diff OR (word_of_nat (byte c) XOR word_of_nat (byte d))) 0 (zip x y)"

definition verify_admin_password :: "'s app \<Rightarrow> string \<Rightarrow> bool" where
  "verify_admin_password a submitted = (case admin_password_hash (app_config a) of
       Some h \<Rightarrow> (case argon2_verify a h submitted of Some ok \<Rightarrow> ok | None \<Rightarrow> False)
     | None \<Rightarrow> (case admin_password (app_config a) of
         Some plain \<Rightarrow> if length plain \<noteq> length submitted then False else bytes_differ plain submitted = 0
       | None \<Rightarrow> False))"

section \<open>Sessions\<close>

definition saturating_i64 :: "int \<Rightarrow> int" where
  "saturating_i64 i = max (- (2 ^ 63)) (min (2 ^ 63 - 1) i)"

definition encode_session :: "'s app \<Rightarrow> string \<Rightarrow> string \<Rightarrow> string list \<Rightarrow> ('s, string) handler" where
  "encode_session a sub source roles =
     bindE (now_at a) (\<lambda>t.
     (let expires = saturating_i64 (timestamp a t + as_i64 (session_ttl_secs (app_config a)))
      in case jwt_encode a (session_key (app_config a))
                \<lparr>se_sub = sub, se_source = source, se_roles = roles, se_exp = expires\<rparr> of
           None \<Rightarrow> throw Internal | Some token \<Rightarrow> ret token))"

definition decode_session :: "'s app \<Rightarrow> datetime \<Rightarrow> string \<Rightarrow> session option" where
  "decode_session a t token = jwt_decode a (session_key (app_config a)) t token"

definition set_cookie_header :: "config \<Rightarrow> string \<Rightarrow> string" where
  "set_cookie_header cfg token =
     (let secure_flag = (if \<not> bind_loopback cfg then ''; Secure'' else [])
      in SESSION_COOKIE @ ''='' @ token @ ''; Path=/; HttpOnly; SameSite=Lax'' @ secure_flag @ ''; Max-Age=''
         @ dec (session_ttl_secs cfg))"

definition clear_cookie_header :: string where
  "clear_cookie_header = ''rawdb_session=; Path=/; HttpOnly; SameSite=Lax; Max-Age=0''"

fun find_cookie :: "string \<Rightarrow> string list \<Rightarrow> string option" where
  "find_cookie name [] = None"
| "find_cookie name (kv # kvs) = (case strip_prefix (name @ ''='') (trim kv) of
     Some v \<Rightarrow> Some v | None \<Rightarrow> find_cookie name kvs)"

definition extract_cookie :: "headers \<Rightarrow> string \<Rightarrow> string option" where
  "extract_cookie hs name = (case header_text ''cookie'' hs of
       None \<Rightarrow> None | Some header \<Rightarrow> find_cookie name (split_on (CHR '';'') header))"

definition optional_session :: "'s app \<Rightarrow> headers \<Rightarrow> ('s pod, 'e, session option) cmd" where
  "optional_session a hs = bindE (now_at a) (\<lambda>t.
     ret (Option.bind (extract_cookie hs SESSION_COOKIE) (decode_session a t)))"

definition session_extractor :: "'s app \<Rightarrow> headers \<Rightarrow> ('s, session) handler" where
  "session_extractor a hs = bindE (now_at a) (\<lambda>t. case extract_cookie hs SESSION_COOKIE of
       None \<Rightarrow> throw Unauthorized
     | Some token \<Rightarrow> (case decode_session a t token of None \<Rightarrow> throw Unauthorized | Some sess \<Rightarrow> ret sess))"

section \<open>Roles\<close>

definition REVIEWER_BIT :: "8 word" where "REVIEWER_BIT = 1"
definition ADMIN_BIT :: "8 word" where "ADMIN_BIT = 2"
definition APPROVER_BIT :: "8 word" where "APPROVER_BIT = 4"
definition EDITOR_BIT :: "8 word" where "EDITOR_BIT = 8"
definition DELETER_BIT :: "8 word" where "DELETER_BIT = 16"
definition ADMIN_ONLY :: "8 word" where "ADMIN_ONLY = ADMIN_BIT"
definition REVIEWER_OR_ADMIN :: "8 word" where "REVIEWER_OR_ADMIN = (ADMIN_BIT OR REVIEWER_BIT)"
definition APPROVER_OR_ADMIN :: "8 word" where "APPROVER_OR_ADMIN = (ADMIN_BIT OR APPROVER_BIT)"
definition EDITOR_OR_ADMIN :: "8 word" where "EDITOR_OR_ADMIN = (ADMIN_BIT OR EDITOR_BIT)"
definition DELETER_OR_ADMIN :: "8 word" where "DELETER_OR_ADMIN = (ADMIN_BIT OR DELETER_BIT)"
definition PENDING_VIEWERS :: "8 word" where "PENDING_VIEWERS = ((ADMIN_BIT OR REVIEWER_BIT) OR APPROVER_BIT)"

definition ROLE_BIT_TABLE :: "(8 word \<times> string) list" where
  "ROLE_BIT_TABLE = [(ADMIN_BIT, ROLE_ADMIN), (REVIEWER_BIT, ROLE_REVIEWER), (APPROVER_BIT, ROLE_APPROVER),
     (EDITOR_BIT, ROLE_EDITOR), (DELETER_BIT, ROLE_DELETER)]"

definition is_role_allowed :: "8 word \<Rightarrow> session \<Rightarrow> bool" where
  "is_role_allowed role_bits s = list_ex (\<lambda>(bit, role). (role_bits AND bit) \<noteq> 0 \<and> has_role role s) ROLE_BIT_TABLE"

definition auth_guard :: "'s app \<Rightarrow> 8 word \<Rightarrow> headers \<Rightarrow> ('s, session) handler" where
  "auth_guard a role_bits hs =
     bindE (session_extractor a hs) (\<lambda>sess0.
     bindE (if se_sub sess0 \<noteq> BOOTSTRAP_SUB
            then bindE (read_db (get_user (externals a) (se_sub sess0))) (\<lambda>u. case u of
                None \<Rightarrow> throw Forbidden
              | Some u \<Rightarrow> if ur_blocked u then throw Forbidden else ret (sess0 \<lparr>se_roles := ur_roles u\<rparr>))
            else ret sess0) (\<lambda>sess.
     if \<not> is_role_allowed role_bits sess then throw Forbidden else ret sess))"

lemma bytes_differ_zero:
  "length x = length y \<Longrightarrow> bytes_differ x y = 0 \<longleftrightarrow> x = y"
proof -
  have step: "foldl (\<lambda>diff (c, d). diff OR (word_of_nat (byte c) XOR word_of_nat (byte d))) acc (zip x y) = (0 :: 8 word)
      \<longleftrightarrow> acc = 0 \<and> x = y" if "length x = length y" for acc
    using that
  proof (induction x y arbitrary: acc rule: list_induct2)
    case (Cons c x d y)
    have "(word_of_nat (byte c) :: 8 word) XOR word_of_nat (byte d) = 0 \<longleftrightarrow> c = d"
    proof -
      have b: "byte c < 2 ^ 8" "byte d < 2 ^ 8" by (simp_all add: byte_def)
      have "(word_of_nat (byte c) :: 8 word) XOR word_of_nat (byte d) = 0 \<longleftrightarrow> (word_of_nat (byte c) :: 8 word) = word_of_nat (byte d)"
        by (metis xor.left_neutral xor.assoc xor_self_eq)
      also have "\<dots> \<longleftrightarrow> byte c = byte d" using b by (simp add: word_of_nat_eq_iff take_bit_nat_eq_self)
      also have "\<dots> \<longleftrightarrow> c = d" by (simp add: byte_def)
      finally show ?thesis .
    qed
    moreover have "(p OR q) = (0 :: 8 word) \<longleftrightarrow> p = 0 \<and> q = 0" for p q by (simp add: or_eq_0_iff)
    ultimately show ?case by (simp add: Cons.IH)
  qed simp
  assume "length x = length y"
  then show ?thesis unfolding bytes_differ_def using step [of 0] by simp
qed

lemma has_role_mem: "has_role role s \<longleftrightarrow> role \<in> set (se_roles s)"
  by (auto simp: has_role_def list_ex_iff)

end
