(* ===== verification/Store_Delete.thy ===== *)
theory Store_Delete imports Store begin

text \<open>The batched deletion of a prefix under the store's contract.\<close>

lemma chunks_eq:
  assumes "0 < n" shows "concat (chunks n xs) = xs \<and> list_all (\<lambda>c. c \<noteq> [] \<and> length c \<le> n) (chunks n xs)"
  using assms
proof (induction n xs rule: chunks.induct)
  case (1 n xs)
  then show ?case by (subst (1 2) chunks.simps) auto
qed

lemma delete_batch_view:
  assumes "store_ok c S" "quiet S" "delete_objects c keys s = (r, s')"
  shows "\<exists>K \<subseteq> set keys. st_view S s' = (\<lambda>k. if k \<in> K then None else st_view S s k) \<and> (\<forall>u. r = Inr u \<longrightarrow> set keys - K \<subseteq> Collect (refusable c))"
proof -
  have "delete_ok c S" using assms(1) by (simp add: store_ok_def)
  then obtain v ks where "st_env S (st_view S s) v" "set ks \<subseteq> set keys" "\<forall>refused. r = Inr refused \<longrightarrow> set keys - set refused \<subseteq> set ks"
      "st_view S s' = (\<lambda>k. if k \<in> set ks then None else v k)"
    using assms(3) unfolding delete_ok_def by blast
  moreover have "set refused \<subseteq> Collect (refusable c)" if "r = Inr refused" for refused
    using assms(3) that unfolding refusable_def by blast
  ultimately show ?thesis using assms(2) by (intro exI [of _ "set ks"]) (fastforce simp: quiet_def)
qed

lemma delete_batches:
  assumes ok: "store_ok c S" "quiet S"
  shows "foldE (\<lambda>chunk deleted. bindE (map_errE (\<lambda>_. ()) (delete_objects c (map oi_key chunk))) (\<lambda>_. ret (deleted + length chunk))) chs n s = (r, s') \<Longrightarrow>
    \<exists>K \<subseteq> oi_key ` set (concat chs). st_view S s' = (\<lambda>k. if k \<in> K then None else st_view S s k)
      \<and> (\<forall>m. r = Inr m \<longrightarrow> m = n + length (concat chs) \<and> oi_key ` set (concat chs) - K \<subseteq> Collect (refusable c))"
proof (induction chs arbitrary: n s)
  case Nil
  then show ?case by (intro exI [of _ "{}"]) (auto simp: ret_def)
next
  case (Cons ch chs)
  obtain q t where d: "delete_objects c (map oi_key ch) s = (q, t)" by fastforce
  obtain K where K: "K \<subseteq> set (map oi_key ch)" "st_view S t = (\<lambda>k. if k \<in> K then None else st_view S s k)"
      "\<forall>u. q = Inr u \<longrightarrow> set (map oi_key ch) - K \<subseteq> Collect (refusable c)" using delete_batch_view [OF ok d] by blast
  show ?case
  proof (cases q)
    case (Inl e)
    with Cons.prems d K show ?thesis by (intro exI [of _ K]) (auto simp: cmd_defs)
  next
    case (Inr u)
    with Cons.prems d have "foldE (\<lambda>chunk deleted. bindE (map_errE (\<lambda>_. ()) (delete_objects c (map oi_key chunk)))
        (\<lambda>_. ret (deleted + length chunk))) chs (n + length ch) t = (r, s')" by (simp add: cmd_defs)
    from Cons.IH [OF this] obtain L where sub: "L \<subseteq> oi_key ` set (concat chs)"
      "st_view S s' = (\<lambda>k. if k \<in> L then None else st_view S t k)"
      and L: "\<forall>m. r = Inr m \<longrightarrow> m = n + length ch + length (concat chs) \<and> oi_key ` set (concat chs) - L \<subseteq> Collect (refusable c)" by blast
    have all: "oi_key ` set (concat (ch # chs)) = set (map oi_key ch) \<union> oi_key ` set (concat chs)" by (simp add: image_Un)
    have "\<forall>m. r = Inr m \<longrightarrow> m = n + length (concat (ch # chs)) \<and> oi_key ` set (concat (ch # chs)) - (K \<union> L) \<subseteq> Collect (refusable c)"
      unfolding all using K(3) Inr L by (auto simp: algebra_simps simp del: set_map set_concat)
    then show ?thesis unfolding all using K(1,2) sub by (intro exI [of _ "K \<union> L"]) (auto simp: fun_eq_iff simp del: set_map set_concat)
  qed
qed

lemma delete_prefix_view:
  assumes "store_ok c S" "quiet S" "delete_prefix c prefix s = (r, s')"
  shows "(\<forall>k. \<not> starts_with prefix k \<longrightarrow> st_view S s' k = st_view S s k)
     \<and> (case r of Inl _ \<Rightarrow> True | Inr n \<Rightarrow>
          (\<forall>k. starts_with prefix k \<longrightarrow> st_view S s' k = None \<or> refusable c k \<and> st_view S s' k = st_view S s k) \<and>
          (\<exists>objs t. list_objects c prefix s = (Inr objs, t) \<and> n = length objs
             \<and> list_all (\<lambda>b. b \<noteq> [] \<and> length b \<le> 1000) (chunks 1000 objs)))"
proof -
  obtain q t where l: "list_objects c prefix s = (q, t)" by fastforce
  note lv = list_objects_view [OF assms(1) l]
  have v: "st_view S t = st_view S s" using lv assms(2) by (simp add: quiet_def)
  show ?thesis
  proof (cases q)
    case (Inl e)
    with assms(3) l v show ?thesis by (auto simp: delete_prefix_def bindE_def)
  next
    case (Inr objs)
    have "foldE (\<lambda>chunk deleted. bindE (map_errE (\<lambda>_. ()) (delete_objects c (map oi_key chunk)))
        (\<lambda>_. ret (deleted + length chunk))) (chunks 1000 objs) 0 t = (r, s')"
      using assms(3) l Inr by (simp add: delete_prefix_def bindE_def)
    from delete_batches [OF assms(1,2) this] chunks_eq [of 1000 objs]
    obtain K where K: "K \<subseteq> oi_key ` set objs" "st_view S s' = (\<lambda>k. if k \<in> K then None else st_view S t k)"
      "\<forall>m. r = Inr m \<longrightarrow> m = length objs \<and> oi_key ` set objs - K \<subseteq> Collect (refusable c)" by auto
    have in_objs: "k \<in> oi_key ` set objs \<longleftrightarrow> starts_with prefix k \<and> st_view S s k \<noteq> None" for k
    proof -
      have "\<forall>n. (\<exists>oi\<in>set objs. oi_key oi = k \<and> oi_size oi = n) \<longleftrightarrow>
          starts_with prefix k \<and> (\<exists>obj. st_view S s k = Some obj \<and> n = length (ob_bytes obj))"
        using lv Inr v by simp
      then show ?thesis by (auto simp: image_iff)
    qed
    have "\<forall>k. starts_with prefix k \<longrightarrow> st_view S s' k = None \<or> refusable c k \<and> st_view S s' k = st_view S s k" if "r = Inr m" for m
    proof (intro allI impI)
      fix k assume k: "starts_with prefix k"
      show "st_view S s' k = None \<or> refusable c k \<and> st_view S s' k = st_view S s k"
      proof (cases "k \<in> K \<or> st_view S s k = None")
        case False
        then have "refusable c k" using in_objs [of k] k K(3) that by blast
        then show ?thesis using False K(2) v by simp
      qed (auto simp: K(2) v)
    qed
    moreover have "st_view S s' k = st_view S s k" if "\<not> starts_with prefix k" for k
    proof -
      have "k \<notin> K" using K(1) in_objs [of k] that by blast
      then show ?thesis by (simp add: K(2) v)
    qed
    ultimately show ?thesis using K(3) l Inr chunks_eq [of 1000 objs]
      by (cases r) auto
  qed
qed

end
