(* ===== verification/Frame.thy ===== *)
theory Frame imports Auth Scanner_Props Store_Delete begin

text \<open>
  Proof support for the handlers: what a command leaves alone (\<open>frame\<close>), how a successful run
  splits into its steps, and what the steps do to an undisturbed bucket.
\<close>

named_theorems frame_rules "rules of the frame predicate"

section \<open>Frames\<close>

definition frame :: "('p \<Rightarrow> 'x) \<Rightarrow> ('p, 'e, 'a) cmd \<Rightarrow> bool" where
  "frame f m \<longleftrightarrow> (\<forall>p. f (snd (m p)) = f p)"

lemma frameD: "frame f m \<Longrightarrow> m p = (r, p') \<Longrightarrow> f p' = f p"
  unfolding frame_def by (metis snd_conv)

lemma frame_pure [frame_rules]:
  "frame f (ret a)" "frame f (throw e)" "frame f (lift r)" "frame f (gets g)" "frame f (guardE b e)"
  by (simp_all add: frame_def cmd_defs)

lemma frame_read_db [frame_rules]: "frame f (read_db h)"
  by (simp add: frame_def cmd_defs)

lemma frame_bind [frame_rules]: "frame f m \<Longrightarrow> (\<And>a. frame f (g a)) \<Longrightarrow> frame f (bindE m g)"
  unfolding frame_def bindE_def by (auto split: prod.splits sum.splits) (metis snd_conv)+

lemma frame_match [frame_rules]: "frame f m \<Longrightarrow> (\<And>r. frame f (g r)) \<Longrightarrow> frame f (matchE m g)"
  unfolding frame_def matchE_def by (auto split: prod.splits) (metis snd_conv)

lemma frame_map_err [frame_rules]: "frame f m \<Longrightarrow> frame f (map_errE h m)"
  by (auto simp: frame_def map_errE_def split: prod.splits) (metis snd_conv)

lemma frame_if [frame_rules]: "frame f m \<Longrightarrow> frame f n \<Longrightarrow> frame f (if b then m else n)"
  by simp

lemma frame_option [frame_rules]: "frame f m \<Longrightarrow> (\<And>x. frame f (g x)) \<Longrightarrow> frame f (case v of None \<Rightarrow> m | Some x \<Rightarrow> g x)"
  by (cases v) simp_all

lemma frame_sum [frame_rules]: "(\<And>x. frame f (h x)) \<Longrightarrow> (\<And>x. frame f (g x)) \<Longrightarrow> frame f (case v of Inl x \<Rightarrow> h x | Inr x \<Rightarrow> g x)"
  by (cases v) simp_all

lemma frame_pair [frame_rules]: "(\<And>x y. frame f (g x y)) \<Longrightarrow> frame f (case v of (x, y) \<Rightarrow> g x y)"
  by (cases v) simp_all

lemma frame_outcome [frame_rules]:
  "frame f m \<Longrightarrow> frame f n \<Longrightarrow> frame f k \<Longrightarrow> frame f l \<Longrightarrow>
   frame f (case r of Updated \<Rightarrow> m | Unchanged \<Rightarrow> n | MetaMissing \<Rightarrow> k | Incomplete \<Rightarrow> l)"
  by (cases r) simp_all

lemma frame_for [frame_rules]: "(\<And>x. frame f (g x)) \<Longrightarrow> frame f (forE xs g)"
  by (induction xs) (auto intro!: frame_rules)

lemma frame_fold [frame_rules]: "(\<And>x a. frame f (g x a)) \<Longrightarrow> frame f (foldE g xs a)"
  by (induction xs arbitrary: a) (auto intro!: frame_rules)

lemma frame_ignoring [frame_rules]: "frame f m \<Longrightarrow> frame f (ignoring m)"
  unfolding ignoring_def by (intro frame_rules)

lemma frame_now [frame_rules]: "frame f (now_at a)"
  unfolding now_at_def by (intro frame_rules)

text \<open>The bucket as a projection of a pod's state, and the reads.\<close>

definition bucket_of :: "'s contract \<Rightarrow> 's pod \<Rightarrow> bucket_view" where
  "bucket_of S p = st_view S (world p)"

definition reading :: "'s contract \<Rightarrow> ('s, 'e, 'a) cmd \<Rightarrow> bool" where
  "reading S m \<longleftrightarrow> (\<forall>s. st_view S (snd (m s)) = st_view S s)"

lemma frame_world [frame_rules]: "reading S m \<Longrightarrow> frame (bucket_of S) (on_world m)"
  by (auto simp: frame_def on_world_def bucket_of_def reading_def split: prod.splits) (metis snd_conv)

lemma frame_cache_world [frame_rules]: "frame cache (on_world m)"
  by (auto simp: frame_def on_world_def split: prod.splits)

lemma frame_bucket_cache [frame_rules]: "frame (bucket_of S) (on_cache m)"
  by (auto simp: frame_def on_cache_def bucket_of_def split: prod.splits)

lemma frame_lifted [frame_rules]:
  "frame f (on_world m) \<Longrightarrow> frame f (s3E m)" "frame f (on_world m) \<Longrightarrow> frame f (s3_map h m)" "frame f (on_world m) \<Longrightarrow> frame f (s3_call m)"
  "frame f (on_cache n) \<Longrightarrow> frame f (db_call n)" "frame f (on_cache n) \<Longrightarrow> frame f (dbE n)"
  by (simp_all add: s3E_def s3_map_def s3_call_def db_call_def dbE_def frame_map_err)

lemma frame_guard [frame_rules]: "frame f (auth_guard a bits hs)"
  unfolding auth_guard_def session_extractor_def by (intro frame_rules)

text \<open>The reads of the wrapper, and what is made of reads.\<close>

lemma reading_head [frame_rules]:
  assumes "store_ok c S" "quiet S" shows "reading S (head c key)"
  unfolding reading_def
proof
  fix s
  show "st_view S (snd (head c key s)) = st_view S s"
    using head_view [OF assms(1), of key s] assms(2) by (cases "head c key s") (auto simp: quiet_def)
qed

lemma reading_get [frame_rules]:
  assumes "store_ok c S" "quiet S" shows "reading S (get_bytes c key)"
  unfolding reading_def
proof
  fix s
  show "st_view S (snd (get_bytes c key s)) = st_view S s"
    using get_bytes_view [OF assms(1), of key s] assms(2) by (cases "get_bytes c key s") (auto simp: quiet_def)
qed

lemma reading_list [frame_rules]:
  assumes "store_ok c S" "quiet S" shows "reading S (list_objects c prefix)"
  unfolding reading_def
proof
  fix s
  show "st_view S (snd (list_objects c prefix s)) = st_view S s"
    using list_objects_view [OF assms(1), of prefix s] assms(2) by (cases "list_objects c prefix s") (auto simp: quiet_def)
qed

lemma refresh_frame [frame_rules]:
  assumes "store_ok c S" "quiet S"
  shows "frame (bucket_of S) (refresh_one_set x c mk md)" "frame (bucket_of S) (refresh_one_pending x c u)"
  unfolding refresh_one_set_def refresh_one_pending_def scan_one_set_def scan_one_pending_def Let_def
  by (intro frame_rules assms)+

section \<open>Successful runs\<close>

lemma guardE_Inr: "guardE b e p = (Inr u, p') \<longleftrightarrow> b \<and> p' = p"
  by (auto simp: guardE_def cmd_defs)

lemma lift_Inr: "lift r p = (Inr u, p') \<longleftrightarrow> r = Inr u \<and> p' = p"
  by (auto simp: lift_def)

lemma ret_Inr: "ret a p = (Inr u, p') \<longleftrightarrow> u = a \<and> p' = p"
  by (auto simp: ret_def)

lemma throw_Inr: "throw e p = (Inr u, p') \<longleftrightarrow> False"
  by (simp add: throw_def)

lemma read_db_Inr: "read_db f p = (Inr u, p') \<longleftrightarrow> u = f (cache p) \<and> p' = p"
  by (auto simp: read_db_def gets_def)

lemma now_at_Inr: "now_at a p = (Inr t, p') \<longleftrightarrow> t = clock (app_s3 a) (world p) \<and> p' = p"
  by (auto simp: now_at_def gets_def)

lemma s3E_Inr: "s3E m p = (Inr u, p') \<longleftrightarrow> m (world p) = (Inr u, world p') \<and> p' = p \<lparr>world := world p'\<rparr>"
  by (cases "m (world p)"; cases "fst (m (world p))") (auto simp: s3E_def cmd_defs)

lemma s3_map_Inr: "s3_map h m p = (Inr u, p') \<longleftrightarrow> m (world p) = (Inr u, world p') \<and> p' = p \<lparr>world := world p'\<rparr>"
  by (cases "m (world p)"; cases "fst (m (world p))") (auto simp: s3_map_def cmd_defs)

lemmas run_Inr = bindE_Inr guardE_Inr lift_Inr ret_Inr throw_Inr read_db_Inr now_at_Inr s3E_Inr s3_map_Inr

end
