(* ===== verification/Scan_Index.thy ===== *)
theory Scan_Index imports Scan_Claims Frame begin

text \<open>
  What the passes of the scanner make of the cache. The approved sets and the pending uploads are two
  instances of one interface (\<open>indexed\<close>): keys with a home prefix in the bucket, whose entries a task writes and a
  sweep deletes. Its lemmas say that a pass keeps the cache truthful about metadata the bucket held
  (\<open>faithful_on\<close>) and, when no task failed, leaves every complete entry of the bucket indexed (\<open>settled_on\<close>).
\<close>

section \<open>What the cache may say\<close>

definition small :: "(file_meta \<times> size_info) list \<Rightarrow> bool" where
  "small fs \<longleftrightarrow> (\<forall>(f, si)\<in>set fs. si_size si < 2 ^ 63)"

definition bounded :: "bucket_view \<Rightarrow> bool" where
  "bounded v \<longleftrightarrow> (\<forall>k obj. v k = Some obj \<longrightarrow> length (ob_bytes obj) < 2 ^ 63)"

text \<open>
  \<open>shown k e m fs d\<close> stands for: the cache \<open>d\<close> reads back, under the key \<open>k\<close>, the etag \<open>e\<close>, the metadata \<open>m\<close> and the
  files \<open>fs\<close>. Faithful: every indexed entry shows the metadata that its etag names.
\<close>

definition faithful_on ::
  "'z pod_ext_scheme \<Rightarrow> 's contract \<Rightarrow> ('k \<Rightarrow> string) \<Rightarrow> ('k \<Rightarrow> string \<Rightarrow> rawdb_meta \<Rightarrow> (file_meta \<times> size_info) list \<Rightarrow> db \<Rightarrow> bool)
    \<Rightarrow> (db \<Rightarrow> 'k set) \<Rightarrow> db \<Rightarrow> bool" where
  "faithful_on x S home shown keys d \<longleftrightarrow> (\<forall>k\<in>keys d. \<exists>e t m fs.
     parse_meta x (st_body S (home k @ ''rawdb-meta.toml'') e) = Inr m \<and> map fst fs = rm_files m
     \<and> shown k e (with_upload_time t m) fs d)"

text \<open>Settled: a complete entry of the bucket is shown under the etag of its present metadata.\<close>

definition settled_on ::
  "'z pod_ext_scheme \<Rightarrow> bucket_view \<Rightarrow> ('k \<Rightarrow> string) \<Rightarrow> ('k \<Rightarrow> string \<Rightarrow> rawdb_meta \<Rightarrow> (file_meta \<times> size_info) list \<Rightarrow> db \<Rightarrow> bool)
    \<Rightarrow> 'k \<Rightarrow> db \<Rightarrow> bool" where
  "settled_on x v home shown k d \<longleftrightarrow> (\<forall>obj m. v (home k @ ''rawdb-meta.toml'') = Some obj
     \<longrightarrow> parse_meta x (ob_bytes obj) = Inr m \<longrightarrow> (\<forall>f\<in>set (rm_files m). v (home k @ fm_path f) \<noteq> None)
     \<longrightarrow> (\<exists>t fs. map fst fs = rm_files m \<and> shown k (ob_etag obj) (with_upload_time t m) fs d))"

definition owned_on :: "'z pod_ext_scheme \<Rightarrow> bucket_view \<Rightarrow> ('k \<Rightarrow> string) \<Rightarrow> ('k \<Rightarrow> rawdb_meta \<Rightarrow> bool) \<Rightarrow> 'k \<Rightarrow> bool" where
  "owned_on x v home owns k \<longleftrightarrow> (\<forall>obj m. v (home k @ ''rawdb-meta.toml'') = Some obj \<longrightarrow> parse_meta x (ob_bytes obj) = Inr m \<longrightarrow> owns k m)"

text \<open>No call of the scanner fails for want of the store.\<close>

definition answers :: "'s s3 \<Rightarrow> 's contract \<Rightarrow> bool" where
  "answers c S \<longleftrightarrow> (\<forall>key s. \<exists>h s'. head c key s = (Inr h, s'))
     \<and> (\<forall>key s. st_view S s key \<noteq> None \<longrightarrow> (\<exists>b s'. get_bytes c key s = (Inr b, s')))
     \<and> (\<forall>prefix s. \<exists>l s'. list_objects c prefix s = (Inr l, s'))
     \<and> (\<forall>prefix s. \<exists>l s'. list_common_prefixes c prefix s = (Inr l, s'))"

lemma meta_name: "META_FILE = ''rawdb-meta.toml''"
  by (simp add: META_FILE_def)

lemma path_not_meta: "parse_meta x b = Inr m \<Longrightarrow> f \<in> set (rm_files m) \<Longrightarrow> fm_path f \<noteq> META_FILE"
proof
  assume "parse_meta x b = Inr m" and f: "f \<in> set (rm_files m)" "fm_path f = META_FILE"
  then have "validate m = Inr ()" using parse_meta_Inr by blast
  then have "path_segs (split_on slash META_FILE)" using f by (auto simp: validate_Inr)
  moreover have "split_on slash META_FILE = [META_FILE]" by code_simp
  ultimately show False by (simp add: path_segs_def)
qed

lemma paths_distinct: "parse_meta x b = Inr m \<Longrightarrow> map fst fs = rm_files m \<Longrightarrow> distinct (paths fs)"
proof -
  assume "parse_meta x b = Inr m" and fs: "map fst fs = rm_files m"
  then have "distinct (map fm_path (rm_files m))" using parse_meta_Inr by (force simp: validate_Inr)
  moreover have "paths fs = map fm_path (map fst fs)" by (auto simp: paths_def)
  ultimately show ?thesis using fs by simp
qed

lemma scan_entry_frame:
  "store_ok c S \<Longrightarrow> quiet S \<Longrightarrow> frame (bucket_of S) (scan_entry x c pre prior put)"
  unfolding scan_entry_def Let_def by (intro frame_rules)

section \<open>The interface\<close>

locale indexed =
  fixes home :: "'k \<Rightarrow> string"
    and etag_of :: "'k \<Rightarrow> db \<Rightarrow> string option"
    and put :: "'k \<Rightarrow> datetime \<Rightarrow> rawdb_meta \<Rightarrow> string option \<Rightarrow> (file_meta \<times> size_info) list \<Rightarrow> (db, db_error, unit) cmd"
    and del :: "'k \<Rightarrow> (db, db_error, unit) cmd"
    and keys :: "db \<Rightarrow> 'k set"
    and shown :: "'k \<Rightarrow> string \<Rightarrow> rawdb_meta \<Rightarrow> (file_meta \<times> size_info) list \<Rightarrow> db \<Rightarrow> bool"
    and owns :: "'k \<Rightarrow> rawdb_meta \<Rightarrow> bool"
    and rest :: "db \<Rightarrow> 'r"
    and readable :: bool
  assumes put_fails: "put k now m et fs d = (Inl err, d') \<Longrightarrow> d' = d"
    and put_total: "db_inv d \<Longrightarrow> distinct (paths fs) \<Longrightarrow> \<exists>d'. put k now m et fs d = (Inr (), d')"
    and put_keeps: "db_inv d \<Longrightarrow> put k now m et fs d = (Inr (), d') \<Longrightarrow> db_inv d' \<and> rest d' = rest d"
    and put_shows: "db_inv d \<Longrightarrow> put k now m (Some e) fs d = (Inr (), d') \<Longrightarrow> owns k m \<Longrightarrow> small fs \<Longrightarrow> readable \<Longrightarrow>
       shown k e m fs d' \<and> keys d' = insert k (keys d)"
    and put_others: "db_inv d \<Longrightarrow> put k now m et fs d = (Inr (), d') \<Longrightarrow> owns k m \<Longrightarrow> k' \<noteq> k \<Longrightarrow>
       shown k' e' m' fs' d' = shown k' e' m' fs' d"
    and del_key: "db_inv d \<Longrightarrow> \<exists>d'. del k d = (Inr (), d') \<and> db_inv d' \<and> rest d' = rest d \<and> keys d' = keys d - {k}"
    and del_others: "db_inv d \<Longrightarrow> del k d = (Inr (), d') \<Longrightarrow> k' \<noteq> k \<Longrightarrow> shown k' e' m' fs' d' = shown k' e' m' fs' d"
    and shown_etag: "shown k e m fs d \<Longrightarrow> etag_of k d = Some e"
    and etag_key: "etag_of k d = Some e \<Longrightarrow> k \<in> keys d"
    and owns_time: "owns k (with_upload_time t m) = owns k m"

sublocale indexed \<subseteq> entry: entry_cache "etag_of k" "put k" "\<lambda>_. False" for k
  by unfold_locales (auto dest: put_fails)

context indexed begin

lemma others_kept:
  assumes "\<And>e' m' fs'. shown k' e' m' fs' d' = shown k' e' m' fs' d"
  shows "settled_on x v home shown k' d \<Longrightarrow> settled_on x v home shown k' d'"
  using assms unfolding settled_on_def by simp

lemma entry_step:
  assumes ok: "store_ok c S" "quiet S" readable and inv: "db_inv (cache p)" "faithful_on x S home shown keys (cache p)"
    and bnd: "bounded (st_view S (world p))" and own: "owned_on x (st_view S (world p)) home owns k"
    and run: "scan_entry x c (home k) (etag_of k) (put k) p = (r, p')"
  shows "st_view S (world p') = st_view S (world p)"
    and "db_inv (cache p') \<and> rest (cache p') = rest (cache p) \<and> faithful_on x S home shown keys (cache p')"
    and "keys (cache p) \<subseteq> keys (cache p') \<and> keys (cache p') \<subseteq> insert k (keys (cache p))"
    and "settled_on x (st_view S (world p)) home shown k' (cache p) \<Longrightarrow> settled_on x (st_view S (world p)) home shown k' (cache p')"
    and "r = Inr out \<Longrightarrow> settled_on x (st_view S (world p)) home shown k (cache p')"
proof -
  let ?v = "st_view S (world p)" and ?meta = "home k @ META_FILE"
  show view: "st_view S (world p') = ?v"
    using frameD [OF scan_entry_frame [OF ok(1,2)] run] by (simp add: bucket_of_def)
  have named: "named S ?v"
    using head_view [OF ok(1), of ?meta "world p"] ok(2) by (cases "head c ?meta (world p)") (auto simp: quiet_def)
  have all: "(db_inv (cache p') \<and> rest (cache p') = rest (cache p) \<and> faithful_on x S home shown keys (cache p'))
     \<and> (keys (cache p) \<subseteq> keys (cache p') \<and> keys (cache p') \<subseteq> insert k (keys (cache p)))
     \<and> (\<forall>k'. settled_on x ?v home shown k' (cache p) \<longrightarrow> settled_on x ?v home shown k' (cache p'))
     \<and> ((\<exists>out. r = Inr out) \<longrightarrow> settled_on x ?v home shown k (cache p'))"
  proof (cases "r = Inr Updated")
    case True
    obtain obj m where o': "?v ?meta = Some obj" "parse_meta x (ob_bytes obj) = Inr m"
      and w: "\<exists>now fs. put k now (with_upload_time (Some (ob_modified obj)) m) (Some (ob_etag obj)) fs (cache p) = (Inr (), cache p')
         \<and> map fst fs = rm_files m \<and> (\<forall>(f, si)\<in>set fs. \<exists>o'. ?v (home k @ fm_path f) = Some o' \<and> si_size si = length (ob_bytes o'))"
      using scan_entry_quiet [OF ok(1,2) run [unfolded True]] by (auto simp: entry_outcome_def split: option.splits sum.splits)
    let ?m = "with_upload_time (Some (ob_modified obj)) m" and ?e = "ob_etag obj"
    obtain now fs where w: "put k now ?m (Some ?e) fs (cache p) = (Inr (), cache p')" and fs: "map fst fs = rm_files m"
      and sz: "\<forall>(f, si)\<in>set fs. \<exists>o'. ?v (home k @ fm_path f) = Some o' \<and> si_size si = length (ob_bytes o')"
      using w by blast
    have "small fs" using sz bnd unfolding small_def bounded_def by fastforce
    moreover have ow: "owns k ?m" using own o' by (simp add: owned_on_def owns_time meta_name)
    ultimately have s: "shown k ?e ?m fs (cache p')" "keys (cache p') = insert k (keys (cache p))"
      using put_shows [OF inv(1) w] ok(3) by blast+
    have oth: "k' \<noteq> k \<Longrightarrow> shown k' e' m' fs' (cache p') = shown k' e' m' fs' (cache p)" for k' e' m' fs'
      by (rule put_others [OF inv(1) w ow])
    have body: "st_body S (home k @ ''rawdb-meta.toml'') ?e = ob_bytes obj"
      using named o'(1) by (simp add: named_def meta_name)
    have f: "faithful_on x S home shown keys (cache p')"
      unfolding faithful_on_def
    proof
      fix k' assume k': "k' \<in> keys (cache p')"
      show "\<exists>e t m fs. parse_meta x (st_body S (home k' @ ''rawdb-meta.toml'') e) = Inr m \<and> map fst fs = rm_files m
          \<and> shown k' e (with_upload_time t m) fs (cache p')"
      proof (cases "k' = k")
        case True
        show ?thesis unfolding True using s(1) fs o'(2) body by metis
      next
        case False
        then show ?thesis using k' s(2) inv(2) oth [OF False] by (simp add: faithful_on_def)
      qed
    qed
    have st: "settled_on x ?v home shown k (cache p')"
      unfolding settled_on_def using o' s(1) fs by (auto simp: meta_name)
    have "settled_on x ?v home shown k' (cache p) \<longrightarrow> settled_on x ?v home shown k' (cache p')" for k'
      using st others_kept [of k' "cache p'" "cache p"] oth by (cases "k' = k") auto
    then show ?thesis using put_keeps [OF inv(1) w] f s(2) st by blast
  next
    case False
    then have same: "cache p' = cache p" using entry.unless_updated [OF run] by simp
    have "settled_on x ?v home shown k (cache p)" if "r = Inr out" for out
    proof -
      note q = scan_entry_quiet [OF ok(1,2) run [unfolded that], THEN conjunct2]
      show ?thesis
        unfolding settled_on_def
      proof (intro allI impI)
        fix obj m assume o': "?v (home k @ ''rawdb-meta.toml'') = Some obj" "parse_meta x (ob_bytes obj) = Inr m"
          and full: "\<forall>f\<in>set (rm_files m). ?v (home k @ fm_path f) \<noteq> None"
        have "out \<noteq> Incomplete"
        proof
          assume "out = Incomplete"
          then obtain f where "f \<in> set (rm_files m)" "fm_path f = META_FILE \<or> ?v (home k @ fm_path f) = None"
            using q o' by (auto simp: entry_outcome_def meta_name)
          then show False using full path_not_meta [OF o'(2)] by blast
        qed
        then have "out = Unchanged" using q o' False that by (cases out) (auto simp: entry_outcome_def meta_name)
        then have e: "etag_of k (cache p) = Some (ob_etag obj)" using q o'(1) by (simp add: entry_outcome_def meta_name)
        obtain e' t m' fs where f: "parse_meta x (st_body S (home k @ ''rawdb-meta.toml'') e') = Inr m'" "map fst fs = rm_files m'"
            "shown k e' (with_upload_time t m') fs (cache p)"
          using inv(2) etag_key [OF e] unfolding faithful_on_def by blast
        have "e' = ob_etag obj" using shown_etag [OF f(3)] e by simp
        moreover have "st_body S (home k @ ''rawdb-meta.toml'') (ob_etag obj) = ob_bytes obj" using named o'(1) by (simp add: named_def)
        ultimately show "\<exists>t fs. map fst fs = rm_files m \<and> shown k (ob_etag obj) (with_upload_time t m) fs (cache p)"
          using f o'(2) by auto
      qed
    qed
    then show ?thesis using inv same by auto
  qed
  show "db_inv (cache p') \<and> rest (cache p') = rest (cache p) \<and> faithful_on x S home shown keys (cache p')"
    and "keys (cache p) \<subseteq> keys (cache p') \<and> keys (cache p') \<subseteq> insert k (keys (cache p))"
    and "settled_on x ?v home shown k' (cache p) \<Longrightarrow> settled_on x ?v home shown k' (cache p')"
    and "r = Inr out \<Longrightarrow> settled_on x ?v home shown k (cache p')"
    using all by blast+
qed

section \<open>Passes\<close>

text \<open>The tasks of a pass; \<open>g\<close> gives the key of a task's prefix.\<close>

lemma tasks_step:
  assumes ok: "store_ok c S" "quiet S" readable
  shows "run_tasks f ts res p = (res', p') \<Longrightarrow> db_inv (cache p) \<Longrightarrow> faithful_on x S home shown keys (cache p) \<Longrightarrow>
    st_view S (world p) = v \<Longrightarrow> bounded v \<Longrightarrow>
    \<forall>t\<in>set ts. \<exists>k. g t = Some k \<and> f t = scan_entry x c (home k) (etag_of k) (put k) \<and> owned_on x v home owns k \<Longrightarrow>
    st_view S (world p') = v \<and> db_inv (cache p') \<and> rest (cache p') = rest (cache p) \<and> faithful_on x S home shown keys (cache p')
    \<and> keys (cache p) \<subseteq> keys (cache p') \<and> keys (cache p') \<subseteq> keys (cache p) \<union> {k. \<exists>t\<in>set ts. g t = Some k}
    \<and> (\<forall>k. settled_on x v home shown k (cache p) \<longrightarrow> settled_on x v home shown k (cache p'))
    \<and> pr_transient res \<le> pr_transient res'
    \<and> (pr_transient res' = pr_transient res \<longrightarrow> (\<forall>t\<in>set ts. \<forall>k. g t = Some k \<longrightarrow> settled_on x v home shown k (cache p')))"
proof (induction ts arbitrary: res p)
  case Nil
  then show ?case by simp
next
  case (Cons t ts)
  obtain k where k: "g t = Some k" "f t = scan_entry x c (home k) (etag_of k) (put k)" "owned_on x v home owns k"
    using Cons.prems(6) by auto
  obtain r p1 where s: "scan_entry x c (home k) (etag_of k) (put k) p = (r, p1)" by fastforce
  have rest: "run_tasks f ts (tally res r) p1 = (res', p')" using Cons.prems(1) k(2) s by simp
  note st = entry_step [OF ok Cons.prems(2,3) _ _ s, unfolded Cons.prems(4), OF Cons.prems(5) k(3)]
  have one: "settled_on x v home shown k (cache p1)" if "pr_transient (tally res r) = pr_transient res"
    using st(5) that by (cases r) (auto simp: tally_def)
  have up: "pr_transient res \<le> pr_transient (tally res r)"
    by (auto simp: tally_def split: sum.splits set_outcome.splits)
  have ih: "st_view S (world p') = v \<and> db_inv (cache p') \<and> rest (cache p') = rest (cache p1) \<and> faithful_on x S home shown keys (cache p')
    \<and> keys (cache p1) \<subseteq> keys (cache p') \<and> keys (cache p') \<subseteq> keys (cache p1) \<union> {k. \<exists>t\<in>set ts. g t = Some k}
    \<and> (\<forall>k. settled_on x v home shown k (cache p1) \<longrightarrow> settled_on x v home shown k (cache p'))
    \<and> pr_transient (tally res r) \<le> pr_transient res'
    \<and> (pr_transient res' = pr_transient (tally res r) \<longrightarrow> (\<forall>t\<in>set ts. \<forall>k. g t = Some k \<longrightarrow> settled_on x v home shown k (cache p')))"
    by (rule Cons.IH [OF rest]) (use st(1,2) Cons.prems(4-6) in auto)
  have last: "\<forall>t'\<in>set (t # ts). \<forall>k'. g t' = Some k' \<longrightarrow> settled_on x v home shown k' (cache p')" if "pr_transient res' = pr_transient res"
  proof -
    have "pr_transient (tally res r) = pr_transient res" "pr_transient res' = pr_transient (tally res r)" using that up ih by simp_all
    then show ?thesis using one ih k(1) by auto
  qed
  have "keys (cache p') \<subseteq> keys (cache p) \<union> {k. \<exists>t'\<in>set (t # ts). g t' = Some k}" using ih st(3) k(1) by auto
  then show ?case using ih st(2,3,4) up last by auto
qed

lemma sweep_step:
  "sweep del ks res p = (res', p') \<Longrightarrow> db_inv (cache p) \<Longrightarrow> faithful_on x S home shown keys (cache p) \<Longrightarrow>
    world p' = world p \<and> db_inv (cache p') \<and> rest (cache p') = rest (cache p) \<and> faithful_on x S home shown keys (cache p')
    \<and> keys (cache p') = keys (cache p) - set ks
    \<and> (\<forall>k. k \<notin> set ks \<longrightarrow> settled_on x v home shown k (cache p) \<longrightarrow> settled_on x v home shown k (cache p'))
    \<and> pr_transient res' = pr_transient res"
proof (induction ks arbitrary: res p)
  case Nil
  then show ?case by simp
next
  case (Cons k ks)
  obtain d where d: "del k (cache p) = (Inr (), d)" "db_inv d" "rest d = rest (cache p)" "keys d = keys (cache p) - {k}"
    using del_key [OF Cons.prems(2)] by blast
  note oth = del_others [OF Cons.prems(2) d(1)]
  have "faithful_on x S home shown keys d"
    using Cons.prems(3) oth d(4) unfolding faithful_on_def by auto
  moreover have "k' \<noteq> k \<Longrightarrow> settled_on x v home shown k' (cache p) \<Longrightarrow> settled_on x v home shown k' d" for k'
    by (rule others_kept [OF oth])
  ultimately show ?case
    using Cons.IH [of "res \<lparr>pr_deleted := pr_deleted res + 1\<rparr>" "p \<lparr>cache := d\<rparr>"] Cons.prems(1) d by auto
qed

lemma pass_step:
  assumes ok: "store_ok c S" "quiet S" readable
    and inv: "db_inv (cache p)" "faithful_on x S home shown keys (cache p)"
    and v: "st_view S (world p) = v" "bounded v"
    and tasks: "\<forall>t\<in>set ts. \<exists>k. g t = Some k \<and> f t = scan_entry x c (home k) (etag_of k) (put k) \<and> owned_on x v home owns k"
    and live: "set live = {k. \<exists>t\<in>set ts. g t = Some k}" and prior: "set prior = keys (cache p)"
    and run: "run_tasks f ts res p = (res1, p1)" "sweep del (filter (\<lambda>k. k \<notin> set live) prior) res1 p1 = (res2, p2)"
  shows "st_view S (world p2) = v \<and> db_inv (cache p2) \<and> rest (cache p2) = rest (cache p) \<and> faithful_on x S home shown keys (cache p2)
    \<and> keys (cache p2) \<subseteq> set live \<and> pr_transient res \<le> pr_transient res2
    \<and> (pr_transient res2 = pr_transient res \<longrightarrow> (\<forall>k\<in>set live. settled_on x v home shown k (cache p2)))"
proof -
  note t = tasks_step [OF ok run(1) inv v tasks]
  have s: "world p2 = world p1 \<and> db_inv (cache p2) \<and> rest (cache p2) = rest (cache p1) \<and> faithful_on x S home shown keys (cache p2)
    \<and> keys (cache p2) = keys (cache p1) - set (filter (\<lambda>k. k \<notin> set live) prior)
    \<and> (\<forall>k. k \<notin> set (filter (\<lambda>k. k \<notin> set live) prior) \<longrightarrow> settled_on x v home shown k (cache p1) \<longrightarrow> settled_on x v home shown k (cache p2))
    \<and> pr_transient res2 = pr_transient res1"
    by (rule sweep_step [OF run(2)]) (use t in blast)+
  have "keys (cache p2) \<subseteq> set live" using s t live prior by auto
  moreover have "\<forall>k\<in>set live. settled_on x v home shown k (cache p2)" if "pr_transient res2 = pr_transient res"
  proof
    fix k assume k: "k \<in> set live"
    then have "settled_on x v home shown k (cache p1)" using t s that live by auto
    then show "settled_on x v home shown k (cache p2)" using s k by auto
  qed
  ultimately show ?thesis using s t by auto
qed

section \<open>Tasks of a store that answers\<close>

lemma entry_answers:
  assumes ok: "store_ok c S" "quiet S" "answers c S" and inv: "db_inv (cache p)"
  obtains out p' where "scan_entry x c pre (etag_of k) (put k) p = (Inr out, p')" "db_inv (cache p')"
    "rest (cache p') = rest (cache p)" "st_view S (world p') = st_view S (world p)"
proof -
  obtain r p' where run: "scan_entry x c pre (etag_of k) (put k) p = (r, p')" by fastforce
  have "\<exists>out. r = Inr out"
  proof -
    obtain h s1 where h: "head c (pre @ META_FILE) (world p) = (Inr h, s1)" using ok(3) unfolding answers_def by blast
    note hv = head_view [OF ok(1) h]
    show ?thesis
    proof (cases h)
      case None
      then show ?thesis using run h by (auto simp: scan_entry_def Let_def pod_steps ret_def)
    next
      case (Some hi)
      show ?thesis
      proof (cases "etag_of k (cache p) = hi_etag hi")
        case True
        then show ?thesis using run h Some by (auto simp: scan_entry_def Let_def pod_steps ret_def)
      next
        case False
        have "st_view S s1 (pre @ META_FILE) \<noteq> None" using hv Some by auto
        then obtain bt s2 where g2: "get_bytes c (pre @ META_FILE) s1 = (Inr bt, s2)"
          using ok(3) unfolding answers_def by blast
        obtain b t where g: "get_bytes c (pre @ META_FILE) s1 = (Inr (b, t), s2)" using g2 by (cases bt) simp
        obtain l s3 where l: "list_objects c pre s2 = (Inr l, s3)" using ok(3) unfolding answers_def by blast
        have w: "\<exists>d'. put k now (with_upload_time u m) e fs (cache p) = (Inr (), d')"
          if "parse_meta x b = Inr m" "pair_files (with_upload_time u m) pre l = Inr fs" for u m e fs now
        proof (rule put_total [OF inv])
          show "distinct (paths fs)" using pair_files_Inr(1) [OF that(2)] paths_distinct [OF that(1), of fs] by simp
        qed
        show ?thesis
        proof (cases "parse_meta x b")
          case (Inl e)
          then show ?thesis using run h Some False g by (auto simp: scan_entry_def Let_def pod_steps ret_def)
        next
          case (Inr m)
          show ?thesis
          proof (cases "pair_files (with_upload_time (hi_modified hi) m) pre l")
            case (Inl e)
            then show ?thesis using run h Some False g l Inr by (auto simp: scan_entry_def Let_def pod_steps ret_def)
          next
            case (Inr fs)
            then show ?thesis using run h Some False g l \<open>parse_meta x b = Inr m\<close> w [OF \<open>parse_meta x b = Inr m\<close> Inr, of "clock c s3" t]
              by (auto simp: scan_entry_def Let_def pod_steps ret_def)
          qed
        qed
      qed
    qed
  qed
  then obtain out where r: "r = Inr out" by blast
  have "db_inv (cache p') \<and> rest (cache p') = rest (cache p)"
    using entry.any_outcome [OF run] put_keeps [OF inv] inv by auto
  moreover have "st_view S (world p') = st_view S (world p)"
    using scan_entry_quiet [OF ok(1,2) run [unfolded r]] by blast
  ultimately show thesis using that run r by blast
qed

lemma tasks_answer:
  assumes ok: "store_ok c S" "quiet S" "answers c S"
  shows "run_tasks f ts res p = (res', p') \<Longrightarrow> db_inv (cache p) \<Longrightarrow>
    \<forall>t\<in>set ts. \<exists>pre k. f t = scan_entry x c pre (etag_of k) (put k) \<Longrightarrow>
    pr_transient res' = pr_transient res \<and> db_inv (cache p') \<and> rest (cache p') = rest (cache p) \<and> st_view S (world p') = st_view S (world p)"
proof (induction ts arbitrary: res p)
  case Nil
  then show ?case by simp
next
  case (Cons t ts)
  then obtain pre k where k: "f t = scan_entry x c pre (etag_of k) (put k)" by auto
  obtain out p1 where s: "scan_entry x c pre (etag_of k) (put k) p = (Inr out, p1)" "db_inv (cache p1)"
    "rest (cache p1) = rest (cache p)" "st_view S (world p1) = st_view S (world p)"
    using entry_answers [OF ok Cons.prems(2)] by blast
  have "pr_transient (tally res (Inr out)) = pr_transient res" by (cases out) (simp_all add: tally_def)
  then show ?case using Cons.IH [of "tally res (Inr out)" p1] Cons.prems k s by simp
qed

lemma sweep_answers:
  "sweep del ks res p = (res', p') \<Longrightarrow> db_inv (cache p) \<Longrightarrow>
    pr_transient res' = pr_transient res \<and> db_inv (cache p') \<and> rest (cache p') = rest (cache p) \<and> world p' = world p"
proof (induction ks arbitrary: res p)
  case (Cons k ks)
  obtain d where d: "del k (cache p) = (Inr (), d)" "db_inv d" "rest d = rest (cache p)" using del_key [OF Cons.prems(2)] by blast
  then show ?case using Cons.IH [of "res \<lparr>pr_deleted := pr_deleted res + 1\<rparr>" "p \<lparr>cache := d\<rparr>"] Cons.prems(1) by simp
qed simp

end

end
