(* ===== verification/Scan_Ready.thy ===== *)
theory Scan_Ready imports Scan_Index Data_Claims begin

text \<open>
  Whole rounds of the scanner against the bucket: what a pod's cache shows when it becomes ready, that a pod does
  become ready, and what a targeted refresh makes of a pending upload.
\<close>

section \<open>The approved sets\<close>

fun set_home :: "string \<times> string \<Rightarrow> string" where
  "set_home (mk, md) = ''samples/'' @ mk @ ''/'' @ md @ ''/''"

fun set_shown :: "'z pod_ext_scheme \<Rightarrow> string \<times> string \<Rightarrow> string \<Rightarrow> rawdb_meta \<Rightarrow> (file_meta \<times> size_info) list \<Rightarrow> db \<Rightarrow> bool" where
  "set_shown x (mk, md) e m fs d \<longleftrightarrow> get_set x mk md d = Some (set_row_of m) \<and> get_set_meta_etag mk md d = Some e
     \<and> mset (list_files mk md d) = mset (map file_row_of fs)
     \<and> (\<forall>(f, si)\<in>set fs. mset (file_tags mk md d (fm_path f)) = mset (fm_tags f))"

definition set_names :: "string \<times> string \<Rightarrow> rawdb_meta \<Rightarrow> bool" where
  "set_names k m \<longleftrightarrow> k = (sm_maker (rm_set m), sm_model (rm_set m))"

text \<open>What the writes of sets leave alone.\<close>

definition beside_sets :: "db \<Rightarrow> psets_row list \<times> pfiles_row list \<times> string option option" where
  "beside_sets d = (pending_sets d, pending_files d, users_etag d)"

lemma set_shown_view: "set_view x (fst k) (snd k) d' = set_view x (fst k) (snd k) d \<Longrightarrow> set_shown x k e m fs d' = set_shown x k e m fs d"
  by (cases k) (simp add: set_view_def)

interpretation set_index: indexed set_home "\<lambda>k. get_set_meta_etag (fst k) (snd k)" "\<lambda>_. upsert_set x"
    "\<lambda>k. delete_set (fst k) (snd k)" "\<lambda>d. set (list_set_keys d)" "set_shown x" set_names beside_sets "time_ok x" for x
proof
  show "upsert_set x now m et fs d = (Inl err, d') \<Longrightarrow> d' = d" for now m et fs d err d'
    by (simp add: upsert_set_eq split: if_splits)
  show "db_inv d \<Longrightarrow> distinct (paths fs) \<Longrightarrow> \<exists>d'. upsert_set x now m et fs d = (Inr (), d')" for now m et fs d
    by (simp add: upsert_set_eq)
  show "db_inv d' \<and> beside_sets d' = beside_sets d" if "db_inv d" "upsert_set x now m et fs d = (Inr (), d')" for now m et fs d d'
    using that upsert_set_inv [OF that(1), of x now m et fs]
    by (auto simp: upsert_set_eq beside_sets_def bump_def set_written_def Let_def split: if_splits)
  show "set_shown x k e m fs d' \<and> set (list_set_keys d') = insert k (set (list_set_keys d))"
    if "upsert_set x now m (Some e) fs d = (Inr (), d')" "set_names k m" "small fs" "time_ok x" for k e m fs d now d'
  proof
    have w: "distinct (paths fs)" "d' = bump Sets (set_written x now m (Some e) fs d)"
      using that(1) by (auto simp: upsert_set_eq split: if_splits)
    note r = upsert_set_reads [OF that(4) that(3) [unfolded small_def] w(1) refl refl w(2)]
    then show "set_shown x k e m fs d'" using that(2) by (simp add: set_names_def)
    have ks: "set (list_set_keys d) = set_key ` set (sets d)" for d
      by (force simp: list_set_keys_def set_key_def)
    show "set (list_set_keys d') = insert k (set (list_set_keys d))"
      using that(2) upsert_keys [of "set_table_row x now m (Some e)" "sets d"] unfolding ks w(2)
      by (simp add: set_written_def bump_def Let_def set_names_def set_key_def)
  qed
  show "set_shown x k' e' m' fs' d' = set_shown x k' e' m' fs' d"
    if "upsert_set x now m et fs d = (Inr (), d')" "set_names k m" "k' \<noteq> k" for k k' e' m et m' fs fs' now d d'
  proof (rule set_shown_view)
    have "d' = bump Sets (set_written x now m et fs d)" using that(1) by (auto simp: upsert_set_eq split: if_splits)
    then show "set_view x (fst k') (snd k') d' = set_view x (fst k') (snd k') d"
      using that(2,3) by (simp add: set_names_def set_view_written_other prod_eq_iff)
  qed
  show "\<exists>d'. delete_set (fst k) (snd k) d = (Inr (), d') \<and> db_inv d' \<and> beside_sets d' = beside_sets d
      \<and> set (list_set_keys d') = set (list_set_keys d) - {k}" if "db_inv d" for k d
  proof -
    obtain d' where d': "delete_set (fst k) (snd k) d = (Inr (), d')" "set (list_set_keys d') = set (list_set_keys d) - {k}"
      using set_table.del_key by blast
    have "db_inv d'" using delete_set_inv [OF that, of "fst k" "snd k"] d'(1) by simp
    moreover have "d' = bump Sets (set_deleted (fst k) (snd k) d)" using d'(1) by (simp add: delete_set_eq)
    then have "beside_sets d' = beside_sets d" by (simp add: beside_sets_def bump_def set_deleted_def)
    ultimately show ?thesis using d' by (intro exI [of _ d'] conjI)
  qed
  show "set_shown x k' e' m' fs' d' = set_shown x k' e' m' fs' d"
    if "delete_set (fst k) (snd k) d = (Inr (), d')" "k' \<noteq> k" for k k' e' m' fs' d d'
  proof (rule set_shown_view)
    have "d' = bump Sets (set_deleted (fst k) (snd k) d)" using that(1) by (simp add: delete_set_eq)
    then show "set_view x (fst k') (snd k') d' = set_view x (fst k') (snd k') d"
      using that(2) by (simp add: set_view_deleted_other prod_eq_iff)
  qed
  show "set_shown x k e m fs d \<Longrightarrow> get_set_meta_etag (fst k) (snd k) d = Some e" for k e m fs d
    by (cases k) simp
  show "get_set_meta_etag (fst k) (snd k) d = Some e \<Longrightarrow> k \<in> set (list_set_keys d)" for k e d
    by (cases k) (auto simp: get_set_meta_etag_def first_row_def list_set_keys_def find_Some_iff of_set_def Option.bind_eq_Some_conv image_iff Bex_def
      dest: nth_mem)
  show "set_names k (with_upload_time t m) = set_names k m" for k t m
    by (simp add: set_names_def)
qed

section \<open>The pending uploads\<close>

definition upload_home :: "string \<Rightarrow> string" where
  "upload_home u = ''pending/'' @ u @ ''/''"

definition upload_shown :: "'z pod_ext_scheme \<Rightarrow> string \<Rightarrow> string \<Rightarrow> rawdb_meta \<Rightarrow> (file_meta \<times> size_info) list \<Rightarrow> db \<Rightarrow> bool" where
  "upload_shown x u e m fs d \<longleftrightarrow> map_option (row_to_pending x) (first_row (pending_of u) (pending_sets d)) =
       Some \<lparr>psr_maker = sm_maker (rm_set m), psr_model = sm_model (rm_set m), psr_upload_id = u,
         psr_license = sm_license (rm_set m), psr_notes = sm_notes (rm_set m), psr_uploaded_at = sm_uploaded_at (rm_set m)\<rparr>
     \<and> get_pending_meta_etag u d = Some e \<and> mset (list_pending_files u d) = mset (map file_row_of fs)"

definition beside_uploads :: "db \<Rightarrow> sets_row list \<times> files_row list \<times> tags_row list \<times> string option option" where
  "beside_uploads d = (sets d, files d, tags d, users_etag d)"

lemma upload_shown_view: "pending_view u d' = pending_view u d \<Longrightarrow> upload_shown x u e m fs d' = upload_shown x u e m fs d"
  by (simp add: pending_view_def upload_shown_def)

lemma pending_fk_of: "db_inv d \<Longrightarrow> pending_fk d"
  by (simp add: db_inv_def pending_inv_fk)

interpretation upload_index: indexed upload_home get_pending_meta_etag "\<lambda>u now. upsert_pending x now u"
    delete_pending_by_upload_id "\<lambda>d. set (list_pending_upload_ids d)" "upload_shown x" "\<lambda>_ _. True" beside_uploads "time_ok x" for x
proof
  show "upsert_pending x now u m et fs d = (Inl err, d') \<Longrightarrow> d' = d" for now u m et fs d err d'
    unfolding upsert_pending_def by (rule commit_rollback)
  show "db_inv d \<Longrightarrow> distinct (paths fs) \<Longrightarrow> \<exists>d'. upsert_pending x now u m et fs d = (Inr (), d')" for now u m et fs d
    by (simp add: upsert_pending_eq [OF pending_fk_of])
  show "db_inv d' \<and> beside_uploads d' = beside_uploads d" if "db_inv d" "upsert_pending x now u m et fs d = (Inr (), d')" for now u m et fs d d'
    using that upsert_pending_inv [OF that(1), of x now u m et fs]
    by (auto simp: upsert_pending_eq [OF pending_fk_of] beside_uploads_def bump_def pending_written_def split: if_splits)
  show "upload_shown x u e m fs d' \<and> set (list_pending_upload_ids d') = insert u (set (list_pending_upload_ids d))"
    if "db_inv d" "upsert_pending x now u m (Some e) fs d = (Inr (), d')" "small fs" "time_ok x" for u e m fs d now d'
  proof
    note r = upsert_pending_exact [OF that(1) that(3) [unfolded small_def] that(2)]
    have w: "d' = bump Pending (pending_written x now u m (Some e) fs d)"
      using that(2) by (auto simp: upsert_pending_eq [OF pending_fk_of [OF that(1)]] split: if_splits)
    have "first_row (pending_of u) (pending_sets d') = Some (pset_table_row x now u m (Some e))"
      unfolding w using pending_view_written(1) [OF that(3) [unfolded small_def], of u x now m "Some e" d] by (simp add: bump_def)
    then show "upload_shown x u e m fs d'"
      using r by (simp add: upload_shown_def row_to_pending_def pset_table_row_def Let_def parse_ts_written [OF that(4)] split: if_splits)
    show "set (list_pending_upload_ids d') = insert u (set (list_pending_upload_ids d))"
      unfolding w by (auto simp: list_pending_upload_ids_def pending_written_def bump_def pending_of_def)
  qed
  show "upload_shown x u' e' m' fs' d' = upload_shown x u' e' m' fs' d"
    if "db_inv d" "upsert_pending x now u m et fs d = (Inr (), d')" "u' \<noteq> u" for u u' e' m et m' fs fs' now d d'
  proof (rule upload_shown_view)
    have "d' = bump Pending (pending_written x now u m et fs d)"
      using that(2) by (auto simp: upsert_pending_eq [OF pending_fk_of [OF that(1)]] split: if_splits)
    then show "pending_view u' d' = pending_view u' d" using that(3) by (simp add: pending_view_written_other)
  qed
  show "\<exists>d'. delete_pending_by_upload_id u d = (Inr (), d') \<and> db_inv d' \<and> beside_uploads d' = beside_uploads d
      \<and> set (list_pending_upload_ids d') = set (list_pending_upload_ids d) - {u}" if "db_inv d" for u d
  proof -
    obtain d' where d': "delete_pending_by_upload_id u d = (Inr (), d')"
        "set (list_pending_upload_ids d') = set (list_pending_upload_ids d) - {u}"
      using pending_table.del_key by blast
    have "db_inv d'" using delete_pending_inv [OF that, of u] d'(1) by simp
    moreover have "beside_uploads d' = beside_uploads d"
      using d'(1) unfolding delete_pending_eq [OF pending_fk_of [OF that]] by (auto simp: beside_uploads_def bump_def)
    ultimately show ?thesis using d' by (intro exI [of _ d'] conjI)
  qed
  show "upload_shown x u' e' m' fs' d' = upload_shown x u' e' m' fs' d"
    if "db_inv d" "delete_pending_by_upload_id u d = (Inr (), d')" "u' \<noteq> u" for u u' e' m' fs' d d'
  proof (rule upload_shown_view)
    show "pending_view u' d' = pending_view u' d"
      using that(2) pending_view_deleted [of u' u d] that(3) unfolding delete_pending_eq [OF pending_fk_of [OF that(1)]] by auto
  qed
  show "upload_shown x u e m fs d \<Longrightarrow> get_pending_meta_etag u d = Some e" for u e m fs d
    by (simp add: upload_shown_def)
  show "get_pending_meta_etag u d = Some e \<Longrightarrow> u \<in> set (list_pending_upload_ids d)" for u e d
    by (auto simp: get_pending_meta_etag_def first_row_def list_pending_upload_ids_def find_Some_iff pending_of_def Option.bind_eq_Some_conv image_iff
      dest: nth_mem)
qed simp

section \<open>The tables a row is read from\<close>

lemma set_shown_tables:
  assumes "sets d' = sets d" "files d' = files d" "tags d' = tags d"
  shows "set_shown x k e m fs d' = set_shown x k e m fs d" "list_set_keys d' = list_set_keys d"
  by (rule set_shown_view) (simp_all add: assms set_view_def get_set_def get_set_meta_etag_def list_files_def file_tags_def fun_eq_iff list_set_keys_def)

lemma upload_shown_tables:
  assumes "pending_sets d' = pending_sets d" "pending_files d' = pending_files d"
  shows "upload_shown x u e m fs d' = upload_shown x u e m fs d" "list_pending_upload_ids d' = list_pending_upload_ids d"
  by (simp_all add: assms upload_shown_def get_pending_meta_etag_def list_pending_files_def list_pending_upload_ids_def)

definition faithful :: "'z pod_ext_scheme \<Rightarrow> 's contract \<Rightarrow> db \<Rightarrow> bool" where
  "faithful x S d \<longleftrightarrow> faithful_on x S set_home (set_shown x) (\<lambda>d. set (list_set_keys d)) d
     \<and> faithful_on x S upload_home (upload_shown x) (\<lambda>d. set (list_pending_upload_ids d)) d"

section \<open>Listings by directory\<close>

definition present :: "bucket_view \<Rightarrow> string \<Rightarrow> bool" where
  "present v prefix \<longleftrightarrow> (\<exists>k. starts_with prefix k \<and> v k \<noteq> None)"

definition plain :: "string \<Rightarrow> bool" where
  "plain s \<longleftrightarrow> s \<noteq> [] \<and> slash \<notin> set s"

lemma present_in: "present v (a @ b) \<Longrightarrow> present v a"
  unfolding present_def starts_with_iff by (metis append_assoc)

lemma prefixes_view:
  assumes "prefixes_ok c S" "quiet S" "list_common_prefixes c prefix s = (r, s')"
  shows "st_view S s' = st_view S s"
    "r = Inr ps \<Longrightarrow> set ps = {prefix @ a @ ''/'' |a. slash \<notin> set a \<and> present (st_view S s) (prefix @ a @ ''/'')}"
proof -
  obtain pages t where g: "list_objects_v2 c prefix (Some ''/'') s = (pages, t)" by fastforce
  note k = assms(1) [unfolded prefixes_ok_def, rule_format, OF g]
  have t: "t = s'" "drain_pages (\<lambda>p. List.map_filter (\<lambda>x. x) (lr_prefixes p)) pages [] = r"
    using assms(3) g by (auto simp: list_common_prefixes_def)
  show v: "st_view S s' = st_view S s" using k assms(2) t(1) by (simp add: quiet_def)
  show "set ps = {prefix @ a @ ''/'' |a. slash \<notin> set a \<and> present (st_view S s) (prefix @ a @ ''/'')}" if "r = Inr ps"
  proof -
    note d = drain_pages_Inr [OF t(2) [unfolded that]]
    have "set ps = {prefix @ a @ ''/'' |a. slash \<notin> set a \<and> (\<exists>k. starts_with (prefix @ a @ ''/'') k \<and> st_view S t k \<noteq> None)}"
      using k d unfolding append_Nil by blast
    then show ?thesis unfolding present_def t(1) v .
  qed
qed

lemma model_fold:
  assumes ok: "prefixes_ok c S" "quiet S"
  shows "foldE (\<lambda>mp acc. bindE (s3_call (list_common_prefixes c mp)) (\<lambda>sub. ret (acc @ sub))) mps acc p = (Inr ps, p') \<Longrightarrow>
    st_view S (world p) = v \<Longrightarrow>
    st_view S (world p') = v \<and> set ps = set acc \<union> {mp @ a @ ''/'' |mp a. mp \<in> set mps \<and> slash \<notin> set a \<and> present v (mp @ a @ ''/'')}"
proof (induction mps arbitrary: acc p)
  case Nil
  then show ?case by (simp add: ret_def)
next
  case (Cons mp mps)
  obtain sub q where q: "s3_call (list_common_prefixes c mp) p = (Inr sub, q)"
    and rest: "foldE (\<lambda>mp acc. bindE (s3_call (list_common_prefixes c mp)) (\<lambda>sub. ret (acc @ sub))) mps (acc @ sub) q = (Inr ps, p')"
    using Cons.prems(1) by (auto simp: bindE_Inr ret_Inr)
  obtain t where l: "list_common_prefixes c mp (world p) = (Inr sub, t)" "q = p \<lparr>world := t\<rparr>"
    using q by (auto simp: s3_call_eq map_errR_def split: prod.splits sum.splits)
  have v: "st_view S t = v" "set sub = {mp @ a @ ''/'' |a. slash \<notin> set a \<and> present v (mp @ a @ ''/'')}"
    using prefixes_view [OF ok l(1)] Cons.prems(2) by auto
  from Cons.IH [OF rest] v l(2) show ?case by auto
qed

lemma model_prefixes:
  assumes ok: "prefixes_ok c S" "quiet S" and run: "list_model_prefixes c p = (Inr ps, p')"
  shows "st_view S (world p') = st_view S (world p)"
    "set ps = {set_home (mk, md) |mk md. slash \<notin> set mk \<and> slash \<notin> set md \<and> present (st_view S (world p)) (set_home (mk, md))}"
proof -
  let ?v = "st_view S (world p)"
  obtain r t where l: "list_common_prefixes c SAMPLES_PREFIX (world p) = (r, t)" by fastforce
  obtain mks where r: "r = Inr mks" using run l by (cases r) (simp_all add: list_model_prefixes_def s3_call_bind)
  have v: "st_view S t = ?v" "set mks = {SAMPLES_PREFIX @ a @ ''/'' |a. slash \<notin> set a \<and> present ?v (SAMPLES_PREFIX @ a @ ''/'')}"
    using prefixes_view [OF ok l] r by auto
  have "foldE (\<lambda>mp acc. bindE (s3_call (list_common_prefixes c mp)) (\<lambda>sub. ret (acc @ sub))) mks [] (p \<lparr>world := t\<rparr>) = (Inr ps, p')"
    using run l r by (simp add: list_model_prefixes_def s3_call_bind)
  from model_fold [OF ok this, of ?v] v(1) have f: "st_view S (world p') = ?v"
    "set ps = {mp @ a @ ''/'' |mp a. mp \<in> set mks \<and> slash \<notin> set a \<and> present ?v (mp @ a @ ''/'')}" by simp_all
  show "st_view S (world p') = ?v" by (rule f(1))
  have in_maker: "present ?v (SAMPLES_PREFIX @ mk @ ''/'')" if "present ?v (set_home (mk, md))" for mk md
    using present_in [of ?v "SAMPLES_PREFIX @ mk @ ''/''" "md @ ''/''"] that by (simp add: SAMPLES_PREFIX_def)
  show "set ps = {set_home (mk, md) |mk md. slash \<notin> set mk \<and> slash \<notin> set md \<and> present ?v (set_home (mk, md))}"
    (is "_ = ?homes")
  proof
    show "set ps \<subseteq> ?homes"
    proof
      fix pre assume "pre \<in> set ps"
      then obtain mk md where "pre = (SAMPLES_PREFIX @ mk @ ''/'') @ md @ ''/''" "slash \<notin> set mk" "slash \<notin> set md" "present ?v pre"
        unfolding f(2) v(2) by blast
      moreover from this have "pre = set_home (mk, md)" by (simp add: SAMPLES_PREFIX_def)
      moreover from calculation have "present ?v (set_home (mk, md))" by simp
      ultimately show "pre \<in> ?homes" by blast
    qed
    show "?homes \<subseteq> set ps"
    proof
      fix pre assume "pre \<in> ?homes"
      then obtain mk md where h: "pre = set_home (mk, md)" "slash \<notin> set mk" "slash \<notin> set md" "present ?v pre" by blast
      then have "pre = (SAMPLES_PREFIX @ mk @ ''/'') @ md @ ''/''" by (simp add: SAMPLES_PREFIX_def)
      moreover have "SAMPLES_PREFIX @ mk @ ''/'' \<in> set mks" using in_maker h v(2) by blast
      ultimately show "pre \<in> set ps" unfolding f(2) using h(3,4) by blast
    qed
  qed
qed

lemma trim_slashes: "slash \<notin> set s \<Longrightarrow> trim_end_slashes (s @ [slash]) = s"
  by (cases s rule: rev_cases) (auto simp: trim_end_slashes_def)

lemma split_set_home:
  assumes "slash \<notin> set mk" "slash \<notin> set md"
  shows "split_set_prefix (set_home (mk, md)) = (if plain mk \<and> plain md then Some (mk, md) else None)"
proof (cases "mk = [] \<or> md = []")
  case False
  then show ?thesis using set_prefix_read_back [of mk md] assms by (simp add: SAMPLES_PREFIX_def plain_def)
next
  case True
  then have "trim_end_slashes (mk @ slash # md @ [slash]) = (if md = [] then mk else slash # md)"
    using assms by (cases md rule: rev_cases; cases mk rule: rev_cases) (auto simp: trim_end_slashes_def)
  then have "split_set_prefix (set_home (mk, md)) = None"
    using assms True split_once_None [of slash mk] by (auto simp: split_set_prefix_def SAMPLES_PREFIX_def)
  then show ?thesis using True by (auto simp: plain_def)
qed

lemma split_upload_home:
  assumes "slash \<notin> set u"
  shows "split_pending_prefix (upload_home u) = (if plain u then Some u else None)"
  using assms trim_slashes [OF assms] by (simp add: split_pending_prefix_def upload_home_def PENDING_PREFIX_def plain_def Let_def)

section \<open>The passes\<close>

text \<open>
  The metadata below \<^verbatim>\<open>samples/<maker>/<model>/\<close> names that maker and model: the layout the approval and the
  edits write.
\<close>

definition at_home :: "'z pod_ext_scheme \<Rightarrow> bucket_view \<Rightarrow> bool" where
  "at_home x v \<longleftrightarrow> (\<forall>mk md obj m. plain mk \<longrightarrow> plain md \<longrightarrow> v (set_home (mk, md) @ ''rawdb-meta.toml'') = Some obj
     \<longrightarrow> parse_meta x (ob_bytes obj) = Inr m \<longrightarrow> sm_maker (rm_set m) = mk \<and> sm_model (rm_set m) = md)"

lemma live_set: "set (List.map_filter g ts) = {k. \<exists>t\<in>set ts. g t = Some k}"
  by (force simp: List.map_filter_def)

lemma live_tasks: "{k. \<exists>t\<in>set (filter (\<lambda>t. g t \<noteq> None) ts). g t = Some k} = {k. \<exists>t\<in>set ts. g t = Some k}"
  by auto

lemma samples_pass:
  assumes ok: "store_ok c S" "quiet S" "prefixes_ok c S" "time_ok x" and perm: "\<forall>ps. set (schedule x ps) = set ps"
    and inv: "db_inv (cache p)" "faithful x S (cache p)" and v: "st_view S (world p) = v" "bounded v" "at_home x v"
    and run: "scan_samples x c p = (Inr res, p')"
  shows "st_view S (world p') = v \<and> db_inv (cache p') \<and> beside_sets (cache p') = beside_sets (cache p) \<and> faithful x S (cache p')
     \<and> (\<forall>k\<in>set (list_set_keys (cache p')). present v (set_home k))
     \<and> (pr_transient res = 0 \<longrightarrow> (\<forall>mk md. plain mk \<longrightarrow> plain md \<longrightarrow> settled_on x v set_home (set_shown x) (mk, md) (cache p')))"
  using run
proof (cases rule: scan_samples_run)
  case (2 prefixes p0 res1 p1 res2)
  let ?f = "\<lambda>pre. case split_set_prefix pre of Some (mk, md) \<Rightarrow> scan_one_set x c pre mk md | None \<Rightarrow> ret Unchanged"
  let ?ts = "filter (\<lambda>pre. split_set_prefix pre \<noteq> None) (schedule x prefixes)"
  note mp = model_prefixes [OF ok(3,2) 2(1), unfolded v(1)]
  have c0: "cache p0 = cache p" using valid_InrD [OF list_model_prefixes_frame _ 2(1), of "cache p" "tick_cells p"] by simp
  have listed: "\<exists>mk md. t = set_home (mk, md) \<and> plain mk \<and> plain md \<and> split_set_prefix t = Some (mk, md) \<and> present v (set_home (mk, md))"
    if t: "t \<in> set prefixes" "split_set_prefix t \<noteq> None" for t
  proof -
    obtain mk md where h: "t = set_home (mk, md)" "slash \<notin> set mk" "slash \<notin> set md" "present v (set_home (mk, md))"
      using t(1) unfolding mp(2) by blast
    have "split_set_prefix t = (if plain mk \<and> plain md then Some (mk, md) else None)" unfolding h(1) by (rule split_set_home [OF h(2,3)])
    with t(2) have "plain mk \<and> plain md \<and> split_set_prefix t = Some (mk, md)" by (simp split: if_splits)
    then show ?thesis using h(1,4) by blast
  qed
  have tasks: "\<forall>t\<in>set ?ts. \<exists>k. split_set_prefix t = Some k
      \<and> ?f t = scan_entry x c (set_home k) (get_set_meta_etag (fst k) (snd k)) (upsert_set x) \<and> owned_on x v set_home set_names k"
  proof
    fix t assume "t \<in> set ?ts"
    then have "t \<in> set prefixes" "split_set_prefix t \<noteq> None" using perm by simp_all
    from listed [OF this] obtain mk md where h: "t = set_home (mk, md)" "plain mk" "plain md" "split_set_prefix t = Some (mk, md)" by blast
    have "owned_on x v set_home set_names (mk, md)"
      using v(3) h(2,3) unfolding owned_on_def at_home_def set_names_def by blast
    moreover have "?f t = scan_entry x c (set_home (mk, md)) (get_set_meta_etag mk md) (upsert_set x)"
      using h(4) unfolding h(1) [symmetric] scan_one_set_entry [symmetric] by simp
    ultimately show "\<exists>k. split_set_prefix t = Some k
      \<and> ?f t = scan_entry x c (set_home k) (get_set_meta_etag (fst k) (snd k)) (upsert_set x) \<and> owned_on x v set_home set_names k"
      using h(4) by (intro exI [of _ "(mk, md)"]) simp
  qed
  let ?live = "List.map_filter split_set_prefix prefixes"
  have live: "set ?live = {k. \<exists>t\<in>set ?ts. split_set_prefix t = Some k}" unfolding live_set live_tasks perm [rule_format] ..
  have prior: "set (remdups (list_set_keys (cache p0))) = set (list_set_keys (cache p0))" by simp
  have i0: "db_inv (cache p0)" "faithful_on x S set_home (set_shown x) (\<lambda>d. set (list_set_keys d)) (cache p0)"
    using inv c0 by (simp_all add: faithful_def)
  note ps = set_index.pass_step [OF ok(1,2,4) i0 mp(1) v(2) tasks live prior 2(3,4), unfolded c0]
  then have b: "beside_sets (cache p') = beside_sets (cache p)" by blast
  have fu: "faithful_on x S upload_home (upload_shown x) (\<lambda>d. set (list_pending_upload_ids d)) (cache p')"
    using inv(2) b upload_shown_tables(1) [of "cache p'" "cache p" x] upload_shown_tables(2) [of "cache p'" "cache p"] by (simp add: faithful_def faithful_on_def beside_sets_def)
  have keys: "present v (set_home k)" if k: "k \<in> set (list_set_keys (cache p'))" for k
  proof -
    have "k \<in> set ?live" using ps k by blast
    then obtain t where "t \<in> set prefixes" "split_set_prefix t = Some k" unfolding live_set by blast
    with listed [of t] show ?thesis by auto
  qed
  have settled: "settled_on x v set_home (set_shown x) (mk, md) (cache p')" if z: "pr_transient res = 0" and pl: "plain mk" "plain md" for mk md
  proof (cases "present v (set_home (mk, md))")
    case True
    then have "set_home (mk, md) \<in> set prefixes" unfolding mp(2) using pl unfolding plain_def by blast
    moreover have "split_set_prefix (set_home (mk, md)) = Some (mk, md)" using split_set_home [of mk md] pl by (simp add: plain_def)
    ultimately have "(mk, md) \<in> set ?live" unfolding live_set by blast
    moreover have "pr_transient res2 = pr_transient (no_result \<lparr>pr_seen := length prefixes\<rparr>)" using z 2(2) by (simp add: no_result_def)
    ultimately show ?thesis using ps by blast
  next
    case False
    then have "v (set_home (mk, md) @ ''rawdb-meta.toml'') = None" unfolding present_def starts_with_iff by blast
    then show ?thesis by (simp add: settled_on_def)
  qed
  show ?thesis using ps fu keys settled by (simp add: faithful_def)
qed simp

lemma pending_pass:
  assumes ok: "store_ok c S" "quiet S" "prefixes_ok c S" "time_ok x" and perm: "\<forall>ps. set (schedule x ps) = set ps"
    and inv: "db_inv (cache p)" "faithful x S (cache p)" and v: "st_view S (world p) = v" "bounded v"
    and run: "scan_pending x c p = (Inr res, p')"
  shows "st_view S (world p') = v \<and> db_inv (cache p') \<and> beside_uploads (cache p') = beside_uploads (cache p) \<and> faithful x S (cache p')
     \<and> (\<forall>u\<in>set (list_pending_upload_ids (cache p')). present v (upload_home u))
     \<and> (pr_transient res = 0 \<longrightarrow> (\<forall>u. plain u \<longrightarrow> settled_on x v upload_home (upload_shown x) u (cache p')))"
  using run
proof (cases rule: scan_pending_run)
  case (2 prefixes p0 res1 p1 res2)
  let ?f = "\<lambda>pre. case split_pending_prefix pre of Some u \<Rightarrow> scan_one_pending x c pre u | None \<Rightarrow> ret Unchanged"
  let ?ts = "filter (\<lambda>pre. split_pending_prefix pre \<noteq> None) (schedule x prefixes)"
  obtain t0 where l: "list_common_prefixes c PENDING_PREFIX (world p) = (Inr prefixes, t0)" "p0 = p \<lparr>world := t0\<rparr>"
    using 2(1) by (auto simp: s3_call_eq map_errR_def split: prod.splits sum.splits)
  have mp: "st_view S (world p0) = v" "set prefixes = {upload_home u |u. slash \<notin> set u \<and> present v (upload_home u)}"
    using prefixes_view [OF ok(3,2) l(1)] l(2) v(1) by (simp_all add: upload_home_def PENDING_PREFIX_def)
  have c0: "cache p0 = cache p" using l(2) by simp
  have listed: "\<exists>u. t = upload_home u \<and> plain u \<and> split_pending_prefix t = Some u \<and> present v (upload_home u)"
    if t: "t \<in> set prefixes" "split_pending_prefix t \<noteq> None" for t
  proof -
    obtain u where h: "t = upload_home u" "slash \<notin> set u" "present v (upload_home u)" using t(1) unfolding mp(2) by blast
    have "split_pending_prefix t = (if plain u then Some u else None)" unfolding h(1) by (rule split_upload_home [OF h(2)])
    with t(2) have "plain u \<and> split_pending_prefix t = Some u" by (simp split: if_splits)
    then show ?thesis using h(1,3) by blast
  qed
  have tasks: "\<forall>t\<in>set ?ts. \<exists>u. split_pending_prefix t = Some u
      \<and> ?f t = scan_entry x c (upload_home u) (get_pending_meta_etag u) (\<lambda>now. upsert_pending x now u) \<and> owned_on x v upload_home (\<lambda>_ _. True) u"
  proof
    fix t assume "t \<in> set ?ts"
    then have "t \<in> set prefixes" "split_pending_prefix t \<noteq> None" using perm by simp_all
    from listed [OF this] obtain u where h: "t = upload_home u" "split_pending_prefix t = Some u" by blast
    then show "\<exists>u. split_pending_prefix t = Some u
      \<and> ?f t = scan_entry x c (upload_home u) (get_pending_meta_etag u) (\<lambda>now. upsert_pending x now u) \<and> owned_on x v upload_home (\<lambda>_ _. True) u"
      by (intro exI [of _ u]) (simp add: scan_one_pending_entry owned_on_def)
  qed
  let ?live = "List.map_filter split_pending_prefix prefixes"
  have live: "set ?live = {k. \<exists>t\<in>set ?ts. split_pending_prefix t = Some k}" unfolding live_set live_tasks perm [rule_format] ..
  have prior: "set (remdups (list_pending_upload_ids (cache p0))) = set (list_pending_upload_ids (cache p0))" by simp
  have i0: "db_inv (cache p0)" "faithful_on x S upload_home (upload_shown x) (\<lambda>d. set (list_pending_upload_ids d)) (cache p0)"
    using inv c0 by (simp_all add: faithful_def)
  note ps = upload_index.pass_step [OF ok(1,2,4) i0 mp(1) v(2) tasks live prior 2(3,4), unfolded c0]
  then have b: "beside_uploads (cache p') = beside_uploads (cache p)" by blast
  have fs: "faithful_on x S set_home (set_shown x) (\<lambda>d. set (list_set_keys d)) (cache p')"
    using inv(2) b set_shown_tables(1) [of "cache p'" "cache p" x] set_shown_tables(2) [of "cache p'" "cache p"] by (simp add: faithful_def faithful_on_def beside_uploads_def)
  have keys: "present v (upload_home u)" if u: "u \<in> set (list_pending_upload_ids (cache p'))" for u
  proof -
    have "u \<in> set ?live" using ps u by blast
    then obtain t where "t \<in> set prefixes" "split_pending_prefix t = Some u" unfolding live_set by blast
    with listed [of t] show ?thesis by auto
  qed
  have settled: "settled_on x v upload_home (upload_shown x) u (cache p')" if z: "pr_transient res = 0" and pl: "plain u" for u
  proof (cases "present v (upload_home u)")
    case True
    then have "upload_home u \<in> set prefixes" unfolding mp(2) using pl unfolding plain_def by blast
    moreover have "split_pending_prefix (upload_home u) = Some u" using split_upload_home [of u] pl by (simp add: plain_def)
    ultimately have "u \<in> set ?live" unfolding live_set by blast
    moreover have "pr_transient res2 = pr_transient (no_result \<lparr>pr_seen := length prefixes\<rparr>)" using z 2(2) by (simp add: no_result_def)
    ultimately show ?thesis using ps by blast
  next
    case False
    then have "v (upload_home u @ ''rawdb-meta.toml'') = None" unfolding present_def starts_with_iff by blast
    then show ?thesis by (simp add: settled_on_def)
  qed
  show ?thesis using ps fs keys settled by (simp add: faithful_def)
qed simp

lemma users_pass:
  assumes ok: "store_ok c S" "quiet S" and inv: "db_inv (cache p)" and run: "scan_users x c p = (Inr n, p')"
  shows "st_view S (world p') = st_view S (world p) \<and> db_inv (cache p')
     \<and> get_users_etag (cache p') = map_option ob_etag (st_view S (world p) USERS_KEY)
     \<and> sets (cache p') = sets (cache p) \<and> files (cache p') = files (cache p) \<and> tags (cache p') = tags (cache p)
     \<and> pending_sets (cache p') = pending_sets (cache p) \<and> pending_files (cache p') = pending_files (cache p)"
proof -
  let ?v = "st_view S (world p)"
  have inv': "db_inv (cache p')"
    using valid_InrD [OF scan_users_inv _ run, of "tick_cells p"] inv by (simp add: pod_inv_def)
  have written: "sets d' = sets d \<and> files d' = files d \<and> tags d' = tags d \<and> pending_sets d' = pending_sets d
      \<and> pending_files d' = pending_files d \<and> get_users_etag d' = e" if "replace_users x e us d = (Inr (), d')" for e us d d'
    using that by (auto simp: replace_users_eq users_written_def get_users_etag_def split: if_splits)
  obtain h s1 where h: "head c USERS_KEY (world p) = (Inr h, s1)"
    using run by (cases "head c USERS_KEY (world p)"; cases "fst (head c USERS_KEY (world p))") (auto simp: scan_users_def pod_steps)
  note hv = head_view [OF ok(1) h]
  have v1: "st_view S s1 = ?v" using hv ok(2) by (simp add: quiet_def)
  show ?thesis
  proof (cases h)
    case None
    then have none: "?v USERS_KEY = None" using hv v1 by simp
    show ?thesis
    proof (cases "get_users_etag (cache p) = None")
      case True
      then show ?thesis using run h None none v1 inv' by (auto simp: scan_users_def pod_steps ret_def)
    next
      case False
      then obtain d' where "replace_users x None [] (cache p) = (Inr (), d')" "p' = p \<lparr>world := s1, cache := d'\<rparr>"
        using run h None by (auto simp: scan_users_def pod_steps ret_def replace_users_eq)
      then show ?thesis using written [of None "[]" "cache p" d'] none v1 inv' by simp
    qed
  next
    case (Some hi)
    then obtain ob where ob: "?v USERS_KEY = Some ob" "hi_etag hi = Some (ob_etag ob)" using hv v1 by auto
    show ?thesis
    proof (cases "hi_etag hi = get_users_etag (cache p)")
      case True
      then show ?thesis using run h Some ob v1 inv' by (auto simp: scan_users_def pod_steps ret_def)
    next
      case False
      obtain r s2 where g: "get_bytes c USERS_KEY s1 = (r, s2)" by fastforce
      obtain b t where r: "r = Inr (b, t)" using run h Some False g by (cases r) (auto simp: scan_users_def pod_steps)
      note gv = get_bytes_view [OF ok(1) g]
      have v2: "st_view S s2 = ?v" "t = Some (ob_etag ob)" using gv ok(2) r v1 ob(1) by (auto simp: quiet_def)
      obtain us d' where "replace_users x t us (cache p) = (Inr (), d')" "p' = p \<lparr>world := s2, cache := d'\<rparr>"
        using run h Some False g r
        by (auto simp: scan_users_def pod_steps ret_def throw_def split: sum.splits prod.splits)
      then show ?thesis using written [of t us "cache p" d'] v2 ob(1) inv' by simp
    qed
  qed
qed

section \<open>Rounds\<close>

text \<open>
  \<open>reflects x v d\<close>: every complete set and upload of the bucket is shown under its present metadata, nothing is
  indexed below whose prefix the bucket has no object, and the users are those of the present users file.
\<close>

definition reflects :: "'z pod_ext_scheme \<Rightarrow> bucket_view \<Rightarrow> db \<Rightarrow> bool" where
  "reflects x v d \<longleftrightarrow>
     (\<forall>mk md. plain mk \<longrightarrow> plain md \<longrightarrow> settled_on x v set_home (set_shown x) (mk, md) d)
   \<and> (\<forall>k\<in>set (list_set_keys d). present v (set_home k))
   \<and> (\<forall>u. plain u \<longrightarrow> settled_on x v upload_home (upload_shown x) u d)
   \<and> (\<forall>u\<in>set (list_pending_upload_ids d). present v (upload_home u))
   \<and> get_users_etag d = map_option ob_etag (v ''_system/users.toml'')"

lemma run_once_reflects:
  assumes ok: "store_ok c S" "quiet S" "prefixes_ok c S" "time_ok x" and perm: "\<forall>ps. set (schedule x ps) = set ps"
    and inv: "db_inv (cache p)" "faithful x S (cache p)"
    and v: "bounded (st_view S (world p))" "at_home x (st_view S (world p))"
    and run: "run_once x c p = (Inr sm, p')"
  shows "st_view S (world p') = st_view S (world p) \<and> db_inv (cache p') \<and> faithful x S (cache p')
    \<and> (sc_transient sm = 0 \<longrightarrow> reflects x (st_view S (world p)) (cache p'))"
proof -
  let ?v = "st_view S (world p)"
  obtain ra p1 rb p2 n p3 now d4 where a: "scan_samples x c p = (Inr ra, p1)" and b: "scan_pending x c p1 = (Inr rb, p2)"
    and u: "scan_users x c p2 = (Inr n, p3)" and l: "set_last_full_scan_at x now (cache p3) = (Inr (), d4)"
    and p': "p' = p3 \<lparr>cache := d4\<rparr>" and sm: "sc_transient sm = pr_transient ra + pr_transient rb"
    using run by (auto simp: run_once_def bindE_Inr ret_Inr gets_def db_call_def map_errE_def map_errR_def on_cache_def
        split: prod.splits sum.splits)
  note sa = samples_pass [OF ok perm inv refl v a]
  have pb: "st_view S (world p2) = ?v \<and> db_inv (cache p2) \<and> beside_uploads (cache p2) = beside_uploads (cache p1) \<and> faithful x S (cache p2)
     \<and> (\<forall>u\<in>set (list_pending_upload_ids (cache p2)). present ?v (upload_home u))
     \<and> (pr_transient rb = 0 \<longrightarrow> (\<forall>u. plain u \<longrightarrow> settled_on x ?v upload_home (upload_shown x) u (cache p2)))"
    by (rule pending_pass [OF ok perm _ _ _ v(1) b]) (use sa in simp_all)
  have us: "st_view S (world p3) = st_view S (world p2) \<and> db_inv (cache p3)
     \<and> get_users_etag (cache p3) = map_option ob_etag (st_view S (world p2) USERS_KEY)
     \<and> sets (cache p3) = sets (cache p2) \<and> files (cache p3) = files (cache p2) \<and> tags (cache p3) = tags (cache p2)
     \<and> pending_sets (cache p3) = pending_sets (cache p2) \<and> pending_files (cache p3) = pending_files (cache p2)"
    by (rule users_pass [OF ok(1,2) _ u]) (use pb in simp)
  have "d4 = bump Scan ((cache p3) \<lparr>scan_state := Some (Some (to_rfc3339 x now))\<rparr>)"
    using l by (simp add: set_last_full_scan_at_def commit_def)
  then have d4: "sets d4 = sets (cache p2)" "files d4 = files (cache p2)" "tags d4 = tags (cache p2)"
    "pending_sets d4 = pending_sets (cache p2)" "pending_files d4 = pending_files (cache p2)"
    "users_etag d4 = users_etag (cache p3)" using us by (simp_all add: bump_def)
  have tabs: "sets (cache p2) = sets (cache p1)" "files (cache p2) = files (cache p1)" "tags (cache p2) = tags (cache p1)"
    using pb by (simp_all add: beside_uploads_def)
  have up: "upload_shown x u e m fs d4 = upload_shown x u e m fs (cache p2)" "list_pending_upload_ids d4 = list_pending_upload_ids (cache p2)" for u e m fs
    using upload_shown_tables d4 by blast+
  have st: "set_shown x k e m fs d4 = set_shown x k e m fs (cache p2)" "list_set_keys d4 = list_set_keys (cache p2)"
    "set_shown x k e m fs d4 = set_shown x k e m fs (cache p1)" "list_set_keys d4 = list_set_keys (cache p1)" for k e m fs
    using set_shown_tables d4 tabs by metis+
  have inv4: "db_inv d4" using set_last_scan_inv [of "cache p3" x now] us l by simp
  have f4: "faithful x S d4"
    using pb unfolding faithful_def faithful_on_def up st(1,2) by blast
  have "reflects x ?v d4" if "sc_transient sm = 0"
  proof -
    have z: "pr_transient ra = 0" "pr_transient rb = 0" using that sm by simp_all
    have "\<forall>mk md. plain mk \<longrightarrow> plain md \<longrightarrow> settled_on x ?v set_home (set_shown x) (mk, md) d4"
      using sa z(1) unfolding settled_on_def st(3) by blast
    moreover have "\<forall>k\<in>set (list_set_keys d4). present ?v (set_home k)" using sa unfolding st(4) by blast
    moreover have "\<forall>u. plain u \<longrightarrow> settled_on x ?v upload_home (upload_shown x) u d4"
      using pb z(2) unfolding settled_on_def up by blast
    moreover have "\<forall>u\<in>set (list_pending_upload_ids d4). present ?v (upload_home u)" using pb unfolding up by blast
    moreover have "get_users_etag d4 = map_option ob_etag (?v ''_system/users.toml'')"
      using us pb d4(6) by (simp add: get_users_etag_def USERS_KEY_def)
    ultimately show ?thesis unfolding reflects_def by blast
  qed
  then show ?thesis using us pb inv4 f4 by (simp add: p')
qed

section \<open>Rounds on a store that answers\<close>

text \<open>The users file, if there is one, parses without repeating a subject or a role.\<close>

definition users_readable :: "'z pod_ext_scheme \<Rightarrow> bucket_view \<Rightarrow> bool" where
  "users_readable x v \<longleftrightarrow> (\<forall>ob. v ''_system/users.toml'' = Some ob \<longrightarrow>
     (\<exists>us. parse_users_toml x (ob_bytes ob) = Inr us \<and> distinct (map ur_sub us) \<and> (\<forall>u\<in>set us. distinct (ur_roles u))))"

lemma model_fold_answers:
  assumes "answers c S"
  shows "\<exists>ps p'. foldE (\<lambda>mp acc. bindE (s3_call (list_common_prefixes c mp)) (\<lambda>sub. ret (acc @ sub))) mps acc p = (Inr ps, p')"
proof (induction mps arbitrary: acc p)
  case (Cons mp mps)
  obtain sub t where "list_common_prefixes c mp (world p) = (Inr sub, t)" using assms unfolding answers_def by blast
  then have "s3_call (list_common_prefixes c mp) p = (Inr sub, p \<lparr>world := t\<rparr>)" by (simp add: s3_call_eq map_errR_def)
  then show ?case using Cons.IH [of "acc @ sub" "p \<lparr>world := t\<rparr>"] by (simp add: bindE_def ret_def)
qed (simp add: ret_def)

lemma samples_answer:
  assumes ok: "store_ok c S" "quiet S" "prefixes_ok c S" "answers c S" and inv: "db_inv (cache p)"
  shows "\<exists>res p'. scan_samples x c p = (Inr res, p') \<and> pr_transient res = 0 \<and> db_inv (cache p') \<and> st_view S (world p') = st_view S (world p)"
proof -
  obtain mks t where l: "list_common_prefixes c SAMPLES_PREFIX (world p) = (Inr mks, t)" using ok(4) unfolding answers_def by blast
  obtain ps p0 where "foldE (\<lambda>mp acc. bindE (s3_call (list_common_prefixes c mp)) (\<lambda>sub. ret (acc @ sub))) mks [] (p \<lparr>world := t\<rparr>) = (Inr ps, p0)"
    using model_fold_answers [OF ok(4)] by blast
  then have m: "list_model_prefixes c p = (Inr ps, p0)" using l by (simp add: list_model_prefixes_def s3_call_bind)
  obtain r p' where run: "scan_samples x c p = (r, p')" by fastforce
  from run show ?thesis
  proof (cases rule: scan_samples_run)
    case (1 e)
    then show ?thesis using m by simp
  next
    case (2 prefixes q res1 p1 res2)
    have v: "st_view S (world q) = st_view S (world p)" by (rule model_prefixes(1) [OF ok(3,2) 2(1)])
    have "cache q = cache p" using valid_InrD [OF list_model_prefixes_frame _ 2(1), of "cache p" "tick_cells p"] by simp
    then have iq: "db_inv (cache q)" using inv by simp
    have t: "pr_transient res1 = pr_transient (no_result \<lparr>pr_seen := length prefixes\<rparr>) \<and> db_inv (cache p1)
        \<and> beside_sets (cache p1) = beside_sets (cache q) \<and> st_view S (world p1) = st_view S (world q)"
    proof (rule set_index.tasks_answer [OF ok(1,2,4) 2(3) iq])
      show "\<forall>t\<in>set (filter (\<lambda>pre. split_set_prefix pre \<noteq> None) (schedule x prefixes)). \<exists>pre k.
          (case split_set_prefix t of None \<Rightarrow> ret Unchanged | Some (mk, md) \<Rightarrow> scan_one_set x c t mk md)
            = scan_entry x c pre (get_set_meta_etag (fst k) (snd k)) (upsert_set x)"
        by (fastforce simp: scan_one_set_entry)
    qed
    have "pr_transient res2 = pr_transient res1 \<and> db_inv (cache p') \<and> beside_sets (cache p') = beside_sets (cache p1) \<and> world p' = world p1"
      by (rule set_index.sweep_answers [OF 2(4)]) (use t in simp)
    then show ?thesis using run 2(2) t v by (intro exI [of _ res2] exI [of _ p']) (simp add: no_result_def)
  qed
qed

lemma pending_answer:
  assumes ok: "store_ok c S" "quiet S" "prefixes_ok c S" "answers c S" and inv: "db_inv (cache p)"
  shows "\<exists>res p'. scan_pending x c p = (Inr res, p') \<and> pr_transient res = 0 \<and> db_inv (cache p') \<and> st_view S (world p') = st_view S (world p)"
proof -
  obtain ps t where l: "list_common_prefixes c PENDING_PREFIX (world p) = (Inr ps, t)" using ok(4) unfolding answers_def by blast
  then have m: "s3_call (list_common_prefixes c PENDING_PREFIX) p = (Inr ps, p \<lparr>world := t\<rparr>)" by (simp add: s3_call_eq map_errR_def)
  obtain r p' where run: "scan_pending x c p = (r, p')" by fastforce
  from run show ?thesis
  proof (cases rule: scan_pending_run)
    case (1 e)
    then show ?thesis using m by simp
  next
    case (2 prefixes q res1 p1 res2)
    have q: "q = p \<lparr>world := t\<rparr>" using 2(1) m by simp
    have v: "st_view S (world q) = st_view S (world p)" using prefixes_view(1) [OF ok(3,2) l] q by simp
    have iq: "db_inv (cache q)" using inv q by simp
    have t: "pr_transient res1 = pr_transient (no_result \<lparr>pr_seen := length prefixes\<rparr>) \<and> db_inv (cache p1)
        \<and> beside_uploads (cache p1) = beside_uploads (cache q) \<and> st_view S (world p1) = st_view S (world q)"
    proof (rule upload_index.tasks_answer [OF ok(1,2,4) 2(3) iq])
      show "\<forall>t\<in>set (filter (\<lambda>pre. split_pending_prefix pre \<noteq> None) (schedule x prefixes)). \<exists>pre k.
          (case split_pending_prefix t of None \<Rightarrow> ret Unchanged | Some u \<Rightarrow> scan_one_pending x c t u)
            = scan_entry x c pre (get_pending_meta_etag k) (\<lambda>now. upsert_pending x now k)"
        by (fastforce simp: scan_one_pending_entry)
    qed
    have "pr_transient res2 = pr_transient res1 \<and> db_inv (cache p') \<and> beside_uploads (cache p') = beside_uploads (cache p1) \<and> world p' = world p1"
      by (rule upload_index.sweep_answers [OF 2(4)]) (use t in simp)
    then show ?thesis using run 2(2) t v by (intro exI [of _ res2] exI [of _ p']) (simp add: no_result_def)
  qed
qed

lemma users_answer:
  assumes ok: "store_ok c S" "quiet S" "answers c S" and users: "users_readable x (st_view S (world p))"
  shows "\<exists>n p'. scan_users x c p = (Inr n, p')"
proof -
  obtain h s1 where h: "head c USERS_KEY (world p) = (Inr h, s1)" using ok(3) unfolding answers_def by blast
  note hv = head_view [OF ok(1) h]
  have v1: "st_view S s1 = st_view S (world p)" using hv ok(2) by (simp add: quiet_def)
  show ?thesis
  proof (cases h)
    case None
    then show ?thesis using h by (simp add: scan_users_def pod_steps ret_def replace_users_eq)
  next
    case (Some hi)
    then obtain ob where ob: "st_view S s1 USERS_KEY = Some ob" using hv by auto
    then have "st_view S s1 USERS_KEY \<noteq> None" by simp
    then obtain bt s2 where "get_bytes c USERS_KEY s1 = (Inr bt, s2)" using ok(3) unfolding answers_def by blast
    then obtain b t where g: "get_bytes c USERS_KEY s1 = (Inr (b, t), s2)" by (cases bt) simp
    have "b = ob_bytes ob" using get_bytes_view [OF ok(1) g] ok(2) ob by (auto simp: quiet_def)
    then obtain us where "parse_users_toml x b = Inr us" "distinct (map ur_sub us)" "\<forall>u\<in>set us. distinct (ur_roles u)"
      using users ob v1 unfolding users_readable_def USERS_KEY_def by auto
    then show ?thesis using h Some g by (simp add: scan_users_def pod_steps ret_def replace_users_eq)
  qed
qed

lemma run_once_answers:
  assumes ok: "store_ok c S" "quiet S" "prefixes_ok c S" "answers c S" and inv: "db_inv (cache p)"
    and users: "users_readable x (st_view S (world p))"
  shows "\<exists>sm p'. run_once x c p = (Inr sm, p') \<and> sc_transient sm = 0"
proof -
  obtain ra p1 where a: "scan_samples x c p = (Inr ra, p1)" "pr_transient ra = 0" "db_inv (cache p1)" "st_view S (world p1) = st_view S (world p)"
    using samples_answer [OF ok inv] by blast
  obtain rb p2 where b: "scan_pending x c p1 = (Inr rb, p2)" "pr_transient rb = 0" "st_view S (world p2) = st_view S (world p)"
    using pending_answer [OF ok a(3)] a(4) by metis
  obtain n p3 where u: "scan_users x c p2 = (Inr n, p3)" using users_answer [OF ok(1,2,4), of x p2] users b(3) by auto
  show ?thesis
    using a(1,2) b(1,2) u by (simp add: run_once_def bindE_def gets_def ret_def db_call_def map_errE_def map_errR_def on_cache_def set_last_full_scan_at_def commit_def)
qed

end
