(* ===== verification/Ready_Claims.thy ===== *)
theory Ready_Claims imports Scan_Ready begin

text \<open>
  The claims on whole rounds of the scanner and on the targeted refresh of an upload, with rounds on the bucket in
  memory as witnesses.
\<close>

section \<open>A store in memory answers\<close>

lemma mem_prefixes_ok: "prefixes_ok mem_s3 mem_contract"
proof -
  have "(\<exists>k b. (k, b) \<in> set (mem_objs s) \<and> mem_view s k = Some b \<and> P k) \<longleftrightarrow> (\<exists>k. P k \<and> mem_view s k \<noteq> None)" for s P
  proof -
    have "(k, b) \<in> set (mem_objs s)" if "mem_view s k = Some b" for k b
      using that map_of_SomeD [of "mem_objs s" k] by (auto simp: mem_view_def split: option.splits if_splits)
    then show ?thesis by auto
  qed
  note objs = this
  have one: "y \<in> set (case strip_prefix prefix k of None \<Rightarrow> [] | Some r \<Rightarrow> (case split_once slash r of None \<Rightarrow> [] | Some (a, b) \<Rightarrow> [prefix @ a @ ''/'']))
      \<longleftrightarrow> (\<exists>a. y = prefix @ a @ ''/'' \<and> slash \<notin> set a \<and> starts_with (prefix @ a @ ''/'') k)" (is "?l \<longleftrightarrow> ?r") for y prefix k
  proof
    assume ?l
    then obtain r where r: "strip_prefix prefix k = Some r" by (cases "strip_prefix prefix k") simp_all
    then obtain a b where ab: "split_once slash r = Some (a, b)" using \<open>?l\<close> by (cases "split_once slash r") auto
    then have "y = prefix @ a @ ''/''" using \<open>?l\<close> r by simp
    then show ?r using r ab by (auto simp: strip_prefix_Some split_once_Some starts_with_iff)
  next
    assume ?r
    then obtain a b where "y = prefix @ a @ ''/''" "slash \<notin> set a" "k = prefix @ a @ slash # b" by (auto simp: starts_with_iff)
    moreover from this have "split_once slash (a @ slash # b) = Some (a, b)" by (simp add: split_once_Some)
    ultimately show ?l by simp
  qed
  have "set (concat (map (\<lambda>(k, ob). case strip_prefix prefix k of None \<Rightarrow> [] | Some r \<Rightarrow>
          (case split_once slash r of None \<Rightarrow> [] | Some (a, b) \<Rightarrow> [prefix @ a @ ''/'']))
          (filter (\<lambda>p. mem_view s (fst p) = Some (snd p)) (mem_objs s))))
      = {prefix @ a @ ''/'' |a. slash \<notin> set a \<and> (\<exists>k. starts_with (prefix @ a @ ''/'') k \<and> mem_view s k \<noteq> None)}" (is "?L = ?R") for prefix s
  proof (rule set_eqI)
    fix y
    have "y \<in> ?L \<longleftrightarrow> (\<exists>k b. (k, b) \<in> set (mem_objs s) \<and> mem_view s k = Some b
        \<and> (\<exists>a. y = prefix @ a @ ''/'' \<and> slash \<notin> set a \<and> starts_with (prefix @ a @ ''/'') k))"
      unfolding set_concat set_map UN_iff image_iff bex_simps set_filter using one [of y prefix] by fastforce
    also have "\<dots> \<longleftrightarrow> (\<exists>k. (\<exists>a. y = prefix @ a @ ''/'' \<and> slash \<notin> set a \<and> starts_with (prefix @ a @ ''/'') k) \<and> mem_view s k \<noteq> None)"
      by (rule objs)
    also have "\<dots> \<longleftrightarrow> y \<in> ?R" by auto
    finally show "y \<in> ?L \<longleftrightarrow> y \<in> ?R" .
  qed
  moreover have "List.map_filter (\<lambda>x. x) (map Some xs) = (xs :: string list)" for xs by (simp add: List.map_filter_def comp_def)
  ultimately show ?thesis by (simp add: prefixes_ok_def mem_s3_def mem_contract_def del: set_concat set_map)
qed

lemma mem_answers: "answers mem_s3 mem_contract"
proof -
  have "\<exists>h s'. head mem_s3 key s = (Inr h, s')" for key s
    by (auto simp: head_def cmd_defs mem_s3_def is_not_found_def not_found_def split: option.splits)
  moreover have "\<exists>b s'. get_bytes mem_s3 key s = (Inr b, s')" if "mem_view s key \<noteq> None" for key s
    using that by (auto simp: get_bytes_def cmd_defs mem_s3_def split: option.splits)
  moreover have "\<exists>l s'. list_objects mem_s3 prefix s = (Inr l, s')" for prefix s by (simp add: list_objects_def mem_s3_def)
  moreover have "\<exists>l s'. list_common_prefixes mem_s3 prefix s = (Inr l, s')" for prefix s by (simp add: list_common_prefixes_def mem_s3_def)
  ultimately show ?thesis by (simp add: answers_def mem_contract_def)
qed

section \<open>Sample buckets\<close>

text \<open>The sample bucket, and the same with the files of its pending upload.\<close>

definition full_bucket :: mem where
  "full_bucket = mem_put ''pending/u1/raw/a.CR3'' ''AAAA'' (mem_put ''pending/u1/jpg/b.jpg'' ''BB'' sample_bucket)"

definition full_pod :: "mem pod" where
  "full_pod = sample_pod \<lparr>world := full_bucket\<rparr>"

lemma sample_pod_time: "time_ok sample_pod_ext"
  using sample_time_ok by (simp add: time_ok_def sample_pod_ext_def sample_ext_def)

lemma empty_faithful: "faithful x S empty_db"
  by (simp add: faithful_def faithful_on_def list_set_keys_def list_pending_upload_ids_def empty_db_def)

lemma empty_view: "mem_view \<lparr>mem_objs = [], mem_seq = n\<rparr> = Map.empty"
  by (simp add: mem_view_def fun_eq_iff)

lemmas sample_views = sample_bucket_def full_bucket_def view_put empty_view

lemma sample_bounded: "bounded (mem_view sample_bucket)" "bounded (mem_view full_bucket)"
  by (simp_all add: bounded_def sample_views)

lemma sample_users: "users_readable sample_pod_ext (mem_view sample_bucket)"
  by (simp add: users_readable_def sample_views)




lemma refresh_answers:
  assumes "store_ok c S" "quiet S" "answers c S" "db_inv (cache p)"
  shows "\<exists>p'. refresh_one_pending x c u p = (Inr (), p')"
proof -
  obtain out p1 where "scan_entry x c (PENDING_PREFIX @ u @ ''/'') (get_pending_meta_etag u) (\<lambda>now. upsert_pending x now u) p = (Inr out, p1)"
    using upload_index.entry_answers [OF assms] by blast
  then show ?thesis
    by (cases out) (simp_all add: refresh_one_pending_def scan_one_pending_entry bindE_def ret_def db_call_def map_errE_def map_errR_def
        on_cache_def delete_pending_keys)
qed

text \<open>The files of the sample set, with their sizes.\<close>

lemma sample_files_paired:
  assumes "map fst fs = rm_files sample_meta" "\<forall>(f, si)\<in>set fs. si_size si = (if f = sample_file then 4 else 2)"
  shows "map (\<lambda>q. fr_size (file_row_of q)) fs = [4, 2]"
proof -
  obtain a b where "fs = [(sample_file, a), (sample_file2, b)]"
    using assms(1) by (auto simp: sample_meta_def map_eq_Cons_conv)
  moreover have "sample_file2 \<noteq> sample_file" by (simp add: sample_file_def sample_file2_def)
  ultimately show ?thesis using assms(2) by (simp add: file_row_of_def Let_def)
qed

section \<open>Claims\<close>



text \<open>
  C39. A pod becomes ready: whatever the sets and uploads in the bucket hold, unreadable metadata and missing files
  included, the first round in which the calls of the store succeed makes it ready, provided the users file, if any,
  parses without repeating a subject or a role; until then the next round comes within fifteen seconds, and a ready
  pod stays ready whatever the store does.
\<close>

theorem ready_reached:
  assumes "store_ok c S" "quiet S" "prefixes_ok c S" "answers c S" "db_inv (cache p)" "users_readable x (st_view S (world p))"
    and run: "scan_round x c interval (ready, p) = ((ready', p'), wait)"
  shows "ready' \<and> wait = interval
     \<and> (\<forall>c' p1 n ready1 ready2 p2 w. scan_round x (c' :: 's s3) n (ready1, p1) = ((ready2, p2), w) \<longrightarrow>
          (ready1 \<longrightarrow> ready2) \<and> (\<not> ready2 \<longrightarrow> w \<le> 15))"
proof -
  obtain sm q where "run_once x c p = (Inr sm, q)" "sc_transient sm = 0" using run_once_answers [OF assms(1-6)] by blast
  then have "ready' \<and> wait = interval" using run by (cases ready) (simp_all add: scan_round_def Let_def)
  moreover have "(ready1 \<longrightarrow> ready2) \<and> (\<not> ready2 \<longrightarrow> w \<le> 15)"
    if "scan_round x c' n (ready1, p1) = ((ready2, p2), w)" for c' :: "'s s3" and p1 n ready1 ready2 p2 w
    using that by (auto simp: scan_round_def Let_def INITIAL_SCAN_RETRY_def split: prod.splits sum.splits if_splits)
  ultimately show ?thesis by blast
qed

text \<open>The sample bucket holds an upload without its files; the pod becomes ready.\<close>

lemma ready_reached_witness:
  "mem_view sample_bucket ''pending/u1/rawdb-meta.toml'' \<noteq> None \<and> mem_view sample_bucket ''pending/u1/raw/a.CR3'' = None
   \<and> fst (fst (scan_round sample_pod_ext mem_s3 60 (False, sample_pod)))"
proof -
  obtain ready' p' wait where run: "scan_round sample_pod_ext mem_s3 60 (False, sample_pod) = ((ready', p'), wait)"
    by (metis prod.exhaust)
  have "users_readable sample_pod_ext (st_view mem_contract (world sample_pod))"
    using sample_users by (simp add: mem_contract_def sample_pod_def)
  moreover have "db_inv (cache sample_pod)" by (simp add: sample_pod_def)
  ultimately have "ready'"
    using ready_reached [OF mem_store_ok mem_quiet mem_prefixes_ok mem_answers _ _ run, THEN conjunct1] by blast
  moreover have "mem_view sample_bucket ''pending/u1/rawdb-meta.toml'' \<noteq> None" "mem_view sample_bucket ''pending/u1/raw/a.CR3'' = None"
    by (simp_all add: sample_views)
  ultimately show ?thesis by (simp add: run)
qed

text \<open>
  C40. The targeted refresh of a pending upload, on a bucket no other pod writes to: when its metadata is gone, so is
  everything the cache had of it; when the metadata parses and every declared file is there, the cache reads back exactly
  that metadata under its present etag with exactly the declared files, and, where the etag is new, with the size each
  file has now; otherwise the cache is not touched. Other uploads and all sets read as before, the bucket is unchanged,
  and every entry of the cache still shows the metadata its etag names.
\<close>

theorem refresh_pending_exact:
  assumes ok: "store_ok c S" "quiet S" "time_ok x" and inv: "db_inv (cache p)" "faithful x S (cache p)" "bounded (st_view S (world p))"
    and run: "refresh_one_pending x c u p = (Inr (), p')"
  shows "(case st_view S (world p) (''pending/'' @ u @ ''/rawdb-meta.toml'') of
       None \<Rightarrow> pending_view u (cache p') = (None, None, [])
     | Some obj \<Rightarrow> (case parse_meta x (ob_bytes obj) of
          Inl _ \<Rightarrow> cache p' = cache p
        | Inr m \<Rightarrow> if \<exists>f\<in>set (rm_files m). st_view S (world p) (''pending/'' @ u @ ''/'' @ fm_path f) = None
            then cache p' = cache p
            else \<exists>t fs. map fst fs = rm_files m \<and> upload_shown x u (ob_etag obj) (with_upload_time t m) fs (cache p')
              \<and> (get_pending_meta_etag u (cache p) \<noteq> Some (ob_etag obj) \<longrightarrow> t = Some (ob_modified obj)
                   \<and> (\<forall>(f, si)\<in>set fs. \<exists>ob. st_view S (world p) (''pending/'' @ u @ ''/'' @ fm_path f) = Some ob
                        \<and> si_size si = length (ob_bytes ob)))))
     \<and> (\<forall>w. w \<noteq> u \<longrightarrow> pending_view w (cache p') = pending_view w (cache p))
     \<and> (\<forall>mk md. set_view x mk md (cache p') = set_view x mk md (cache p))
     \<and> st_view S (world p') = st_view S (world p) \<and> faithful x S (cache p')"
proof -
  let ?v = "st_view S (world p)" and ?pre = "upload_home u" and ?put = "\<lambda>now. upsert_pending x now u"
  have pre: "PENDING_PREFIX @ u @ ''/'' = ?pre" "''pending/'' @ u @ ''/rawdb-meta.toml'' = ?pre @ META_FILE"
    "''pending/'' @ u @ ''/'' @ n = ?pre @ n" for n by (simp_all add: upload_home_def PENDING_PREFIX_def META_FILE_def)
  obtain r p1 where s: "scan_entry x c ?pre (get_pending_meta_etag u) ?put p = (r, p1)" by fastforce
  obtain out where r: "r = Inr out"
    using run s unfolding refresh_one_pending_def scan_one_pending_entry pre(1) by (cases r) (simp_all add: bindE_def)
  have rest: "(case out of MetaMissing \<Rightarrow> db_call (delete_pending_by_upload_id u) | _ \<Rightarrow> ret ()) p1 = (Inr (), p')"
    using run s r unfolding refresh_one_pending_def scan_one_pending_entry pre(1) by (auto simp: bindE_def split: set_outcome.splits)
  have fi: "faithful_on x S upload_home (upload_shown x) (\<lambda>d. set (list_pending_upload_ids d)) (cache p)"
    using inv(2) by (simp add: faithful_def)
  have own: "owned_on x ?v upload_home (\<lambda>_ _. True) u" by (simp add: owned_on_def)
  note st = upload_index.entry_step [OF ok inv(1) fi inv(3) own s]
  note q = scan_entry_quiet [OF ok(1,2) s [unfolded r]]
  have view: "?v = st_view S (world p1)" using q by simp
  note o' = q [THEN conjunct2, unfolded entry_outcome_def]
  have fk: "pending_fk (cache p)" by (rule pending_fk_of [OF inv(1)])
  have tabs: "sets (cache p1) = sets (cache p)" "files (cache p1) = files (cache p)" "tags (cache p1) = tags (cache p)"
    using st(2) by (simp_all add: beside_uploads_def)
  have sv: "set_view x mk md (cache p1) = set_view x mk md (cache p)" for mk md
    by (simp add: set_view_def get_set_def get_set_meta_etag_def list_files_def file_tags_def fun_eq_iff tabs)
  have others: "pending_view w (cache p1) = pending_view w (cache p)" if "w \<noteq> u" for w
  proof (cases "out = Updated")
    case True
    then obtain now m e fs where "upsert_pending x now u m e fs (cache p) = (Inr (), cache p1)"
      using pending_entry.when_updated [OF s [unfolded r True]] by blast
    then have "cache p1 = bump Pending (pending_written x now u m e fs (cache p))" by (simp add: upsert_pending_eq [OF fk] split: if_splits)
    then show ?thesis using that by (simp add: pending_view_written_other)
  qed (use pending_entry.unless_updated [OF s] r in simp)
  have f1: "faithful x S (cache p1)"
    using inv(2) st(2) set_shown_tables(1) [OF tabs, of x] set_shown_tables(2) [OF tabs] by (simp add: faithful_def faithful_on_def)
  show ?thesis
  proof (cases out)
    case MetaMissing
    have none: "?v (?pre @ META_FILE) = None" and same: "cache p1 = cache p" using o' MetaMissing by (auto split: option.splits)
    obtain d' where d: "delete_pending_by_upload_id u (cache p1) = (Inr (), d')"
        "set (list_pending_upload_ids d') = set (list_pending_upload_ids (cache p1)) - {u}"
      using pending_table.del_key by blast
    have p': "p' = p1 \<lparr>cache := d'\<rparr>" using rest MetaMissing d(1) by (simp add: cmd_defs map_errR_def)
    have d': "d' = bump Pending ((cache p) \<lparr>pending_sets := filter (Not \<circ> pending_of u) (pending_sets (cache p)),
        pending_files := filter (\<lambda>r. pf_upload_id r \<noteq> u) (pending_files (cache p))\<rparr>)"
      using d(1) unfolding same delete_pending_eq [OF fk] by simp
    have pv: "pending_view w d' = (if w = u then (None, None, []) else pending_view w (cache p))" for w
      unfolding d' pending_view_bump by (rule pending_view_deleted)
    have td: "sets d' = sets (cache p)" "files d' = files (cache p)" "tags d' = tags (cache p)" by (simp_all add: d' bump_def)
    have "set_view x mk md d' = set_view x mk md (cache p)" for mk md
      by (simp add: set_view_def get_set_def get_set_meta_etag_def list_files_def file_tags_def fun_eq_iff td)
    moreover have "faithful x S d'"
    proof -
      have "upload_shown x w e m fs d' = upload_shown x w e m fs (cache p)" if "w \<noteq> u" for w e m fs
        by (rule upload_shown_view) (simp add: pv that)
      then have "faithful_on x S upload_home (upload_shown x) (\<lambda>d. set (list_pending_upload_ids d)) d'"
        using fi d(2) unfolding faithful_on_def same by auto
      then show ?thesis
        using inv(2) set_shown_tables(1) [OF td, of x] set_shown_tables(2) [OF td] by (simp add: faithful_def faithful_on_def)
    qed
    ultimately show ?thesis using none pv view unfolding p' pre(2) by simp
  next
    case Updated
    have p': "p' = p1" using rest Updated by (simp add: ret_def)
    obtain obj m where b: "?v (?pre @ META_FILE) = Some obj" "parse_meta x (ob_bytes obj) = Inr m"
        "get_pending_meta_etag u (cache p) \<noteq> Some (ob_etag obj)"
      and w: "\<exists>now fs. ?put now (with_upload_time (Some (ob_modified obj)) m) (Some (ob_etag obj)) fs (cache p) = (Inr (), cache p1)
         \<and> map fst fs = rm_files m \<and> (\<forall>(f, si)\<in>set fs. \<exists>o'. ?v (?pre @ fm_path f) = Some o' \<and> si_size si = length (ob_bytes o'))"
      using o' Updated by (auto split: option.splits sum.splits)
    obtain now fs where w: "?put now (with_upload_time (Some (ob_modified obj)) m) (Some (ob_etag obj)) fs (cache p) = (Inr (), cache p1)"
        and fs: "map fst fs = rm_files m" and sz: "\<forall>(f, si)\<in>set fs. \<exists>o'. ?v (?pre @ fm_path f) = Some o' \<and> si_size si = length (ob_bytes o')"
      using w by blast
    have "small fs" using sz inv(3) unfolding small_def bounded_def by fastforce
    then have "upload_shown x u (ob_etag obj) (with_upload_time (Some (ob_modified obj)) m) fs (cache p1)"
      using upload_index.put_shows [OF inv(1) w _ _ ok(3)] by blast
    then have shown: "\<exists>t fs. map fst fs = rm_files m \<and> upload_shown x u (ob_etag obj) (with_upload_time t m) fs (cache p1)
        \<and> (get_pending_meta_etag u (cache p) \<noteq> Some (ob_etag obj) \<longrightarrow> t = Some (ob_modified obj)
           \<and> (\<forall>(f, si)\<in>set fs. \<exists>ob. ?v (?pre @ fm_path f) = Some ob \<and> si_size si = length (ob_bytes ob)))"
      using fs sz by blast
    have "?v (?pre @ fm_path f) \<noteq> None" if "f \<in> set (rm_files m)" for f
    proof -
      have "f \<in> set (map fst fs)" using that fs by simp
      then obtain si where mem: "(f, si) \<in> set fs" by auto
      show ?thesis using bspec [OF sz mem] by auto
    qed
    then have full: "\<not> (\<exists>f\<in>set (rm_files m). ?v (?pre @ fm_path f) = None)" by blast
    show ?thesis unfolding p' pre(2,3) b(1) option.case b(2) sum.case if_not_P [OF full] using shown others sv f1 view by simp
  next
    case Unchanged
    have p': "p' = p1" and same: "cache p1 = cache p" using rest o' Unchanged by (auto simp: ret_def split: option.splits)
    obtain obj where b: "?v (?pre @ META_FILE) = Some obj" "get_pending_meta_etag u (cache p) = Some (ob_etag obj)"
      using o' Unchanged by (auto split: option.splits)
    have settled: "settled_on x ?v upload_home (upload_shown x) u (cache p)" using st(5) r same by simp
    have "\<exists>t fs. map fst fs = rm_files m \<and> upload_shown x u (ob_etag obj) (with_upload_time t m) fs (cache p)"
      if "parse_meta x (ob_bytes obj) = Inr m" "\<not> (\<exists>f\<in>set (rm_files m). ?v (?pre @ fm_path f) = None)" for m
    proof -
      have all: "\<forall>f\<in>set (rm_files m). ?v (?pre @ fm_path f) \<noteq> None" using that(2) by (simp del: not_None_eq)
      show ?thesis using settled [unfolded settled_on_def, rule_format, OF b(1) [unfolded meta_name] that(1)] all by simp
    qed
    then show ?thesis using b others sv f1 view unfolding p' pre(2,3) same by (simp split: sum.splits)
  next
    case Incomplete
    have p': "p' = p1" and same: "cache p1 = cache p" using rest o' Incomplete by (auto simp: ret_def split: option.splits)
    obtain obj where b: "?v (?pre @ META_FILE) = Some obj"
      and i: "case parse_meta x (ob_bytes obj) of Inl _ \<Rightarrow> True
          | Inr m \<Rightarrow> \<exists>f\<in>set (rm_files m). fm_path f = META_FILE \<or> ?v (?pre @ fm_path f) = None"
      using o' Incomplete by (auto split: option.splits)
    have "\<exists>f\<in>set (rm_files m). ?v (?pre @ fm_path f) = None" if "parse_meta x (ob_bytes obj) = Inr m" for m
      using i that path_not_meta [OF that] by auto
    then show ?thesis using b others sv f1 view unfolding p' pre(2,3) same by (simp split: sum.splits)
  qed
qed

text \<open>The upload whose files are there is indexed with their sizes.\<close>

lemma refresh_pending_exact_witness:
  "get_pending_meta_etag ''u1'' (cache (snd (refresh_one_pending sample_pod_ext mem_s3 ''u1'' full_pod))) = Some ''M''
   \<and> mset (map fr_size (list_pending_files ''u1'' (cache (snd (refresh_one_pending sample_pod_ext mem_s3 ''u1'' full_pod))))) = {#2, 4#}"
proof -
  let ?v = "mem_view full_bucket"
  have w: "st_view mem_contract (world full_pod) = ?v" "cache full_pod = empty_db" by (simp_all add: mem_contract_def full_pod_def sample_pod_def)
  obtain p' where run: "refresh_one_pending sample_pod_ext mem_s3 ''u1'' full_pod = (Inr (), p')"
    using refresh_answers [OF mem_store_ok mem_quiet mem_answers, of full_pod sample_pod_ext "''u1''"] w(2) by auto
  have "\<exists>ob. ?v (''pending/'' @ ''u1'' @ ''/rawdb-meta.toml'') = Some ob \<and> ob_bytes ob = ''M'' \<and> ob_etag ob = ''M''"
    by (simp add: sample_views mem_tag_def tag1_def)
  then obtain ob where meta: "?v (''pending/'' @ ''u1'' @ ''/rawdb-meta.toml'') = Some ob" "ob_bytes ob = ''M''" "ob_etag ob = ''M''" by blast
  have there: "?v (''pending/'' @ ''u1'' @ ''/'' @ fm_path f) = Some ob \<Longrightarrow> f \<in> set (rm_files sample_meta) \<Longrightarrow>
      length (ob_bytes ob) = (if f = sample_file then 4 else 2)" for f ob
    by (auto simp: sample_views sample_meta_def sample_file_def sample_file2_def)
  have all: "\<not> (\<exists>f\<in>set (rm_files sample_meta). ?v (''pending/'' @ ''u1'' @ ''/'' @ fm_path f) = None)"
    by (simp add: sample_views sample_meta_def sample_file_def sample_file2_def)
  have new: "get_pending_meta_etag ''u1'' empty_db \<noteq> Some ''M''" by (simp add: get_pending_meta_etag_def empty_db_def first_row_def)
  have pre: "db_inv (cache full_pod)" "faithful sample_pod_ext mem_contract (cache full_pod)" "bounded (st_view mem_contract (world full_pod))"
    unfolding w using sample_bounded(2) by (simp_all add: empty_faithful)
  note c = refresh_pending_exact [OF mem_store_ok mem_quiet sample_pod_time pre run, THEN conjunct1,
      unfolded w meta(1) option.case meta(2,3) sample_steps(3) sum.case if_not_P [OF all]]
  have "\<exists>t fs. map fst fs = rm_files sample_meta \<and> upload_shown sample_pod_ext ''u1'' ''M'' (with_upload_time t sample_meta) fs (cache p')
      \<and> (\<forall>(f, si)\<in>set fs. \<exists>ob. ?v (''pending/'' @ ''u1'' @ ''/'' @ fm_path f) = Some ob \<and> si_size si = length (ob_bytes ob))"
    using c new by blast
  then obtain t fs where fs: "map fst fs = rm_files sample_meta" "upload_shown sample_pod_ext ''u1'' ''M'' (with_upload_time t sample_meta) fs (cache p')"
      "\<forall>(f, si)\<in>set fs. \<exists>ob. ?v (''pending/'' @ ''u1'' @ ''/'' @ fm_path f) = Some ob \<and> si_size si = length (ob_bytes ob)" by blast
  have "\<forall>(f, si)\<in>set fs. si_size si = (if f = sample_file then 4 else 2)"
  proof safe
    fix f si assume mem: "(f, si) \<in> set fs"
    then have "f \<in> set (map fst fs)" by force
    then show "si_size si = (if f = sample_file then 4 else 2)" using bspec [OF fs(3) mem] there [of f] fs(1) by auto
  qed
  then have sz: "map (\<lambda>q. fr_size (file_row_of q)) fs = [4, 2]" by (rule sample_files_paired [OF fs(1)])
  have "mset (list_pending_files ''u1'' (cache p')) = mset (map file_row_of fs)" using fs(2) by (simp add: upload_shown_def)
  then have "mset (map fr_size (list_pending_files ''u1'' (cache p'))) = mset (map fr_size (map file_row_of fs))" by (simp only: mset_map [of fr_size])
  also have "\<dots> = mset [4, 2]" unfolding map_map comp_def sz ..
  finally show ?thesis using fs(2) by (simp add: run upload_shown_def add_mset_commute)
qed

end
