(* ===== verification/S3_Claims.thy ===== *)
theory S3_Claims imports Store_Mem Store_Delete begin

text \<open>
  The properties of the store wrapper: the resuming download, the encoding of the copy source and
  the batched deletion of a prefix.
\<close>

section \<open>Download\<close>

text \<open>A store whose connection breaks after two bytes and that answers ranged requests.\<close>

definition flaky_s3 :: "mem s3" where
  "flaky_s3 = mem_s3 \<lparr>get_object := (\<lambda>k range s.
     if range = None then (Inr \<lparr>rg_chunks = [''a'', ''b''], rg_broken = True, rg_length = Some 3, rg_type = None, rg_etag = None\<rparr>, s)
     else if range = Some ''bytes=2-'' then (Inr \<lparr>rg_chunks = [''c''], rg_broken = False, rg_length = Some 1, rg_type = None, rg_etag = None\<rparr>, s)
     else (Inl OtherFailure, s))\<rparr>"

text \<open>
  C30. \<^verbatim>\<open>download_to_file\<close> over a store that may break the stream at any byte: when it reports success, the
  file holds exactly the announced number of bytes and they are the object's bytes from the start,
  however often the download was resumed, with no byte lost, repeated or out of place.
\<close>

theorem download_no_corruption:
  assumes "serves c key content" "download_to_file c k key (length content) (s, u) = (Inr m, s', out)"
  shows "out = content \<and> m = length content"
proof -
  obtain t where e: "m = length content" "length out = length content" "content = out @ t"
    using download_exact [OF assms] by blast
  have "length t = 0" using arg_cong [OF e(3), of length] e(2) unfolding length_append by linarith
  with e(1,3) show ?thesis by auto
qed

lemma dec_eq_2: "dec n = ''2'' \<Longrightarrow> n = 2"
proof -
  assume a: "dec n = ''2''"
  have "n < 10 \<or> 10 \<le> n" by auto
  moreover have "length (dec n) \<noteq> 1" if "10 \<le> n"
  proof -
    have "dec (n div 10) \<noteq> []" by (subst dec.simps) simp
    then show ?thesis using that by (subst dec.simps) simp
  qed
  ultimately have "n < 10" using a by auto
  then have "char_of (48 + n) = CHR ''2''" using a by (subst (asm) dec.simps) simp
  then have "of_char (char_of (48 + n) :: char) = (of_char (CHR ''2'') :: nat)" by simp
  with \<open>n < 10\<close> show ?thesis by (simp only: of_char_of) simp
qed

lemma flaky_serves: "serves flaky_s3 key ''abc''"
proof -
  have "n = 2" if "dec n @ ''-'' = ''2-''" for n using that dec_eq_2 [of n] by simp
  then show ?thesis
    by (fastforce simp: serves_def get_stream_range_def cmd_defs flaky_s3_def map_errR_def
        split: option.splits if_splits)
qed

definition good_disk :: disk where
  "good_disk = \<lparr>dk_create = True, dk_write = (\<lambda>_. True), dk_sync = True\<rparr>"

lemma download_no_corruption_witness:
  "snd (snd (download_to_file flaky_s3 good_disk ''k'' 3 (\<lparr>mem_objs = [], mem_seq = 0\<rparr>, []))) = ''abc''"
proof -
  have "fst (download_to_file flaky_s3 good_disk ''k'' 3 (\<lparr>mem_objs = [], mem_seq = 0\<rparr>, [])) = Inr 3"
    by code_simp
  then obtain s' out where "download_to_file flaky_s3 good_disk ''k'' (length ''abc'') (\<lparr>mem_objs = [], mem_seq = 0\<rparr>, []) = (Inr 3, s', out)"
    by (metis (no_types) list.size(3,4) numeral_3_eq_3 One_nat_def add_Suc_right add_0_right prod.collapse)
  from download_no_corruption [OF flaky_serves this] this show ?thesis by (simp add: numeral_3_eq_3)
qed

section \<open>Copy source\<close>

lemma hex_not_encoded: "hex_value c = Some h \<Longrightarrow> \<not> encoded_byte c \<and> c \<noteq> CHR ''%''"
  by (auto simp: hex_value_def encoded_byte_def in_range_def byte_def less_eq_char_def split: if_splits)

lemma percent_decode_literal:
  assumes "\<not> (\<exists>b c r. E = b # c # r \<and> hex_value b \<noteq> None \<and> hex_value c \<noteq> None)"
  shows "percent_decode (CHR ''%'' # E) = CHR ''%'' # percent_decode E"
proof (cases E)
  case (Cons b r)
  then show ?thesis using assms by (cases r) (auto split: option.splits)
qed simp

lemma encode_Nil [simp]: "url_encode_key [] = []"
  by (simp add: url_encode_key_def percent_encode_def)

lemma encode_Cons: "url_encode_key (c # s) = (if encoded_byte c
    then [CHR ''%'', hex_digit (byte c div 16), hex_digit (byte c mod 16)] else [c]) @ url_encode_key s"
  by (simp add: url_encode_key_def percent_encode_def)

lemma hex_percent [simp]: "hex_value (CHR ''%'') = None"
  by (simp add: hex_value_def in_range_def byte_def less_eq_char_def)

lemma percent_not_encoded [simp]: "\<not> encoded_byte (CHR ''%'')"
  by (simp add: encoded_byte_def byte_def)

lemma encode_starts_hex:
  assumes "url_encode_key s = b # c # r" "hex_value b \<noteq> None" "hex_value c \<noteq> None"
  shows "\<exists>t. s = b # c # t"
proof (cases s)
  case (Cons b' s')
  then have "\<not> encoded_byte b'" "b' = b" using assms by (auto simp: encode_Cons split: if_splits)
  then have e: "url_encode_key s' = c # r" using assms Cons by (simp add: encode_Cons)
  then obtain c' s'' where s': "s' = c' # s''" by (cases s') auto
  then have "c' = c" using e assms(3) by (auto simp: encode_Cons split: if_splits)
  with s' \<open>b' = b\<close> Cons show ?thesis by simp
qed (use assms in simp)

lemma decode_encoded: "encoded_byte c \<Longrightarrow> percent_decode (url_encode_key (c # s)) = c # percent_decode (url_encode_key s)"
  by (simp add: encode_Cons hex_digit_value byte_parts)

text \<open>
  The copy source the wrapper sends for a key names the object \<^verbatim>\<open>percent_decode key\<close>: the encoding is
  faithful for every other byte, but a percent sign is not encoded, so a key is copied from itself
  exactly when it contains no percent escape.
\<close>

lemma copy_source_names: "percent_decode (url_encode_key key) = percent_decode key"
proof (induction "length key" arbitrary: key rule: less_induct)
  case less
  show ?case
  proof (cases key)
    case (Cons a s)
    note IH = less [of s, unfolded Cons, simplified]
    consider "encoded_byte a" | "\<not> encoded_byte a" "a \<noteq> CHR ''%''" | "a = CHR ''%''" by blast
    then show ?thesis
    proof cases
      case 1
      then have "a \<noteq> CHR ''%''" by auto
      with 1 show ?thesis using IH by (simp add: Cons decode_encoded percent_decode_plain)
    next
      case 2
      then show ?thesis using IH by (simp add: Cons encode_Cons percent_decode_plain)
    next
      case 3
      show ?thesis
      proof (cases "\<exists>b c t. s = b # c # t \<and> hex_value b \<noteq> None \<and> hex_value c \<noteq> None")
        case True
        then obtain b c t where s: "s = b # c # t" "hex_value b \<noteq> None" "hex_value c \<noteq> None" by blast
        then have "\<not> encoded_byte b" "\<not> encoded_byte c" using hex_not_encoded by blast+
        moreover have "percent_decode (url_encode_key t) = percent_decode t" using less [of t] Cons s by simp
        ultimately show ?thesis using s 3 by (auto simp: Cons encode_Cons)
      next
        case False
        then have "\<not> (\<exists>b c r. url_encode_key s = b # c # r \<and> hex_value b \<noteq> None \<and> hex_value c \<noteq> None)"
          using encode_starts_hex by blast
        then show ?thesis using IH False 3 by (simp add: Cons encode_Cons percent_decode_literal)
      qed
    qed
  qed simp
qed

section \<open>Deleting a prefix\<close>

text \<open>
  Deleting a prefix never touches an object outside it; when it succeeds, an object of the
  prefix is left, unchanged, only if the store may refuse to delete it inside an answered batch, which the
  code does not notice; the reported number is that of the listed objects, which were passed in non-empty
  batches of at most a thousand keys, as the service demands.
\<close>

lemma delete_prefix_exact:
  assumes "store_ok c S" "quiet S" "delete_prefix c prefix s = (r, s')"
  shows "(\<forall>k. \<not> starts_with prefix k \<longrightarrow> st_view S s' k = st_view S s k)
     \<and> (case r of Inl _ \<Rightarrow> True | Inr n \<Rightarrow>
          (\<forall>k. starts_with prefix k \<longrightarrow> st_view S s' k = None \<or> refusable c k \<and> st_view S s' k = st_view S s k) \<and>
          (\<exists>objs t. list_objects c prefix s = (Inr objs, t) \<and> n = length objs
             \<and> list_all (\<lambda>b. b \<noteq> [] \<and> length b \<le> 1000) (chunks 1000 objs)))"
  using delete_prefix_view [OF assms] .

lemma delete_prefix_exact_witness:
  "mem_view (snd (delete_prefix mem_s3 ''p/'' (mem_put ''p/x'' ''A'' (mem_put ''q'' ''B'' \<lparr>mem_objs = [], mem_seq = 0\<rparr>)))) ''q'' =
   mem_view (mem_put ''p/x'' ''A'' (mem_put ''q'' ''B'' \<lparr>mem_objs = [], mem_seq = 0\<rparr>)) ''q''"
proof -
  have q: "quiet mem_contract" by (simp add: quiet_def mem_contract_def)
  obtain r s' where d: "delete_prefix mem_s3 ''p/'' (mem_put ''p/x'' ''A'' (mem_put ''q'' ''B'' \<lparr>mem_objs = [], mem_seq = 0\<rparr>)) = (r, s')"
    by fastforce
  have "\<not> starts_with ''p/'' ''q''" by (simp add: starts_with_def)
  with delete_prefix_exact [OF mem_store_ok q d] show ?thesis by (simp add: d mem_contract_def)
qed

end
