(* ===== verification/Responses.thy ===== *)
theory Responses imports App "HOL-Library.AList" begin

text \<open>
  \<^verbatim>\<open>src/backend/src/cache/responses.rs\<close>: the in-memory cache of response bodies, a map from keys to
  entries that are valid while their stamp is the current one, and the conditional response. The
  lookup metric is dropped. The last part is the interleaving of requests with the cache's writers:
  a request takes the stamp, looks up, builds and stores in separate steps, and a write bumps its
  domain's counter only after it has committed.
\<close>

section \<open>The cache\<close>

definition MAX_ENTRIES :: nat where "MAX_ENTRIES = 256"

record cached =
  ca_stamp :: nat
  ca_body :: string
  ca_etag :: string
  ca_type :: string

type_synonym responses = "(string \<times> cached) list"

definition etag_for :: "'s app \<Rightarrow> string \<Rightarrow> string" where
  "etag_for a body = ''W/'' @ [CHR 0x22] @ hex (take 16 (sha256 a body)) @ [CHR 0x22]"

definition response_key :: "string \<Rightarrow> string \<Rightarrow> string" where
  "response_key name variant = name @ '':'' @ variant"

definition lookup_entry :: "string \<Rightarrow> nat \<Rightarrow> responses \<Rightarrow> cached option" where
  "lookup_entry key st entries = (case map_of entries key of
       None \<Rightarrow> None | Some c \<Rightarrow> if ca_stamp c = st then Some c else None)"

definition store_entry :: "string \<Rightarrow> cached \<Rightarrow> responses \<Rightarrow> responses" where
  "store_entry key entry entries =
     (let entries1 = (if MAX_ENTRIES \<le> length entries \<and> map_of entries key = None then [] else entries)
      in AList.update key entry entries1)"

definition new_entry :: "'s app \<Rightarrow> nat \<Rightarrow> string \<Rightarrow> string \<Rightarrow> cached" where
  "new_entry a st content_type body =
     \<lparr>ca_stamp = st, ca_body = body, ca_etag = etag_for a body, ca_type = content_type\<rparr>"

definition get_or_build ::
  "'s app \<Rightarrow> string \<Rightarrow> string \<Rightarrow> nat \<Rightarrow> string \<Rightarrow> (app_error + string) \<Rightarrow> (responses, app_error, cached) cmd" where
  "get_or_build a name variant st content_type build = (\<lambda>entries.
     (let key = response_key name variant in
      case lookup_entry key st entries of
        Some hit \<Rightarrow> (Inr hit, entries)
      | None \<Rightarrow> (case build of
          Inl e \<Rightarrow> (Inl e, entries)
        | Inr body \<Rightarrow> (let entry = new_entry a st content_type body in
            (Inr entry, store_entry key entry entries)))))"

section \<open>The conditional response\<close>

text \<open>\<^verbatim>\<open>trim_start_matches("W/")\<close>\<close>

function trim_weak :: "string \<Rightarrow> string" where
  "trim_weak s = (case strip_prefix ''W/'' s of Some r \<Rightarrow> trim_weak r | None \<Rightarrow> s)"
  by auto
termination
  by (relation "measure length") (auto simp: strip_prefix_Some)

declare trim_weak.simps [simp del]

text \<open>The values of the request's \<^verbatim>\<open>If-None-Match\<close> headers that are visible ASCII.\<close>

definition if_none_match :: "string list \<Rightarrow> string \<Rightarrow> bool" where
  "if_none_match headers etag =
     list_ex (\<lambda>t. t = ''*'' \<or> trim_weak t = trim_weak etag)
       (map trim (concat (map (split_on (CHR '','')) headers)))"

record response =
  rs_status :: nat
  rs_headers :: "(string \<times> string) list"
  rs_body :: string

definition respond :: "cached \<Rightarrow> string list \<Rightarrow> string \<Rightarrow> response" where
  "respond c headers cache_control =
     (if if_none_match headers (ca_etag c)
      then \<lparr>rs_status = 304, rs_headers = [(''etag'', ca_etag c), (''cache-control'', cache_control)], rs_body = []\<rparr>
      else \<lparr>rs_status = 200, rs_headers = [(''content-type'', ca_type c), (''etag'', ca_etag c),
              (''cache-control'', cache_control)], rs_body = ca_body c\<rparr>)"

lemma length_update: "length (AList.update k v xs) \<le> Suc (length xs)"
  "map_of xs k \<noteq> None \<Longrightarrow> length (AList.update k v xs) = length xs"
  by (induction xs) auto

lemma store_entry_bound: "length entries \<le> MAX_ENTRIES \<Longrightarrow> length (store_entry k e entries) \<le> MAX_ENTRIES"
  using length_update(1) [of k e entries] length_update(2) [of entries k e]
  by (cases "map_of entries k = None"; cases "MAX_ENTRIES \<le> length entries")
     (auto simp: store_entry_def Let_def MAX_ENTRIES_def)

lemma store_entry_of: "map_of (store_entry k e entries) k = Some e"
  by (simp add: store_entry_def Let_def update_conv')

lemma store_entry_other: "j \<noteq> k \<Longrightarrow> map_of (store_entry k e entries) j = Some c \<Longrightarrow> map_of entries j = Some c"
  by (auto simp: store_entry_def Let_def update_conv' split: if_splits)

text \<open>A client that sends back the tag it was given gets 304, whatever the weakness marks.\<close>

lemma trim_weak_idem: "trim_weak (trim_weak s) = trim_weak s"
proof (induction s rule: trim_weak.induct)
  case (1 s)
  show ?case
  proof (cases "strip_prefix ''W/'' s")
    case None
    then have "trim_weak s = s" by (subst trim_weak.simps) simp
    then show ?thesis by simp
  next
    case (Some r)
    then have "trim_weak s = trim_weak r" by (subst trim_weak.simps) simp
    with 1 Some show ?thesis by simp
  qed
qed

section \<open>Requests and writers interleaved\<close>

text \<open>An endpoint: its key, the domains it takes the stamp over, and what it would build now.\<close>

record endpoint =
  ep_name :: string
  ep_variant :: string
  ep_domains :: "domain list"
  ep_render :: "db \<Rightarrow> app_error + string"

definition ep_key :: "endpoint \<Rightarrow> string" where
  "ep_key e = response_key (ep_name e) (ep_variant e)"

datatype phase = Stamped | Built string

text \<open>The tables, the entries, the writes that committed but did not bump yet, the running requests.\<close>

record shared =
  sh_db :: db
  sh_entries :: responses
  sh_unbumped :: "domain list"
  sh_running :: "(endpoint \<times> nat \<times> phase) list"

text \<open>Two databases that agree on what a domain's writes can change; and a render that reads no more.\<close>

definition same_domain :: "domain \<Rightarrow> db \<Rightarrow> db \<Rightarrow> bool" where
  "same_domain k d d' = (case k of
       Sets \<Rightarrow> sets d' = sets d \<and> files d' = files d \<and> tags d' = tags d \<and> sets_fts d' = sets_fts d
     | Pending \<Rightarrow> pending_sets d' = pending_sets d \<and> pending_files d' = pending_files d
     | Scan \<Rightarrow> scan_state d' = scan_state d)"

definition reads_only :: "domain list \<Rightarrow> (db \<Rightarrow> 'a) \<Rightarrow> bool" where
  "reads_only ks f \<longleftrightarrow> (\<forall>d d'. (\<forall>k\<in>set ks. same_domain k d d') \<longrightarrow> f d' = f d)"

inductive interleave :: "'s app \<Rightarrow> endpoint set \<Rightarrow> shared \<Rightarrow> shared \<Rightarrow> bool" for a eps where
  take_stamp: "ep \<in> eps \<Longrightarrow>
     interleave a eps s (s \<lparr>sh_running := (ep, stamp (ep_domains ep) (sh_db s), Stamped) # sh_running s\<rparr>)"
| build: "sh_running s = xs @ (ep, n, Stamped) # ys \<Longrightarrow> ep_render ep (sh_db s) = Inr body \<Longrightarrow>
     interleave a eps s (s \<lparr>sh_running := xs @ (ep, n, Built body) # ys\<rparr>)"
| fail: "sh_running s = xs @ (ep, n, Stamped) # ys \<Longrightarrow> interleave a eps s (s \<lparr>sh_running := xs @ ys\<rparr>)"
| store: "sh_running s = xs @ (ep, n, Built body) # ys \<Longrightarrow>
     interleave a eps s (s \<lparr>sh_running := xs @ ys,
       sh_entries := store_entry (ep_key ep) (new_entry a n ct body) (sh_entries s)\<rparr>)"
| commit_write: "(\<And>j. j \<noteq> k \<Longrightarrow> same_domain j (sh_db s) d') \<Longrightarrow> gens d' = gens (sh_db s) \<Longrightarrow>
     interleave a eps s (s \<lparr>sh_db := d', sh_unbumped := k # sh_unbumped s\<rparr>)"
| bump_write: "k \<in> set (sh_unbumped s) \<Longrightarrow>
     interleave a eps s (s \<lparr>sh_db := bump k (sh_db s), sh_unbumped := remove1 k (sh_unbumped s)\<rparr>)"

inductive reached :: "'s app \<Rightarrow> endpoint set \<Rightarrow> shared \<Rightarrow> bool" for a eps where
  start: "reached a eps \<lparr>sh_db = d, sh_entries = [], sh_unbumped = [], sh_running = []\<rparr>"
| step: "reached a eps s \<Longrightarrow> interleave a eps s s' \<Longrightarrow> reached a eps s'"

end
