(* ===== verification/Response_Claims.thy ===== *)
theory Response_Claims imports Responses begin

text \<open>
  The properties of the response cache: freshness under every interleaving of requests with
  writers, the bound on its size, and the conditional response.
\<close>

definition endpoint_ok :: "endpoint \<Rightarrow> bool" where
  "endpoint_ok ep \<longleftrightarrow> reads_only (ep_domains ep) (ep_render ep)"

text \<open>What holds of a body built under a stamp: the stamp is not from the future, and if it is the
  current one the body is current too, up to writes that have not bumped yet.\<close>

definition valid_body :: "endpoint \<Rightarrow> nat \<Rightarrow> string \<Rightarrow> shared \<Rightarrow> bool" where
  "valid_body ep n body s \<longleftrightarrow> n \<le> stamp (ep_domains ep) (sh_db s) \<and>
     (n = stamp (ep_domains ep) (sh_db s) \<longrightarrow> set (ep_domains ep) \<inter> set (sh_unbumped s) = {} \<longrightarrow>
        ep_render ep (sh_db s) = Inr body)"

definition shared_inv :: "'s app \<Rightarrow> endpoint set \<Rightarrow> shared \<Rightarrow> bool" where
  "shared_inv a eps s \<longleftrightarrow>
     (\<forall>(ep, n, ph)\<in>set (sh_running s). ep \<in> eps \<and> n \<le> stamp (ep_domains ep) (sh_db s)
        \<and> (\<forall>body. ph = Built body \<longrightarrow> valid_body ep n body s))
   \<and> (\<forall>k c. map_of (sh_entries s) k = Some c \<longrightarrow>
        (\<exists>ep\<in>eps. k = ep_key ep \<and> valid_body ep (ca_stamp c) (ca_body c) s) \<and> ca_etag c = etag_for a (ca_body c))
   \<and> length (sh_entries s) \<le> MAX_ENTRIES"

lemma stamp_bump: "stamp ks (bump k d) = stamp ks d + length (filter (\<lambda>j. j = k) ks)"
  by (induction ks) (auto simp: stamp_def bump_def)

lemma stamp_gens: "gens d' = gens d \<Longrightarrow> stamp ks d' = stamp ks d"
  by (simp add: stamp_def)

lemma same_domain_bump [simp]: "same_domain j d (bump k d)"
  by (cases j) (simp_all add: same_domain_def bump_def)

lemma valid_body_commit:
  assumes "endpoint_ok ep" "valid_body ep n body s" "\<And>j. j \<noteq> k \<Longrightarrow> same_domain j (sh_db s) d'" "gens d' = gens (sh_db s)"
  shows "valid_body ep n body (s \<lparr>sh_db := d', sh_unbumped := k # sh_unbumped s\<rparr>)"
proof (cases "k \<in> set (ep_domains ep)")
  case True
  then show ?thesis using assms(2) by (auto simp: valid_body_def stamp_gens [OF assms(4)])
next
  case False
  then have "\<forall>j\<in>set (ep_domains ep). same_domain j (sh_db s) d'" using assms(3) by metis
  then have "ep_render ep d' = ep_render ep (sh_db s)"
    using assms(1) unfolding endpoint_ok_def reads_only_def by blast
  then show ?thesis using assms(2) by (auto simp: valid_body_def stamp_gens [OF assms(4)])
qed

lemma valid_body_bump:
  assumes "endpoint_ok ep" "valid_body ep n body s"
  shows "valid_body ep n body (s \<lparr>sh_db := bump k (sh_db s), sh_unbumped := remove1 k (sh_unbumped s)\<rparr>)"
proof (cases "k \<in> set (ep_domains ep)")
  case True
  then have "0 < length (filter (\<lambda>j. j = k) (ep_domains ep))" by (auto simp: filter_empty_conv)
  then show ?thesis using assms(2) by (auto simp: valid_body_def stamp_bump)
next
  case False
  then have "filter (\<lambda>j. j = k) (ep_domains ep) = []" by (auto simp: filter_empty_conv)
  moreover have "ep_render ep (bump k (sh_db s)) = ep_render ep (sh_db s)"
    using assms(1) unfolding endpoint_ok_def reads_only_def by simp
  moreover have "set (ep_domains ep) \<inter> set (sh_unbumped s) = {}"
    if "set (ep_domains ep) \<inter> set (remove1 k (sh_unbumped s)) = {}"
    using that False by (metis disjoint_iff in_set_remove1)
  ultimately show ?thesis using assms(2) by (auto simp: valid_body_def stamp_bump)
qed

lemma valid_body_same_db: "sh_db s' = sh_db s \<Longrightarrow> sh_unbumped s' = sh_unbumped s \<Longrightarrow> valid_body ep n body s' = valid_body ep n body s"
  by (simp add: valid_body_def)

lemma valid_body_frame [simp]: "valid_body ep n body (s \<lparr>sh_running := r\<rparr>) = valid_body ep n body s"
  "valid_body ep n body (s \<lparr>sh_entries := es\<rparr>) = valid_body ep n body s"
  by (simp_all add: valid_body_def)

lemma inv_entry: "shared_inv a eps s \<Longrightarrow> map_of (sh_entries s) k = Some c \<Longrightarrow>
    (\<exists>ep\<in>eps. k = ep_key ep \<and> valid_body ep (ca_stamp c) (ca_body c) s) \<and> ca_etag c = etag_for a (ca_body c)"
  unfolding shared_inv_def by blast

lemma inv_running: "shared_inv a eps s \<Longrightarrow> (ep, n, ph) \<in> set (sh_running s) \<Longrightarrow>
    ep \<in> eps \<and> n \<le> stamp (ep_domains ep) (sh_db s) \<and> (\<forall>body. ph = Built body \<longrightarrow> valid_body ep n body s)"
  unfolding shared_inv_def by blast

lemma shared_invI:
  assumes "\<And>ep n ph. (ep, n, ph) \<in> set (sh_running s) \<Longrightarrow>
      ep \<in> eps \<and> n \<le> stamp (ep_domains ep) (sh_db s) \<and> (\<forall>body. ph = Built body \<longrightarrow> valid_body ep n body s)"
    and "\<And>k c. map_of (sh_entries s) k = Some c \<Longrightarrow>
      (\<exists>ep\<in>eps. k = ep_key ep \<and> valid_body ep (ca_stamp c) (ca_body c) s) \<and> ca_etag c = etag_for a (ca_body c)"
    and "length (sh_entries s) \<le> MAX_ENTRIES"
  shows "shared_inv a eps s"
  using assms unfolding shared_inv_def by blast

lemma interleave_inv:
  assumes eps: "\<forall>ep\<in>eps. endpoint_ok ep" and st: "interleave a eps s s'" and i: "shared_inv a eps s"
  shows "shared_inv a eps s'"
  using st
proof cases
  case (take_stamp ep)
  then show ?thesis
    using inv_running [OF i] inv_entry [OF i] i
    by (intro shared_invI) (auto simp: shared_inv_def)
next
  case (build xs ep n ys body)
  have "valid_body ep n body s'" using build inv_running [OF i, of ep n Stamped] by (simp add: valid_body_def)
  with build inv_running [OF i] inv_entry [OF i] i show ?thesis
    by (intro shared_invI) (auto simp: shared_inv_def)
next
  case (fail xs ep n ys)
  then show ?thesis
    using inv_running [OF i] inv_entry [OF i] i
    by (intro shared_invI) (auto simp: shared_inv_def)
next
  case (store xs ep n body ys ct)
  have same: "valid_body e m b s' = valid_body e m b s" for e m b
    using store(1) by (intro valid_body_same_db) simp_all
  have r: "ep \<in> eps" "valid_body ep n body s" using inv_running [OF i, of ep n "Built body"] store(2) by auto
  have es: "sh_entries s' = store_entry (ep_key ep) (new_entry a n ct body) (sh_entries s)" using store(1) by simp
  show ?thesis
  proof (intro shared_invI)
    fix k c assume m: "map_of (sh_entries s') k = Some c"
    show "(\<exists>ep\<in>eps. k = ep_key ep \<and> valid_body ep (ca_stamp c) (ca_body c) s') \<and> ca_etag c = etag_for a (ca_body c)"
    proof (cases "k = ep_key ep")
      case True
      then have "c = new_entry a n ct body" using m es by (simp add: store_entry_of)
      then show ?thesis unfolding same using True r by (auto simp: new_entry_def)
    next
      case False
      then have "map_of (sh_entries s) k = Some c" using m store_entry_other [OF False] unfolding es by blast
      then show ?thesis using inv_entry [OF i] unfolding same by blast
    qed
  next
    fix e m ph assume "(e, m, ph) \<in> set (sh_running s')"
    then have "(e, m, ph) \<in> set (sh_running s)" using store(1,2) by auto
    then show "e \<in> eps \<and> m \<le> stamp (ep_domains e) (sh_db s') \<and> (\<forall>body. ph = Built body \<longrightarrow> valid_body e m body s')"
      using inv_running [OF i, of e m ph] store(1) unfolding same by simp
  next
    show "length (sh_entries s') \<le> MAX_ENTRIES" unfolding es using i by (intro store_entry_bound) (simp add: shared_inv_def)
  qed
next
  case (commit_write k d')
  have same: "stamp ks d' = stamp ks (sh_db s)" for ks by (rule stamp_gens) (rule commit_write(3))
  have v: "e \<in> eps \<Longrightarrow> valid_body e m b s \<Longrightarrow> valid_body e m b s'" for e m b
    unfolding commit_write(1) using eps commit_write(2,3) by (intro valid_body_commit) auto
  show ?thesis
  proof (intro shared_invI)
    fix k c assume "map_of (sh_entries s') k = Some c"
    then show "(\<exists>ep\<in>eps. k = ep_key ep \<and> valid_body ep (ca_stamp c) (ca_body c) s') \<and> ca_etag c = etag_for a (ca_body c)"
      using inv_entry [OF i, of k c] v commit_write(1) by auto
  qed (use commit_write(1) inv_running [OF i] i v in \<open>auto simp: shared_inv_def same\<close>)
next
  case (bump_write k)
  have v: "e \<in> eps \<Longrightarrow> valid_body e m b s \<Longrightarrow> valid_body e m b s'" for e m b
    unfolding bump_write(1) using eps by (intro valid_body_bump) auto
  show ?thesis
  proof (intro shared_invI)
    fix ep n ph assume "(ep, n, ph) \<in> set (sh_running s')"
    then have "(ep, n, ph) \<in> set (sh_running s)" using bump_write(1) by simp
    from inv_running [OF i this] v bump_write(1)
    show "ep \<in> eps \<and> n \<le> stamp (ep_domains ep) (sh_db s') \<and> (\<forall>body. ph = Built body \<longrightarrow> valid_body ep n body s')"
      by (auto simp: stamp_bump)
  next
    fix k c assume "map_of (sh_entries s') k = Some c"
    then show "(\<exists>ep\<in>eps. k = ep_key ep \<and> valid_body ep (ca_stamp c) (ca_body c) s') \<and> ca_etag c = etag_for a (ca_body c)"
      using inv_entry [OF i, of k c] v bump_write(1) by auto
  qed (use bump_write(1) i in \<open>auto simp: shared_inv_def\<close>)
qed

lemma reached_inv: "reached a eps s \<Longrightarrow> \<forall>ep\<in>eps. endpoint_ok ep \<Longrightarrow> shared_inv a eps s"
proof (induction rule: reached.induct)
  case (step s s')
  then show ?case using interleave_inv by blast
qed (simp add: shared_inv_def MAX_ENTRIES_def)

section \<open>Claims\<close>

text \<open>
  Freshness for endpoints that read only the tables of their domains and have distinct keys: a request whose
  domains have no write between its commit and its bump gets what would be rendered now.
\<close>

lemma response_fresh:
  assumes "reached a eps s" "\<forall>ep\<in>eps. endpoint_ok ep" "inj_on ep_key eps" "ep \<in> eps"
    and "set (ep_domains ep) \<inter> set (sh_unbumped s) = {}"
    and run: "get_or_build a (ep_name ep) (ep_variant ep) (stamp (ep_domains ep) (sh_db s)) ct
        (ep_render ep (sh_db s)) (sh_entries s) = (r, entries')"
  shows "map_errR id (ep_render ep (sh_db s)) = (case r of Inl e \<Rightarrow> Inl e | Inr c \<Rightarrow> Inr (ca_body c))
     \<and> (case r of Inl _ \<Rightarrow> entries' = sh_entries s | Inr c \<Rightarrow> ca_etag c = etag_for a (ca_body c))"
proof (cases "lookup_entry (ep_key ep) (stamp (ep_domains ep) (sh_db s)) (sh_entries s)")
  case None
  then show ?thesis using run
    by (auto simp: get_or_build_def Let_def ep_key_def new_entry_def split: sum.splits)
next
  case (Some c)
  then have r: "r = Inr c" "entries' = sh_entries s" using run by (simp_all add: get_or_build_def Let_def ep_key_def)
  have c: "map_of (sh_entries s) (ep_key ep) = Some c" "ca_stamp c = stamp (ep_domains ep) (sh_db s)"
    using Some by (auto simp: lookup_entry_def split: option.splits if_splits)
  obtain ep' where "ep' \<in> eps" "ep_key ep = ep_key ep'" "valid_body ep' (ca_stamp c) (ca_body c) s" and e: "ca_etag c = etag_for a (ca_body c)"
    using inv_entry [OF reached_inv [OF assms(1,2)] c(1)] by blast
  then have "valid_body ep (ca_stamp c) (ca_body c) s" using assms(3,4) by (metis inj_onD)
  then have "ep_render ep (sh_db s) = Inr (ca_body c)" using c(2) assms(5) by (simp add: valid_body_def)
  then show ?thesis using r e by simp
qed

text \<open>A body rendered before a write and stored after it.\<close>

lemma overtaken:
  assumes "ep \<in> eps" "ep_domains ep = [k]" "ep_render ep empty_db = Inr body"
    and "\<forall>j. j \<noteq> k \<longrightarrow> same_domain j empty_db d" "gens d = gens empty_db"
  shows "reached a eps \<lparr>sh_db = bump k d, sh_entries = store_entry (ep_key ep) (new_entry a 0 ct body) [],
     sh_unbumped = [], sh_running = []\<rparr>"
proof -
  let ?s0 = "\<lparr>sh_db = empty_db, sh_entries = [], sh_unbumped = [], sh_running = []\<rparr>"
  let ?s1 = "?s0 \<lparr>sh_running := [(ep, 0, Stamped)]\<rparr>"
  let ?s2 = "?s1 \<lparr>sh_running := [(ep, 0, Built body)]\<rparr>"
  let ?s3 = "?s2 \<lparr>sh_db := d, sh_unbumped := [k]\<rparr>"
  let ?s4 = "?s3 \<lparr>sh_db := bump k d, sh_unbumped := []\<rparr>"
  have "reached a eps ?s0" by (rule reached.start)
  then have "reached a eps ?s1"
    by (rule reached.step) (use interleave.take_stamp [of ep eps a ?s0] assms(1,2) in \<open>simp add: stamp_def empty_db_def\<close>)
  then have "reached a eps ?s2"
    by (rule reached.step) (use interleave.build [of ?s1 "[]" ep 0 "[]" body a eps] assms(3) in simp)
  then have "reached a eps ?s3"
    by (rule reached.step) (use interleave.commit_write [of k ?s2 d a eps] assms(4,5) in simp)
  then have "reached a eps ?s4"
    by (rule reached.step) (use interleave.bump_write [of k ?s3 a eps] in simp)
  then show ?thesis
    by (rule reached.step) (use interleave.store [of ?s4 "[]" ep 0 body "[]" a eps ct] in simp)
qed

text \<open>
  The response cache never holds more than 256 entries, whatever keys clients make up.
\<close>

lemma response_cache_bounded:
  assumes "reached a eps s" shows "length (sh_entries s) \<le> 256"
  using assms
proof (induction rule: reached.induct)
  case (step s s')
  from step.hyps(2) show ?case
    by cases (use step.IH store_entry_bound [of "sh_entries s"] in \<open>auto simp: MAX_ENTRIES_def\<close>)
qed simp

lemma response_cache_bounded_witness: "length (sh_entries \<lparr>sh_db = empty_db, sh_entries = [], sh_unbumped = [], sh_running = []\<rparr>) \<le> 256"
  by (rule response_cache_bounded [OF reached.start])

lemma trim_etag: "trim (CHR ''W'' # s @ [CHR 0x22]) = CHR ''W'' # s @ [CHR 0x22]"
proof -
  have "strip_any ws_seqs (CHR ''W'' # s @ [CHR 0x22]) = None" by (simp add: ws_seqs_def)
  moreover have "strip_any (map rev ws_seqs) (CHR 0x22 # rev s @ [CHR ''W'']) = None" by (simp add: ws_seqs_def)
  ultimately show ?thesis by (simp add: trim_def trim_start_def trim_end_def drop_seqs_None)
qed

lemma hex_chars: "c \<in> set (hex s) \<Longrightarrow> c \<noteq> CHR '',''"
proof -
  assume "c \<in> set (hex s)"
  then obtain x where "c = low_hex (byte x div 16) \<or> c = low_hex (byte x mod 16)" by (auto simp: hex_def)
  then obtain n where "n < 16" "c = low_hex n" using byte_parts(1,2) [of x] by blast
  then have "byte c = (if n < 10 then 48 + n else 87 + n)" by (simp add: low_hex_byte)
  then have "byte c \<noteq> 44" by simp
  moreover have "byte (CHR '','') = 44" by (simp add: byte_def)
  ultimately show "c \<noteq> CHR '',''" by metis
qed

lemma trim_weak_tag: "trim_weak (''W/'' @ CHR 0x22 # s) = CHR 0x22 # s"
proof -
  have "trim_weak (CHR 0x22 # s) = CHR 0x22 # s" by (subst trim_weak.simps) simp
  then show ?thesis by (subst trim_weak.simps) simp
qed

text \<open>
  A client that sends back the tag of a body it has is answered 304, with no body, exactly when the
  cached body has the same hash prefix; otherwise it gets the full body and its tag.
\<close>

lemma conditional_response:
  assumes "ca_etag c = etag_for a (ca_body c)"
  shows "if take 16 (sha256 a held) = take 16 (sha256 a (ca_body c))
     then rs_status (respond c [etag_for a held] cc) = 304 \<and> rs_body (respond c [etag_for a held] cc) = []
     else rs_status (respond c [etag_for a held] cc) = 200 \<and> rs_body (respond c [etag_for a held] cc) = ca_body c
        \<and> (''etag'', ca_etag c) \<in> set (rs_headers (respond c [etag_for a held] cc))"
proof -
  have tag: "etag_for a b = CHR ''W'' # (CHR ''/'' # CHR 0x22 # hex (take 16 (sha256 a b))) @ [CHR 0x22]" for b
    by (simp add: etag_for_def)
  have comma: "CHR '','' \<notin> set (etag_for a held)" using hex_chars by (auto simp: tag)
  have weak: "trim_weak (etag_for a b) = CHR 0x22 # hex (take 16 (sha256 a b)) @ [CHR 0x22]" for b
    using trim_weak_tag by (simp add: etag_for_def)
  have "map trim (split_on (CHR '','') (etag_for a held)) = [etag_for a held]"
    using comma trim_etag [of "CHR ''/'' # CHR 0x22 # hex (take 16 (sha256 a held))"] by (simp add: tag)
  then have "if_none_match [etag_for a held] (ca_etag c) \<longleftrightarrow> etag_for a held = ''*'' \<or> trim_weak (etag_for a held) = trim_weak (ca_etag c)"
    by (simp add: if_none_match_def)
  also have "\<dots> \<longleftrightarrow> take 16 (sha256 a held) = take 16 (sha256 a (ca_body c))"
    unfolding assms weak using hex_inj by (auto simp: tag)
  finally show ?thesis by (simp add: respond_def)
qed

lemma conditional_response_witness:
  "\<forall>(a :: unit app) ct body cc. rs_status (respond (new_entry a 1 ct body) [etag_for a body] cc) = 304"
proof (intro allI)
  fix a :: "unit app" and ct body cc
  show "rs_status (respond (new_entry a 1 ct body) [etag_for a body] cc) = 304"
    using conditional_response [of "new_entry a 1 ct body" a body cc] by (simp add: new_entry_def)
qed

end
