(* ===== verification/Sample_App.thy ===== *)
theory Sample_App imports App Sample_Pod begin

text \<open>
  A concrete application for the instances of the properties: settings that pass the start-up check,
  the in-memory bucket, and stand-ins for the libraries' functions.
\<close>

definition sample_config :: config where
  "sample_config = \<lparr>bind_loopback = True, s3_conditional_writes = True, cf_upload_mode = UploadEither,
     cf_download_mode = DownloadEither, download_rate_limit = 2, download_rate_window_secs = 60,
     multipart_part_size = 5242880, max_upload_bytes = 100, blocked_extensions = [''exe''], tags_suggested = [],
     password_auth_enabled = True, admin_password = Some ''secret'', admin_password_hash = None,
     session_key = replicate 32 (CHR ''k''), session_ttl_secs = 3600,
     oidc_issuer_url = None, oidc_client_id = None, oidc_client_secret = None, oidc_redirect_url = None,
     oidc_sub_format = SubRaw, oidc_initial_admin_sub = None,
     github_client_id = None, github_client_secret = None, github_redirect_url = None, github_initial_admin_sub = None,
     public_url = None, feed_limit = 10, feed_published_title = [], feed_pending_title = [],
     inspect_cache_ttl_secs = 60, inspect_max_file_bytes = 1000\<rparr>"

definition sample_app :: "mem app" where
  "sample_app = \<lparr>app_config = sample_config, app_s3 = mem_s3, externals = sample_pod_ext,
     entropy = (\<lambda>n s. (replicate n (char_of (mem_seq s)), s \<lparr>mem_seq := mem_seq s + 1\<rparr>)),
     sha256 = (\<lambda>s. s), timestamp = int, hash_path = length, parse_ip = (\<lambda>s. Some s), tick_body = (\<lambda>nonce ts reason. Some nonce),
     jwt_encode = (\<lambda>key s. Some (se_sub s)),
     jwt_decode = (\<lambda>key now t. Some \<lparr>se_sub = t, se_source = ''oidc'', se_roles = [''admin''], se_exp = 0\<rparr>),
     argon2_verify = (\<lambda>h p. Some (h = p)),
     presign_get = (\<lambda>k. ret k), presign_put = (\<lambda>k. ret k), presign_upload_part = (\<lambda>k u n. ret k)\<rparr>"

lemma sample_app_simps [simp]:
  "app_s3 sample_app = mem_s3" "externals sample_app = sample_pod_ext" "app_config sample_app = sample_config"
  by (simp_all add: sample_app_def)

lemma mem_view_seq [simp]: "mem_view (s \<lparr>mem_seq := n\<rparr>) = mem_view s"
  by (simp add: mem_view_def fun_eq_iff)

text \<open>The wrapper's operations on the bucket in memory.\<close>

lemma mem_put_bytes [simp]: "put_bytes mem_s3 k body ct None None s = (Inr (mem_tag body), mem_put k body s)"
  by (simp add: put_bytes_def cmd_defs mem_s3_def strip_quoted tag_quote_free)

lemma mem_head [simp]: "head mem_s3 k s = (case mem_view s k of
     None \<Rightarrow> (Inr None, s)
   | Some ob \<Rightarrow> (Inr (Some \<lparr>hi_size = length (ob_bytes ob), hi_etag = Some (strip_etag_quotes (quoted (ob_etag ob))),
        hi_modified = Some (ob_modified ob)\<rparr>), s))"
  by (simp add: head_def cmd_defs mem_s3_def not_found_def is_not_found_def size_of_def split: option.split)

lemma mem_get_bytes [simp]: "get_bytes mem_s3 k s = (case mem_view s k of
     None \<Rightarrow> (Inl (NotFound k), s)
   | Some ob \<Rightarrow> (Inr (ob_bytes ob, Some (strip_etag_quotes (quoted (ob_etag ob)))), s))"
  by (simp add: get_bytes_def cmd_defs mem_s3_def not_found_def is_not_found_def get_error_def split: option.split)

lemma mem_view_of: "mem_view s k = Some ob \<Longrightarrow> strip_etag_quotes (quoted (ob_etag ob)) = ob_etag ob"
  by (auto simp: mem_view_def tag_quote_free intro!: strip_quoted split: option.splits if_splits)

text \<open>The random source does not touch the bucket.\<close>

definition entropy_ok :: "'s app \<Rightarrow> 's contract \<Rightarrow> bool" where
  "entropy_ok a S \<longleftrightarrow> (\<forall>n s. st_view S (snd (entropy a n s)) = st_view S s)"

lemma sample_entropy_ok: "entropy_ok sample_app mem_contract"
  by (simp add: entropy_ok_def sample_app_def mem_contract_def)

end
