(* ===== verification/Sync_Claims.thy ===== *)
theory Sync_Claims imports Sync Sample_App begin

text \<open>The properties of the tick protocol: what a poll reports and how a bump reaches the peers.\<close>

lemma poll_result:
  assumes "store_ok c S" "quiet S" "poll_once c p = (Inr changed, p')"
  shows "st_view S (world p') = st_view S (world p)" "cache p' = cache p"
    "d \<in> set changed \<longleftrightarrow> (\<exists>obj. st_view S (world p) (tick_key d) = Some obj \<and> tick_cells p d \<noteq> Some (ob_etag obj))"
    "tick_cells p' d = (case st_view S (world p) (tick_key d) of None \<Rightarrow> tick_cells p d | Some obj \<Rightarrow> Some (ob_etag obj))"
proof -
  let ?v = "st_view S (world p)"
  obtain hs p1 where h: "heads c p = (hs, p1)" by fastforce
  note hv = heads_view [OF assms(1,2) h]
  have f: "fst ` set hs = UNIV"
  proof -
    have "fst ` set hs = set (map fst hs)" by simp
    also have "\<dots> = {SyncUsers, SyncSets, SyncPending}" using hv by simp
    also have "\<dots> = UNIV" by (metis UNIV_eq_I insertCI sync_domain.exhaust)
    finally show ?thesis .
  qed
  have dist: "distinct (map fst hs)" using hv by simp
  have heads: "\<forall>(d, h)\<in>set hs. head_of ?v d h" using hv by simp
  note pf = poll_fold [OF assms(3) [unfolded poll_once_def h prod.case] heads dist]
  show "st_view S (world p') = ?v" "cache p' = cache p" using pf hv by simp_all
  show "d \<in> set changed \<longleftrightarrow> (\<exists>obj. ?v (tick_key d) = Some obj \<and> tick_cells p d \<noteq> Some (ob_etag obj))"
    using pf hv unfolding f by (cases "?v (tick_key d)") (auto simp del: tick_key.simps)
  show "tick_cells p' d = (case ?v (tick_key d) of None \<Rightarrow> tick_cells p d | Some obj \<Rightarrow> Some (ob_etag obj))"
    using pf hv unfolding f by (cases "?v (tick_key d)") (auto simp del: tick_key.simps)
qed

text \<open>
  C31. \<^verbatim>\<open>poll_once\<close> is exact: over an undisturbed bucket a successful poll reports exactly the domains
  whose tick object exists with another etag than the remembered one, remembers what it saw,
  touches neither the bucket nor the cache, and the next poll reports nothing.
\<close>

theorem poll_once_exact:
  assumes "store_ok c S" "quiet S" "poll_once c p = (Inr changed, p')"
  shows "(\<forall>d. d \<in> set changed \<longleftrightarrow> (\<exists>obj. st_view S (world p) (tick_key d) = Some obj \<and> tick_cells p d \<noteq> Some (ob_etag obj)))
    \<and> (\<forall>d obj. st_view S (world p) (tick_key d) = Some obj \<longrightarrow> tick_cells p' d = Some (ob_etag obj))
    \<and> (\<forall>d. st_view S (world p) (tick_key d) = None \<longrightarrow> tick_cells p' d = tick_cells p d)
    \<and> st_view S (world p') = st_view S (world p) \<and> cache p' = cache p
    \<and> (\<forall>again p''. poll_once c p' = (Inr again, p'') \<longrightarrow> again = [])"
proof -
  note r = poll_result [OF assms]
  have "again = []" if "poll_once c p' = (Inr again, p'')" for again p''
  proof -
    have "d \<notin> set again" for d
      using poll_result(3) [OF assms(1,2) that, of d] r(1) r(4) [of d] by auto
    then show ?thesis by (cases again) auto
  qed
  then show ?thesis using r(1,2,3) r(4) by auto
qed

definition ticked_pod :: "mem pod" where
  "ticked_pod = \<lparr>world = mem_put ''_system/sync/users.tick'' ''n'' \<lparr>mem_objs = [], mem_seq = 0\<rparr>,
     cache = empty_db, tick_cells = (\<lambda>_. None)\<rparr>"

lemma mem_view_empty: "mem_view \<lparr>mem_objs = [], mem_seq = n\<rparr> k = None"
  by (simp add: mem_view_def)

lemma ticked_poll: "fst (poll_once mem_s3 ticked_pod) = Inr [SyncUsers]"
  by (simp add: poll_once_def heads_def ticked_pod_def cmd_defs view_put mem_view_empty seen_etag_def set_cell_def strip_quoted tag_quote_free)

lemma poll_once_exact_witness: "fst (poll_once mem_s3 (snd (poll_once mem_s3 ticked_pod))) \<in> {Inl (), Inr []}"
proof -
  obtain p' where p': "poll_once mem_s3 ticked_pod = (Inr [SyncUsers], p')" using ticked_poll by (metis prod.collapse)
  obtain r p'' where r: "poll_once mem_s3 p' = (r, p'')" by fastforce
  with poll_once_exact [OF mem_store_ok mem_quiet p'] show ?thesis unfolding p' by (cases r) auto
qed

lemma bump_one_writes:
  assumes "store_ok (app_s3 a) S" "quiet S" "entropy_ok a S" "bump_one a reason d p = (r, p')"
    and "tick_cells p' d \<noteq> tick_cells p d"
  shows "\<exists>nonce ts body obj. tick_body a nonce ts reason = Some body \<and> ob_bytes obj = body
     \<and> st_view S (world p') = (st_view S (world p))(tick_key d \<mapsto> obj) \<and> named S (st_view S (world p'))
     \<and> p' = p \<lparr>world := world p', tick_cells := (tick_cells p)(d \<mapsto> ob_etag obj)\<rparr>"
proof -
  obtain nonce s1 where e: "entropy a 16 (world p) = (nonce, s1)" by fastforce
  have v1: "st_view S s1 = st_view S (world p)" using assms(3) e unfolding entropy_ok_def by (metis snd_conv)
  let ?ts = "clock (app_s3 a) s1"
  obtain body where b: "tick_body a nonce ?ts reason = Some body"
    using assms(4,5) e by (cases "tick_body a nonce ?ts reason") (auto simp: bump_one_def cmd_defs)
  obtain q s2 where q: "put_bytes (app_s3 a) (tick_key d) body (Some ''application/json'') None None s1 = (q, s2)" by fastforce
  obtain etag where etag: "q = Inr etag"
    using assms(4,5) e b q by (cases q) (auto simp: bump_one_def cmd_defs)
  have p': "p' = p \<lparr>world := s2, tick_cells := (tick_cells p)(d \<mapsto> etag)\<rparr>"
    using assms(4) e b q etag by (simp add: bump_one_def cmd_defs set_cell_def)
  from put_bytes_view [OF assms(1) q] obtain obj where
    "ob_bytes obj = body" "etag = ob_etag obj" "st_view S s2 = (st_view S s1)(tick_key d \<mapsto> obj)" "named S (st_view S s2)"
    using assms(2) unfolding etag quiet_def by auto
  then show ?thesis using b v1 p' by (intro exI conjI) auto
qed

text \<open>
  C32. A bump reaches every peer and not its own pod: once a pod has written and remembered a fresh
  tick, its own poll does not report the domain, and the poll of every peer whose remembered etag
  names another content than the fresh tick's does.
\<close>

theorem sync_propagates:
  assumes "store_ok (app_s3 a) S" "quiet S" "entropy_ok a S" "bump_ticks a [d] reason p = (Inr () :: 'e + unit, p')"
    and "tick_cells p' d \<noteq> tick_cells p d"
  shows "(\<forall>changed p''. poll_once (app_s3 a) p' = (Inr changed, p'') \<longrightarrow> d \<notin> set changed)
    \<and> (\<exists>nonce ts body. tick_body a nonce ts reason = Some body \<and>
        (\<forall>peer changed peer'. world peer = world p' \<and> poll_once (app_s3 a) peer = (Inr changed, peer')
            \<and> (\<forall>e. tick_cells peer d = Some e \<longrightarrow> st_body S (tick_key d) e \<noteq> body) \<longrightarrow> d \<in> set changed))"
proof -
  have "bump_one a reason d p = (Inr () :: 'e + unit, p')"
    using assms(4) by (cases "bump_one a reason d p :: ('e + unit) \<times> _") (auto simp: bump_ticks_def cmd_defs split: sum.splits)
  from bump_one_writes [OF assms(1-3) this assms(5)] obtain nonce ts body obj where
    b: "tick_body a nonce ts reason = Some body" "ob_bytes obj = body"
      "st_view S (world p') = (st_view S (world p))(tick_key d \<mapsto> obj)" "named S (st_view S (world p'))"
      "p' = p \<lparr>world := world p', tick_cells := (tick_cells p)(d \<mapsto> ob_etag obj)\<rparr>" by blast
  have at: "st_view S (world p') (tick_key d) = Some obj" using b(3) by simp
  have cell: "tick_cells p' d = Some (ob_etag obj)" by (subst b(5)) simp
  have own: "d \<notin> set changed" if "poll_once (app_s3 a) p' = (Inr changed, p'')" for changed p''
    using poll_result(3) [OF assms(1,2) that, of d] at cell by simp
  have body: "st_body S (tick_key d) (ob_etag obj) = body" using b(2,4) at by (auto simp: named_def)
  have "d \<in> set changed" if "world peer = world p'" "poll_once (app_s3 a) peer = (Inr changed, peer')"
      "\<forall>e. tick_cells peer d = Some e \<longrightarrow> st_body S (tick_key d) e \<noteq> body" for peer changed peer'
    using poll_result(3) [OF assms(1,2) that(2), of d] at that(1,3) body by auto
  with own b(1) show ?thesis by blast
qed

lemma sync_propagates_witness:
  "\<exists>changed p''. poll_once mem_s3 (snd (bump_ticks sample_app [SyncSets] ''r'' sample_pod :: (unit + unit) \<times> _)) = (Inr changed, p'')
     \<and> SyncSets \<notin> set changed"
proof -
  define body where "body = replicate 16 (char_of (mem_seq sample_bucket) :: char)"
  define s1 where "s1 = mem_put (tick_key SyncSets) body (sample_bucket \<lparr>mem_seq := mem_seq sample_bucket + 1\<rparr>)"
  have p': "bump_ticks sample_app [SyncSets] ''r'' sample_pod =
      (Inr () :: unit + unit, set_cell SyncSets (mem_tag body) (sample_pod \<lparr>world := s1\<rparr>))" (is "_ = (_, ?p')")
    by (simp add: bump_ticks_def bump_one_def cmd_defs body_def s1_def sample_pod_def)
       (simp add: sample_app_def cmd_defs)
  have cell: "tick_cells ?p' SyncSets \<noteq> tick_cells sample_pod SyncSets" by (simp add: set_cell_def sample_pod_def)
  obtain r p'' where r: "poll_once mem_s3 ?p' = (r, p'')" by fastforce
  have "\<exists>changed. r = Inr changed"
    using r by (auto simp: poll_once_def heads_def cmd_defs seen_etag_def split: option.splits if_splits)
  then obtain changed where poll: "poll_once mem_s3 ?p' = (Inr changed, p'')" using r by blast
  have "store_ok (app_s3 sample_app) mem_contract" using mem_store_ok by simp
  from sync_propagates [OF this mem_quiet sample_entropy_ok p' cell] poll show ?thesis
    unfolding p' by auto
qed

end
