(* ===== verification/Users_Claims.thy ===== *)
theory Users_Claims imports Users Scanner_Props Sample_App begin

text \<open>The properties of the compare-and-swap on the users file.\<close>

text \<open>The bucket after a tick may have been written amid the other pods' writes.\<close>

definition ticked :: "'s contract \<Rightarrow> sync_domain \<Rightarrow> bucket_view \<Rightarrow> bucket_view \<Rightarrow> bool" where
  "ticked S d v v' \<longleftrightarrow> (\<exists>w. st_env S v w \<and> (v' = w \<or> (\<exists>obj. v' = w(tick_key d \<mapsto> obj))))"

lemma bump_one_frame:
  assumes "store_ok (app_s3 a) S" "entropy_ok a S"
  shows "\<exists>p'. bump_one a reason d p = (Inr () :: 'e + unit, p') \<and> cache p' = cache p \<and> ticked S d (st_view S (world p)) (st_view S (world p'))"
proof -
  obtain nonce s1 where e: "entropy a 16 (world p) = (nonce, s1)" by fastforce
  have v1: "st_view S s1 = st_view S (world p)" using assms(2) e unfolding entropy_ok_def by (metis snd_conv)
  have refl: "st_env S v v" for v using assms(1) by (simp add: store_ok_def reflp_def)
  show ?thesis
  proof (cases "tick_body a nonce (clock (app_s3 a) s1) reason")
    case None
    then show ?thesis using e v1 refl by (auto simp: bump_one_def cmd_defs ticked_def)
  next
    case (Some body)
    obtain q s2 where q: "put_bytes (app_s3 a) (tick_key d) body (Some ''application/json'') None None s1 = (q, s2)" by fastforce
    have "ticked S d (st_view S s1) (st_view S s2)"
      using put_bytes_view [OF assms(1) q]
      by (cases q rule: sum.exhaust [case_names Inl Inr]; (elim exE, rename_tac v, case_tac "\<exists>k. q = Inl (NotFound k)"))
         (auto simp: ticked_def split: s3_error.splits)
    then show ?thesis using e Some q v1
      by (cases q) (auto simp: bump_one_def cmd_defs set_cell_def)
  qed
qed

lemma bump_users_frame:
  assumes "store_ok (app_s3 a) S" "entropy_ok a S" "bump_ticks a [d] reason p = (r :: 'e + unit, p')"
  shows "r = Inr () \<and> cache p' = cache p \<and> ticked S d (st_view S (world p)) (st_view S (world p'))"
  using bump_one_frame [where 'e = 'e, OF assms(1,2), of reason d p] assms(3) by (auto simp: bump_ticks_def cmd_defs)

text \<open>What a successful update did: nothing to do, or one write of the users file.\<close>

definition users_updated :: "'s app \<Rightarrow> 's contract \<Rightarrow> (datetime \<Rightarrow> user_entry list \<Rightarrow> users_error + user_entry list)
    \<Rightarrow> user_entry list \<Rightarrow> bucket_view \<Rightarrow> 's pod \<Rightarrow> 's pod \<Rightarrow> bool" where
  "users_updated a S mutate next v p p' \<longleftrightarrow>
     (\<exists>t current. users_in (externals a) v = Some current \<and> mutate t current = Inr next \<and>
       (next = current \<and> st_view S (world p') = v \<and> cache p' = cache p
      \<or> next \<noteq> current \<and> (\<exists>obj. print_users (externals a) next = Some (ob_bytes obj)
           \<and> ticked S SyncUsers (v(USERS_KEY \<mapsto> obj)) (st_view S (world p'))
           \<and> replace_users (externals a) (Some (ob_etag obj)) (map user_row_of next) (cache p) = (Inr (), cache p'))))"

text \<open>How one try ends: an update, an error that leaves the cache alone, or a lost race.\<close>

definition try_ends :: "'s app \<Rightarrow> 's contract \<Rightarrow> (datetime \<Rightarrow> user_entry list \<Rightarrow> users_error + user_entry list)
    \<Rightarrow> ('s pod, users_error, user_entry list) cmd \<Rightarrow> bucket_view \<Rightarrow> 's pod \<Rightarrow> users_error + user_entry list \<Rightarrow> 's pod \<Rightarrow> bool" where
  "try_ends a S mutate retry v p r p' \<longleftrightarrow>
     (\<exists>next. r = Inr next \<and> users_updated a S mutate next v p p')
   \<or> (\<exists>e t current. r = Inl e \<and> cache p' = cache p \<and>
        (e = UsersOther \<or> st_view S (world p') = v \<and> users_in (externals a) v = Some current \<and> mutate t current = Inl e))
   \<or> (\<exists>p1. st_env S v (st_view S (world p1)) \<and> st_view S (world p1) \<noteq> v \<and> cache p1 = cache p \<and> retry p1 = (r, p'))"

lemma env_trans: "store_ok c S \<Longrightarrow> st_env S u v \<Longrightarrow> st_env S v w \<Longrightarrow> st_env S u w"
  unfolding store_ok_def by (blast dest: transpD)

lemma store_users_step:
  assumes st: "store_ok (app_s3 a) S" "entropy_ok a S" "conditional_writes (app_s3 a)"
    and cur: "users_in (externals a) (st_view S (world p)) = Some current" "named S (st_view S (world p))"
      "mutate t current = Inr next" "next \<noteq> current" "print_users (externals a) next = Some body"
    and run: "store_users a next body (users_tag (st_view S (world p))) retry p = (r, p')"
  shows "\<exists>v. st_env S (st_view S (world p)) v \<and> (try_ends a S mutate retry v p r p' \<or> try_ends a S mutate retry (st_view S (world p)) p r p')"
proof -
  let ?u = "st_view S (world p)"
  obtain w s2 where w: "write_users (app_s3 a) body (users_tag ?u) (world p) = (w, s2)" by fastforce
  from write_users_view [OF st(1,3) w] obtain v where v: "st_env S ?u v" "named S v"
    "case w of Inr e \<Rightarrow> users_tag v = users_tag ?u \<and> (\<exists>obj. ob_bytes obj = body \<and> e = ob_etag obj \<and> st_view S s2 = v(USERS_KEY \<mapsto> obj))
       | Inl PreconditionFailed \<Rightarrow> st_view S s2 = v \<and> users_tag v \<noteq> users_tag ?u | Inl _ \<Rightarrow> True" by blast
  consider e where "w = Inl e" "e \<noteq> PreconditionFailed" | "w = Inl PreconditionFailed" | new_etag where "w = Inr new_etag"
    by (cases w) auto
  then show ?thesis
  proof cases
    case 1
    then have "r = Inl UsersOther" "cache p' = cache p"
      using run w by (cases e; simp add: store_users_def cmd_defs; force)+
    then show ?thesis using v(1) by (auto simp: try_ends_def)
  next
    case 2
    then have "retry (p \<lparr>world := s2\<rparr>) = (r, p')" using run w by (simp add: store_users_def cmd_defs)
    moreover have "st_view S s2 = v" "v \<noteq> ?u" using v(3) 2 by auto
    ultimately have "try_ends a S mutate retry ?u p r p'"
      using v(1) unfolding try_ends_def by (intro disjI2 exI [of _ "p \<lparr>world := s2\<rparr>"]) simp
    then show ?thesis using v(1) by blast
  next
    case 3
    then obtain obj where obj: "users_tag v = users_tag ?u" "ob_bytes obj = body" "new_etag = ob_etag obj"
        "st_view S s2 = v(USERS_KEY \<mapsto> obj)" using v(3) by auto
    have current: "users_in (externals a) v = Some current"
      using same_users [where x = "externals a", OF v(2) cur(2) obj(1)] cur(1) by simp
    obtain y d where y: "replace_users (externals a) (Some new_etag) (map user_row_of next) (cache p) = (y, d)" by fastforce
    show ?thesis
    proof (cases y)
      case (Inl e)
      then have "r = Inl UsersOther" "cache p' = d"
        using run w 3 y by (auto simp: store_users_def cmd_defs)
      moreover have "d = cache p" using y Inl unfolding replace_users_def by (blast dest: commit_rollback)
      ultimately show ?thesis using v(1) by (auto simp: try_ends_def)
    next
      case (Inr u)
      obtain b p3 where b: "bump_ticks a [SyncUsers] ''users_cas_update'' (p \<lparr>world := s2, cache := d\<rparr>) = (b :: users_error + unit, p3)" by fastforce
      note fr = bump_users_frame [OF st(1,2) b]
      have "r = Inr next" "p' = p3" using run w 3 y Inr b fr by (auto simp: store_users_def cmd_defs)
      moreover have "users_updated a S mutate next v p p3"
        unfolding users_updated_def using current cur(3,4,5) obj(2,3,4) y Inr fr by auto
      ultimately show ?thesis using v(1) by (auto simp: try_ends_def)
    qed
  qed
qed

lemma users_updated_world: "users_updated a S mutate next v (p \<lparr>world := s\<rparr>) p' = users_updated a S mutate next v p p'"
  by (simp add: users_updated_def)

lemma try_ends_world: "try_ends a S mutate retry v (p \<lparr>world := s\<rparr>) r p' = try_ends a S mutate retry v p r p'"
  by (simp add: try_ends_def users_updated_world)

lemma cas_step:
  assumes st: "store_ok (app_s3 a) S" "entropy_ok a S" "conditional_writes (app_s3 a)"
    and run: "cas_tries (Suc n) a mutate p = (r, p')"
  shows "\<exists>v. st_env S (st_view S (world p)) v \<and> try_ends a S mutate (cas_tries n a mutate) v p r p'"
proof -
  obtain q s1 where q: "read_with_etag (externals a) (app_s3 a) (world p) = (q, s1)" by fastforce
  note rd = read_users_view [OF st(1) q]
  let ?v = "st_view S s1" and ?p1 = "p \<lparr>world := s1\<rparr>"
  show ?thesis
  proof (cases q)
    case (Inl e)
    with run q rd show ?thesis by (auto simp: cmd_defs try_ends_def)
  next
    case (Inr ct)
    obtain current etag where ct: "ct = (current, etag)" by (cases ct)
    have cur: "users_in (externals a) ?v = Some current" "etag = users_tag ?v" "st_env S (st_view S (world p)) ?v" "named S ?v"
      using rd Inr ct by simp_all
    define t where "t = clock (app_s3 a) s1"
    show ?thesis
    proof (cases "mutate t current")
      case (Inl e)
      then have "r = Inl e" "p' = ?p1" using run q Inr ct by (simp_all add: cmd_defs t_def)
      then have "try_ends a S mutate (cas_tries n a mutate) ?v p r p'"
        using Inl cur(1) unfolding try_ends_def by (intro disjI2 disjI1) auto
      then show ?thesis using cur(3) by blast
    next
      case mut: (Inr "next")
      show ?thesis
      proof (cases "next = current \<or> print_users (externals a) next = None")
        case True
        then have "next = current \<and> r = Inr next \<or> r = Inl UsersOther" "p' = ?p1"
          using run q Inr ct mut by (auto simp: cmd_defs t_def split: if_splits)
        then have "try_ends a S mutate (cas_tries n a mutate) ?v p r p'"
          using cur(1) mut by (auto simp: try_ends_def users_updated_def)
        then show ?thesis using cur(3) by blast
      next
        case False
        then obtain body where body: "print_users (externals a) next = Some body" "next \<noteq> current" by auto
        then have "store_users a next body (users_tag (st_view S (world ?p1))) (cas_tries n a mutate) ?p1 = (r, p')"
          using run q Inr ct mut cur(2) by (simp add: cmd_defs t_def)
        from store_users_step [where p = ?p1 and mutate = mutate and t = t, OF st _ _ mut body(2,1) this] cur
        show ?thesis unfolding try_ends_world by simp (metis env_trans [OF st(1)])
      qed
    qed
  qed
qed

section \<open>The claims\<close>

text \<open>The other pods changed the bucket between the read and the write of \<open>n\<close> tries.\<close>

primrec races :: "'s contract \<Rightarrow> nat \<Rightarrow> bucket_view \<Rightarrow> bool" where
  "races S 0 v \<longleftrightarrow> True"
| "races S (Suc n) v \<longleftrightarrow> (\<exists>u w. st_env S v u \<and> st_env S u w \<and> u \<noteq> w \<and> races S n w)"

lemma cas_tries_ends:
  assumes st: "store_ok (app_s3 a) S" "entropy_ok a S" "conditional_writes (app_s3 a)"
  shows "cas_tries n a mutate p = (r, p') \<Longrightarrow>
    case r of
      Inr next \<Rightarrow> \<exists>v. st_env S (st_view S (world p)) v \<and> users_updated a S mutate next v p p'
    | Inl e \<Rightarrow> cache p' = cache p \<and>
        (e = UsersOther \<or> e = UsersConcurrent \<and> races S n (st_view S (world p))
         \<or> (\<exists>v t current. st_env S (st_view S (world p)) v \<and> st_view S (world p') = v \<and> users_in (externals a) v = Some current \<and> mutate t current = Inl e))"
proof (induction n arbitrary: p)
  case 0
  then show ?case by (auto simp: throw_def)
next
  case (Suc n)
  from cas_step [OF st Suc.prems] obtain v where v: "st_env S (st_view S (world p)) v" "try_ends a S mutate (cas_tries n a mutate) v p r p'" by blast
  from v(2) consider (updated) "next" where "r = Inr next" "users_updated a S mutate next v p p'"
    | (error) e t current where "r = Inl e" "cache p' = cache p"
        "e = UsersOther \<or> st_view S (world p') = v \<and> users_in (externals a) v = Some current \<and> mutate t current = Inl e"
    | (race) p1 where "st_env S v (st_view S (world p1))" "st_view S (world p1) \<noteq> v" "cache p1 = cache p" "cas_tries n a mutate p1 = (r, p')"
    unfolding try_ends_def by blast
  then show ?case
  proof cases
    case race
    have upd: "users_updated a S mutate next u p1 p' = users_updated a S mutate next u p p'" for "next" u
      using race(3) by (simp add: users_updated_def)
    have after: "st_env S (st_view S (world p)) u" if "st_env S (st_view S (world p1)) u" for u
      using env_trans [OF st(1) env_trans [OF st(1) v(1) race(1)] that] .
    note ih = Suc.IH [OF race(4)]
    show ?thesis
    proof (cases r)
      case (Inr "next")
      then obtain u where "st_env S (st_view S (world p1)) u" "users_updated a S mutate next u p p'"
        using ih upd by auto
      then show ?thesis using Inr after by auto
    next
      case (Inl e)
      have "races S (Suc n) (st_view S (world p))" if "races S n (st_view S (world p1))"
        using that v(1) race(1,2) by auto
      then show ?thesis using ih Inl after race(3) by auto
    qed
  next
    case updated
    then show ?thesis using v(1) by auto
  next
    case error
    then show ?thesis using v(1) by auto
  qed
qed

text \<open>
  C6. No update is lost: whatever the other pods write meanwhile, a successful \<^verbatim>\<open>cas_update\<close> applied the
  mutator to the users the bucket held at the moment of the write. Either that changed nothing, or
  exactly the users file was replaced by the printed result in one step, the cache holds the result
  under the new etag, and at most the users tick was written after it.
\<close>

theorem cas_update_atomic:
  assumes "store_ok (app_s3 a) S" "entropy_ok a S" "conditional_writes (app_s3 a)"
    and "cas_update a mutate p = (Inr next, p')"
  shows "\<exists>v. st_env S (st_view S (world p)) v \<and> users_updated a S mutate next v p p'"
  using cas_tries_ends [OF assms(1-3) assms(4) [unfolded cas_update_def]] by simp

definition add_bob :: "datetime \<Rightarrow> user_entry list \<Rightarrow> users_error + user_entry list" where
  "add_bob t us = (if us = [] then Inr [plain_user ''bob''] else Inl UsersMissing)"

lemma no_users_yet: "mem_view sample_bucket USERS_KEY = None"
  by (simp add: sample_bucket_def view_put mem_view_def USERS_KEY_def)

lemma add_bob_run: "\<exists>p'. cas_update sample_app add_bob sample_pod = (Inr [plain_user ''bob''], p')"
proof -
  let ?etag = "mem_tag ''bob/''" and ?s = "mem_put USERS_KEY ''bob/'' sample_bucket"
  have printed: "print_users sample_pod_ext [plain_user ''bob''] = Some ''bob/''" by code_simp
  have written: "write_users mem_s3 ''bob/'' None sample_bucket = (Inr ?etag, ?s)"
    using no_users_yet
    by (simp add: write_users_def put_bytes_def cmd_defs mem_s3_def strip_quoted tag_quote_free)
  have "fst (replace_users sample_pod_ext (Some ?etag) [user_row_of (plain_user ''bob'')] empty_db) = Inr ()"
    by code_simp
  then obtain d where cached: "replace_users sample_pod_ext (Some ?etag) [user_row_of (plain_user ''bob'')] empty_db = (Inr (), d)"
    by (metis prod.collapse)
  obtain p' where bump: "bump_ticks sample_app [SyncUsers] ''users_cas_update''
      \<lparr>world = ?s, cache = d, tick_cells = \<lambda>_. None\<rparr> = (Inr () :: users_error + unit, p')"
    using bump_users_frame [where 'e = users_error, of sample_app mem_contract SyncUsers] mem_store_ok sample_entropy_ok
    by (metis prod.collapse sample_app_simps(1))
  show ?thesis
    using no_users_yet printed written cached bump
    by (simp add: cas_update_def MAX_CAS_RETRIES_def numeral_eq_Suc read_with_etag_def store_users_def cmd_defs add_bob_def
        sample_pod_def)
qed

lemma cas_update_atomic_witness:
  "\<exists>obj. print_users sample_pod_ext [plain_user ''bob''] = Some (ob_bytes obj)
     \<and> st_view mem_contract (world (snd (cas_update sample_app add_bob sample_pod))) USERS_KEY = Some obj"
proof -
  obtain p' where p': "cas_update sample_app add_bob sample_pod = (Inr [plain_user ''bob''], p')" using add_bob_run by blast
  have "store_ok (app_s3 sample_app) mem_contract" "conditional_writes (app_s3 sample_app)"
    using mem_store_ok by (simp_all add: mem_s3_def)
  from cas_update_atomic [OF this(1) sample_entropy_ok this(2) p']
  show ?thesis unfolding p'
    using mem_quiet
    by (auto simp: users_updated_def add_bob_def ticked_def quiet_def tick_key_other(1) [symmetric] simp del: tick_key.simps
        split: if_splits)
qed




end
