(* ===== verification/Ratelimit.thy ===== *)
theory Ratelimit imports Strings begin

text \<open>
  \<^verbatim>\<open>src/backend/src/ratelimit.rs\<close>: the per-address download limiter, a sliding window of hits. Times
  are nanoseconds of the monotonic clock; the mutex makes each call atomic. \<open>hash_path\<close> is the
  standard hasher.
\<close>

definition second :: nat where "second = 1000000000"
definition DEDUP_GRACE :: nat where "DEDUP_GRACE = 20 * second"

record hit =
  h_at :: nat
  h_hash :: nat

datatype decision = Allowed | Limited nat

record limiter =
  rl_limit :: nat
  rl_window :: nat
  rl_hits :: "string \<Rightarrow> hit list option"

definition limiter_enabled :: "limiter \<Rightarrow> bool" where
  "limiter_enabled l \<longleftrightarrow> 0 < rl_limit l"

text \<open>The loop that drops the hits that have aged out.\<close>

fun drop_aged :: "nat \<Rightarrow> nat \<Rightarrow> hit list \<Rightarrow> hit list" where
  "drop_aged window now [] = []"
| "drop_aged window now (front # dq) = (if window \<le> now - h_at front then drop_aged window now dq else front # dq)"

definition check :: "(string \<Rightarrow> nat) \<Rightarrow> string \<Rightarrow> string \<Rightarrow> nat \<Rightarrow> limiter \<Rightarrow> decision \<times> limiter" where
  "check hash_path ip path now l =
     (if rl_limit l = 0 then (Allowed, l)
      else (let path_hash = hash_path path;
                dq = drop_aged (rl_window l) now (case rl_hits l ip of None \<Rightarrow> [] | Some q \<Rightarrow> q);
                put = (\<lambda>q. l \<lparr>rl_hits := (rl_hits l)(ip \<mapsto> q)\<rparr>)
            in if list_ex (\<lambda>h. h_hash h = path_hash \<and> now - h_at h < DEDUP_GRACE) dq then (Allowed, put dq)
               else if rl_limit l \<le> length dq mod 2 ^ 32
               then (let oldest = (case dq of [] \<Rightarrow> now | h # _ \<Rightarrow> h_at h)
                     in (Limited (max (rl_window l - (now - oldest)) second), put dq))
               else (Allowed, put (dq @ [\<lparr>h_at = now, h_hash = path_hash\<rparr>]))))"

definition sweep_hits :: "nat \<Rightarrow> limiter \<Rightarrow> limiter" where
  "sweep_hits now l = l \<lparr>rl_hits := (\<lambda>ip. case rl_hits l ip of None \<Rightarrow> None
     | Some dq \<Rightarrow> (let dq' = drop_aged (rl_window l) now dq in if dq' = [] then None else Some dq'))\<rparr>"

section \<open>Runs of the limiter\<close>

datatype call = Check string string nat | Sweep nat

fun call_time :: "call \<Rightarrow> nat" where
  "call_time (Check ip path now) = now"
| "call_time (Sweep now) = now"

text \<open>The hits recorded for an address along a run, oldest first.\<close>

definition hits_of :: "limiter \<Rightarrow> string \<Rightarrow> hit list" where
  "hits_of l ip = (case rl_hits l ip of None \<Rightarrow> [] | Some q \<Rightarrow> q)"

fun run_calls :: "(string \<Rightarrow> nat) \<Rightarrow> call list \<Rightarrow> limiter \<times> (string \<Rightarrow> hit list) \<Rightarrow> limiter \<times> (string \<Rightarrow> hit list)" where
  "run_calls hash_path [] s = s"
| "run_calls hash_path (Sweep now # cs) (l, recorded) = run_calls hash_path cs (sweep_hits now l, recorded)"
| "run_calls hash_path (Check ip path now # cs) (l, recorded) =
     (case check hash_path ip path now l of (d, l1) \<Rightarrow>
        run_calls hash_path cs (l1,
          if d = Allowed \<and> \<not> list_ex (\<lambda>h. h_hash h = hash_path path \<and> now - h_at h < DEDUP_GRACE) (drop_aged (rl_window l) now (hits_of l ip))
          then recorded(ip := recorded ip @ [\<lparr>h_at = now, h_hash = hash_path path\<rparr>]) else recorded))"

definition idle_limiter :: "nat \<Rightarrow> nat \<Rightarrow> limiter" where
  "idle_limiter limit window = \<lparr>rl_limit = limit, rl_window = window, rl_hits = (\<lambda>_. None)\<rparr>"

text \<open>
  The invariant: an address's deque holds the recent end of its recorded hits, everything before it
  has aged out, and hits a whole limit apart are a window apart.
\<close>

definition spaced :: "nat \<Rightarrow> nat \<Rightarrow> hit list \<Rightarrow> bool" where
  "spaced limit window hs \<longleftrightarrow> (\<forall>i. i + limit < length hs \<longrightarrow> h_at (hs ! i) + window \<le> h_at (hs ! (i + limit)))"

definition limiter_inv :: "nat \<Rightarrow> limiter \<Rightarrow> (string \<Rightarrow> hit list) \<Rightarrow> bool" where
  "limiter_inv now l recorded \<longleftrightarrow> (\<forall>ip. \<exists>aged. recorded ip = aged @ hits_of l ip
     \<and> (\<forall>h\<in>set aged. h_at h + rl_window l \<le> now) \<and> (\<forall>h\<in>set (recorded ip). h_at h \<le> now)
     \<and> length (hits_of l ip) \<le> rl_limit l \<and> spaced (rl_limit l) (rl_window l) (recorded ip))"

lemma drop_aged_split: "\<exists>aged. dq = aged @ drop_aged w now dq \<and> (\<forall>h\<in>set aged. w \<le> now - h_at h)"
proof (induction dq)
  case (Cons h dq)
  then obtain aged where aged: "dq = aged @ drop_aged w now dq" "\<forall>h\<in>set aged. w \<le> now - h_at h" by blast
  show ?case
  proof (cases "w \<le> now - h_at h")
    case True
    have "h # dq = (h # aged) @ drop_aged w now (h # dq)" using aged(1) True by simp
    moreover have "\<forall>g\<in>set (h # aged). w \<le> now - h_at g" using aged(2) True by simp
    ultimately show ?thesis by blast
  qed simp
qed simp

lemma spaced_snoc:
  assumes "spaced limit window hs" "\<forall>h\<in>set aged. h_at h + window \<le> h_at new" "hs = aged @ dq" "length dq < limit"
  shows "spaced limit window (hs @ [new])"
  unfolding spaced_def
proof (intro allI impI)
  fix i assume i: "i + limit < length (hs @ [new])"
  show "h_at ((hs @ [new]) ! i) + window \<le> h_at ((hs @ [new]) ! (i + limit))"
  proof (cases "i + limit < length hs")
    case True
    then show ?thesis using assms(1) by (simp add: spaced_def nth_append)
  next
    case False
    then have e: "i + limit = length hs" using i by simp
    then have "i < length aged" using assms(3,4) by auto
    then show ?thesis using assms(2,3) e by (simp add: nth_append)
  qed
qed

lemma spaced_bound:
  assumes "spaced limit window hs" "sorted (map h_at hs)"
  shows "length (filter (\<lambda>h. from \<le> h_at h \<and> h_at h < from + window) hs) \<le> limit"
proof -
  define I where "I = {i. i < length hs \<and> from \<le> h_at (hs ! i) \<and> h_at (hs ! i) < from + window}"
  have fin: "finite I" by (simp add: I_def)
  have "card I \<le> limit"
  proof (cases "I = {}")
    case False
    let ?i = "Min I"
    have i: "?i \<in> I" using fin False by (rule Min_in)
    have "I \<subseteq> {?i..<?i + limit}"
    proof
      fix j assume j: "j \<in> I"
      have "j < ?i + limit"
      proof (rule ccontr)
        assume "\<not> j < ?i + limit"
        then have ge: "?i + limit \<le> j" by simp
        have "j < length hs" using j by (simp add: I_def)
        then have "h_at (hs ! (?i + limit)) \<le> h_at (hs ! j)"
          using assms(2) ge by (simp add: sorted_iff_nth_mono)
        moreover have "h_at (hs ! ?i) + window \<le> h_at (hs ! (?i + limit))"
          using assms(1) ge \<open>j < length hs\<close> unfolding spaced_def by simp
        ultimately show False using i j by (simp add: I_def)
      qed
      then show "j \<in> {?i..<?i + limit}" using Min_le [OF fin j] by simp
    qed
    then have "card I \<le> card {?i..<?i + limit}" by (intro card_mono) simp_all
    then show ?thesis by simp
  qed simp
  then show ?thesis by (simp add: length_filter_conv_card I_def)
qed

end
