(* ===== verification/Ratelimit_Claims.thy ===== *)
theory Ratelimit_Claims imports Ratelimit begin

text \<open>The properties of the download limiter: what a run admits and what a rejection promises.\<close>

lemma aged_le: "w \<le> now - t \<Longrightarrow> t \<le> now \<Longrightarrow> t + w \<le> (now::nat)"
  by linarith

definition tracked :: "nat \<Rightarrow> limiter \<Rightarrow> (string \<Rightarrow> hit list) \<Rightarrow> bool" where
  "tracked now l recorded \<longleftrightarrow> limiter_inv now l recorded \<and> (\<forall>ip. sorted (map h_at (recorded ip)))"

text \<open>An address's deque after the aged hits are dropped still covers the recorded hits.\<close>

lemma tracked_drop:
  assumes "tracked before l recorded" "before \<le> now"
  shows "\<exists>aged. recorded ip = aged @ drop_aged (rl_window l) now (hits_of l ip)
    \<and> (\<forall>h\<in>set aged. h_at h + rl_window l \<le> now) \<and> (\<forall>h\<in>set (recorded ip). h_at h \<le> now)
    \<and> length (drop_aged (rl_window l) now (hits_of l ip)) \<le> rl_limit l"
proof -
  obtain old where old: "recorded ip = old @ hits_of l ip" "\<forall>h\<in>set old. h_at h + rl_window l \<le> before"
      "\<forall>h\<in>set (recorded ip). h_at h \<le> before" "length (hits_of l ip) \<le> rl_limit l"
    using assms(1) unfolding tracked_def limiter_inv_def by meson
  obtain aged where aged: "hits_of l ip = aged @ drop_aged (rl_window l) now (hits_of l ip)"
      "\<forall>h\<in>set aged. rl_window l \<le> now - h_at h" using drop_aged_split by blast
  have le: "\<forall>h\<in>set (recorded ip). h_at h \<le> now" using old(3) assms(2) by (meson order_trans)
  have "set aged \<subseteq> set (recorded ip)" using old(1) aged(1) by (metis Un_upper1 Un_upper2 set_append subset_trans)
  then have "\<forall>h\<in>set aged. h_at h + rl_window l \<le> now" using aged(2) le aged_le by (meson subsetD)
  moreover have "\<forall>h\<in>set old. h_at h + rl_window l \<le> now" using old(2) assms(2) by (meson order_trans)
  moreover have "length (drop_aged (rl_window l) now (hits_of l ip)) \<le> length (hits_of l ip)"
    using arg_cong [OF aged(1), of length] by simp
  moreover have "recorded ip = (old @ aged) @ drop_aged (rl_window l) now (hits_of l ip)"
    using old(1) aged(1) by simp
  ultimately show ?thesis using le old(4) by (intro exI [of _ "old @ aged"]) auto
qed

text \<open>Replacing one deque, and the record of its address, keeps the invariant.\<close>

lemma tracked_put:
  assumes "tracked before l recorded" "before \<le> now"
    and "rec' = aged @ q" "\<forall>h\<in>set aged. h_at h + rl_window l \<le> now" "\<forall>h\<in>set rec'. h_at h \<le> now"
      "length q \<le> rl_limit l" "spaced (rl_limit l) (rl_window l) rec'" "sorted (map h_at rec')"
    and "rl_limit l' = rl_limit l" "rl_window l' = rl_window l" "hits_of l' = (hits_of l)(ip := q)"
  shows "tracked now l' (recorded(ip := rec'))"
proof -
  have "\<exists>aged. (recorded(ip := rec')) j = aged @ hits_of l' j \<and> (\<forall>h\<in>set aged. h_at h + rl_window l' \<le> now)
     \<and> (\<forall>h\<in>set ((recorded(ip := rec')) j). h_at h \<le> now) \<and> length (hits_of l' j) \<le> rl_limit l'
     \<and> spaced (rl_limit l') (rl_window l') ((recorded(ip := rec')) j)" for j
  proof (cases "j = ip")
    case True
    then show ?thesis using assms(3-11) by auto
  next
    case False
    obtain old where "recorded j = old @ hits_of l j" "\<forall>h\<in>set old. h_at h + rl_window l \<le> before"
      "\<forall>h\<in>set (recorded j). h_at h \<le> before" "length (hits_of l j) \<le> rl_limit l" "spaced (rl_limit l) (rl_window l) (recorded j)"
      using assms(1) unfolding tracked_def limiter_inv_def by meson
    then show ?thesis using False assms(2,9-11) by (intro exI [of _ old]) (auto intro: order_trans)
  qed
  then show ?thesis using assms(1,8) by (simp add: tracked_def limiter_inv_def)
qed

lemma tracked_later: "tracked before l recorded \<Longrightarrow> before \<le> now \<Longrightarrow> tracked now l recorded"
  unfolding tracked_def limiter_inv_def by (meson order_trans)

lemma tracked_same:
  assumes "tracked before l recorded" "before \<le> now"
    and "rl_limit l' = rl_limit l" "rl_window l' = rl_window l"
      "\<And>ip. hits_of l' ip = hits_of l ip \<or> hits_of l' ip = drop_aged (rl_window l) now (hits_of l ip)"
  shows "tracked now l' recorded"
proof -
  have "\<exists>aged. recorded ip = aged @ hits_of l' ip \<and> (\<forall>h\<in>set aged. h_at h + rl_window l' \<le> now)
     \<and> (\<forall>h\<in>set (recorded ip). h_at h \<le> now) \<and> length (hits_of l' ip) \<le> rl_limit l'
     \<and> spaced (rl_limit l') (rl_window l') (recorded ip)" for ip
    using tracked_drop [OF assms(1,2), of ip] tracked_later [OF assms(1,2)] assms(3,4) assms(5) [of ip]
    unfolding tracked_def limiter_inv_def by metis
  then show ?thesis using assms(1) by (simp add: tracked_def limiter_inv_def)
qed

lemma check_cases:
  assumes "check hp ip path now l = (d, l1)" "0 < rl_limit l" "rl_limit l < 2 ^ 32" "length (hits_of l ip) \<le> rl_limit l"
  defines "dq \<equiv> drop_aged (rl_window l) now (hits_of l ip)"
  defines "rep \<equiv> list_ex (\<lambda>h. h_hash h = hp path \<and> now - h_at h < DEDUP_GRACE) dq"
  shows "rl_limit l1 = rl_limit l" "rl_window l1 = rl_window l"
    "d = Allowed \<and> (rep \<or> length dq < rl_limit l) \<or> (\<exists>h q. dq = h # q \<and> \<not> rep \<and> length dq = rl_limit l
       \<and> d = Limited (max (rl_window l - (now - h_at h)) second))"
    "hits_of l1 = (hits_of l)(ip := (if d = Allowed \<and> \<not> rep then dq @ [\<lparr>h_at = now, h_hash = hp path\<rparr>] else dq))"
proof -
  obtain aged where "hits_of l ip = aged @ dq" using drop_aged_split dq_def by blast
  then have len: "length dq \<le> rl_limit l" using assms(4) by simp
  then have m: "length dq mod 2 ^ 32 = length dq" using assms(3) by simp
  have c: "check hp ip path now l =
      (if rep then (Allowed, l \<lparr>rl_hits := (rl_hits l)(ip \<mapsto> dq)\<rparr>)
       else if rl_limit l \<le> length dq then (Limited (max (rl_window l - (now - (case dq of [] \<Rightarrow> now | h # _ \<Rightarrow> h_at h))) second),
          l \<lparr>rl_hits := (rl_hits l)(ip \<mapsto> dq)\<rparr>)
       else (Allowed, l \<lparr>rl_hits := (rl_hits l)(ip \<mapsto> dq @ [\<lparr>h_at = now, h_hash = hp path\<rparr>])\<rparr>))"
    using assms(2) m unfolding check_def Let_def rep_def dq_def hits_of_def by simp
  show "rl_limit l1 = rl_limit l" "rl_window l1 = rl_window l"
    using assms(1) unfolding c by (auto split: if_splits)
  show "d = Allowed \<and> (rep \<or> length dq < rl_limit l) \<or> (\<exists>h q. dq = h # q \<and> \<not> rep \<and> length dq = rl_limit l
       \<and> d = Limited (max (rl_window l - (now - h_at h)) second))"
    using assms(1,2) len unfolding c by (cases dq) (auto split: if_splits)
  show "hits_of l1 = (hits_of l)(ip := (if d = Allowed \<and> \<not> rep then dq @ [\<lparr>h_at = now, h_hash = hp path\<rparr>] else dq))"
    using assms(1) unfolding c by (auto simp: hits_of_def fun_eq_iff split: if_splits)
qed

lemma run_tracked:
  "run_calls hp cs (l, recorded) = (l', recorded') \<Longrightarrow> tracked before l recorded \<Longrightarrow>
   sorted (map call_time cs) \<Longrightarrow> \<forall>c\<in>set cs. before \<le> call_time c \<Longrightarrow> 0 < rl_limit l \<Longrightarrow> rl_limit l < 2 ^ 32 \<Longrightarrow>
   (\<exists>now. tracked now l' recorded' \<and> (now = before \<or> now \<in> call_time ` set cs)) \<and> rl_limit l' = rl_limit l \<and> rl_window l' = rl_window l"
proof (induction cs arbitrary: l recorded before)
  case Nil
  then show ?case by auto
next
  case (Cons c cs)
  let ?now = "call_time c"
  have le: "before \<le> ?now" using Cons.prems(4) by simp
  have sorted: "sorted (map call_time cs)" "\<forall>e\<in>set cs. ?now \<le> call_time e" using Cons.prems(3) by simp_all
  show ?case
  proof (cases c)
    case (Sweep now)
    have h: "hits_of (sweep_hits now l) ip = hits_of l ip \<or> hits_of (sweep_hits now l) ip = drop_aged (rl_window l) now (hits_of l ip)" for ip
      by (simp add: hits_of_def sweep_hits_def Let_def split: option.splits)
    have t: "tracked ?now (sweep_hits now l) recorded"
      using tracked_same [OF Cons.prems(2) le, of "sweep_hits now l"] h Sweep by (simp add: sweep_hits_def)
    have run: "run_calls hp cs (sweep_hits now l, recorded) = (l', recorded')" using Cons.prems(1) Sweep by simp
    show ?thesis using Cons.IH [OF run t sorted] Cons.prems(5,6) Sweep by (auto simp: sweep_hits_def)
  next
    case (Check ip path now)
    obtain d l1 where ck: "check hp ip path now l = (d, l1)" by fastforce
    let ?dq = "drop_aged (rl_window l) now (hits_of l ip)"
    let ?rep = "list_ex (\<lambda>h. h_hash h = hp path \<and> now - h_at h < DEDUP_GRACE) ?dq"
    let ?new = "\<lparr>h_at = now, h_hash = hp path\<rparr>"
    obtain aged where aged: "recorded ip = aged @ ?dq" "\<forall>h\<in>set aged. h_at h + rl_window l \<le> now"
        "\<forall>h\<in>set (recorded ip). h_at h \<le> now" "length ?dq \<le> rl_limit l"
      using tracked_drop [OF Cons.prems(2) le, of ip] Check by auto
    have inv: "spaced (rl_limit l) (rl_window l) (recorded ip)" "sorted (map h_at (recorded ip))" "length (hits_of l ip) \<le> rl_limit l"
      using Cons.prems(2) unfolding tracked_def limiter_inv_def by (metis, simp, metis)
    note cc = check_cases [OF ck Cons.prems(5,6) inv(3)]
    let ?rec = "if d = Allowed \<and> \<not> ?rep then recorded(ip := recorded ip @ [?new]) else recorded"
    have run: "run_calls hp cs (l1, ?rec) = (l', recorded')" using Cons.prems(1) Check ck by simp
    have t: "tracked ?now l1 ?rec"
    proof (cases "d = Allowed \<and> \<not> ?rep")
      case True
      then have lt: "length ?dq < rl_limit l" using cc(3) by auto
      have "spaced (rl_limit l) (rl_window l) (recorded ip @ [?new])"
        using spaced_snoc [OF inv(1) _ aged(1) lt, of ?new] aged(2) by simp
      then have "tracked now l1 (recorded(ip := recorded ip @ [?new]))"
        using tracked_put [where aged = aged and q = "?dq @ [?new]" and rec' = "recorded ip @ [?new]", OF Cons.prems(2) le [unfolded Check call_time.simps]]
          aged lt cc(1,2,4) True inv(2) by (auto simp: sorted_append)
      then show ?thesis using True Check by simp
    next
      case False
      then have "tracked now l1 (recorded(ip := recorded ip))"
        using tracked_put [where aged = aged and q = ?dq and rec' = "recorded ip", OF Cons.prems(2) le [unfolded Check call_time.simps]]
          aged cc(1,2,4) inv(1,2) by auto
      then show ?thesis using False Check by auto
    qed
    show ?thesis using Cons.IH [OF run t sorted] Cons.prems(5,6) Check cc(1,2) by auto
  qed
qed

lemma idle_tracked: "tracked before (idle_limiter limit window) (\<lambda>_. [])"
  by (simp add: tracked_def limiter_inv_def idle_limiter_def hits_of_def spaced_def)

text \<open>
  C15. The limiter is a sliding window: along any run of checks and sweeps in time order, and for every
  address, no time interval as long as the window contains more than the limit of recorded
  downloads; a download that is admitted without being recorded repeats the path of one recorded
  in the last twenty seconds.
\<close>

theorem rate_limit_window:
  assumes "0 < limit" "limit < 2 ^ 32" "sorted (map call_time cs)"
    and "run_calls hp cs (idle_limiter limit window, \<lambda>_. []) = (l, recorded)"
  shows "length (filter (\<lambda>h. from \<le> h_at h \<and> h_at h < from + window) (recorded ip)) \<le> limit
    \<and> (\<forall>path now l'. (\<forall>c\<in>set cs. call_time c \<le> now)
         \<and> fst (check hp ip path now l) = Allowed \<and> run_calls hp [Check ip path now] (l, recorded) = (l', recorded)
         \<longrightarrow> (\<exists>h\<in>set (recorded ip). h_hash h = hp path \<and> now < h_at h + 20 * second))"
proof
  obtain now where t: "tracked now l recorded" and l: "rl_limit l = limit" "rl_window l = window"
    using run_tracked [OF assms(4) idle_tracked [of 0] assms(3)] assms(1,2) by (auto simp: idle_limiter_def)
  have inv: "spaced limit window (recorded ip)" "sorted (map h_at (recorded ip))"
    using t l unfolding tracked_def limiter_inv_def by (metis, simp)
  show "length (filter (\<lambda>h. from \<le> h_at h \<and> h_at h < from + window) (recorded ip)) \<le> limit"
    using spaced_bound [OF inv] .
  have "\<exists>h\<in>set (recorded ip). h_hash h = hp path \<and> at < h_at h + 20 * second"
    if a: "\<forall>c\<in>set cs. call_time c \<le> at" "fst (check hp ip path at l) = Allowed"
      "run_calls hp [Check ip path at] (l, recorded) = (l', recorded)" for path at l'
  proof -
    let ?dq = "drop_aged (rl_window l) at (hits_of l ip)"
    have "recorded ip \<noteq> recorded ip @ [\<lparr>h_at = at, h_hash = hp path\<rparr>]" by simp
    then have "list_ex (\<lambda>h. h_hash h = hp path \<and> at - h_at h < DEDUP_GRACE) ?dq"
      using a(2,3) by (auto simp: fun_upd_idem_iff fun_eq_iff split: prod.splits if_splits)
    then obtain h where h: "h \<in> set ?dq" "h_hash h = hp path" "at - h_at h < DEDUP_GRACE" by (auto simp: list_ex_iff)
    have "set ?dq \<subseteq> set (hits_of l ip)" using drop_aged_split [of "hits_of l ip" "rl_window l" at] by (metis Un_upper2 set_append)
    moreover have "set (hits_of l ip) \<subseteq> set (recorded ip)" using t unfolding tracked_def limiter_inv_def by (metis Un_upper2 set_append)
    ultimately show ?thesis using h by (auto simp: DEDUP_GRACE_def intro!: bexI [of _ h])
  qed
  then show "\<forall>path now l'. (\<forall>c\<in>set cs. call_time c \<le> now)
         \<and> fst (check hp ip path now l) = Allowed \<and> run_calls hp [Check ip path now] (l, recorded) = (l', recorded)
         \<longrightarrow> (\<exists>h\<in>set (recorded ip). h_hash h = hp path \<and> now < h_at h + 20 * second)" by blast
qed

definition sample_calls :: "call list" where
  "sample_calls = [Check ''a'' ''x'' 0, Check ''a'' ''x'' 5, Check ''a'' ''yy'' 7, Check ''a'' ''zzz'' 9, Sweep 90, Check ''a'' ''zzz'' 120]"

lemma sample_run: "snd (run_calls length sample_calls (idle_limiter 2 100, \<lambda>_. [])) ''a''
    = [\<lparr>h_at = 0, h_hash = 1\<rparr>, \<lparr>h_at = 7, h_hash = 2\<rparr>, \<lparr>h_at = 120, h_hash = 3\<rparr>]"
  by (simp add: sample_calls_def check_def idle_limiter_def hits_of_def sweep_hits_def DEDUP_GRACE_def second_def Let_def)

lemma rate_limit_window_witness:
  "length (filter (\<lambda>h. 0 \<le> h_at h \<and> h_at h < 0 + 100) (snd (run_calls length sample_calls (idle_limiter 2 100, \<lambda>_. [])) ''a'')) \<le> 2"
proof -
  have "sorted (map call_time sample_calls)" by (simp add: sample_calls_def)
  moreover obtain l recorded where run: "run_calls length sample_calls (idle_limiter 2 100, \<lambda>_. []) = (l, recorded)" by fastforce
  ultimately show ?thesis
    using rate_limit_window [of 2 sample_calls length 100 l recorded 0 "''a''"] by (simp add: run)
qed

lemma drop_aged_again: "now \<le> later \<Longrightarrow> drop_aged w later (drop_aged w now dq) = drop_aged w later dq"
  by (induction dq) auto

lemma sweeps_hits:
  "\<forall>t\<in>set ts. t \<le> later \<Longrightarrow>
   drop_aged (rl_window l) later (hits_of (fold sweep_hits ts l) ip) = drop_aged (rl_window l) later (hits_of l ip)
   \<and> rl_window (fold sweep_hits ts l) = rl_window l \<and> rl_limit (fold sweep_hits ts l) = rl_limit l"
proof (induction ts arbitrary: l)
  case (Cons t ts)
  have "hits_of (sweep_hits t l) ip = drop_aged (rl_window l) t (hits_of l ip)"
    by (simp add: hits_of_def sweep_hits_def Let_def split: option.splits)
  moreover have "rl_window (sweep_hits t l) = rl_window l" "rl_limit (sweep_hits t l) = rl_limit l"
    by (simp_all add: sweep_hits_def)
  ultimately show ?case using Cons.IH [of "sweep_hits t l"] Cons.prems by (simp add: drop_aged_again)
qed simp

lemma drop_aged_head: "window \<le> later - h_at h \<Longrightarrow> length (drop_aged window later (h # q)) \<le> length q"
  using drop_aged_split [of q window later] by (simp) (metis length_append le_add2)

text \<open>
  C37. A rejection is honest: the waiting time it reports is at most the longer of the window and one
  second, and whenever the client comes back at or after it, with only sweeps in between, it is
  served.
\<close>

theorem retry_after_honest:
  assumes "0 < limit" "limit < 2 ^ 32" "sorted (map call_time cs)" "\<forall>c\<in>set cs. call_time c \<le> now"
    and "run_calls hp cs (idle_limiter limit window, \<lambda>_. []) = (l, recorded)" "check hp ip path now l = (Limited r, l1)"
  shows "second \<le> r \<and> r \<le> max window second
    \<and> (\<forall>later ts. now + r \<le> later \<and> (\<forall>t\<in>set ts. t \<le> later) \<longrightarrow> fst (check hp ip path later (fold sweep_hits ts l1)) = Allowed)"
proof -
  obtain before where t: "tracked before l recorded" and b: "before = 0 \<or> before \<in> call_time ` set cs"
      and l: "rl_limit l = limit" "rl_window l = window"
    using run_tracked [OF assms(5) idle_tracked [of 0] assms(3)] assms(1,2) by (auto simp: idle_limiter_def)
  have le: "before \<le> now" using b assms(4) by auto
  let ?dq = "drop_aged window now (hits_of l ip)"
  have len: "length (hits_of l ip) \<le> limit" using t l unfolding tracked_def limiter_inv_def by metis
  note cc = check_cases [OF assms(6), unfolded l, OF assms(1,2) len]
  obtain h q where h: "?dq = h # q" "length ?dq = limit" "r = max (window - (now - h_at h)) second"
    using cc(3) by auto
  have "h_at h \<le> now"
  proof -
    obtain aged where "recorded ip = aged @ ?dq" "\<forall>h\<in>set (recorded ip). h_at h \<le> now"
      using tracked_drop [OF t le, of ip] l by auto
    then show ?thesis using h(1) by simp
  qed
  have "fst (check hp ip path later (fold sweep_hits ts l1)) = Allowed" if a: "now + r \<le> later" "\<forall>t\<in>set ts. t \<le> later" for later ts
  proof -
    let ?l2 = "fold sweep_hits ts l1"
    have l1: "hits_of l1 ip = h # q" "rl_window l1 = window" "rl_limit l1 = limit" using cc(1,2,4) h(1) by simp_all
    have sw: "drop_aged window later (hits_of ?l2 ip) = drop_aged window later (h # q)" "rl_window ?l2 = window" "rl_limit ?l2 = limit"
      using sweeps_hits [OF a(2), of l1 ip] l1 by simp_all
    have "window \<le> later - h_at h" using a(1) h(3) \<open>h_at h \<le> now\<close> by linarith
    then have "length (drop_aged window later (hits_of ?l2 ip)) < limit"
      unfolding sw using drop_aged_head [of window later h q] h(1,2) by simp
    moreover have "length (drop_aged window later (hits_of ?l2 ip)) mod 2 ^ 32 = length (drop_aged window later (hits_of ?l2 ip))"
      using calculation assms(2) by simp
    ultimately show ?thesis
      unfolding check_def Let_def sw(2,3) by (simp add: hits_of_def)
  qed
  moreover have "second \<le> r" "r \<le> max window second" using h(3) by auto
  ultimately show ?thesis by blast
qed

lemma retry_after_honest_witness:
  "fst (check length ''a'' ''zzz'' (9 + second) (snd (check length ''a'' ''zzz'' 9
     (fst (run_calls length (take 3 sample_calls) (idle_limiter 2 100, \<lambda>_. [])))))) = Allowed"
proof -
  let ?cs = "take 3 sample_calls"
  obtain l recorded where run: "run_calls length ?cs (idle_limiter 2 100, \<lambda>_. []) = (l, recorded)" by fastforce
  have "fst (check length ''a'' ''zzz'' 9 (fst (run_calls length ?cs (idle_limiter 2 100, \<lambda>_. [])))) = Limited second"
    by (simp add: sample_calls_def check_def idle_limiter_def hits_of_def DEDUP_GRACE_def second_def Let_def)
  then obtain l1 where ck: "check length ''a'' ''zzz'' 9 l = (Limited second, l1)" unfolding run by (metis prod.collapse fst_conv)
  have "sorted (map call_time ?cs)" "\<forall>c\<in>set ?cs. call_time c \<le> 9" by (simp_all add: sample_calls_def)
  from retry_after_honest [OF _ _ this run ck] have "\<forall>later ts. 9 + second \<le> later \<and> (\<forall>t\<in>set ts. t \<le> later) \<longrightarrow>
      fst (check length ''a'' ''zzz'' later (fold sweep_hits ts l1)) = Allowed" by simp
  then have "fst (check length ''a'' ''zzz'' (9 + second) (fold sweep_hits [] l1)) = Allowed" by (metis empty_iff empty_set order_refl)
  then show ?thesis by (simp add: run ck)
qed

end
