(* ===== verification/Apikey.thy ===== *)
theory Apikey imports Users begin

text \<open>
  \<^verbatim>\<open>src/backend/src/apikey.rs\<close>: personal keys of \<^verbatim>\<open>apiservice\<close> users, stored as a hash on their entry. A
  lookup reads the cache, which does not fail here.
\<close>

definition API_KEY_HEADER :: string where "API_KEY_HEADER = ''x-api-key''"
definition ROLE_APISERVICE :: string where "ROLE_APISERVICE = ''apiservice''"
definition KEY_PREFIX :: string where "KEY_PREFIX = ''rawdb_''"

definition generate_key :: "'s app \<Rightarrow> ('s pod, 'e, string) cmd" where
  "generate_key a = bindE (rand_bytes a 32) (\<lambda>bytes. ret (KEY_PREFIX @ hex bytes))"

definition key_hash :: "'s app \<Rightarrow> string \<Rightarrow> string" where
  "key_hash a key = hex (sha256 a key)"

definition lookup_key :: "'s app \<Rightarrow> db \<Rightarrow> headers \<Rightarrow> user_row option" where
  "lookup_key a d hs = (case map_option trim (header_text API_KEY_HEADER hs) of
       None \<Rightarrow> None
     | Some raw \<Rightarrow>
         if raw = [] then None
         else (case find_user_by_api_key_hash (externals a) (key_hash a raw) d of
             None \<Rightarrow> None
           | Some user \<Rightarrow>
               if ur_blocked user then None
               else if \<not> list_ex (\<lambda>r. r = ROLE_APISERVICE) (ur_roles user) then None
               else Some user))"

definition metric_username :: "'e + user_row option \<Rightarrow> string" where
  "metric_username looked = (case looked of
       Inr (Some user) \<Rightarrow> ur_sub user | Inr None \<Rightarrow> ''public'' | Inl _ \<Rightarrow> ''public'')"

end
