(* ===== verification/Access_Claims.thy ===== *)
theory Access_Claims imports Auth Apikey Db_Props Sample_App begin

unbundle bit_operations_syntax

text \<open>The properties of access control: the guard's decision and how a change of the users takes effect.\<close>

text \<open>The roles a role set stands for.\<close>

definition granting :: "8 word \<Rightarrow> string set" where
  "granting bits = {role. \<exists>bit. (bit, role) \<in> set ROLE_BIT_TABLE \<and> (bits AND bit) \<noteq> 0}"

lemma granting_filter: "granting bits = set (map snd (filter (\<lambda>(bit, role). (bits AND bit) \<noteq> 0) ROLE_BIT_TABLE))"
  by (force simp: granting_def)

lemma granting_roles:
  "granting ADMIN_ONLY = {ROLE_ADMIN}" "granting REVIEWER_OR_ADMIN = {ROLE_ADMIN, ROLE_REVIEWER}"
  "granting APPROVER_OR_ADMIN = {ROLE_ADMIN, ROLE_APPROVER}" "granting EDITOR_OR_ADMIN = {ROLE_ADMIN, ROLE_EDITOR}"
  "granting DELETER_OR_ADMIN = {ROLE_ADMIN, ROLE_DELETER}" "granting PENDING_VIEWERS = {ROLE_ADMIN, ROLE_REVIEWER, ROLE_APPROVER}"
  by (simp_all add: granting_filter ROLE_BIT_TABLE_def insert_commute ADMIN_ONLY_def REVIEWER_OR_ADMIN_def APPROVER_OR_ADMIN_def EDITOR_OR_ADMIN_def
      DELETER_OR_ADMIN_def PENDING_VIEWERS_def ADMIN_BIT_def REVIEWER_BIT_def APPROVER_BIT_def EDITOR_BIT_def DELETER_BIT_def)

lemma role_allowed_iff: "is_role_allowed bits s \<longleftrightarrow> set (se_roles s) \<inter> granting bits \<noteq> {}"
  by (auto simp: is_role_allowed_def granting_def has_role_mem list_ex_iff)

text \<open>The session a request carries.\<close>

definition session_of :: "'s app \<Rightarrow> headers \<Rightarrow> 's pod \<Rightarrow> session option" where
  "session_of a hs p = Option.bind (extract_cookie hs SESSION_COOKIE) (decode_session a (clock (app_s3 a) (world p)))"

lemma session_extractor_eq: "session_extractor a hs p = ((case session_of a hs p of None \<Rightarrow> Inl Unauthorized | Some s \<Rightarrow> Inr s), p)"
  by (auto simp: session_extractor_def cmd_defs session_of_def split: option.splits)

text \<open>The roles the guard judges a session by: the cache's for a registered user, the session's own for the bootstrap admin.\<close>

definition live_session :: "'s app \<Rightarrow> db \<Rightarrow> session \<Rightarrow> session option" where
  "live_session a d s = (if se_sub s = BOOTSTRAP_SUB then Some s
     else case get_user (externals a) (se_sub s) d of
       None \<Rightarrow> None | Some u \<Rightarrow> if ur_blocked u then None else Some (s \<lparr>se_roles := ur_roles u\<rparr>))"

lemma auth_guard_eq: "auth_guard a bits hs p = ((case session_of a hs p of None \<Rightarrow> Inl Unauthorized
     | Some s \<Rightarrow> (case live_session a (cache p) s of
         Some t \<Rightarrow> if is_role_allowed bits t then Inr t else Inl Forbidden
       | None \<Rightarrow> Inl Forbidden)), p)"
  by (auto simp: auth_guard_def bindE_def session_extractor_eq live_session_def read_db_def gets_def throw_def ret_def split: option.splits)

text \<open>
  C7. The guard grants a request exactly when it carries a valid session whose live roles contain one of
  the handler's roles, for a registered user that is neither removed nor blocked, or for the
  bootstrap admin; without a valid session it answers 401, otherwise 403, and it changes nothing.
\<close>

theorem auth_guard_exact:
  assumes "auth_guard a bits hs p = (r, p')"
  shows "p' = p \<and> (\<forall>sess. r = Inr sess \<longleftrightarrow>
      (\<exists>s. session_of a hs p = Some s \<and> set (se_roles sess) \<inter> granting bits \<noteq> {} \<and>
         (se_sub s = BOOTSTRAP_SUB \<and> sess = s
        \<or> se_sub s \<noteq> BOOTSTRAP_SUB \<and> (\<exists>u. get_user (externals a) (se_sub s) (cache p) = Some u
             \<and> \<not> ur_blocked u \<and> sess = s \<lparr>se_roles := ur_roles u\<rparr>))))
    \<and> (\<forall>e. r = Inl e \<longrightarrow> error_status e = (if session_of a hs p = None then 401 else 403))
    \<and> granting ADMIN_ONLY = {''admin''} \<and> granting PENDING_VIEWERS = {''admin'', ''reviewer'', ''approver''}
    \<and> granting DELETER_OR_ADMIN = {''admin'', ''deleter''}"
proof (intro conjI)
  show "granting ADMIN_ONLY = {''admin''}" "granting PENDING_VIEWERS = {''admin'', ''reviewer'', ''approver''}"
    "granting DELETER_OR_ADMIN = {''admin'', ''deleter''}"
    unfolding granting_roles by (simp_all add: ROLE_ADMIN_def ROLE_REVIEWER_def ROLE_APPROVER_def ROLE_DELETER_def)
qed (use assms in \<open>auto simp: auth_guard_eq live_session_def role_allowed_iff split: option.splits if_splits\<close>)

text \<open>What a lookup finds in a freshly written users table.\<close>

lemma users_replaced:
  assumes time: "time_ok x" and run: "replace_users x etag us d0 = (Inr (), d)"
  shows "u \<in> set us \<Longrightarrow> get_user x (ur_sub u) d = Some u" "distinct (map ur_sub us)" "users d = map (user_table_row x) us"
proof -
  have ok: "distinct (map ur_sub us)" and d: "d = users_written x us (d0 \<lparr>user_roles := [], users := []\<rparr>) \<lparr>users_etag := Some etag\<rparr>"
    using run by (auto simp: replace_users_eq split: if_splits)
  show "distinct (map ur_sub us)" by (rule ok)
  show "users d = map (user_table_row x) us" by (simp add: d users_written_def)
  show "u \<in> set us \<Longrightarrow> get_user x (ur_sub u) d = Some u" using get_user_written [OF _ ok time] d by simp
qed

lemma first_user_replaced:
  assumes time: "time_ok x" and run: "replace_users x etag us d0 = (Inr (), d)" and found: "first_row P (users d) = Some row"
  shows "\<exists>u\<in>set us. row = user_table_row x u \<and> u_sub row = ur_sub u \<and> (row_to_user x row) \<lparr>ur_roles := load_roles (u_sub row) d\<rparr> = u \<and> P row"
proof -
  note w = users_replaced [OF time run]
  from found have "row \<in> set (users d)" "P row" unfolding first_row_def by (metis find_Some_iff nth_mem)+
  then obtain u where u: "u \<in> set us" "row = user_table_row x u" unfolding w(3) by auto
  obtain row' where r': "first_row (\<lambda>r. u_sub r = ur_sub u) (users d) = Some row'"
    and u': "(row_to_user x row') \<lparr>ur_roles := load_roles (ur_sub u) d\<rparr> = u"
    using w(1) [OF u(1)] by (auto simp: get_user_def)
  from r' have "row' \<in> set (users d)" "u_sub row' = ur_sub u"
    unfolding first_row_def by (metis (mono_tags, lifting) find_Some_iff nth_mem)+
  then have "row' = row" using w(2) u unfolding w(3) by (auto simp: distinct_map inj_on_def)
  then show ?thesis using u u' \<open>P row\<close> \<open>u_sub row' = ur_sub u\<close> by auto
qed

lemma user_found:
  assumes time: "time_ok x" and run: "replace_users x etag us d0 = (Inr (), d)" and found: "get_user x sub d = Some u"
  shows "u \<in> set us \<and> ur_sub u = sub"
proof -
  obtain row where row: "first_row (\<lambda>r. u_sub r = sub) (users d) = Some row" using found by (auto simp: get_user_def)
  with first_user_replaced [OF time run row] obtain v where v: "v \<in> set us" "ur_sub v = sub" by metis
  then show ?thesis using users_replaced(1) [OF time run v(1)] found by simp
qed

lemma key_accepted:
  assumes time: "time_ok (externals a)" and run: "replace_users (externals a) etag us d0 = (Inr (), d)"
    and k: "lookup_key a d hs = Some u"
  shows "u \<in> set us \<and> \<not> ur_blocked u \<and> ''apiservice'' \<in> set (ur_roles u)
    \<and> (\<exists>raw. header_text ''x-api-key'' hs = Some raw \<and> ur_api_key_hash u = Some (key_hash a (trim raw)))"
proof -
  obtain raw where raw: "header_text ''x-api-key'' hs = Some raw"
      "find_user_by_api_key_hash (externals a) (key_hash a (trim raw)) d = Some u" "\<not> ur_blocked u" "''apiservice'' \<in> set (ur_roles u)"
    using k by (auto simp: lookup_key_def API_KEY_HEADER_def ROLE_APISERVICE_def list_ex_iff split: option.splits if_splits)
  then obtain row where row: "first_row (\<lambda>r. u_api_key_hash r = Some (key_hash a (trim raw))) (users d) = Some row"
    by (auto simp: find_user_by_api_key_hash_def)
  obtain v where v: "v \<in> set us" "row = user_table_row (externals a) v"
      "(row_to_user (externals a) row) \<lparr>ur_roles := load_roles (u_sub row) d\<rparr> = v" "u_api_key_hash row = Some (key_hash a (trim raw))"
    using first_user_replaced [OF time run row] by blast
  have "u = v" using raw(2) row v(3) by (simp add: find_user_by_api_key_hash_def)
  moreover have "ur_api_key_hash v = Some (key_hash a (trim raw))" using v(2,4) by (simp add: user_table_row_def)
  ultimately have "u \<in> set us" "ur_api_key_hash u = Some (key_hash a (trim raw))" using v(1) by simp_all
  with raw show ?thesis by blast
qed

text \<open>
  C20. A change of the users takes effect with the next request: once the cache holds a new users list,
  the guard grants a registered user's session, and a personal key is accepted, only for a user of
  that list that is not blocked and holds a granting role, or the \<^verbatim>\<open>apiservice\<close> role and the key's
  hash, whatever roles the session's token names.
\<close>

theorem revocation_immediate:
  assumes "time_ok (externals a)" "replace_users (externals a) etag us (cache p0) = (Inr (), d)" "cache p = d"
  shows "(\<forall>bits sess p'. auth_guard a bits hs p = (Inr sess, p') \<and> se_sub sess \<noteq> BOOTSTRAP_SUB
      \<longrightarrow> (\<exists>u\<in>set us. ur_sub u = se_sub sess \<and> \<not> ur_blocked u \<and> set (ur_roles u) \<inter> granting bits \<noteq> {}))
    \<and> (\<forall>u. lookup_key a d hs = Some u \<longrightarrow> u \<in> set us \<and> \<not> ur_blocked u \<and> ''apiservice'' \<in> set (ur_roles u)
         \<and> (\<exists>raw. header_text ''x-api-key'' hs = Some raw \<and> ur_api_key_hash u = Some (key_hash a (trim raw))))"
proof -
  have guard: "\<exists>u\<in>set us. ur_sub u = se_sub sess \<and> \<not> ur_blocked u \<and> set (ur_roles u) \<inter> granting bits \<noteq> {}"
    if g: "auth_guard a bits hs p = (Inr sess, p')" "se_sub sess \<noteq> BOOTSTRAP_SUB" for bits sess p'
  proof -
    obtain s where "live_session a d s = Some sess" "is_role_allowed bits sess"
      using g assms(3) by (auto simp: auth_guard_eq split: option.splits if_splits)
    moreover have "se_sub s \<noteq> BOOTSTRAP_SUB" using calculation(1) g(2) by (auto simp: live_session_def)
    ultimately obtain u where s: "get_user (externals a) (se_sub s) d = Some u" "\<not> ur_blocked u" "sess = s \<lparr>se_roles := ur_roles u\<rparr>"
      by (auto simp: live_session_def split: option.splits if_splits)
    have roles: "set (ur_roles u) \<inter> granting bits \<noteq> {}" using \<open>is_role_allowed bits sess\<close> s(3) by (simp add: role_allowed_iff)
    have v: "u \<in> set us" "ur_sub u = se_sub s" using user_found [OF assms(1,2) s(1)] by simp_all
    then show ?thesis using s roles by auto
  qed
  show ?thesis using guard key_accepted [OF assms(1,2)] by blast
qed

section \<open>Witnesses\<close>

definition eve :: user_row where
  "eve = \<lparr>ur_sub = ''eve'', ur_display_name = None, ur_blocked = False, ur_added_at = None, ur_added_by = None,
     ur_roles = [''admin''], ur_api_key_hash = None\<rparr>"

definition guarded_pod :: "bool \<Rightarrow> mem pod" where
  "guarded_pod blocked = sample_pod \<lparr>cache := snd (replace_users sample_pod_ext None [eve \<lparr>ur_blocked := blocked\<rparr>] empty_db)\<rparr>"

definition eve_request :: headers where
  "eve_request = [(''cookie'', ''x=1; rawdb_session=eve'')]"

lemma eve_cookie: "extract_cookie eve_request SESSION_COOKIE = Some ''eve''"
  by code_simp

lemma eve_session: "session_of sample_app eve_request p = Some \<lparr>se_sub = ''eve'', se_source = ''oidc'', se_roles = [''admin''], se_exp = 0\<rparr>"
  by (simp add: session_of_def eve_cookie decode_session_def sample_app_def)

lemma auth_guard_exact_witness:
  "error_status Forbidden = 403 \<and> fst (auth_guard sample_app ADMIN_ONLY eve_request sample_pod) = Inl Forbidden"
proof -
  obtain r p' where g: "auth_guard sample_app ADMIN_ONLY eve_request sample_pod = (r, p')" by fastforce
  have "r = Inl Forbidden"
    using g by (auto simp: auth_guard_eq eve_session live_session_def get_user_def sample_pod_def empty_db_def first_row_def BOOTSTRAP_SUB_def)
  with auth_guard_exact [OF g] g show ?thesis by (auto simp: eve_session)
qed

lemma pod_time_ok: "time_ok sample_pod_ext"
  using Samples.sample_time_ok by (simp add: time_ok_def sample_pod_ext_def sample_ext_def)

lemma revocation_immediate_witness:
  "fst (auth_guard sample_app ADMIN_ONLY eve_request (guarded_pod True)) \<noteq>
     Inr \<lparr>se_sub = ''eve'', se_source = ''oidc'', se_roles = [''admin''], se_exp = 0\<rparr>"
proof
  assume a: "fst (auth_guard sample_app ADMIN_ONLY eve_request (guarded_pod True)) =
     Inr \<lparr>se_sub = ''eve'', se_source = ''oidc'', se_roles = [''admin''], se_exp = 0\<rparr>"
  have r: "replace_users sample_pod_ext None [eve \<lparr>ur_blocked := True\<rparr>] empty_db = (Inr (), cache (guarded_pod True))"
    by (simp add: guarded_pod_def replace_users_eq eve_def)
  have ok: "time_ok (externals sample_app)" using pod_time_ok by simp
  have r': "replace_users (externals sample_app) None [eve \<lparr>ur_blocked := True\<rparr>] (cache sample_pod) = (Inr (), cache (guarded_pod True))"
    using r by (simp add: sample_pod_def)
  obtain p' where "auth_guard sample_app ADMIN_ONLY eve_request (guarded_pod True) =
     (Inr \<lparr>se_sub = ''eve'', se_source = ''oidc'', se_roles = [''admin''], se_exp = 0\<rparr>, p')" using a by (metis prod.collapse)
  then have "\<exists>u\<in>set [eve \<lparr>ur_blocked := True\<rparr>]. ur_sub u = ''eve'' \<and> \<not> ur_blocked u"
    using revocation_immediate [OF ok r' refl, THEN conjunct1, rule_format, of ADMIN_ONLY eve_request _ p'] by (auto simp: BOOTSTRAP_SUB_def)
  then show False by simp
qed

end
