(* ===== verification/Admin_Users.thy ===== *)
theory Admin_Users imports Auth begin

text \<open>The user management of \<^verbatim>\<open>src/backend/src/routes/admin.rs\<close>, over the compare-and-swap of the users file.\<close>

record user_view =
  uv_sub :: string
  uv_display_name :: "string option"
  uv_blocked :: bool
  uv_roles :: "string list"
  uv_added_at :: "datetime option"
  uv_added_by :: "string option"

definition user_view_of :: "user_entry \<Rightarrow> user_view" where
  "user_view_of u =
     \<lparr>uv_sub = ue_sub u, uv_display_name = ue_display_name u, uv_blocked = ue_blocked u, uv_roles = ue_roles u,
      uv_added_at = ue_added_at u, uv_added_by = ue_added_by u\<rparr>"

record patch_request =
  pq_display_name :: "string option"
  pq_roles :: "string list option"
  pq_blocked :: "bool option"

definition validate_roles :: "string list \<Rightarrow> app_error + unit" where
  "validate_roles roles = forR roles (\<lambda>r.
     if r \<notin> {''admin'', ''reviewer'', ''approver'', ''editor'', ''deleter'', ''apiservice''}
     then Inl BadRequest else Inr ())"

definition map_users_error :: "users_error \<Rightarrow> app_error" where
  "map_users_error e = (case e of
       UsersMissing \<Rightarrow> MissingItem | UsersConcurrent \<Rightarrow> Conflict | UsersOther \<Rightarrow> Internal)"

definition find_user :: "string \<Rightarrow> user_entry list \<Rightarrow> user_entry option" where
  "find_user sub us = List.find (\<lambda>u. ue_sub u = sub) us"

definition list_users :: "'s app \<Rightarrow> headers \<Rightarrow> ('s, user_view list) handler" where
  "list_users a hs =
     bindE (auth_guard a ADMIN_ONLY hs) (\<lambda>_.
     bindE (s3E (read_with_etag (externals a) (app_s3 a))) (\<lambda>(file, _).
     ret (map user_view_of file)))"

section \<open>The mutators\<close>

definition add_entry :: "string \<Rightarrow> string option \<Rightarrow> string list \<Rightarrow> string \<Rightarrow> datetime \<Rightarrow> user_entry list
    \<Rightarrow> users_error + user_entry list" where
  "add_entry sub display roles actor t us =
     (if list_ex (\<lambda>u. ue_sub u = sub) us then Inl UsersOther
      else Inr (us @ [\<lparr>ue_sub = sub, ue_display_name = display, ue_blocked = False, ue_added_at = Some t,
                       ue_added_by = Some actor, ue_roles = roles, ue_api_key_hash = None\<rparr>]))"

definition patch_entry :: "patch_request \<Rightarrow> user_entry \<Rightarrow> user_entry" where
  "patch_entry req u =
     (let u1 = (case pq_display_name req of None \<Rightarrow> u | Some dn \<Rightarrow> u \<lparr>ue_display_name := Some dn\<rparr>);
          u2 = (case pq_roles req of None \<Rightarrow> u1 | Some r \<Rightarrow> u1 \<lparr>ue_roles := r\<rparr>)
      in (case pq_blocked req of None \<Rightarrow> u2 | Some b \<Rightarrow> u2 \<lparr>ue_blocked := b\<rparr>))"

text \<open>\<^verbatim>\<open>iter_mut().find(..)\<close> and a change of what it finds.\<close>

fun update_first :: "(user_entry \<Rightarrow> bool) \<Rightarrow> (user_entry \<Rightarrow> user_entry) \<Rightarrow> user_entry list \<Rightarrow> user_entry list option" where
  "update_first P g [] = None"
| "update_first P g (u # us) = (if P u then Some (g u # us) else map_option (Cons u) (update_first P g us))"

definition patch_users :: "string \<Rightarrow> patch_request \<Rightarrow> datetime \<Rightarrow> user_entry list \<Rightarrow> users_error + user_entry list" where
  "patch_users target req t us = (case update_first (\<lambda>u. ue_sub u = target) (patch_entry req) us of
       None \<Rightarrow> Inl UsersMissing | Some us' \<Rightarrow> Inr us')"

definition delete_entry :: "string \<Rightarrow> datetime \<Rightarrow> user_entry list \<Rightarrow> users_error + user_entry list" where
  "delete_entry target t us =
     (let kept = filter (\<lambda>u. ue_sub u \<noteq> target) us
      in if length kept = length us then Inl UsersMissing else Inr kept)"

section \<open>The handlers\<close>

definition add_user :: "'s app \<Rightarrow> headers \<Rightarrow> string \<Rightarrow> string option \<Rightarrow> string list \<Rightarrow> ('s, user_view) handler" where
  "add_user a hs sub display roles =
     bindE (auth_guard a ADMIN_ONLY hs) (\<lambda>actor.
     bindE (guardE (trim sub \<noteq> []) BadRequest) (\<lambda>_.
     bindE (lift (validate_roles roles)) (\<lambda>_.
     bindE (map_errE map_users_error (cas_update a (add_entry sub display roles (se_sub actor)))) (\<lambda>file.
     case find_user sub file of None \<Rightarrow> throw Internal | Some u \<Rightarrow> ret (user_view_of u)))))"

definition patch_user :: "'s app \<Rightarrow> headers \<Rightarrow> string \<Rightarrow> patch_request \<Rightarrow> ('s, user_view) handler" where
  "patch_user a hs sub req =
     bindE (auth_guard a ADMIN_ONLY hs) (\<lambda>_.
     bindE (case pq_roles req of None \<Rightarrow> ret () | Some roles \<Rightarrow> lift (validate_roles roles)) (\<lambda>_.
     bindE (map_errE map_users_error (cas_update a (patch_users sub req))) (\<lambda>file.
     case find_user sub file of None \<Rightarrow> throw MissingItem | Some u \<Rightarrow> ret (user_view_of u))))"

definition delete_user :: "'s app \<Rightarrow> headers \<Rightarrow> string \<Rightarrow> ('s, nat) handler" where
  "delete_user a hs sub =
     bindE (auth_guard a ADMIN_ONLY hs) (\<lambda>_.
     bindE (map_errE map_users_error (cas_update a (delete_entry sub))) (\<lambda>_. ret 204))"

end
