(* ===== verification/Account.thy ===== *)
theory Account imports Admin_Users Apikey begin

text \<open>
  \<^verbatim>\<open>src/backend/src/routes/me.rs\<close>, the personal API keys of the logged-in user, and
  \<^verbatim>\<open>src/backend/src/routes/export.rs\<close>, the catalog dump that such a key opens. The handlers of \<^verbatim>\<open>me.rs\<close> take
  the session as it is in the cookie: whether its user is blocked is not asked.
\<close>

section \<open>API keys\<close>

record api_key_status =
  ak_has_key :: bool
  ak_eligible :: bool

definition get_api_key :: "'s app \<Rightarrow> headers \<Rightarrow> ('s, api_key_status) handler" where
  "get_api_key a hs =
     bindE (session_extractor a hs) (\<lambda>sess.
     if se_sub sess = BOOTSTRAP_SUB then ret \<lparr>ak_has_key = False, ak_eligible = False\<rparr>
     else bindE (read_db (get_user (externals a) (se_sub sess))) (\<lambda>user.
       ret (case user of
           Some u \<Rightarrow> \<lparr>ak_has_key = ur_api_key_hash u \<noteq> None, ak_eligible = list_ex (\<lambda>r. r = ROLE_APISERVICE) (ur_roles u)\<rparr>
         | None \<Rightarrow> \<lparr>ak_has_key = False, ak_eligible = False\<rparr>)))"

definition set_key_entry :: "string \<Rightarrow> string \<Rightarrow> datetime \<Rightarrow> user_entry list \<Rightarrow> users_error + user_entry list" where
  "set_key_entry target h t us =
     (case update_first (\<lambda>u. ue_sub u = target) (\<lambda>u. u \<lparr>ue_api_key_hash := Some h\<rparr>) us of
        Some us' \<Rightarrow> Inr us' | None \<Rightarrow> Inl UsersMissing)"

definition create_api_key :: "'s app \<Rightarrow> headers \<Rightarrow> ('s, string) handler" where
  "create_api_key a hs =
     bindE (session_extractor a hs) (\<lambda>sess.
     bindE (guardE (se_sub sess \<noteq> BOOTSTRAP_SUB) BadRequest) (\<lambda>_.
     bindE (read_db (get_user (externals a) (se_sub sess))) (\<lambda>user. case user of None \<Rightarrow> throw Forbidden | Some user \<Rightarrow>
     bindE (guardE (list_ex (\<lambda>r. r = ROLE_APISERVICE) (ur_roles user)) Forbidden) (\<lambda>_.
     bindE (generate_key a) (\<lambda>key.
     bindE (map_errE map_users_error (cas_update a (set_key_entry (se_sub sess) (key_hash a key)))) (\<lambda>_.
     ret key))))))"

definition drop_key_entry :: "string \<Rightarrow> datetime \<Rightarrow> user_entry list \<Rightarrow> users_error + user_entry list" where
  "drop_key_entry target t us =
     Inr (case update_first (\<lambda>u. ue_sub u = target) (\<lambda>u. u \<lparr>ue_api_key_hash := None\<rparr>) us of
        Some us' \<Rightarrow> us' | None \<Rightarrow> us)"

definition delete_api_key :: "'s app \<Rightarrow> headers \<Rightarrow> ('s, nat) handler" where
  "delete_api_key a hs =
     bindE (session_extractor a hs) (\<lambda>sess.
     bindE (guardE (se_sub sess \<noteq> BOOTSTRAP_SUB) BadRequest) (\<lambda>_.
     bindE (map_errE map_users_error (cas_update a (drop_key_entry (se_sub sess)))) (\<lambda>_. ret 204)))"

section \<open>Export\<close>

record export_file_envelope =
  xf_path :: string
  xf_category :: string
  xf_extension :: string
  xf_size :: nat
  xf_license :: "string option"
  xf_notes :: "string option"
  xf_sha256 :: "string option"
  xf_tags :: "string list"

record export_set_envelope =
  xs_maker :: string
  xs_model :: string
  xs_license :: string
  xs_notes :: "string option"
  xs_uploaded_at :: "datetime option"
  xs_uploaded_by :: "string option"
  xs_special :: bool
  xs_tags :: "string list"
  xs_files :: "export_file_envelope list"

record export_response =
  xr_generated_at :: datetime
  xr_set_count :: nat
  xr_sets :: "export_set_envelope list"

definition export_file_envelope_of :: "export_file \<Rightarrow> export_file_envelope" where
  "export_file_envelope_of f =
     \<lparr>xf_path = ef_path f, xf_category = ef_category f, xf_extension = (case ef_extension f of None \<Rightarrow> [] | Some e \<Rightarrow> e),
      xf_size = ef_size f, xf_license = ef_license f, xf_notes = ef_notes f, xf_sha256 = ef_sha256 f, xf_tags = ef_tags f\<rparr>"

definition export_set_envelope_of :: "export_set \<Rightarrow> export_set_envelope" where
  "export_set_envelope_of s =
     \<lparr>xs_maker = es_maker s, xs_model = es_model s, xs_license = es_license s, xs_notes = es_notes s,
      xs_uploaded_at = es_uploaded_at s, xs_uploaded_by = es_uploaded_by s, xs_special = es_special s,
      xs_tags = es_tags s, xs_files = map export_file_envelope_of (es_files s)\<rparr>"

definition export :: "'s app \<Rightarrow> headers \<Rightarrow> ('s, export_response) handler" where
  "export a hs =
     bindE (read_db (\<lambda>d. lookup_key a d hs)) (\<lambda>user. case user of None \<Rightarrow> throw Unauthorized | Some _ \<Rightarrow>
     bindE (read_db (export_all (externals a))) (\<lambda>rows.
     bindE (now_at a) (\<lambda>now.
     (let sets = map export_set_envelope_of rows in
     ret \<lparr>xr_generated_at = now, xr_set_count = length sets, xr_sets = sets\<rparr>))))"

end
