(* ===== verification/Cookies.thy ===== *)
theory Cookies imports Auth begin

text \<open>
  What the program finds in the \<^verbatim>\<open>Cookie\<close> header a browser builds from its cookies, and the visible
  text that cookies and keys are made of.
\<close>

section \<open>Visible text\<close>

definition visible :: "char \<Rightarrow> bool" where
  "visible c \<longleftrightarrow> 33 \<le> byte c \<and> byte c < 127"

lemma ws_invisible: "list_all (\<lambda>p. p \<noteq> [] \<and> \<not> visible (hd p) \<and> \<not> visible (last p)) ws_seqs"
  by code_simp

lemma trim_visible:
  assumes "list_all visible s" shows "trim s = s"
proof -
  have none: "strip_any ps t = None" if "list_all visible t" "\<forall>p\<in>set ps. p \<noteq> [] \<and> \<not> visible (hd p)" for ps t
    unfolding strip_any_None
  proof (intro ballI impI)
    fix q assume q: "q \<in> set ps" "q \<noteq> []"
    show "strip_prefix q t = None"
    proof (cases "strip_prefix q t")
      case (Some r)
      then have "hd q \<in> set t" using q(2) by (auto simp: strip_prefix_Some)
      then show ?thesis using that q(1) by (auto simp: list_all_iff)
    qed
  qed
  have "strip_any ws_seqs s = None" using none assms ws_invisible by (auto simp: list_all_iff)
  moreover have "strip_any (map rev ws_seqs) (rev s) = None"
    by (rule none) (use assms ws_invisible in \<open>auto simp: list_all_iff hd_rev\<close>)
  ultimately show ?thesis by (simp add: trim_def trim_start_def trim_end_def drop_seqs_None)
qed

section \<open>The browser's side\<close>

text \<open>The name and value of a \<^verbatim>\<open>Set-Cookie\<close> header, and the \<^verbatim>\<open>Cookie\<close> header that sends such pairs back.\<close>

definition cookie_pair :: "string \<Rightarrow> string" where
  "cookie_pair c = takeWhile (\<lambda>x. x \<noteq> CHR '';'') c"

definition browser :: "string list \<Rightarrow> headers" where
  "browser pairs = [(''cookie'', join ''; '' pairs)]"

definition cookie_text :: "string \<Rightarrow> bool" where
  "cookie_text s \<longleftrightarrow> list_all visible s \<and> CHR '';'' \<notin> set s"

lemma cookie_text_append [simp]: "cookie_text (s @ t) \<longleftrightarrow> cookie_text s \<and> cookie_text t"
  by (auto simp: cookie_text_def)

lemma cookie_pair_simps: "CHR '';'' \<notin> set s \<Longrightarrow> cookie_pair (s @ CHR '';'' # t) = s"
  by (induction s) (auto simp: cookie_pair_def)

lemma trim_space: "list_all visible s \<Longrightarrow> trim (CHR '' '' # s) = s"
proof -
  assume v: "list_all visible s"
  have "strip_any ws_seqs (CHR '' '' # s) = Some s" by (simp add: ws_seqs_def)
  then have "trim_start (CHR '' '' # s) = trim_start s" by (subst (1) trim_start_def, subst drop_seqs.simps) (simp add: trim_start_def)
  then show ?thesis using trim_visible [OF v] by (simp add: trim_def)
qed

lemma split_pairs: "\<forall>s\<in>set ss. CHR '';'' \<notin> set s \<Longrightarrow> ss \<noteq> [] \<Longrightarrow> split_on (CHR '';'') (join ''; '' ss) = hd ss # map ((#) (CHR '' '')) (tl ss)"
proof (induction ss)
  case (Cons s ss)
  show ?case
  proof (cases ss)
    case (Cons s2 ss2)
    then have "split_on (CHR '';'') (join ''; '' ss) = s2 # map ((#) (CHR '' '')) ss2"
      using Cons.IH Cons.prems by simp
    moreover have "join ''; '' (s # ss) = s @ CHR '';'' # CHR '' '' # join ''; '' ss" using Cons by (simp add: join_Cons)
    ultimately show ?thesis using Cons.prems Cons by (simp add: split_on_append)
  qed (use Cons.prems in simp)
qed simp

lemma find_trimmed: "map trim kvs = map trim kvs' \<Longrightarrow> find_cookie name kvs = find_cookie name kvs'"
proof (induction kvs arbitrary: kvs')
  case (Cons kv kvs)
  then obtain kv' r where "kvs' = kv' # r" "trim kv = trim kv'" "map trim kvs = map trim r" by auto
  then show ?case using Cons.IH [of r] by (simp split: option.split)
qed simp

lemma find_first:
  "\<forall>x\<in>set xs. \<not> starts_with (name @ ''='') (trim x) \<Longrightarrow> strip_prefix (name @ ''='') (trim kv) = Some v \<Longrightarrow> find_cookie name (xs @ kv # ys) = Some v"
  by (induction xs) (auto simp: starts_with_def split: option.splits)

text \<open>A cookie is found among the others of the request.\<close>

lemma cookie_found:
  assumes "list_all cookie_text pairs" "pairs = xs @ (name @ ''='' @ v) # ys" "\<forall>x\<in>set xs. \<not> starts_with (name @ ''='') x"
  shows "header_text ''cookie'' (browser pairs) = Some (join ''; '' pairs)"
    "find_cookie name (split_on (CHR '';'') (join ''; '' pairs)) = Some v"
proof -
  have vis: "list_all (\<lambda>c. byte c = 9 \<or> 32 \<le> byte c \<and> byte c < 127) (join ''; '' ps)" if "list_all cookie_text ps" for ps
    using that
  proof (induction ps)
    case (Cons q ps)
    have "list_all (\<lambda>c. byte c = 9 \<or> 32 \<le> byte c \<and> byte c < 127) q"
      using Cons.prems by (auto simp: cookie_text_def visible_def list_all_iff)
    moreover have "list_all (\<lambda>c. byte c = 9 \<or> 32 \<le> byte c \<and> byte c < 127) ''; ''" by code_simp
    ultimately show ?case using Cons by (cases "ps = []") (simp_all add: join_Cons)
  qed simp
  show "header_text ''cookie'' (browser pairs) = Some (join ''; '' pairs)"
    using vis [OF assms(1)] by (simp add: header_text_def browser_def)
  have ne: "pairs \<noteq> []" "\<forall>s\<in>set pairs. CHR '';'' \<notin> set s" using assms(1,2) by (auto simp: list_all_iff cookie_text_def)
  have t: "trim s = s" "trim (CHR '' '' # s) = s" if "s \<in> set pairs" for s
    using that assms(1) trim_visible [of s] trim_space [of s] by (auto simp: list_all_iff cookie_text_def)
  have "map trim (hd pairs # map ((#) (CHR '' '')) (tl pairs)) = map trim pairs"
    using t ne(1) by (cases pairs) simp_all
  then have "find_cookie name (split_on (CHR '';'') (join ''; '' pairs)) = find_cookie name pairs"
    unfolding split_pairs [OF ne(2,1)] by (rule find_trimmed)
  also have "\<dots> = Some v"
    unfolding assms(2) by (rule find_first) (use assms(2,3) t in \<open>auto simp: strip_prefix_Some\<close>)
  finally show "find_cookie name (split_on (CHR '';'') (join ''; '' pairs)) = Some v" .
qed

end
