(* ===== verification/Account_Claims.thy ===== *)
theory Account_Claims imports Account Access_Claims Users_Claims Frame Cookies begin

text \<open>What a freshly issued personal key opens, and whom the export answers.\<close>

section \<open>The minted key as a header\<close>

lemma hex_visible: "list_all visible (hex s)"
proof -
  have "visible (low_hex n)" if "n < 16" for n using low_hex_byte [OF that] that by (simp add: visible_def)
  then show ?thesis by (induction s) (simp_all add: hex_def byte_parts)
qed

lemma key_text:
  assumes "generate_key a p = (Inr key, p')"
  shows "header_text ''x-api-key'' [(''x-api-key'', key)] = Some key" "trim key = key" "key \<noteq> []"
    "\<exists>bytes. entropy a 32 (world p) = (bytes, world p')" "cache p' = cache p"
proof -
  obtain bytes s where e: "entropy a 32 (world p) = (bytes, s)" by fastforce
  then have key: "key = ''rawdb_'' @ hex bytes" "p' = p \<lparr>world := s\<rparr>"
    using assms by (auto simp: generate_key_def rand_bytes_def cmd_defs KEY_PREFIX_def)
  have "list_all visible ''rawdb_''" by code_simp
  then have v: "list_all visible key" using hex_visible by (simp add: key)
  then show "trim key = key" by (rule trim_visible)
  have "list_all (\<lambda>c. byte c = 9 \<or> 32 \<le> byte c \<and> byte c < 127) key"
    using v by (auto simp: list_all_iff visible_def)
  then show "header_text ''x-api-key'' [(''x-api-key'', key)] = Some key" by (simp add: header_text_def)
  show "key \<noteq> []" "\<exists>bytes. entropy a 32 (world p) = (bytes, world p')" "cache p' = cache p" using e by (simp_all add: key)
qed

section \<open>The changed entry\<close>

lemma map_errE_Inr: "map_errE g m p = (Inr b, p') \<Longrightarrow> m p = (Inr b, p')"
  by (cases "m p") (auto simp: map_errE_def map_errR_def split: sum.splits)

lemma update_first_Some:
  "update_first P g us = Some us' \<Longrightarrow> \<exists>xs u ys. us = xs @ u # ys \<and> (\<forall>x\<in>set xs. \<not> P x) \<and> P u \<and> us' = xs @ g u # ys"
proof (induction us arbitrary: us')
  case (Cons u us)
  show ?case
  proof (cases "P u")
    case True
    then have "u # us = [] @ u # us" "us' = [] @ g u # us" using Cons.prems by simp_all
    then show ?thesis using True by (metis empty_iff list.set(1))
  next
    case False
    then obtain vs where vs: "update_first P g us = Some vs" "us' = u # vs" using Cons.prems by auto
    obtain xs w ys where w: "us = xs @ w # ys" "\<forall>x\<in>set xs. \<not> P x" "P w" "vs = xs @ g w # ys" using Cons.IH [OF vs(1)] by blast
    then have "u # us = (u # xs) @ w # ys" "\<forall>x\<in>set (u # xs). \<not> P x" "us' = (u # xs) @ g w # ys" using vs(2) False by simp_all
    then show ?thesis using w(3) by blast
  qed
qed simp

lemma hash_found:
  assumes time: "time_ok x" and run: "replace_users x etag us d0 = (Inr (), d)"
    and u: "u \<in> set us" "ur_api_key_hash u = Some h" and only: "\<forall>w\<in>set us. ur_api_key_hash w = Some h \<longrightarrow> w = u"
  shows "find_user_by_api_key_hash x h d = Some u"
proof -
  have "user_table_row x u \<in> set (users d)" using users_replaced(3) [OF time run] u(1) by simp
  moreover have "u_api_key_hash (user_table_row x u) = Some h" using u(2) by (simp add: user_table_row_def)
  ultimately obtain row where row: "first_row (\<lambda>r. u_api_key_hash r = Some h) (users d) = Some row"
    unfolding first_row_def by (metis (mono_tags, lifting) find_None_iff not_Some_eq)
  obtain w where w: "w \<in> set us" "row = user_table_row x w" "(row_to_user x row) \<lparr>ur_roles := load_roles (u_sub row) d\<rparr> = w"
      "u_api_key_hash row = Some h" using first_user_replaced [OF time run row] by blast
  then have "ur_api_key_hash w = Some h" by (simp add: user_table_row_def)
  then have "w = u" using only w(1) by blast
  then show ?thesis using row w(3) by (simp add: find_user_by_api_key_hash_def)
qed

text \<open>
  C13. A successful \<^verbatim>\<open>create_api_key\<close> gives the session's user exactly one working key: when the minted
  key is new to the users file, this pod accepts it at once as the session's user, provided the users file
  lists that user unblocked with the \<^verbatim>\<open>apiservice\<close> role at the moment of the write, and afterwards
  accepts no other key for that user; the users file holds the key's hash only.
\<close>

theorem issued_key_works:
  assumes st: "store_ok (app_s3 a) S" "entropy_ok a S" "conditional_writes (app_s3 a)" and time: "time_ok (externals a)"
    and run: "create_api_key a hs p = (Inr key, p')"
    and fresh: "\<forall>v us. st_env S (st_view S (world p)) v \<and> users_in (externals a) v = Some us \<longrightarrow> Some (key_hash a key) \<notin> ue_api_key_hash ` set us"
  shows "\<exists>s v us e. session_of a hs p = Some s \<and> se_sub s \<noteq> BOOTSTRAP_SUB
     \<and> st_env S (st_view S (world p)) v \<and> users_in (externals a) v = Some us \<and> e \<in> set us \<and> ue_sub e = se_sub s
     \<and> (let u = user_row_of (e \<lparr>ue_api_key_hash := Some (key_hash a key)\<rparr>) in
         lookup_key a (cache p') [(''x-api-key'', key)] = (if ue_blocked e \<or> ''apiservice'' \<notin> set (ue_roles e) then None else Some u)
         \<and> (\<forall>hs' w. lookup_key a (cache p') hs' = Some w \<and> ur_sub w = se_sub s \<longrightarrow>
              w = u \<and> (\<exists>raw. header_text ''x-api-key'' hs' = Some raw \<and> key_hash a (trim raw) = key_hash a key)))"
proof -
  let ?h = "key_hash a key"
  obtain s q u0 p1 us1 where s: "session_extractor a hs p = (Inr s, q)" "se_sub s \<noteq> BOOTSTRAP_SUB"
    and g: "generate_key a q = (Inr key :: app_error + _, p1)"
    and c: "map_errE map_users_error (cas_update a (set_key_entry (se_sub s) ?h)) p1 = (Inr us1, p')"
    using run unfolding create_api_key_def by (auto simp: bindE_Inr guardE_Inr read_db_Inr ret_Inr throw_Inr split: option.splits)
  have q: "q = p" "session_of a hs p = Some s" using s(1) by (auto simp: session_extractor_eq split: option.splits)
  note kt = key_text [OF g [unfolded q(1)]]
  have view: "st_view S (world p1) = st_view S (world p)" using st(2) kt(4) unfolding entropy_ok_def by (metis snd_conv)
  have c': "cas_update a (set_key_entry (se_sub s) ?h) p1 = (Inr us1, p')" using c by (rule map_errE_Inr)
  obtain v where v: "st_env S (st_view S (world p)) v" "users_updated a S (set_key_entry (se_sub s) ?h) us1 v p1 p'"
    using cas_tries_ends [OF st c' [unfolded cas_update_def]] view by auto
  obtain t us where us: "users_in (externals a) v = Some us" "set_key_entry (se_sub s) ?h t us = Inr us1"
    and w: "us1 = us \<or> (\<exists>etag. replace_users (externals a) (Some etag) (map user_row_of us1) (cache p1) = (Inr (), cache p'))"
    using v(2) unfolding users_updated_def by blast
  obtain xs e ys where e: "us = xs @ e # ys" "ue_sub e = se_sub s" "us1 = xs @ e \<lparr>ue_api_key_hash := Some ?h\<rparr> # ys"
    using us(2) update_first_Some by (force simp: set_key_entry_def split: option.splits)
  have new: "Some ?h \<notin> ue_api_key_hash ` set us" using fresh v(1) us(1) by blast
  let ?g = "e \<lparr>ue_api_key_hash := Some ?h\<rparr>" let ?u = "user_row_of ?g"
  have "ue_api_key_hash e \<noteq> Some ?h" using new e(1) by force
  then have "us1 \<noteq> us" using e(1,3) by (metis (no_types, lifting) list.inject same_append_eq user_entry.select_convs(7) user_entry.surjective user_entry.update_convs(7))
  then obtain etag where run: "replace_users (externals a) (Some etag) (map user_row_of us1) (cache p1) = (Inr (), cache p')"
    using w by blast
  have u: "?u \<in> set (map user_row_of us1)" "ur_api_key_hash ?u = Some ?h" "ur_sub ?u = se_sub s"
    using e by (auto simp: user_row_of_def)
  have only: "\<forall>w\<in>set (map user_row_of us1). ur_api_key_hash w = Some ?h \<longrightarrow> w = ?u"
  proof (intro ballI impI)
    fix w assume w: "w \<in> set (map user_row_of us1)" "ur_api_key_hash w = Some ?h"
    then obtain x where x: "x \<in> set us1" "w = user_row_of x" by auto
    then have "ue_api_key_hash x = Some ?h" using w(2) by (simp add: user_row_of_def)
    then have "x \<notin> set us" using new by (metis imageI)
    then show "w = ?u" using x e by auto
  qed
  have found: "find_user_by_api_key_hash (externals a) ?h (cache p') = Some ?u"
    by (rule hash_found [OF time run u(1,2) only])
  have works: "lookup_key a (cache p') [(''x-api-key'', key)] = (if ue_blocked e \<or> ''apiservice'' \<notin> set (ue_roles e) then None else Some ?u)"
    using kt(1-3) found by (auto simp: lookup_key_def API_KEY_HEADER_def ROLE_APISERVICE_def list_ex_iff user_row_of_def)
  have alone: "w = ?u \<and> (\<exists>raw. header_text ''x-api-key'' hs' = Some raw \<and> key_hash a (trim raw) = ?h)"
    if k: "lookup_key a (cache p') hs' = Some w" "ur_sub w = se_sub s" for hs' w
  proof -
    note acc = key_accepted [OF time run k(1)]
    have "w = ?u" using acc u(1,3) k(2) users_replaced(2) [OF time run] by (metis (mono_tags) distinct_map inj_onD)
    then show ?thesis using acc u(2) by auto
  qed
  show ?thesis
    using q(2) s(2) v(1) us(1) e(2) works alone by (intro exI conjI) (auto simp: e(1) Let_def)
qed

section \<open>Witness\<close>

definition service_eve :: user_entry where
  "service_eve = (plain_user ''eve'') \<lparr>ue_roles := [''apiservice'']\<rparr>"

definition key_app :: "mem app" where
  "key_app = sample_app \<lparr>externals := sample_pod_ext \<lparr>toml_users := (\<lambda>t. if t = ''E'' then Some [service_eve] else None),
     print_users := (\<lambda>us. Some ''F'')\<rparr>\<rparr>"

definition key_pod :: "mem pod" where
  "key_pod = \<lparr>world = mem_put USERS_KEY ''E'' \<lparr>mem_objs = [], mem_seq = 7\<rparr>,
     cache = snd (replace_users (externals key_app) None [user_row_of service_eve] empty_db), tick_cells = (\<lambda>_. None)\<rparr>"

lemma key_app_simps [simp]:
  "app_s3 key_app = mem_s3" "externals key_app = sample_pod_ext \<lparr>toml_users := (\<lambda>t. if t = ''E'' then Some [service_eve] else None),
     print_users := (\<lambda>us. Some ''F'')\<rparr>" "app_config key_app = sample_config"
  by (simp_all add: key_app_def)

definition minted :: string where "minted = ''rawdb_'' @ hex (replicate 32 (char_of (8 :: nat)))"

lemma key_minted: "generate_key key_app key_pod = (Inr minted :: app_error + _, key_pod \<lparr>world := (world key_pod) \<lparr>mem_seq := 9\<rparr>\<rparr>)"
  by (simp add: generate_key_def rand_bytes_def cmd_defs key_app_def sample_app_def key_pod_def mem_put_def
      KEY_PREFIX_def minted_def)

lemma key_time_ok: "time_ok (externals key_app)"
  using pod_time_ok by (simp add: time_ok_def)

lemma key_eligible: "get_user (externals key_app) ''eve'' (cache key_pod) = Some (user_row_of service_eve)"
proof -
  have "replace_users (externals key_app) None [user_row_of service_eve] empty_db = (Inr (), cache key_pod)"
    by (simp add: key_pod_def replace_users_eq user_row_of_def service_eve_def)
  from users_replaced(1) [OF key_time_ok this, of "user_row_of service_eve"] show ?thesis
    by (simp add: user_row_of_def service_eve_def plain_user_def)
qed

definition minted_eve :: user_entry where
  "minted_eve = service_eve \<lparr>ue_api_key_hash := Some (hex minted)\<rparr>"

lemma key_written: "\<exists>p'. cas_update key_app (set_key_entry ''eve'' (hex minted)) (key_pod \<lparr>world := (world key_pod) \<lparr>mem_seq := 9\<rparr>\<rparr>) = (Inr [minted_eve], p')"
proof -
  let ?w = "(world key_pod) \<lparr>mem_seq := 9\<rparr>" let ?s = "mem_put USERS_KEY ''F'' ?w"
  have v: "mem_view ?w USERS_KEY = Some \<lparr>ob_bytes = ''E'', ob_etag = ''E'', ob_modified = 7\<rparr>"
    by (simp add: key_pod_def view_put mem_tag_def tag1_def)
  have q: "strip_etag_quotes (quoted ''E'') = ''E''" by code_simp
  have written: "write_users mem_s3 ''F'' (Some ''E'') ?w = (Inr (mem_tag ''F''), ?s)"
    using v strip_quoted [OF tag_quote_free, of "''F''"] by (simp add: write_users_def put_bytes_def cmd_defs mem_s3_def quoted_def)
  have ok: "utf8_valid ''E''" by code_simp
  have set: "set_key_entry ''eve'' (hex minted) t [service_eve] = Inr [minted_eve]" for t
    by (simp add: set_key_entry_def minted_eve_def service_eve_def plain_user_def)
  have ne: "minted_eve \<noteq> service_eve"
    by (simp add: minted_eve_def service_eve_def plain_user_def)
  obtain d where cached: "replace_users (externals key_app) (Some (mem_tag ''F'')) [user_row_of minted_eve] (cache key_pod) = (Inr (), d)"
    by (simp add: replace_users_eq user_row_of_def minted_eve_def service_eve_def)
  obtain p' where bump: "bump_ticks key_app [SyncUsers] ''users_cas_update''
      (key_pod \<lparr>world := ?s, cache := d\<rparr>) = (Inr () :: users_error + unit, p')"
    using bump_users_frame [where 'e = users_error, of key_app mem_contract SyncUsers] mem_store_ok sample_entropy_ok
    by (auto simp: key_app_def entropy_ok_def) (metis prod.collapse)
  show ?thesis
    using v q written ok set ne cached bump
    by (simp add: cas_update_def MAX_CAS_RETRIES_def numeral_eq_Suc read_with_etag_def store_users_def cmd_defs)
qed

lemma eve_creates: "\<exists>p'. create_api_key key_app eve_request key_pod = (Inr minted, p')"
proof -
  have sess: "session_extractor key_app eve_request key_pod =
      (Inr \<lparr>se_sub = ''eve'', se_source = ''oidc'', se_roles = [''admin''], se_exp = 0\<rparr>, key_pod)"
    by (simp add: session_extractor_eq session_of_def eve_cookie decode_session_def key_app_def sample_app_def)
  have h: "key_hash key_app minted = hex minted" by (simp add: key_hash_def key_app_def sample_app_def)
  obtain p' where "cas_update key_app (set_key_entry ''eve'' (hex minted)) (key_pod \<lparr>world := (world key_pod) \<lparr>mem_seq := 9\<rparr>\<rparr>) = (Inr [minted_eve], p')"
    using key_written by blast
  with sess key_minted key_eligible h show ?thesis
    by (simp add: create_api_key_def bindE_def guardE_def ret_def read_db_def gets_def map_errE_def BOOTSTRAP_SUB_def
        user_row_of_def service_eve_def ROLE_APISERVICE_def del: key_app_simps)
qed

lemma issued_key_works_witness:
  "\<exists>key p' u. create_api_key key_app eve_request key_pod = (Inr key, p')
     \<and> lookup_key key_app (cache p') [(''x-api-key'', key)] = Some u \<and> ur_sub u = ''eve''"
proof -
  obtain p' where run: "create_api_key key_app eve_request key_pod = (Inr minted, p')" using eve_creates by blast
  have st: "store_ok (app_s3 key_app) mem_contract" "entropy_ok key_app mem_contract" "conditional_writes (app_s3 key_app)"
    using mem_store_ok sample_entropy_ok by (simp_all add: mem_s3_def entropy_ok_def key_app_def)
  have held: "users_in (externals key_app) v = Some [service_eve]" if "st_env mem_contract (st_view mem_contract (world key_pod)) v" for v
  proof -
    have "v USERS_KEY = Some \<lparr>ob_bytes = ''E'', ob_etag = mem_tag ''E'', ob_modified = 7\<rparr>"
      using that by (auto simp: mem_contract_def key_pod_def view_put)
    moreover have "utf8_valid ''E''" by code_simp
    ultimately show ?thesis by (simp add: users_in_def)
  qed
  have fresh: "\<forall>v us. st_env mem_contract (st_view mem_contract (world key_pod)) v \<and> users_in (externals key_app) v = Some us
      \<longrightarrow> Some (key_hash key_app minted) \<notin> ue_api_key_hash ` set us"
    using held by (auto simp: service_eve_def plain_user_def)
  from issued_key_works [OF st key_time_ok run fresh] obtain v us e s where
    e: "st_env mem_contract (st_view mem_contract (world key_pod)) v" "users_in (externals key_app) v = Some us" "e \<in> set us"
      "lookup_key key_app (cache p') [(''x-api-key'', minted)] = (if ue_blocked e \<or> ''apiservice'' \<notin> set (ue_roles e) then None
         else Some (user_row_of (e \<lparr>ue_api_key_hash := Some (key_hash key_app minted)\<rparr>)))" by (auto simp: Let_def)
  then have "e = service_eve" using held [OF e(1)] by auto
  then show ?thesis using run e(4) by (auto simp: service_eve_def plain_user_def user_row_of_def)
qed

end
