(* ===== verification/Idp.thy ===== *)
theory Idp imports Apikey begin

text \<open>
  \<^verbatim>\<open>src/backend/src/auth_oidc.rs\<close> (with the \<^verbatim>\<open>oidc\<close> feature, the default) and
  \<^verbatim>\<open>src/backend/src/auth_github.rs\<close>: the two identity providers. A flow starts with a redirect and a
  pending record that the browser keeps in a signed cookie, and ends with the provider's code being
  exchanged for an identity. The HTTP exchanges, the URL builders and the random tokens belong to
  \<^verbatim>\<open>openidconnect\<close>, \<^verbatim>\<open>oauth2\<close> and \<^verbatim>\<open>reqwest\<close> and are fields of the clients.
\<close>

section \<open>OIDC\<close>

record oidc_pending =
  op_csrf :: string
  op_nonce :: string
  op_pkce_verifier :: string
  op_exp :: int

record oidc_identity =
  oi_sub :: string
  oi_preferred_username :: "string option"
  oi_email :: "string option"
  oi_name :: "string option"

text \<open>
  \<open>oidc_pkce\<close> draws a challenge with its verifier, \<open>oidc_authorize\<close> builds the URL for the scopes and
  draws state and nonce, \<open>oidc_exchange\<close> swaps code and verifier for the ID token, if the provider
  sent one, and \<open>oidc_claims\<close> verifies it against the nonce.
\<close>

record 's oidc_client =
  oidc_pkce :: "'s \<Rightarrow> (string \<times> string) \<times> 's"
  oidc_authorize :: "string list \<Rightarrow> string \<Rightarrow> 's \<Rightarrow> (string \<times> string \<times> string) \<times> 's"
  oidc_exchange :: "string \<Rightarrow> string \<Rightarrow> ('s, unit, string option) cmd"
  oidc_claims :: "string \<Rightarrow> string \<Rightarrow> ('s, unit, oidc_identity) cmd"

definition oidc_start_flow :: "'s app \<Rightarrow> 's oidc_client \<Rightarrow> ('s, 'e, string \<times> oidc_pending) cmd" where
  "oidc_start_flow a c = (\<lambda>s.
     case oidc_pkce c s of ((challenge, verifier), s1) \<Rightarrow>
     case oidc_authorize c [''openid'', ''email'', ''profile''] challenge s1 of ((url, csrf, nonce), s2) \<Rightarrow>
     (Inr (url, \<lparr>op_csrf = csrf, op_nonce = nonce, op_pkce_verifier = verifier,
        op_exp = timestamp a (clock (app_s3 a) s2) + 600\<rparr>), s2))"

definition oidc_finish_flow :: "'s oidc_client \<Rightarrow> oidc_pending \<Rightarrow> string \<Rightarrow> string \<Rightarrow> ('s, unit, oidc_identity) cmd" where
  "oidc_finish_flow c pending received_state code =
     (if received_state \<noteq> op_csrf pending then throw ()
      else bindE (oidc_exchange c code (op_pkce_verifier pending)) (\<lambda>id_token. case id_token of
          None \<Rightarrow> throw ()
        | Some t \<Rightarrow> oidc_claims c t (op_nonce pending)))"

section \<open>GitHub\<close>

definition USER_URL :: string where "USER_URL = ''https://api.github.com/user''"
definition EMAILS_URL :: string where "EMAILS_URL = ''https://api.github.com/user/emails''"

record gh_pending =
  gp_csrf :: string
  gp_pkce_verifier :: string
  gp_exp :: int

record gh_identity =
  gi_login :: string
  gi_id :: string
  gi_name :: "string option"
  gi_email :: "string option"

record github_user =
  gu_login :: string
  gu_id :: nat
  gu_name :: "string option"
  gu_email :: "string option"

record github_email =
  ge_email :: string
  ge_primary :: bool
  ge_verified :: bool

text \<open>\<open>gh_get\<close> sends an authorised GET and yields status and body; the parsers are serde's.\<close>

record 's github_client =
  gh_pkce :: "'s \<Rightarrow> (string \<times> string) \<times> 's"
  gh_authorize :: "string list \<Rightarrow> string \<Rightarrow> 's \<Rightarrow> (string \<times> string) \<times> 's"
  gh_exchange :: "string \<Rightarrow> string \<Rightarrow> ('s, unit, string) cmd"
  gh_get :: "string \<Rightarrow> string \<Rightarrow> ('s, unit, nat \<times> string) cmd"
  gh_parse_user :: "string \<Rightarrow> github_user option"
  gh_parse_emails :: "string \<Rightarrow> github_email list option"

definition gh_start_flow :: "'s app \<Rightarrow> 's github_client \<Rightarrow> ('s, 'e, string \<times> gh_pending) cmd" where
  "gh_start_flow a c = (\<lambda>s.
     case gh_pkce c s of ((challenge, verifier), s1) \<Rightarrow>
     case gh_authorize c [''read:user'', ''user:email''] challenge s1 of ((url, csrf), s2) \<Rightarrow>
     (Inr (url, \<lparr>gp_csrf = csrf, gp_pkce_verifier = verifier,
        gp_exp = timestamp a (clock (app_s3 a) s2) + 600\<rparr>), s2))"

text \<open>\<^verbatim>\<open>send().await?.error_for_status()?.json().await?\<close>\<close>

definition get_json :: "'s github_client \<Rightarrow> (string \<Rightarrow> 'b option) \<Rightarrow> string \<Rightarrow> string \<Rightarrow> ('s, unit, 'b) cmd" where
  "get_json c parse_body url access =
     bindE (gh_get c url access) (\<lambda>(status, body).
     if 400 \<le> status \<and> status < 600 then throw ()
     else case parse_body body of None \<Rightarrow> throw () | Some v \<Rightarrow> ret v)"

definition fetch_primary_email :: "'s github_client \<Rightarrow> string \<Rightarrow> ('s, unit, string option) cmd" where
  "fetch_primary_email c access =
     bindE (get_json c (gh_parse_emails c) EMAILS_URL access) (\<lambda>emails.
     ret (map_option ge_email (find (\<lambda>e. ge_primary e \<and> ge_verified e) emails)))"

definition gh_finish_flow :: "'s github_client \<Rightarrow> gh_pending \<Rightarrow> string \<Rightarrow> string \<Rightarrow> ('s, unit, gh_identity) cmd" where
  "gh_finish_flow c pending received_state code =
     (if received_state \<noteq> gp_csrf pending then throw ()
      else bindE (gh_exchange c code (gp_pkce_verifier pending)) (\<lambda>access.
        bindE (get_json c (gh_parse_user c) USER_URL access) (\<lambda>user.
        bindE (if gu_email user \<noteq> None then ret (gu_email user)
               else matchE (fetch_primary_email c access) (\<lambda>r. ret (case r of Inr e \<Rightarrow> e | Inl _ \<Rightarrow> None))) (\<lambda>email.
        ret \<lparr>gi_login = gu_login user, gi_id = dec (gu_id user), gi_name = gu_name user, gi_email = email\<rparr>))))"

section \<open>The providers of a deployment\<close>

text \<open>
  \<^verbatim>\<open>AppState::oidc\<close> and \<^verbatim>\<open>AppState::github\<close> with the \<^verbatim>\<open>jsonwebtoken\<close> and \<^verbatim>\<open>urlencoding\<close> functions the
  login handlers use: signing a pending flow with the session key, reading it back at a time.
\<close>

record 's idp =
  idp_oidc :: "'s oidc_client option"
  idp_github :: "'s github_client option"
  sign_oidc :: "string \<Rightarrow> oidc_pending \<Rightarrow> string option"
  read_oidc :: "string \<Rightarrow> datetime \<Rightarrow> string \<Rightarrow> oidc_pending option"
  sign_github :: "string \<Rightarrow> gh_pending \<Rightarrow> string option"
  read_github :: "string \<Rightarrow> datetime \<Rightarrow> string \<Rightarrow> gh_pending option"
  urlencode :: "string \<Rightarrow> string"

lemma get_json_Inr: "get_json c f url access s = (Inr v, s') \<Longrightarrow>
    \<exists>status body. gh_get c url access s = (Inr (status, body), s') \<and> \<not> (400 \<le> status \<and> status < 600) \<and> f body = Some v"
  by (auto simp: get_json_def bindE_Inr ret_def throw_def split: option.splits if_splits)

lemma oidc_finish_Inr: "oidc_finish_flow c pending st code s = (Inr i, s') \<longleftrightarrow>
    st = op_csrf pending \<and> (\<exists>t s1. oidc_exchange c code (op_pkce_verifier pending) s = (Inr (Some t), s1)
      \<and> oidc_claims c t (op_nonce pending) s1 = (Inr i, s'))"
  by (auto simp: oidc_finish_flow_def bindE_Inr throw_def split: option.splits)

lemma gh_finish_Inr:
  assumes "gh_finish_flow c pending st code s = (Inr i, s')"
  shows "st = gp_csrf pending \<and> (\<exists>access user s1 s2. gh_exchange c code (gp_pkce_verifier pending) s = (Inr access, s1)
      \<and> get_json c (gh_parse_user c) USER_URL access s1 = (Inr user, s2) \<and> gi_login i = gu_login user \<and> gi_name i = gu_name user)"
proof -
  have "st = gp_csrf pending" using assms by (auto simp: gh_finish_flow_def throw_def split: if_splits)
  then show ?thesis using assms unfolding gh_finish_flow_def by (auto simp: bindE_Inr ret_def)
qed

end
