(* ===== verification/Login.thy ===== *)
theory Login imports Idp Auth Responses begin

text \<open>
  \<^verbatim>\<open>src/backend/src/routes/auth.rs\<close>: password login, logout, the session probe and the two sign-in flows.
  An early return of \<^verbatim>\<open>AppError::X.into_response()\<close> is the error \<open>X\<close>. Header values are taken to be
  valid, as the signed tokens and encoded texts they are built from are.
\<close>

section \<open>Password\<close>

definition json_reply :: "string \<Rightarrow> string list \<Rightarrow> response" where
  "json_reply body cookies = \<lparr>rs_status = 200,
     rs_headers = (''content-type'', ''application/json'') # map (\<lambda>c. (''set-cookie'', c)) cookies, rs_body = body\<rparr>"

definition login :: "'s app \<Rightarrow> string \<Rightarrow> ('s, response) handler" where
  "login a password =
     (if \<not> password_auth_enabled (app_config a) then throw Forbidden
      else if \<not> verify_admin_password a password then throw Unauthorized
      else bindE (encode_session a BOOTSTRAP_SUB PASSWORD_SOURCE [ROLE_ADMIN]) (\<lambda>token.
        ret (json_reply (''{\"ok\":true,\"sub\":\"bootstrap:admin\"}'') [set_cookie_header (app_config a) token])))"

definition logout :: response where
  "logout = json_reply (''{\"ok\":true}'') [clear_cookie_header]"

record me_response =
  me_sub :: string
  me_source :: string
  me_roles :: "string list"
  me_display_name :: "string option"

definition me :: "'s app \<Rightarrow> headers \<Rightarrow> ('s, me_response) handler" where
  "me a hs =
     bindE (session_extractor a hs) (\<lambda>sess.
     bindE (if se_sub sess \<noteq> BOOTSTRAP_SUB
            then bindE (read_db (get_user (externals a) (se_sub sess))) (\<lambda>u. ret (case u of
                Some u \<Rightarrow> (ur_roles u, ur_display_name u) | None \<Rightarrow> (se_roles sess, None)))
            else ret (se_roles sess, None)) (\<lambda>(roles, display_name).
     ret \<lparr>me_sub = se_sub sess, me_source = se_source sess, me_roles = roles, me_display_name = display_name\<rparr>))"

record auth_methods =
  am_password :: bool
  am_oidc :: bool
  am_github :: bool

definition methods :: "config \<Rightarrow> auth_methods" where
  "methods c = \<lparr>am_password = password_auth_enabled c, am_oidc = oidc_enabled c, am_github = github_enabled c\<rparr>"

section \<open>Replies and cookies of the flows\<close>

definition redirect :: "string \<Rightarrow> string list \<Rightarrow> response" where
  "redirect url cookies = \<lparr>rs_status = 307, rs_headers = (''location'', url) # map (\<lambda>c. (''set-cookie'', c)) cookies, rs_body = []\<rparr>"

definition cookie_value :: "headers \<Rightarrow> string \<Rightarrow> string option" where
  "cookie_value hs name = (case header_text ''cookie'' hs of
       None \<Rightarrow> None | Some raw \<Rightarrow> find_cookie name (split_on (CHR '';'') raw))"

definition oidc_pending_cookie :: "string \<Rightarrow> string" where
  "oidc_pending_cookie token = ''rawdb_oidc_pending='' @ token @ ''; Path=/auth/oidc; HttpOnly; SameSite=Lax; Max-Age=600''"

definition github_pending_cookie :: "string \<Rightarrow> string" where
  "github_pending_cookie token = ''rawdb_github_pending='' @ token @ ''; Path=/auth/github; HttpOnly; SameSite=Lax; Max-Age=600''"

definition oidc_clear :: string where
  "oidc_clear = ''rawdb_oidc_pending=; Path=/auth/oidc; HttpOnly; SameSite=Lax; Max-Age=0''"

definition github_clear :: string where
  "github_clear = ''rawdb_github_pending=; Path=/auth/github; HttpOnly; SameSite=Lax; Max-Age=0''"

definition reject_to_login :: "'s idp \<Rightarrow> string \<Rightarrow> string \<Rightarrow> string \<Rightarrow> response" where
  "reject_to_login i reason sub provider =
     redirect (''/login?error='' @ urlencode i reason @ ''&sub='' @ urlencode i sub)
       [''rawdb_'' @ provider @ ''_pending=; Path='' @ (if provider = ''github'' then ''/auth/github'' else ''/auth/oidc'')
        @ ''; HttpOnly; SameSite=Lax; Max-Age=0'']"

text \<open>The mutator of the first-admin bootstrap.\<close>

definition add_initial_admin :: "string \<Rightarrow> string option \<Rightarrow> string \<Rightarrow> datetime \<Rightarrow> user_entry list \<Rightarrow> users_error + user_entry list" where
  "add_initial_admin sub display added_by t us =
     (if list_ex (\<lambda>u. ue_sub u = sub) us then Inr us
      else Inr (us @ [\<lparr>ue_sub = sub, ue_display_name = display, ue_blocked = False, ue_added_at = Some t,
        ue_added_by = Some added_by, ue_roles = [''admin''], ue_api_key_hash = None\<rparr>]))"

section \<open>OIDC\<close>

definition oidc_start :: "'s app \<Rightarrow> 's idp \<Rightarrow> ('s, response) handler" where
  "oidc_start a i = (case idp_oidc i of None \<Rightarrow> throw MissingItem | Some oidc \<Rightarrow>
     bindE (on_world (oidc_start_flow a oidc)) (\<lambda>(url, pending).
     case sign_oidc i (session_key (app_config a)) pending of None \<Rightarrow> throw Internal | Some token \<Rightarrow>
     ret (redirect url [oidc_pending_cookie token])))"

definition oidc_canonical_sub :: "config \<Rightarrow> oidc_identity \<Rightarrow> string" where
  "oidc_canonical_sub c identity = (case oidc_sub_format c of
       SubRaw \<Rightarrow> oi_sub identity
     | SubGithub \<Rightarrow> (case oi_preferred_username identity of Some u \<Rightarrow> ''github:'' @ u | None \<Rightarrow> oi_sub identity))"

definition oidc_callback :: "'s app \<Rightarrow> 's idp \<Rightarrow> headers \<Rightarrow> string \<Rightarrow> string \<Rightarrow> ('s, response) handler" where
  "oidc_callback a i hs code st = (case idp_oidc i of None \<Rightarrow> throw MissingItem | Some oidc \<Rightarrow>
     (case cookie_value hs ''rawdb_oidc_pending'' of None \<Rightarrow> throw BadRequest | Some pending_token \<Rightarrow>
     bindE (now_at a) (\<lambda>t.
     case read_oidc i (session_key (app_config a)) t pending_token of None \<Rightarrow> throw Unauthorized | Some pending \<Rightarrow>
     bindE (map_errE (\<lambda>_. Internal) (on_world (oidc_finish_flow oidc pending st code))) (\<lambda>identity.
     let canonical_sub = oidc_canonical_sub (app_config a) identity in
     bindE (if oidc_initial_admin_sub (app_config a) = Some canonical_sub
            then ignoring (cas_update a (add_initial_admin canonical_sub (oi_name identity) ''oidc:initial''))
            else ret ()) (\<lambda>_.
     bindE (read_db (get_user (externals a) canonical_sub)) (\<lambda>user. case user of
         None \<Rightarrow> ret (reject_to_login i ''not_registered'' canonical_sub ''oidc'')
       | Some user \<Rightarrow>
           if ur_blocked user then ret (reject_to_login i ''blocked'' canonical_sub ''oidc'')
           else bindE (encode_session a canonical_sub OIDC_SOURCE (ur_roles user)) (\<lambda>token.
             ret (redirect ''/admin'' [set_cookie_header (app_config a) token, oidc_clear]))))))))"

section \<open>GitHub\<close>

definition github_start :: "'s app \<Rightarrow> 's idp \<Rightarrow> ('s, response) handler" where
  "github_start a i = (case idp_github i of None \<Rightarrow> throw MissingItem | Some gh \<Rightarrow>
     bindE (on_world (gh_start_flow a gh)) (\<lambda>(url, pending).
     case sign_github i (session_key (app_config a)) pending of None \<Rightarrow> throw Internal | Some token \<Rightarrow>
     ret (redirect url [github_pending_cookie token])))"

definition github_canonical_sub :: "gh_identity \<Rightarrow> string" where
  "github_canonical_sub identity = ''github:'' @ gi_login identity"

definition github_display :: "gh_identity \<Rightarrow> string option" where
  "github_display identity = (case gi_name identity of Some n \<Rightarrow> Some n | None \<Rightarrow> Some (gi_login identity))"

definition github_callback :: "'s app \<Rightarrow> 's idp \<Rightarrow> headers \<Rightarrow> string \<Rightarrow> string \<Rightarrow> ('s, response) handler" where
  "github_callback a i hs code st = (case idp_github i of None \<Rightarrow> throw MissingItem | Some gh \<Rightarrow>
     (case cookie_value hs ''rawdb_github_pending'' of None \<Rightarrow> throw BadRequest | Some pending_token \<Rightarrow>
     bindE (now_at a) (\<lambda>t.
     case read_github i (session_key (app_config a)) t pending_token of None \<Rightarrow> throw Unauthorized | Some pending \<Rightarrow>
     bindE (map_errE (\<lambda>_. Internal) (on_world (gh_finish_flow gh pending st code))) (\<lambda>identity.
     let canonical_sub = github_canonical_sub identity in
     bindE (if github_initial_admin_sub (app_config a) = Some canonical_sub
            then ignoring (cas_update a (add_initial_admin canonical_sub (github_display identity) ''github:initial''))
            else ret ()) (\<lambda>_.
     bindE (read_db (get_user (externals a) canonical_sub)) (\<lambda>user. case user of
         None \<Rightarrow> ret (reject_to_login i ''not_registered'' canonical_sub ''github'')
       | Some user \<Rightarrow>
           if ur_blocked user then ret (reject_to_login i ''blocked'' canonical_sub ''github'')
           else bindE (encode_session a canonical_sub OIDC_SOURCE (ur_roles user)) (\<lambda>token.
             ret (redirect ''/admin'' [set_cookie_header (app_config a) token, github_clear]))))))))"

end
