(* ===== verification/Login_Claims.thy ===== *)
theory Login_Claims imports Login Account_Claims begin

text \<open>The properties of the logins: whom they give a session, and that an honest sign-in arrives.\<close>

section \<open>Password login\<close>

definition password_accepted :: "'s app \<Rightarrow> string \<Rightarrow> bool" where
  "password_accepted a pw = (case admin_password_hash (app_config a) of
       Some h \<Rightarrow> argon2_verify a h pw = Some True
     | None \<Rightarrow> admin_password (app_config a) = Some pw)"

lemma verify_accepted: "verify_admin_password a pw = password_accepted a pw"
  by (auto simp: verify_admin_password_def password_accepted_def bytes_differ_zero split: option.splits)

text \<open>The session a login at a time would hand out.\<close>

definition fresh_session :: "'s app \<Rightarrow> datetime \<Rightarrow> string \<Rightarrow> string \<Rightarrow> string list \<Rightarrow> session" where
  "fresh_session a t sub source roles = \<lparr>se_sub = sub, se_source = source, se_roles = roles,
     se_exp = saturating_i64 (timestamp a t + as_i64 (session_ttl_secs (app_config a)))\<rparr>"

lemma encode_session_eq: "encode_session a sub source roles p =
    ((case jwt_encode a (session_key (app_config a)) (fresh_session a (clock (app_s3 a) (world p)) sub source roles) of
        None \<Rightarrow> Inl Internal | Some token \<Rightarrow> Inr token), p)"
  by (simp add: encode_session_def fresh_session_def cmd_defs Let_def split: option.split)

text \<open>
  C24. Password login answers with a session cookie exactly when password login is enabled and the submitted
  text is the admin's: accepted by the configured hash, or equal to the configured plain password when no
  hash is set. The cookie's session is the bootstrap admin's with the role \<^verbatim>\<open>admin\<close> alone. A closed path
  answers 403 whatever is submitted, a wrong password 401, and nothing is changed.
\<close>

theorem password_login_exact:
  assumes "login a pw p = (r, p')"
  shows "p' = p \<and> (case r of
      Inr resp \<Rightarrow> password_auth_enabled (app_config a) \<and> password_accepted a pw \<and>
        (\<exists>token. jwt_encode a (session_key (app_config a))
             (fresh_session a (clock (app_s3 a) (world p)) ''bootstrap:admin'' ''password'' [''admin'']) = Some token
           \<and> [c. (h, c) \<leftarrow> rs_headers resp, h = ''set-cookie''] = [set_cookie_header (app_config a) token])
    | Inl e \<Rightarrow> error_status e = (if \<not> password_auth_enabled (app_config a) then 403
        else if \<not> password_accepted a pw then 401 else 500))"
  using assms
  by (auto simp: login_def verify_accepted encode_session_eq bindE_def throw_def ret_def json_reply_def BOOTSTRAP_SUB_def
      PASSWORD_SOURCE_def ROLE_ADMIN_def split: option.splits if_splits)

lemma password_login_exact_witness:
  "\<exists>resp. fst (login sample_app ''secret'' sample_pod) = Inr resp \<and> fst (login sample_app ''secreT'' sample_pod) \<noteq> Inr resp"
proof -
  have acc: "password_accepted sample_app ''secret''" "\<not> password_accepted sample_app ''secreT''"
    by (simp_all add: password_accepted_def sample_config_def)
  have on: "password_auth_enabled (app_config sample_app)" by (simp add: sample_config_def)
  obtain r p' where r: "login sample_app ''secret'' sample_pod = (r, p')" by fastforce
  obtain r2 p2 where r2: "login sample_app ''secreT'' sample_pod = (r2, p2)" by fastforce
  have "\<exists>resp. r = Inr resp"
    using r acc(1) on by (auto simp: login_def verify_accepted encode_session_eq bindE_def ret_def sample_app_def)
  moreover have "\<exists>e. r2 = Inl e"
    using password_login_exact [OF r2] acc(2) by (cases r2) auto
  ultimately show ?thesis using r r2 by auto
qed

section \<open>Sign-in by a provider\<close>

text \<open>The session cookie that follows from what the users table says of a subject.\<close>

definition entitled :: "'s app \<Rightarrow> 's pod \<Rightarrow> string \<Rightarrow> string \<Rightarrow> bool" where
  "entitled a p sub c \<longleftrightarrow> (\<exists>u token. get_user (externals a) sub (cache p) = Some u \<and> \<not> ur_blocked u
     \<and> jwt_encode a (session_key (app_config a)) (fresh_session a (clock (app_s3 a) (world p)) sub ''oidc'' (ur_roles u)) = Some token
     \<and> c = set_cookie_header (app_config a) token)"

text \<open>The session cookies a reply sets.\<close>

definition session_cookies :: "response \<Rightarrow> string list" where
  "session_cookies r = [c. (h, c) \<leftarrow> rs_headers r, h = ''set-cookie'' \<and> starts_with ''rawdb_session='' c]"

lemma session_cookies_redirect:
  "session_cookies (redirect url cookies) = filter (starts_with ''rawdb_session='') cookies"
  by (induction cookies) (auto simp: session_cookies_def redirect_def)

lemma no_session_cookie:
  "session_cookies (reject_to_login i reason sub ''oidc'') = []" "session_cookies (reject_to_login i reason sub ''github'') = []"
  "session_cookies (redirect url [oidc_pending_cookie t]) = []" "session_cookies (redirect url [github_pending_cookie t]) = []"
  by (simp_all add: reject_to_login_def session_cookies_redirect starts_with_def oidc_pending_cookie_def github_pending_cookie_def)

lemma one_session_cookie:
  "session_cookies (redirect url [set_cookie_header c t, oidc_clear]) = [set_cookie_header c t]"
  "session_cookies (redirect url [set_cookie_header c t, github_clear]) = [set_cookie_header c t]"
  by (simp_all add: session_cookies_redirect starts_with_def set_cookie_header_def SESSION_COOKIE_def oidc_clear_def github_clear_def)

text \<open>The last step of both callbacks.\<close>

lemma callback_tail:
  assumes "(case u of None \<Rightarrow> ret (reject_to_login i r1 sub prov)
       | Some user \<Rightarrow> if ur_blocked user then ret (reject_to_login i r2 sub prov)
           else bindE (encode_session a sub OIDC_SOURCE (ur_roles user)) (\<lambda>token.
             ret (redirect ''/admin'' [set_cookie_header (app_config a) token, clear]))) p = (Inr resp, p')"
    and "get_user (externals a) sub (cache p) = u" "(prov, clear) = (''oidc'', oidc_clear) \<or> (prov, clear) = (''github'', github_clear)"
  shows "p' = p \<and> (\<forall>c\<in>set (session_cookies resp). entitled a p sub c)
    \<and> ((\<exists>c. session_cookies resp = [c]) \<longleftrightarrow> u \<noteq> None \<and> \<not> ur_blocked (the u))"
  using assms
  by (auto simp: ret_def bindE_def encode_session_eq entitled_def no_session_cookie one_session_cookie OIDC_SOURCE_def
      split: option.splits if_splits)


lemma on_world_Inr: "map_errE g (on_world m) p = (Inr v, p') \<longleftrightarrow> m (world p) = (Inr v, world p') \<and> p' = p \<lparr>world := world p'\<rparr>"
  by (cases "m (world p)") (auto simp: cmd_defs map_errR_def split: sum.splits)

text \<open>How far a callback came that answers.\<close>

lemma oidc_callback_Inr:
  assumes "oidc_callback a i hs code st p = (Inr resp, p')"
  shows "\<exists>c token pending identity s p1. idp_oidc i = Some c \<and> cookie_value hs ''rawdb_oidc_pending'' = Some token
    \<and> read_oidc i (session_key (app_config a)) (clock (app_s3 a) (world p)) token = Some pending
    \<and> oidc_finish_flow c pending st code (world p) = (Inr identity, s)
    \<and> (if oidc_initial_admin_sub (app_config a) = Some (oidc_canonical_sub (app_config a) identity)
         then ignoring (cas_update a (add_initial_admin (oidc_canonical_sub (app_config a) identity) (oi_name identity) ''oidc:initial''))
         else ret ()) (p \<lparr>world := s\<rparr>) = (Inr () :: app_error + unit, p1)
    \<and> p' = p1 \<and> (\<forall>k\<in>set (session_cookies resp). entitled a p1 (oidc_canonical_sub (app_config a) identity) k)
    \<and> ((\<exists>k. session_cookies resp = [k]) \<longleftrightarrow> (\<exists>u. get_user (externals a) (oidc_canonical_sub (app_config a) identity) (cache p1) = Some u \<and> \<not> ur_blocked u))"
proof -
  obtain c token where c: "idp_oidc i = Some c" "cookie_value hs ''rawdb_oidc_pending'' = Some token"
    using assms by (auto simp: oidc_callback_def throw_def split: option.splits)
  obtain pending where pending: "read_oidc i (session_key (app_config a)) (clock (app_s3 a) (world p)) token = Some pending"
    using assms c by (auto simp: oidc_callback_def throw_def bindE_Inr now_at_Inr split: option.splits)
  obtain identity q where ident: "map_errE (\<lambda>_. Internal) (on_world (oidc_finish_flow c pending st code)) p = (Inr identity, q)"
    using assms c pending unfolding oidc_callback_def by (auto simp: bindE_Inr now_at_Inr)
  note on = ident [unfolded on_world_Inr]
  let ?sub = "oidc_canonical_sub (app_config a) identity"
  obtain v p1 where boot: "(if oidc_initial_admin_sub (app_config a) = Some ?sub
         then ignoring (cas_update a (add_initial_admin ?sub (oi_name identity) ''oidc:initial'')) else ret ()) q = (Inr v :: app_error + unit, p1)"
    and tail: "bindE (read_db (get_user (externals a) ?sub)) (\<lambda>user. case user of
         None \<Rightarrow> ret (reject_to_login i ''not_registered'' ?sub ''oidc'')
       | Some user \<Rightarrow>
           if ur_blocked user then ret (reject_to_login i ''blocked'' ?sub ''oidc'')
           else bindE (encode_session a ?sub OIDC_SOURCE (ur_roles user)) (\<lambda>token.
             ret (redirect ''/admin'' [set_cookie_header (app_config a) token, oidc_clear]))) p1 = (Inr resp, p')"
    using assms c pending ident unfolding oidc_callback_def Let_def by (simp add: bindE_Inr now_at_Inr) blast
  note t = callback_tail [OF tail [unfolded bindE_Inr read_db_Inr, simplified] refl, simplified]
  show ?thesis using c pending on boot t
    by (intro exI [of _ c] exI [of _ token] exI [of _ pending] exI [of _ identity] exI [of _ "world q"] exI [of _ p1]) auto
qed

lemma github_callback_Inr:
  assumes "github_callback a i hs code st p = (Inr resp, p')"
  shows "\<exists>c token pending identity s p1. idp_github i = Some c \<and> cookie_value hs ''rawdb_github_pending'' = Some token
    \<and> read_github i (session_key (app_config a)) (clock (app_s3 a) (world p)) token = Some pending
    \<and> gh_finish_flow c pending st code (world p) = (Inr identity, s)
    \<and> (if github_initial_admin_sub (app_config a) = Some (github_canonical_sub identity)
         then ignoring (cas_update a (add_initial_admin (github_canonical_sub identity) (github_display identity) ''github:initial''))
         else ret ()) (p \<lparr>world := s\<rparr>) = (Inr () :: app_error + unit, p1)
    \<and> p' = p1 \<and> (\<forall>k\<in>set (session_cookies resp). entitled a p1 (github_canonical_sub identity) k)
    \<and> ((\<exists>k. session_cookies resp = [k]) \<longleftrightarrow> (\<exists>u. get_user (externals a) (github_canonical_sub identity) (cache p1) = Some u \<and> \<not> ur_blocked u))"
proof -
  obtain c token where c: "idp_github i = Some c" "cookie_value hs ''rawdb_github_pending'' = Some token"
    using assms by (auto simp: github_callback_def throw_def split: option.splits)
  obtain pending where pending: "read_github i (session_key (app_config a)) (clock (app_s3 a) (world p)) token = Some pending"
    using assms c by (auto simp: github_callback_def throw_def bindE_Inr now_at_Inr split: option.splits)
  obtain identity q where ident: "map_errE (\<lambda>_. Internal) (on_world (gh_finish_flow c pending st code)) p = (Inr identity, q)"
    using assms c pending unfolding github_callback_def by (auto simp: bindE_Inr now_at_Inr)
  note on = ident [unfolded on_world_Inr]
  let ?sub = "github_canonical_sub identity"
  obtain v p1 where boot: "(if github_initial_admin_sub (app_config a) = Some ?sub
         then ignoring (cas_update a (add_initial_admin ?sub (github_display identity) ''github:initial'')) else ret ()) q = (Inr v :: app_error + unit, p1)"
    and tail: "bindE (read_db (get_user (externals a) ?sub)) (\<lambda>user. case user of
         None \<Rightarrow> ret (reject_to_login i ''not_registered'' ?sub ''github'')
       | Some user \<Rightarrow>
           if ur_blocked user then ret (reject_to_login i ''blocked'' ?sub ''github'')
           else bindE (encode_session a ?sub OIDC_SOURCE (ur_roles user)) (\<lambda>token.
             ret (redirect ''/admin'' [set_cookie_header (app_config a) token, github_clear]))) p1 = (Inr resp, p')"
    using assms c pending ident unfolding github_callback_def Let_def by (simp add: bindE_Inr now_at_Inr) blast
  note t = callback_tail [OF tail [unfolded bindE_Inr read_db_Inr, simplified] refl, simplified]
  show ?thesis using c pending on boot t
    by (intro exI [of _ c] exI [of _ token] exI [of _ pending] exI [of _ identity] exI [of _ "world q"] exI [of _ p1]) auto
qed


text \<open>
  C8. A sign-in hands out a session only to a vouched, registered user: a reply of either callback sets a
  session cookie only if the browser's pending cookie carries a flow signed with the session key and
  not expired, the received state is that flow's, the provider exchanged the code for an identity under
  that flow's verifier (and, for OIDC, nonce), and the users table holds the identity's subject unblocked;
  the cookie is then the session of this subject with the table's roles, and it is the only one.
\<close>

theorem sign_in_sound:
  "(oidc_callback a i hs code st p = (Inr resp, p') \<and> k \<in> set (session_cookies resp) \<longrightarrow>
     (\<exists>c token pending identity id_token s1 s2. idp_oidc i = Some c \<and> cookie_value hs ''rawdb_oidc_pending'' = Some token
        \<and> read_oidc i (session_key (app_config a)) (clock (app_s3 a) (world p)) token = Some pending \<and> op_csrf pending = st
        \<and> oidc_exchange c code (op_pkce_verifier pending) (world p) = (Inr (Some id_token), s1)
        \<and> oidc_claims c id_token (op_nonce pending) s1 = (Inr identity, s2)
        \<and> entitled a p' (oidc_canonical_sub (app_config a) identity) k \<and> session_cookies resp = [k]))
   \<and> (github_callback a i hs code st p = (Inr resp, p') \<and> k \<in> set (session_cookies resp) \<longrightarrow>
     (\<exists>c token pending access user s1 s2. idp_github i = Some c \<and> cookie_value hs ''rawdb_github_pending'' = Some token
        \<and> read_github i (session_key (app_config a)) (clock (app_s3 a) (world p)) token = Some pending \<and> gp_csrf pending = st
        \<and> gh_exchange c code (gp_pkce_verifier pending) (world p) = (Inr access, s1)
        \<and> get_json c (gh_parse_user c) ''https://api.github.com/user'' access s1 = (Inr user, s2)
        \<and> entitled a p' (''github:'' @ gu_login user) k \<and> session_cookies resp = [k]))"
proof (intro conjI impI; elim conjE)
  assume k: "k \<in> set (session_cookies resp)" and r: "oidc_callback a i hs code st p = (Inr resp, p')"
  obtain c token pending identity s where o: "idp_oidc i = Some c" "cookie_value hs ''rawdb_oidc_pending'' = Some token"
      "read_oidc i (session_key (app_config a)) (clock (app_s3 a) (world p)) token = Some pending"
      "oidc_finish_flow c pending st code (world p) = (Inr identity, s)"
      "\<forall>k\<in>set (session_cookies resp). entitled a p' (oidc_canonical_sub (app_config a) identity) k"
      "(\<exists>k. session_cookies resp = [k]) \<longleftrightarrow> (\<exists>u. get_user (externals a) (oidc_canonical_sub (app_config a) identity) (cache p') = Some u \<and> \<not> ur_blocked u)"
    using oidc_callback_Inr [OF r] by blast
  note e = o(5) [rule_format, OF k]
  then have "session_cookies resp = [k]" using o(6) k unfolding entitled_def by force
  then show "\<exists>c token pending identity id_token s1 s2. idp_oidc i = Some c \<and> cookie_value hs ''rawdb_oidc_pending'' = Some token
        \<and> read_oidc i (session_key (app_config a)) (clock (app_s3 a) (world p)) token = Some pending \<and> op_csrf pending = st
        \<and> oidc_exchange c code (op_pkce_verifier pending) (world p) = (Inr (Some id_token), s1)
        \<and> oidc_claims c id_token (op_nonce pending) s1 = (Inr identity, s2)
        \<and> entitled a p' (oidc_canonical_sub (app_config a) identity) k \<and> session_cookies resp = [k]"
    using o(1-3) o(4) [unfolded oidc_finish_Inr] e by blast
next
  assume k: "k \<in> set (session_cookies resp)" and r: "github_callback a i hs code st p = (Inr resp, p')"
  obtain c token pending identity s where o: "idp_github i = Some c" "cookie_value hs ''rawdb_github_pending'' = Some token"
      "read_github i (session_key (app_config a)) (clock (app_s3 a) (world p)) token = Some pending"
      "gh_finish_flow c pending st code (world p) = (Inr identity, s)"
      "\<forall>k\<in>set (session_cookies resp). entitled a p' (github_canonical_sub identity) k"
      "(\<exists>k. session_cookies resp = [k]) \<longleftrightarrow> (\<exists>u. get_user (externals a) (github_canonical_sub identity) (cache p') = Some u \<and> \<not> ur_blocked u)"
    using github_callback_Inr [OF r] by blast
  note e = o(5) [rule_format, OF k]
  then have one: "session_cookies resp = [k]" using o(6) k unfolding entitled_def by force
  obtain access user s1 s2 where g: "st = gp_csrf pending" "gh_exchange c code (gp_pkce_verifier pending) (world p) = (Inr access, s1)"
      "get_json c (gh_parse_user c) USER_URL access s1 = (Inr user, s2)" "gi_login identity = gu_login user"
    using gh_finish_Inr [OF o(4)] by blast
  have "entitled a p' (''github:'' @ gu_login user) k" using e unfolding github_canonical_sub_def g(4) .
  then show "\<exists>c token pending access user s1 s2. idp_github i = Some c \<and> cookie_value hs ''rawdb_github_pending'' = Some token
        \<and> read_github i (session_key (app_config a)) (clock (app_s3 a) (world p)) token = Some pending \<and> gp_csrf pending = st
        \<and> gh_exchange c code (gp_pkce_verifier pending) (world p) = (Inr access, s1)
        \<and> get_json c (gh_parse_user c) ''https://api.github.com/user'' access s1 = (Inr user, s2)
        \<and> entitled a p' (''github:'' @ gu_login user) k \<and> session_cookies resp = [k]"
    using o(1-3) g(1,2) g(3) [unfolded USER_URL_def] one by blast
qed

section \<open>An honest sign-in\<close>

text \<open>What signing promises of a value: a token made of cookie text that reads back until the value expires.\<close>

definition token_ok :: "'s app \<Rightarrow> (string \<Rightarrow> 'v \<Rightarrow> string option) \<Rightarrow> (string \<Rightarrow> datetime \<Rightarrow> string \<Rightarrow> 'v option) \<Rightarrow> int \<Rightarrow> 'v \<Rightarrow> bool" where
  "token_ok a sign read expires x \<longleftrightarrow> (\<exists>t. sign (session_key (app_config a)) x = Some t \<and> cookie_text t
     \<and> (\<forall>now. timestamp a now \<le> expires \<longrightarrow> read (session_key (app_config a)) now t = Some x))"

lemma pending_pair: "cookie_text t \<Longrightarrow> cookie_pair (github_pending_cookie t) = ''rawdb_github_pending'' @ ''='' @ t"
  using cookie_pair_simps [of "''rawdb_github_pending='' @ t"] by (simp add: github_pending_cookie_def cookie_text_def)

lemma session_pair:
  assumes "cookie_text t" shows "cookie_pair (set_cookie_header c t) = SESSION_COOKIE @ ''='' @ t"
proof -
  have "set_cookie_header c t = (SESSION_COOKIE @ ''='' @ t) @ CHR '';'' # tl (''; Path=/; HttpOnly; SameSite=Lax''
      @ (if \<not> bind_loopback c then ''; Secure'' else []) @ ''; Max-Age='' @ dec (session_ttl_secs c))"
    by (simp add: set_cookie_header_def Let_def)
  moreover have "CHR '';'' \<notin> set (SESSION_COOKIE @ ''='' @ t)" using assms by (auto simp: SESSION_COOKIE_def cookie_text_def)
  ultimately show ?thesis using cookie_pair_simps by metis
qed

lemma names_text: "cookie_text (''rawdb_github_pending'' @ ''='')" "cookie_text (SESSION_COOKIE @ ''='')"
  by code_simp+

text \<open>A request whose cookies contain the one a reply set, and none of the same name before it.\<close>

definition sends :: "headers \<Rightarrow> string \<Rightarrow> string \<Rightarrow> bool" where
  "sends hs name c \<longleftrightarrow> (\<exists>xs ys. hs = browser (xs @ cookie_pair c # ys) \<and> list_all cookie_text (xs @ ys)
     \<and> (\<forall>x\<in>set xs. \<not> starts_with (name @ ''='') x))"

lemma sent_found:
  assumes "sends hs name c" "cookie_pair c = name @ ''='' @ t" "cookie_text (name @ ''='')" "cookie_text t"
  shows "cookie_value hs name = Some t" "extract_cookie hs name = Some t"
proof -
  obtain xs ys where hs: "hs = browser (xs @ (name @ ''='' @ t) # ys)" "list_all cookie_text (xs @ ys)"
      "\<forall>x\<in>set xs. \<not> starts_with (name @ ''='') x" using assms(1,2) by (auto simp: sends_def)
  have "cookie_text (name @ ''='' @ t)" using assms(3,4) by (simp only: cookie_text_append)
  then have "list_all cookie_text (xs @ (name @ ''='' @ t) # ys)" using hs(2) by simp
  note f = cookie_found [OF this refl hs(3)]
  show "cookie_value hs name = Some t" "extract_cookie hs name = Some t"
    using f by (simp_all add: hs(1) cookie_value_def extract_cookie_def)
qed

lemma saturating_exp: "timestamp a now \<le> timestamp a t + as_i64 n \<Longrightarrow> timestamp a now < 2 ^ 63 \<Longrightarrow> timestamp a now \<le> saturating_i64 (timestamp a t + as_i64 n)"
  by (auto simp: saturating_i64_def)

text \<open>
  C16. An honest GitHub sign-in arrives, on whichever pods its two requests land: the start redirects to the
  provider's URL, and when the browser comes back within ten minutes with the start's cookie (among any
  others) and the state of that URL, the provider vouches for a login, and the pod's users table
  holds it unblocked, the callback redirects to \<^verbatim>\<open>/admin\<close> with one session cookie; a later request that sends this cookie
  before the session expires passes the guard of every role set that the user's roles at that moment grant.
\<close>

theorem login_round_trip:
  assumes gh: "idp_github i = Some gh"
    and pkce: "gh_pkce gh (world p1) = ((challenge, verifier), s1)"
    and url: "gh_authorize gh [''read:user'', ''user:email''] challenge s1 = ((url, csrf), s2)"
    and soon: "timestamp a (clock (app_s3 a) (world p2)) \<le> timestamp a (clock (app_s3 a) s2) + 600"
    and pending: "pending = \<lparr>gp_csrf = csrf, gp_pkce_verifier = verifier, gp_exp = timestamp a (clock (app_s3 a) s2) + 600\<rparr>"
    and vouched: "gh_finish_flow gh pending csrf code (world p2) = (Inr identity, s3)"
    and known: "github_initial_admin_sub (app_config a) \<noteq> Some (github_canonical_sub identity)"
      "get_user (externals a) (github_canonical_sub identity) (cache p2) = Some u" "\<not> ur_blocked u"
    and sess: "sess = fresh_session a (clock (app_s3 a) s3) (github_canonical_sub identity) ''oidc'' (ur_roles u)"
    and tokens: "token_ok a (sign_github i) (read_github i) (gp_exp pending) pending" "token_ok a (jwt_encode a) (jwt_decode a) (se_exp sess) sess"
  shows "\<exists>r1 c1. github_start a i p1 = (Inr r1, p1 \<lparr>world := s2\<rparr>) \<and> rs_headers r1 = [(''location'', url), (''set-cookie'', c1)] \<and>
    (\<forall>hs. sends hs ''rawdb_github_pending'' c1 \<longrightarrow>
      (\<exists>r2 c2. github_callback a i hs code csrf p2 = (Inr r2, p2 \<lparr>world := s3\<rparr>) \<and> rs_status r2 = 307
        \<and> hd (rs_headers r2) = (''location'', ''/admin'') \<and> session_cookies r2 = [c2] \<and>
        (\<forall>hs' p3 bits v. sends hs' ''rawdb_session'' c2
           \<and> timestamp a (clock (app_s3 a) (world p3)) \<le> timestamp a (clock (app_s3 a) s3) + as_i64 (session_ttl_secs (app_config a))
           \<and> timestamp a (clock (app_s3 a) (world p3)) < 2 ^ 63
           \<and> get_user (externals a) (github_canonical_sub identity) (cache p3) = Some v \<and> \<not> ur_blocked v
           \<and> set (ur_roles v) \<inter> granting bits \<noteq> {} \<longrightarrow>
           (\<exists>x. auth_guard a bits hs' p3 = (Inr x, p3) \<and> se_sub x = github_canonical_sub identity \<and> se_roles x = ur_roles v))))"
proof -
  let ?key = "session_key (app_config a)"
  let ?sub = "github_canonical_sub identity"
  obtain t1 where t1: "sign_github i ?key pending = Some t1" and t1_ok: "cookie_text t1"
      "read_github i ?key (clock (app_s3 a) (world p2)) t1 = Some pending"
    using tokens(1) soon unfolding token_ok_def pending gh_pending.simps by blast
  have start: "github_start a i p1 = (Inr (redirect url [github_pending_cookie t1]), p1 \<lparr>world := s2\<rparr>)"
    by (simp add: github_start_def gh bindE_def on_world_def gh_start_flow_def pkce url t1 [unfolded pending] ret_def)
  have arrive: "\<exists>r2 c2. github_callback a i hs code csrf p2 = (Inr r2, p2 \<lparr>world := s3\<rparr>) \<and> rs_status r2 = 307
        \<and> hd (rs_headers r2) = (''location'', ''/admin'') \<and> session_cookies r2 = [c2] \<and>
        (\<forall>hs' p3 bits v. sends hs' ''rawdb_session'' c2
           \<and> timestamp a (clock (app_s3 a) (world p3)) \<le> timestamp a (clock (app_s3 a) s3) + as_i64 (session_ttl_secs (app_config a))
           \<and> timestamp a (clock (app_s3 a) (world p3)) < 2 ^ 63
           \<and> get_user (externals a) ?sub (cache p3) = Some v \<and> \<not> ur_blocked v \<and> set (ur_roles v) \<inter> granting bits \<noteq> {} \<longrightarrow>
           (\<exists>x. auth_guard a bits hs' p3 = (Inr x, p3) \<and> se_sub x = ?sub \<and> se_roles x = ur_roles v))"
    if hs: "sends hs ''rawdb_github_pending'' (github_pending_cookie t1)" for hs
  proof -
    have cookie: "cookie_value hs ''rawdb_github_pending'' = Some t1"
      using sent_found(1) [OF hs pending_pair names_text(1)] t1_ok(1) by blast
    obtain t2 where t2: "jwt_encode a ?key sess = Some t2" and t2_ok: "cookie_text t2"
        "timestamp a now \<le> se_exp sess \<Longrightarrow> jwt_decode a ?key now t2 = Some sess" for now
      using tokens(2) unfolding token_ok_def by blast
    let ?c2 = "set_cookie_header (app_config a) t2"
    have "github_callback a i hs code csrf p2 = (Inr (redirect ''/admin'' [?c2, github_clear]), p2 \<lparr>world := s3\<rparr>)"
      using known vouched t2 [unfolded sess]
      by (simp add: github_callback_def gh cookie bindE_def now_at_def gets_def t1_ok(2) map_errE_def on_world_def Let_def ret_def
          read_db_def encode_session_eq OIDC_SOURCE_def)
    moreover have "\<exists>x. auth_guard a bits hs' p3 = (Inr x, p3) \<and> se_sub x = ?sub \<and> se_roles x = ur_roles v"
      if g: "sends hs' ''rawdb_session'' ?c2" "timestamp a (clock (app_s3 a) (world p3)) \<le> timestamp a (clock (app_s3 a) s3) + as_i64 (session_ttl_secs (app_config a))"
        "timestamp a (clock (app_s3 a) (world p3)) < 2 ^ 63" "get_user (externals a) ?sub (cache p3) = Some v" "\<not> ur_blocked v"
        "set (ur_roles v) \<inter> granting bits \<noteq> {}" for hs' p3 bits v
    proof -
      have "extract_cookie hs' SESSION_COOKIE = Some t2"
        using sent_found(2) [OF g(1) [folded SESSION_COOKIE_def] session_pair names_text(2)] t2_ok(1) by blast
      moreover have "timestamp a (clock (app_s3 a) (world p3)) \<le> se_exp sess"
        using saturating_exp [OF g(2,3)] by (simp add: sess fresh_session_def)
      ultimately have "session_of a hs' p3 = Some sess" using t2_ok(2) by (simp add: session_of_def decode_session_def)
      moreover have "se_sub sess \<noteq> BOOTSTRAP_SUB" "se_sub sess = ?sub"
        by (simp_all add: sess fresh_session_def github_canonical_sub_def BOOTSTRAP_SUB_def)
      ultimately show ?thesis using g(4-6) by (auto simp: auth_guard_eq live_session_def role_allowed_iff)
    qed
    moreover have "rs_status (redirect url cs) = 307" "hd (rs_headers (redirect url cs)) = (''location'', url)" for url cs
      by (simp_all add: redirect_def)
    moreover note one_session_cookie(2)
    ultimately show ?thesis by blast
  qed
  have "rs_headers (redirect url [github_pending_cookie t1]) = [(''location'', url), (''set-cookie'', github_pending_cookie t1)]"
    by (simp add: redirect_def)
  then show ?thesis using start arrive by blast
qed

section \<open>The first admin\<close>

lemma ignoring_Inr: "ignoring m p = (Inr v, p') \<Longrightarrow> \<exists>r. m p = (r, p')"
  by (cases "m p") (auto simp: ignoring_def matchE_def ret_def)

text \<open>
  A sign-in writes the users only to let the configured first admin in: a GitHub callback that changes the
  cache resolved to that subject, the users file did not list it at the moment of the write,
  whoever else it lists, and now lists it after them, unblocked and as admin; the reply opens an
  admin session. Removing the first admin from the file is therefore undone by the next sign-in.
\<close>

lemma initial_admin_restored:
  assumes st: "store_ok (app_s3 a) S" "entropy_ok a S" "conditional_writes (app_s3 a)" and time: "time_ok (externals a)"
    and run: "github_callback a i hs code state p = (Inr resp, p')" and changed: "cache p' \<noteq> cache p"
  shows "\<exists>login v us e obj token. github_initial_admin_sub (app_config a) = Some (''github:'' @ login)
    \<and> users_in (externals a) v = Some us \<and> ''github:'' @ login \<notin> ue_sub ` set us
    \<and> ue_sub e = ''github:'' @ login \<and> ue_roles e = [''admin''] \<and> \<not> ue_blocked e
    \<and> print_users (externals a) (us @ [e]) = Some (ob_bytes obj)
    \<and> ticked S SyncUsers (v(USERS_KEY \<mapsto> obj)) (st_view S (world p'))
    \<and> jwt_encode a (session_key (app_config a)) (fresh_session a (clock (app_s3 a) (world p')) (''github:'' @ login) ''oidc'' [''admin'']) = Some token
    \<and> session_cookies resp = [set_cookie_header (app_config a) token]"
proof -
  obtain identity s where boot: "(if github_initial_admin_sub (app_config a) = Some (github_canonical_sub identity)
         then ignoring (cas_update a (add_initial_admin (github_canonical_sub identity) (github_display identity) ''github:initial''))
         else ret ()) (p \<lparr>world := s\<rparr>) = (Inr () :: app_error + unit, p')"
    and reply: "\<forall>k\<in>set (session_cookies resp). entitled a p' (github_canonical_sub identity) k"
      "(\<exists>k. session_cookies resp = [k]) \<longleftrightarrow> (\<exists>u. get_user (externals a) (github_canonical_sub identity) (cache p') = Some u \<and> \<not> ur_blocked u)"
    using github_callback_Inr [OF run] by blast
  let ?sub = "github_canonical_sub identity"
  have admin: "github_initial_admin_sub (app_config a) = Some ?sub" using boot changed by (auto simp: ret_def split: if_splits)
  obtain r where "cas_update a (add_initial_admin ?sub (github_display identity) ''github:initial'') (p \<lparr>world := s\<rparr>) = (r, p')"
    using boot admin ignoring_Inr by fastforce
  note ends = cas_tries_ends [OF st this [unfolded cas_update_def]]
  then obtain us1 where "r = Inr us1" using changed by (cases r) auto
  with ends changed obtain v t us obj where w: "users_in (externals a) v = Some us"
      "add_initial_admin ?sub (github_display identity) ''github:initial'' t us = Inr us1" "us1 \<noteq> us"
      "print_users (externals a) us1 = Some (ob_bytes obj)" "ticked S SyncUsers (v(USERS_KEY \<mapsto> obj)) (st_view S (world p'))"
      "replace_users (externals a) (Some (ob_etag obj)) (map user_row_of us1) (cache p) = (Inr (), cache p')"
    unfolding users_updated_def by auto
  obtain e where e: "us1 = us @ [e]" "ue_sub e = ?sub" "ue_roles e = [''admin'']" "\<not> ue_blocked e" "\<forall>u\<in>set us. ue_sub u \<noteq> ?sub"
    using w(2,3) by (auto simp: add_initial_admin_def list_ex_iff split: if_splits)
  have row: "get_user (externals a) ?sub (cache p') = Some (user_row_of e)"
    using users_replaced(1) [OF time w(6), of "user_row_of e"] e by (simp add: user_row_of_def)
  then obtain k where k: "session_cookies resp = [k]" using reply(2) e(4) by (auto simp: user_row_of_def)
  then have "entitled a p' ?sub k" using reply(1) by simp
  then obtain token where token: "jwt_encode a (session_key (app_config a)) (fresh_session a (clock (app_s3 a) (world p')) ?sub ''oidc'' [''admin'']) = Some token"
      "session_cookies resp = [set_cookie_header (app_config a) token]"
    using row e(3) k by (auto simp: entitled_def user_row_of_def)
  have "?sub \<notin> ue_sub ` set us" using e(5) by auto
  then show ?thesis
    using admin w(1) e(2-4) w(4) [unfolded e(1)] w(5) token unfolding github_canonical_sub_def by blast
qed

section \<open>Witnesses\<close>

text \<open>Providers that vouch for the login \<^verbatim>\<open>ada\<close>, and an application whose tokens are two fixed texts.\<close>

definition sample_gh :: "mem github_client" where
  "sample_gh = \<lparr>gh_pkce = (\<lambda>s. ((''ch'', ''v''), s)), gh_authorize = (\<lambda>scopes ch s. ((''https://idp'', ''st''), s)),
     gh_exchange = (\<lambda>code v. ret ''acc''), gh_get = (\<lambda>url acc. ret (200, ''ada'')),
     gh_parse_user = (\<lambda>b. Some \<lparr>gu_login = b, gu_id = 7, gu_name = None, gu_email = Some []\<rparr>), gh_parse_emails = (\<lambda>b. None)\<rparr>"

definition sample_oidc :: "mem oidc_client" where
  "sample_oidc = \<lparr>oidc_pkce = (\<lambda>s. ((''ch'', ''v''), s)), oidc_authorize = (\<lambda>scopes ch s. ((''https://idp'', ''st'', ''n''), s)),
     oidc_exchange = (\<lambda>code v. ret (Some ''id'')),
     oidc_claims = (\<lambda>t n. ret \<lparr>oi_sub = ''github:ada'', oi_preferred_username = None, oi_email = None, oi_name = None\<rparr>)\<rparr>"

definition sample_pending :: gh_pending where
  "sample_pending = \<lparr>gp_csrf = ''st'', gp_pkce_verifier = ''v'', gp_exp = 608\<rparr>"

definition sample_idp :: "mem idp" where
  "sample_idp = \<lparr>idp_oidc = Some sample_oidc, idp_github = Some sample_gh,
     sign_oidc = (\<lambda>k p. Some ''ptok''),
     read_oidc = (\<lambda>k now t. if t = ''ptok'' then Some \<lparr>op_csrf = ''st'', op_nonce = ''n'', op_pkce_verifier = ''v'', op_exp = 608\<rparr> else None),
     sign_github = (\<lambda>k p. Some ''ptok''), read_github = (\<lambda>k now t. if t = ''ptok'' then Some sample_pending else None),
     urlencode = (\<lambda>s. s)\<rparr>"

definition login_app :: "string option \<Rightarrow> mem app" where
  "login_app admin = key_app \<lparr>app_config := sample_config \<lparr>github_initial_admin_sub := admin\<rparr>,
     jwt_encode := (\<lambda>k x. Some ''tok''),
     jwt_decode := (\<lambda>k now t. Some (fresh_session key_app 8 ''github:ada'' ''oidc'' [''editor'']))\<rparr>"

definition ada :: user_row where
  "ada = eve \<lparr>ur_sub := ''github:ada'', ur_roles := [''editor'']\<rparr>"

definition ada_pod :: "mem pod" where
  "ada_pod = key_pod \<lparr>cache := snd (replace_users (externals key_app) None [ada] empty_db)\<rparr>"

lemma login_app_simps [simp]: "app_s3 (login_app admin) = mem_s3" "externals (login_app admin) = externals key_app"
  "app_config (login_app admin) = sample_config \<lparr>github_initial_admin_sub := admin\<rparr>" "timestamp (login_app admin) = int"
  "jwt_encode (login_app admin) = (\<lambda>k x. Some ''tok'')" "entropy (login_app admin) = entropy sample_app"
  "tick_body (login_app admin) = tick_body sample_app"
  "jwt_decode (login_app admin) = (\<lambda>k now t. Some (fresh_session key_app 8 ''github:ada'' ''oidc'' [''editor'']))"
  by (simp_all add: login_app_def key_app_def sample_app_def)

lemma ada_known: "get_user (externals key_app) ''github:ada'' (cache ada_pod) = Some ada"
proof -
  have "replace_users (externals key_app) None [ada] empty_db = (Inr (), cache ada_pod)"
    by (simp add: ada_pod_def replace_users_eq ada_def eve_def)
  from users_replaced(1) [OF key_time_ok this, of ada] show ?thesis by (simp add: ada_def)
qed

lemma ada_identified: "gh_finish_flow sample_gh sample_pending ''st'' code s =
    (Inr \<lparr>gi_login = ''ada'', gi_id = dec 7, gi_name = None, gi_email = Some []\<rparr>, s)"
  by (simp add: gh_finish_flow_def get_json_def sample_gh_def sample_pending_def bindE_def ret_def)

lemma pending_found: "sends hs ''rawdb_github_pending'' (github_pending_cookie ''ptok'') \<Longrightarrow> cookie_value hs ''rawdb_github_pending'' = Some ''ptok''"
proof -
  have "cookie_text ''ptok''" by code_simp
  then show "sends hs ''rawdb_github_pending'' (github_pending_cookie ''ptok'') \<Longrightarrow> cookie_value hs ''rawdb_github_pending'' = Some ''ptok''"
    using sent_found(1) [OF _ pending_pair names_text(1)] by blast
qed

lemma login_round_trip_witness:
  "\<exists>hs r c. fst (github_callback (login_app None) sample_idp hs ''code'' ''st'' ada_pod) = Inr r \<and> session_cookies r = [c]
    \<and> (\<exists>x. auth_guard (login_app None) EDITOR_OR_ADMIN (browser [cookie_pair c]) ada_pod = (Inr x, ada_pod) \<and> se_roles x = [''editor''])"
proof -
  let ?a = "login_app None" let ?ident = "\<lparr>gi_login = ''ada'', gi_id = dec 7, gi_name = None, gi_email = Some []\<rparr>"
  let ?sess = "fresh_session ?a (clock (app_s3 ?a) (world ada_pod)) (github_canonical_sub ?ident) ''oidc'' (ur_roles ada)"
  have now: "clock mem_s3 (world ada_pod) = 8" "clock mem_s3 (world key_pod) = 8"
    by (simp_all add: ada_pod_def key_pod_def mem_s3_def mem_put_def)
  have sess: "?sess = fresh_session key_app 8 ''github:ada'' ''oidc'' [''editor'']"
    by (simp add: now fresh_session_def github_canonical_sub_def ada_def key_app_def sample_app_def)
  have cookies: "cookie_text ''ptok''" "cookie_text ''tok''" by code_simp+
  have tok: "token_ok ?a (sign_github sample_idp) (read_github sample_idp) (gp_exp sample_pending) sample_pending"
      "token_ok ?a (jwt_encode ?a) (jwt_decode ?a) (se_exp ?sess) ?sess"
    using cookies unfolding sess by (simp_all add: token_ok_def sample_idp_def)
  have known: "github_initial_admin_sub (app_config ?a) \<noteq> Some (github_canonical_sub ?ident)"
      "get_user (externals ?a) (github_canonical_sub ?ident) (cache ada_pod) = Some ada" "\<not> ur_blocked ada"
    using ada_known by (simp_all add: github_canonical_sub_def ada_def eve_def)
  have steps: "idp_github sample_idp = Some sample_gh" "gh_pkce sample_gh (world ada_pod) = ((''ch'', ''v''), world ada_pod)"
      "gh_authorize sample_gh [''read:user'', ''user:email''] ''ch'' (world ada_pod) = ((''https://idp'', ''st''), world ada_pod)"
      "timestamp ?a (clock (app_s3 ?a) (world ada_pod)) \<le> timestamp ?a (clock (app_s3 ?a) (world ada_pod)) + 600"
      "sample_pending = \<lparr>gp_csrf = ''st'', gp_pkce_verifier = ''v'', gp_exp = timestamp ?a (clock (app_s3 ?a) (world ada_pod)) + 600\<rparr>"
    by (simp_all add: sample_idp_def sample_gh_def sample_pending_def now)
  from login_round_trip [OF steps ada_identified known refl tok] obtain c1 where c1:
    "\<forall>hs. sends hs ''rawdb_github_pending'' c1 \<longrightarrow> (\<exists>r2 c2. github_callback ?a sample_idp hs ''code'' ''st'' ada_pod = (Inr r2, ada_pod)
        \<and> session_cookies r2 = [c2] \<and>
        (\<forall>hs' p3 bits v. sends hs' ''rawdb_session'' c2
           \<and> timestamp ?a (clock (app_s3 ?a) (world p3)) \<le> timestamp ?a (clock (app_s3 ?a) (world ada_pod)) + as_i64 (session_ttl_secs (app_config ?a))
           \<and> timestamp ?a (clock (app_s3 ?a) (world p3)) < 2 ^ 63
           \<and> get_user (externals ?a) (github_canonical_sub ?ident) (cache p3) = Some v \<and> \<not> ur_blocked v
           \<and> set (ur_roles v) \<inter> granting bits \<noteq> {} \<longrightarrow>
           (\<exists>x. auth_guard ?a bits hs' p3 = (Inr x, p3) \<and> se_sub x = github_canonical_sub ?ident \<and> se_roles x = ur_roles v)))"
    by fastforce
  have sent: "sends (browser [cookie_pair c]) name c" for c name unfolding sends_def by (intro exI [of _ "[]"]) simp
  have ok: "timestamp ?a (clock (app_s3 ?a) (world ada_pod)) \<le> timestamp ?a (clock (app_s3 ?a) (world ada_pod)) + as_i64 (session_ttl_secs (app_config ?a))"
      "timestamp ?a (clock (app_s3 ?a) (world ada_pod)) < 2 ^ 63" "set (ur_roles ada) \<inter> granting EDITOR_OR_ADMIN \<noteq> {}"
    by (simp_all add: now sample_config_def as_i64_def ada_def granting_roles ROLE_EDITOR_def)
  from c1 sent obtain r2 c2 where r2: "github_callback ?a sample_idp (browser [cookie_pair c1]) ''code'' ''st'' ada_pod = (Inr r2, ada_pod)"
      "session_cookies r2 = [c2]" "\<exists>x. auth_guard ?a EDITOR_OR_ADMIN (browser [cookie_pair c2]) ada_pod = (Inr x, ada_pod)
         \<and> se_sub x = github_canonical_sub ?ident \<and> se_roles x = ur_roles ada"
    using known(2,3) ok by blast
  moreover have "ur_roles ada = [''editor'']" by (simp add: ada_def)
  ultimately show ?thesis by (metis fst_conv)
qed

lemma callback_cookies: "cookie_value (browser [''rawdb_github_pending=ptok'']) ''rawdb_github_pending'' = Some ''ptok''"
  "cookie_value (browser [''rawdb_oidc_pending=ptok'']) ''rawdb_oidc_pending'' = Some ''ptok''"
  by code_simp+

lemma ada_github: "github_callback (login_app None) sample_idp (browser [''rawdb_github_pending=ptok'']) ''code'' ''st'' ada_pod =
    (Inr (redirect ''/admin'' [set_cookie_header (app_config (login_app None)) ''tok'', github_clear]), ada_pod)"
  using ada_known ada_identified [of "''code''" "world ada_pod"]
  by (simp add: github_callback_def sample_idp_def callback_cookies bindE_def now_at_def gets_def map_errE_def on_world_def Let_def ret_def
      read_db_def encode_session_eq github_canonical_sub_def ada_def eve_def)

lemma ada_oidc: "oidc_callback (login_app None) sample_idp (browser [''rawdb_oidc_pending=ptok'']) ''code'' ''st'' ada_pod =
    (Inr (redirect ''/admin'' [set_cookie_header (app_config (login_app None)) ''tok'', oidc_clear]), ada_pod)"
  using ada_known
  by (simp add: oidc_callback_def sample_idp_def callback_cookies bindE_def now_at_def gets_def map_errE_def on_world_def Let_def ret_def
      read_db_def encode_session_eq oidc_canonical_sub_def ada_def eve_def oidc_finish_flow_def sample_oidc_def sample_config_def)

lemma sign_in_sound_witness:
  "\<exists>k. entitled (login_app None) ada_pod ''github:ada'' k
     \<and> (\<exists>token pending. cookie_value (browser [''rawdb_oidc_pending=ptok'']) ''rawdb_oidc_pending'' = Some token
          \<and> read_oidc sample_idp (session_key (app_config (login_app None))) 8 token = Some pending \<and> op_csrf pending = ''st'')"
proof -
  let ?a = "login_app None" let ?k = "set_cookie_header (app_config ?a) ''tok''"
  have now: "clock mem_s3 (world ada_pod) = 8" by (simp add: ada_pod_def key_pod_def mem_s3_def mem_put_def)
  have k: "?k \<in> set (session_cookies (redirect ''/admin'' [?k, oidc_clear]))" "?k \<in> set (session_cookies (redirect ''/admin'' [?k, github_clear]))"
    unfolding one_session_cookie by simp_all
  obtain c access user s1 s2 and pending :: gh_pending where "idp_github sample_idp = Some c"
      "gh_exchange c ''code'' (gp_pkce_verifier pending) (world ada_pod) = (Inr access, s1)"
      "get_json c (gh_parse_user c) ''https://api.github.com/user'' access s1 = (Inr user, s2)" "entitled ?a ada_pod (''github:'' @ gu_login user) ?k"
    using conjunct2 [OF sign_in_sound, THEN mp, OF conjI [OF ada_github k(2)]] by blast
  then have "entitled ?a ada_pod ''github:ada'' ?k"
    by (auto simp: sample_idp_def sample_gh_def get_json_def bindE_def ret_def)
  moreover obtain token and pending :: oidc_pending where "cookie_value (browser [''rawdb_oidc_pending=ptok'']) ''rawdb_oidc_pending'' = Some token"
      "read_oidc sample_idp (session_key (app_config ?a)) (clock (app_s3 ?a) (world ada_pod)) token = Some pending" "op_csrf pending = ''st''"
    using conjunct1 [OF sign_in_sound, THEN mp, OF conjI [OF ada_oidc k(1)]] by blast
  ultimately show ?thesis using now by auto
qed

definition ada_entry :: user_entry where
  "ada_entry = \<lparr>ue_sub = ''github:ada'', ue_display_name = Some ''ada'', ue_blocked = False, ue_added_at = Some 8,
     ue_added_by = Some ''github:initial'', ue_roles = [''admin''], ue_api_key_hash = None\<rparr>"

lemma ada_written: "\<exists>p'. cas_update (login_app (Some ''github:ada'')) (add_initial_admin ''github:ada'' (Some ''ada'') ''github:initial'') key_pod = (Inr [service_eve, ada_entry], p')
    \<and> replace_users (externals key_app) (Some (mem_tag ''F'')) [user_row_of service_eve, user_row_of ada_entry] (cache key_pod) = (Inr (), cache p')"
proof -
  let ?a = "login_app (Some ''github:ada'')" let ?w = "world key_pod" let ?s = "mem_put USERS_KEY ''F'' ?w"
  have v: "mem_view ?w USERS_KEY = Some \<lparr>ob_bytes = ''E'', ob_etag = ''E'', ob_modified = 7\<rparr>"
    by (simp add: key_pod_def view_put mem_tag_def tag1_def)
  have q: "strip_etag_quotes (quoted ''E'') = ''E''" by code_simp
  have written: "write_users mem_s3 ''F'' (Some ''E'') ?w = (Inr (mem_tag ''F''), ?s)"
    using v strip_quoted [OF tag_quote_free, of "''F''"] by (simp add: write_users_def put_bytes_def cmd_defs mem_s3_def quoted_def)
  have ok: "utf8_valid ''E''" by code_simp
  have now: "clock mem_s3 ?w = 8" by (simp add: key_pod_def mem_s3_def mem_put_def)
  have set: "add_initial_admin ''github:ada'' (Some ''ada'') ''github:initial'' 8 [service_eve] = Inr [service_eve, ada_entry]"
    by (simp add: add_initial_admin_def ada_entry_def service_eve_def plain_user_def)
  obtain d where cached: "replace_users (externals key_app) (Some (mem_tag ''F'')) [user_row_of service_eve, user_row_of ada_entry] (cache key_pod) = (Inr (), d)"
    by (simp add: replace_users_eq user_row_of_def ada_entry_def service_eve_def plain_user_def)
  obtain p' where bump: "bump_ticks ?a [SyncUsers] ''users_cas_update''
      (key_pod \<lparr>world := ?s, cache := d\<rparr>) = (Inr () :: users_error + unit, p')" and "cache p' = d"
    using bump_users_frame [where 'e = users_error, of ?a mem_contract SyncUsers "''users_cas_update''" "key_pod \<lparr>world := ?s, cache := d\<rparr>"]
      mem_store_ok sample_entropy_ok by (cases "bump_ticks ?a [SyncUsers] ''users_cas_update'' (key_pod \<lparr>world := ?s, cache := d\<rparr>) :: (users_error + unit) \<times> _")
        (auto simp: entropy_ok_def)
  then show ?thesis
    using v q written ok set cached now
    by (simp add: cas_update_def MAX_CAS_RETRIES_def numeral_eq_Suc read_with_etag_def store_users_def cmd_defs)
qed

lemma ada_added: "\<exists>resp p'. github_callback (login_app (Some ''github:ada'')) sample_idp (browser [''rawdb_github_pending=ptok'']) ''code'' ''st'' key_pod = (Inr resp, p')
    \<and> cache p' \<noteq> cache key_pod"
proof -
  obtain p' where w: "cas_update (login_app (Some ''github:ada'')) (add_initial_admin ''github:ada'' (Some ''ada'') ''github:initial'') key_pod = (Inr [service_eve, ada_entry], p')"
    "replace_users (externals key_app) (Some (mem_tag ''F'')) [user_row_of service_eve, user_row_of ada_entry] (cache key_pod) = (Inr (), cache p')"
    using ada_written by blast
  have "replace_users (externals key_app) None [user_row_of service_eve] empty_db = (Inr (), cache key_pod)"
    by (simp add: key_pod_def replace_users_eq user_row_of_def service_eve_def)
  note one = users_replaced(3) [OF key_time_ok this] and two = users_replaced(1,3) [OF key_time_ok w(2)]
  have "length (users (cache p')) \<noteq> length (users (cache key_pod))" using one two(2) by simp
  then have "cache p' \<noteq> cache key_pod" by metis
  moreover have "get_user (externals key_app) ''github:ada'' (cache p') = Some (user_row_of ada_entry)"
    using two(1) [of "user_row_of ada_entry"] by (simp add: user_row_of_def ada_entry_def)
  ultimately show ?thesis
    using ada_identified [of "''code''" "world key_pod"] w(1)
    by (simp add: github_callback_def sample_idp_def callback_cookies bindE_def now_at_def gets_def map_errE_def on_world_def Let_def ret_def
      read_db_def encode_session_eq github_canonical_sub_def github_display_def ignoring_def matchE_def user_row_of_def ada_entry_def)
qed

lemma initial_admin_restored_witness:
  "\<exists>us (e :: user_entry) resp. users_in (externals key_app) (st_view mem_contract (world key_pod)) = Some us \<and> us \<noteq> []
     \<and> fst (github_callback (login_app (Some ''github:ada'')) sample_idp (browser [''rawdb_github_pending=ptok'']) ''code'' ''st'' key_pod) = Inr resp
     \<and> ue_sub e = ''github:ada'' \<and> ue_roles e = [''admin''] \<and> (\<exists>k. session_cookies resp = [k])"
proof -
  obtain resp p' where run: "github_callback (login_app (Some ''github:ada'')) sample_idp (browser [''rawdb_github_pending=ptok'']) ''code'' ''st'' key_pod = (Inr resp, p')"
    "cache p' \<noteq> cache key_pod" using ada_added by blast
  have st: "store_ok (app_s3 (login_app (Some ''github:ada''))) mem_contract" "entropy_ok (login_app (Some ''github:ada'')) mem_contract"
    "conditional_writes (app_s3 (login_app (Some ''github:ada'')))" "time_ok (externals (login_app (Some ''github:ada'')))"
    using mem_store_ok sample_entropy_ok key_time_ok by (simp_all add: mem_s3_def entropy_ok_def)
  obtain login k and e :: user_entry where "github_initial_admin_sub (app_config (login_app (Some ''github:ada''))) = Some (''github:'' @ login)"
      "ue_sub e = ''github:'' @ login" "ue_roles e = [''admin'']" "session_cookies resp = [k]"
    using initial_admin_restored [OF st run] by blast
  moreover have "users_in (externals key_app) (st_view mem_contract (world key_pod)) = Some [service_eve]"
  proof -
    have "utf8_valid ''E''" by code_simp
    then show ?thesis by (simp add: users_in_def mem_contract_def key_pod_def view_put)
  qed
  ultimately show ?thesis using run(1) by auto
qed

end
