(* ===== verification/Admin_Edit.thy ===== *)
theory Admin_Edit imports Auth Apikey begin

text \<open>
  The editing half of \<^verbatim>\<open>src/backend/src/routes/admin.rs\<close>: a pending upload or an approved set is edited
  in place by moving renamed files in the bucket, deleting what the edit drops and rewriting the
  meta file. A handler takes the request's headers for its guard; the hash map of existing entries is
  iterated in the order of \<open>schedule\<close>. The tasks the handlers spawn run at once.
\<close>

record edit_file =
  ed_old_path :: string
  ed_path :: string
  ed_tags :: "string list"
  ed_notes :: "string option"
  ed_license :: "string option"

record edit_request =
  er_maker :: string
  er_model :: string
  er_license :: string
  er_notes :: "string option"
  er_uploaded_by :: "string option"
  er_special :: bool
  er_files :: "edit_file list"

record edit_set_request =
  es_license :: string
  es_notes :: "string option"
  es_uploaded_by :: "string option"
  es_special :: bool
  es_files :: "edit_file list"

section \<open>Shared parts of the edits\<close>

definition valid_destination :: "string \<Rightarrow> bool" where
  "valid_destination p \<longleftrightarrow> \<not> (p = [] \<or> starts_with ''/'' p \<or> contains_sub ''..'' p \<or> slash \<notin> set p
     \<or> list_ex (\<lambda>s. s = []) (split_on slash p))"

definition path_extension :: "string \<Rightarrow> string option" where
  "path_extension p = map_option (\<lambda>(_, e). to_ascii_lowercase e) (rsplit_once (CHR ''.'') (last_seg slash p))"

fun check_destinations :: "string list \<Rightarrow> string set \<Rightarrow> edit_file list \<Rightarrow> app_error + unit" where
  "check_destinations blocked seen [] = Inr ()"
| "check_destinations blocked seen (f # fs) =
     (let p = trim (ed_path f) in
      if \<not> valid_destination p then Inl BadRequest
      else if p \<in> seen then Inl BadRequest
      else if (case path_extension p of Some e \<Rightarrow> e \<in> set blocked | None \<Rightarrow> False) then Inl BadRequest
      else check_destinations blocked (insert p seen) fs)"

fun clean_tags_onto :: "string set \<Rightarrow> string list \<Rightarrow> string list" where
  "clean_tags_onto seen [] = []"
| "clean_tags_onto seen (raw # items) =
     (let t = trim raw in
      if t \<noteq> [] \<and> t \<notin> seen then t # clean_tags_onto (insert t seen) items else clean_tags_onto seen items)"

definition clean_tags :: "string list \<Rightarrow> string list" where
  "clean_tags items = clean_tags_onto {} items"

definition non_blank :: "string option \<Rightarrow> string option" where
  "non_blank v = (case v of None \<Rightarrow> None | Some s \<Rightarrow> if trim s = [] then None else Some s)"

definition load_existing_file_meta :: "'s app \<Rightarrow> string \<Rightarrow> ('s pod, 'e, (string \<times> file_meta) list) cmd" where
  "load_existing_file_meta a prefix = matchE (on_world (get_bytes (app_s3 a) (prefix @ META_FILE))) (\<lambda>r. case r of
       Inl _ \<Rightarrow> ret []
     | Inr (bytes, _) \<Rightarrow> (case parse_meta (externals a) bytes of
         Inl _ \<Rightarrow> ret [] | Inr m \<Rightarrow> ret (map (\<lambda>f. (fm_path f, f)) (rm_files m))))"

text \<open>The copies of the renamed files; the result lists the sources to delete afterwards.\<close>

definition move_files :: "'s app \<Rightarrow> string \<Rightarrow> string set \<Rightarrow> edit_file list \<Rightarrow> ('s, string list) handler" where
  "move_files a prefix destinations fs =
     foldE (\<lambda>f to_delete.
         if ed_old_path f = ed_path f then ret to_delete
         else bindE (s3E (copy (app_s3 a) (prefix @ ed_old_path f) (prefix @ ed_path f))) (\<lambda>_.
           ret (if ed_old_path f \<notin> destinations then to_delete @ [prefix @ ed_old_path f] else to_delete)))
       fs []"

definition edited_file :: "(string \<times> file_meta) list \<Rightarrow> edit_file \<Rightarrow> file_meta" where
  "edited_file existing f =
     \<lparr>fm_path = trim (ed_path f), fm_sha256 = Option.bind (map_of existing (ed_old_path f)) fm_sha256,
      fm_license = non_blank (ed_license f), fm_notes = non_blank (ed_notes f), fm_tags = clean_tags (ed_tags f)\<rparr>"

definition or_default_license :: "string \<Rightarrow> string" where
  "or_default_license l = (if trim l = [] then DEFAULT_LICENSE else l)"

definition write_meta :: "'s app \<Rightarrow> string \<Rightarrow> rawdb_meta \<Rightarrow> ('s, string) handler" where
  "write_meta a prefix m =
     s3_map (\<lambda>_. Internal) (put_bytes (app_s3 a) (prefix @ META_FILE) (to_toml (externals a) m)
       (Some ''application/toml'') None None)"

section \<open>Pending uploads\<close>

definition edited_pending_meta :: "(string \<times> file_meta) list \<Rightarrow> edit_request \<Rightarrow> rawdb_meta" where
  "edited_pending_meta existing req =
     \<lparr>rm_set = \<lparr>sm_maker = trim (er_maker req), sm_model = trim (er_model req),
         sm_license = or_default_license (er_license req), sm_uploaded_by = non_blank (er_uploaded_by req),
         sm_uploaded_at = None, sm_notes = non_blank (er_notes req), sm_special = er_special req,
         sm_approved_at = None, sm_approved_by = None, sm_approved_initial_at = None, sm_approved_initial_by = None\<rparr>,
      rm_files = map (edited_file existing) (er_files req)\<rparr>"

definition apply_pending_edit :: "'s app \<Rightarrow> string \<Rightarrow> edit_request \<Rightarrow> ('s, unit) handler" where
  "apply_pending_edit a prefix req =
     bindE (load_existing_file_meta a prefix) (\<lambda>existing.
     (let destinations = set (map ed_path (er_files req));
          referenced_old = set (map ed_old_path (er_files req)) in
     bindE (move_files a prefix destinations (er_files req)) (\<lambda>moved.
     (let dropped = filter (\<lambda>p. p \<notin> referenced_old \<and> p \<notin> destinations) (schedule (externals a) (map fst existing)) in
     bindE (forE (moved @ map (\<lambda>p. prefix @ p) dropped) (\<lambda>key. s3E (delete (app_s3 a) key))) (\<lambda>_.
     bindE (write_meta a prefix (edited_pending_meta existing req)) (\<lambda>_. ret ()))))))"

definition edit_pending :: "'s app \<Rightarrow> headers \<Rightarrow> string \<Rightarrow> edit_request \<Rightarrow> ('s, nat) handler" where
  "edit_pending a hs upload_id req =
     bindE (auth_guard a REVIEWER_OR_ADMIN hs) (\<lambda>_.
     bindE (guardE (\<not> (trim (er_maker req) = [] \<or> trim (er_model req) = [])) BadRequest) (\<lambda>_.
     bindE (lift (check_destinations (blocked_extensions (app_config a)) {} (er_files req))) (\<lambda>_.
     bindE (apply_pending_edit a (PENDING_PREFIX @ upload_id @ ''/'') req) (\<lambda>_.
     bindE (ignoring (refresh_one_pending (externals a) (app_s3 a) upload_id)) (\<lambda>_.
     ret 200)))))"

section \<open>Approved sets\<close>

definition edited_set_meta :: "string \<Rightarrow> string \<Rightarrow> set_row \<Rightarrow> (string \<times> file_meta) list \<Rightarrow> edit_set_request \<Rightarrow> rawdb_meta" where
  "edited_set_meta maker model row existing req =
     \<lparr>rm_set = \<lparr>sm_maker = maker, sm_model = model,
         sm_license = or_default_license (es_license req), sm_uploaded_by = non_blank (es_uploaded_by req),
         sm_uploaded_at = None, sm_notes = non_blank (es_notes req), sm_special = es_special req,
         sm_approved_at = sr_approved_at row, sm_approved_by = sr_approved_by row,
         sm_approved_initial_at = sr_approved_initial_at row, sm_approved_initial_by = sr_approved_initial_by row\<rparr>,
      rm_files = map (edited_file existing) (es_files req)\<rparr>"

definition apply_set_edit :: "'s app \<Rightarrow> string \<Rightarrow> string \<Rightarrow> set_row \<Rightarrow> edit_set_request \<Rightarrow> ('s, unit) handler" where
  "apply_set_edit a maker model row req =
     (let prefix = SAMPLES_PREFIX @ maker @ ''/'' @ model @ ''/'';
          referenced_old = set (map ed_old_path (es_files req));
          destinations = set (map ed_path (es_files req)) in
     bindE (load_existing_file_meta a prefix) (\<lambda>existing.
     bindE (guardE (filter (\<lambda>p. p \<notin> referenced_old) (map fst existing) = []) BadRequest) (\<lambda>_.
     bindE (move_files a prefix destinations (es_files req)) (\<lambda>to_delete.
     bindE (forE to_delete (\<lambda>key. s3E (delete (app_s3 a) key))) (\<lambda>_.
     bindE (write_meta a prefix (edited_set_meta maker model row existing req)) (\<lambda>_. ret ()))))))"

definition edit_set :: "'s app \<Rightarrow> headers \<Rightarrow> string \<Rightarrow> string \<Rightarrow> edit_set_request \<Rightarrow> ('s, nat) handler" where
  "edit_set a hs maker model req =
     bindE (auth_guard a EDITOR_OR_ADMIN hs) (\<lambda>_.
     bindE (read_db (get_set (externals a) maker model)) (\<lambda>row. case row of None \<Rightarrow> throw MissingItem | Some row \<Rightarrow>
     bindE (lift (check_destinations (blocked_extensions (app_config a)) {} (es_files req))) (\<lambda>_.
     bindE (apply_set_edit a maker model row req) (\<lambda>_.
     bindE (ignoring (refresh_one_set (externals a) (app_s3 a) maker model)) (\<lambda>_.
     bindE (bump_ticks a [SyncSets] ''edit_set'') (\<lambda>_.
     ret 200))))))"

end
