(* ===== verification/Public.thy ===== *)
theory Public imports Auth Apikey Responses Ratelimit begin

text \<open>
  \<^verbatim>\<open>src/backend/src/routes/public.rs\<close>: the public endpoints. The catalog endpoints go through the
  response cache; a \<open>document\<close> is what a handler serializes. The download endpoint checks the limiter
  and the cached catalog before it touches the bucket. An envelope has the fields of the row or
  summary it is made of, and is that row here; metrics are dropped.
\<close>

section \<open>Search\<close>

record search_params =
  sp_q :: "string option"
  sp_maker :: "string option"
  sp_model :: "string option"
  sp_license :: "string option"
  sp_extension :: "string option"
  sp_tags :: "string option"
  sp_include_special :: "string option"
  sp_sort :: "string option"
  sp_order :: "string option"
  sp_limit :: "nat option"
  sp_offset :: "nat option"

definition yes :: "string option \<Rightarrow> bool" where
  "yes v \<longleftrightarrow> v = Some ''1'' \<or> v = Some ''true''"

definition sort_field_of :: "string \<Rightarrow> sort_field option" where
  "sort_field_of s =
     (if s = ''maker'' then Some Maker else if s = ''model'' then Some Model
      else if s = ''license'' then Some License else if s = ''file_count'' then Some FileCount
      else if s = ''total_size'' then Some TotalSize else if s = ''tags'' then Some Tags
      else if s = ''uploaded_at'' then Some UploadedAt else None)"

definition into_query :: "search_params \<Rightarrow> set_query" where
  "into_query p =
     \<lparr>sq_maker = sp_maker p, sq_model = sp_model p, sq_license = sp_license p,
      sq_extension = map_option to_ascii_lowercase (sp_extension p),
      sq_tags = (case sp_tags p of None \<Rightarrow> []
         | Some s \<Rightarrow> filter (\<lambda>t. t \<noteq> []) (map trim (split_on (CHR '','') s))),
      sq_fts = sp_q p, sq_include_special = yes (sp_include_special p),
      sq_sort_field = Option.bind (sp_sort p) sort_field_of,
      sq_sort_order = (if sp_order p = Some ''desc'' \<or> sp_order p = Some ''DESC'' then Desc else Asc),
      sq_limit = sp_limit p, sq_offset = sp_offset p\<rparr>"

definition list_sets :: "'s app \<Rightarrow> search_params \<Rightarrow> ('s, search_page) handler" where
  "list_sets a params = read_db (search_sets (externals a) (into_query params))"

definition search :: "'s app \<Rightarrow> search_params \<Rightarrow> ('s, search_page) handler" where
  "search a params = list_sets a params"

section \<open>Set detail\<close>

record file_envelope =
  fv_path :: string
  fv_category :: string
  fv_extension :: string
  fv_size :: nat
  fv_license :: string
  fv_notes :: "string option"
  fv_sha256 :: "string option"
  fv_tags :: "string list"

record set_detail_response =
  sd_set :: set_row
  sd_categories :: "(string \<times> file_envelope list) list"

text \<open>\<^verbatim>\<open>categories.entry(c).or_default().push(v)\<close> on a \<^verbatim>\<open>BTreeMap\<close>, kept as a sorted association list.\<close>

fun push_category :: "string \<Rightarrow> 'v \<Rightarrow> (string \<times> 'v list) list \<Rightarrow> (string \<times> 'v list) list" where
  "push_category c v [] = [(c, [v])]"
| "push_category c v ((k, vs) # m) =
     (if c = k then (k, vs @ [v]) # m
      else if c < k then (c, [v]) # (k, vs) # m
      else (k, vs) # push_category c v m)"

definition file_envelope_of :: "string \<Rightarrow> file_row \<Rightarrow> string list \<Rightarrow> file_envelope" where
  "file_envelope_of set_license f ts =
     \<lparr>fv_path = fr_path f, fv_category = fr_category f,
      fv_extension = (case fr_extension f of None \<Rightarrow> [] | Some e \<Rightarrow> e), fv_size = fr_size f,
      fv_license = (case fr_license f of None \<Rightarrow> set_license | Some l \<Rightarrow> l),
      fv_notes = fr_notes f, fv_sha256 = fr_sha256 f, fv_tags = ts\<rparr>"

fun group_files :: "string \<Rightarrow> file_row list \<Rightarrow> (string \<Rightarrow> string list)
    \<Rightarrow> (string \<times> file_envelope list) list \<Rightarrow> (string \<times> file_envelope list) list" where
  "group_files lic [] ft cats = cats"
| "group_files lic (f # fs) ft cats =
     group_files lic fs (ft(fr_path f := []))
       (push_category (fr_category f) (file_envelope_of lic f (ft (fr_path f))) cats)"

definition set_detail :: "'s app \<Rightarrow> string \<Rightarrow> string \<Rightarrow> ('s, set_detail_response) handler" where
  "set_detail a maker model =
     bindE (read_db (get_set (externals a) maker model)) (\<lambda>row. case row of None \<Rightarrow> throw MissingItem | Some row \<Rightarrow>
     bindE (read_db (list_files maker model)) (\<lambda>fs.
     bindE (read_db (file_tags maker model)) (\<lambda>ft.
       ret \<lparr>sd_set = row, sd_categories = group_files (sr_license row) fs ft []\<rparr>)))"

section \<open>The cached catalog\<close>

record tag_count =
  tc_tag :: string
  tc_count :: nat
  tc_suggested :: bool

record stats_response =
  sx_models :: nat
  sx_special :: nat
  sx_pending :: nat
  sx_files :: nat
  sx_last_full_scan_at :: "datetime option"
  sx_ready :: bool
  sx_max_upload_bytes :: nat

datatype document =
    TagsDoc "tag_count list" | MakersDoc "string list" | ModelsDoc "(string \<times> string) list" | StatsDoc stats_response

text \<open>The serializer, the check of a header value and the format of upload ids, from \<^verbatim>\<open>serde_json\<close>, \<^verbatim>\<open>http\<close> and \<^verbatim>\<open>chrono\<close>.\<close>

record web_ext =
  json_text :: "document \<Rightarrow> string option"
  header_valid :: "string \<Rightarrow> bool"
  compact_time :: "datetime \<Rightarrow> string"

definition to_json :: "web_ext \<Rightarrow> document \<Rightarrow> app_error + string" where
  "to_json w doc = (case json_text w doc of None \<Rightarrow> Inl Internal | Some s \<Rightarrow> Inr s)"

definition tag_list :: "'s app \<Rightarrow> db \<Rightarrow> tag_count list" where
  "tag_list a d =
     (let curated = filter (\<lambda>t. t \<noteq> []) (map trim (tags_suggested (app_config a)));
          curated_lc = set (map to_ascii_lowercase curated);
          out = map (\<lambda>(tag, count). \<lparr>tc_tag = tag, tc_count = count, tc_suggested = to_ascii_lowercase tag \<in> curated_lc\<rparr>)
                  (tag_counts d);
          present_lc = set (map (\<lambda>t. to_ascii_lowercase (tc_tag t)) out)
      in out @ map (\<lambda>t. \<lparr>tc_tag = t, tc_count = 0, tc_suggested = True\<rparr>)
           (filter (\<lambda>t. to_ascii_lowercase t \<notin> present_lc) curated))"

definition catalog_variant :: "bool \<Rightarrow> string" where
  "catalog_variant include_special = (if include_special then ''special'' else ''cameras'')"

definition stats_doc :: "'s app \<Rightarrow> bool \<Rightarrow> db \<Rightarrow> document" where
  "stats_doc a ready d = StatsDoc
     \<lparr>sx_models = count_models d, sx_special = count_special d, sx_pending = count_pending d, sx_files = count_files d,
      sx_last_full_scan_at = last_full_scan_at (externals a) d, sx_ready = ready,
      sx_max_upload_bytes = max_upload_bytes (app_config a)\<rparr>"

text \<open>The cached endpoints, each with its key, its domains and what it renders.\<close>

definition tags_endpoint :: "'s app \<Rightarrow> web_ext \<Rightarrow> endpoint" where
  "tags_endpoint a w = \<lparr>ep_name = ''tags'', ep_variant = [], ep_domains = [Sets],
     ep_render = (\<lambda>d. to_json w (TagsDoc (tag_list a d)))\<rparr>"

definition makers_endpoint :: "web_ext \<Rightarrow> bool \<Rightarrow> endpoint" where
  "makers_endpoint w special = \<lparr>ep_name = ''makers'', ep_variant = catalog_variant special, ep_domains = [Sets],
     ep_render = (\<lambda>d. to_json w (MakersDoc (distinct_makers special d)))\<rparr>"

definition models_endpoint :: "web_ext \<Rightarrow> bool \<Rightarrow> endpoint" where
  "models_endpoint w special = \<lparr>ep_name = ''models'', ep_variant = catalog_variant special, ep_domains = [Sets],
     ep_render = (\<lambda>d. to_json w (ModelsDoc (distinct_maker_models special d)))\<rparr>"

definition stats_endpoint :: "'s app \<Rightarrow> web_ext \<Rightarrow> bool \<Rightarrow> endpoint" where
  "stats_endpoint a w ready = \<lparr>ep_name = ''stats'', ep_variant = (if ready then ''ready'' else ''scanning''),
     ep_domains = [Sets, Pending, Scan], ep_render = (\<lambda>d. to_json w (stats_doc a ready d))\<rparr>"

definition pending_endpoint :: "web_ext \<Rightarrow> endpoint" where
  "pending_endpoint w = \<lparr>ep_name = ''pending_names'', ep_variant = [], ep_domains = [Pending],
     ep_render = (\<lambda>d. to_json w (ModelsDoc (pending_maker_models d)))\<rparr>"

definition if_none_match_values :: "headers \<Rightarrow> string list" where
  "if_none_match_values hs =
     filter (list_all (\<lambda>c. byte c = 9 \<or> 32 \<le> byte c \<and> byte c < 127)) (map snd (filter (\<lambda>(n, v). n = ''if-none-match'') hs))"

definition serve_cached :: "'s app \<Rightarrow> endpoint \<Rightarrow> headers \<Rightarrow> ('s pod \<times> responses, app_error, response) cmd" where
  "serve_cached a ep hs = (\<lambda>(p, rs).
     case get_or_build a (ep_name ep) (ep_variant ep) (stamp (ep_domains ep) (cache p)) ''application/json''
            (ep_render ep (cache p)) rs of
       (Inl e, rs') \<Rightarrow> (Inl e, (p, rs'))
     | (Inr c, rs') \<Rightarrow> (Inr (respond c (if_none_match_values hs) ''no-cache''), (p, rs')))"

section \<open>Downloads\<close>

text \<open>The header values of a streamed download, in the order they are set.\<close>

datatype download_response = Redirected string | Streamed "(string \<times> string) list" got_stream

definition filename_escaped :: "char \<Rightarrow> bool" where
  "filename_escaped c \<longleftrightarrow> byte c < 32 \<or> 127 \<le> byte c \<or>
     c \<in> {CHR '' '', CHR 0x22, CHR ''#'', CHR ''$'', CHR ''%'', CHR ''&'', CHR ''+'', CHR '','', CHR ''/'', CHR '':'',
       CHR '';'', CHR ''<'', CHR ''='', CHR ''>'', CHR ''?'', CHR ''@'', CHR ''['', CHR 0x5C, CHR '']'', CHR ''{'', CHR ''}''}"

definition percent_encode_filename :: "string \<Rightarrow> string" where
  "percent_encode_filename name = percent_encode filename_escaped name"

definition int_text :: "int \<Rightarrow> string" where
  "int_text i = (if i < 0 then ''-'' @ dec (nat (- i)) else dec (nat i))"

definition download_headers :: "web_ext \<Rightarrow> string \<Rightarrow> got_stream \<Rightarrow> (string \<times> string) list" where
  "download_headers w filename s =
     [(''content-type'', case gs_type s of None \<Rightarrow> ''application/octet-stream''
        | Some v \<Rightarrow> if header_valid w v then v else ''application/octet-stream'')]
     @ (case gs_length s of None \<Rightarrow> [] | Some len \<Rightarrow> filter (\<lambda>h. header_valid w (snd h)) [(''content-length'', int_text len)])
     @ (case gs_etag s of None \<Rightarrow> [] | Some e \<Rightarrow> filter (\<lambda>h. header_valid w (snd h)) [(''etag'', CHR 0x22 # e @ [CHR 0x22])])
     @ filter (\<lambda>h. header_valid w (snd h))
         [(''content-disposition'', ''attachment; filename*=UTF-8'' @ [CHR 0x27, CHR 0x27] @ percent_encode_filename filename)]"

definition stream_error :: "s3_error \<Rightarrow> app_error" where
  "stream_error e = (case e of NotFound _ \<Rightarrow> MissingItem | PreconditionFailed \<Rightarrow> MissingItem | Other \<Rightarrow> Internal)"

definition serve_download :: "'s app \<Rightarrow> web_ext \<Rightarrow> string \<Rightarrow> string \<Rightarrow> string option \<Rightarrow> ('s, download_response) handler" where
  "serve_download a w key filename stream_param =
     (let want_stream = (case cf_download_mode (app_config a) of
            DownloadStream \<Rightarrow> True | DownloadPresigned \<Rightarrow> False | DownloadEither \<Rightarrow> yes stream_param) in
      if \<not> want_stream then bindE (s3E (presign_get a key)) (\<lambda>url. ret (Redirected url))
      else bindE (s3_map stream_error (get_stream (app_s3 a) key)) (\<lambda>s.
        ret (Streamed (download_headers w filename s) s)))"

definition client_ip :: "'s app \<Rightarrow> headers \<Rightarrow> string \<Rightarrow> string" where
  "client_ip a hs peer =
     (case Option.bind (header_text ''x-forwarded-for'' hs) (\<lambda>xff. parse_ip a (trim (hd (split_on (CHR '','') xff)))) of
        Some ip \<Rightarrow> ip
      | None \<Rightarrow> (case Option.bind (header_text ''x-real-ip'' hs) (\<lambda>xri. parse_ip a (trim xri)) of
          Some ip \<Rightarrow> ip
        | None \<Rightarrow> peer))"

definition file_size_query :: "string \<Rightarrow> string \<Rightarrow> string \<Rightarrow> db \<Rightarrow> nat option" where
  "file_size_query maker model path d =
     map_option (\<lambda>r. u64_of (f_size r)) (first_row (\<lambda>r. f_maker r = maker \<and> f_model r = model \<and> f_path r = path) (files d))"

text \<open>The limiter's part of a download: the time is that of the monotonic clock.\<close>

definition admit :: "'s app \<Rightarrow> headers \<Rightarrow> string \<Rightarrow> nat \<Rightarrow> user_row option \<Rightarrow> string \<Rightarrow> limiter \<Rightarrow> decision \<times> limiter" where
  "admit a hs peer now api_user file_path l =
     (if limiter_enabled l \<and> api_user = None then check (hash_path a) (client_ip a hs peer) file_path now l else (Allowed, l))"

definition download :: "'s app \<Rightarrow> web_ext \<Rightarrow> string \<Rightarrow> string \<Rightarrow> string \<Rightarrow> string option \<Rightarrow> headers \<Rightarrow> string \<Rightarrow> nat
    \<Rightarrow> ('s pod \<times> limiter, app_error, download_response) cmd" where
  "download a w maker model file_path stream_param hs peer now = (\<lambda>(p, l).
     let api_user = lookup_key a (cache p) hs in
     case admit a hs peer now api_user file_path l of
       (Limited retry_after, l1) \<Rightarrow> (Inl (TooManyRequests (retry_after div second)), (p, l1))
     | (Allowed, l1) \<Rightarrow>
         (case file_size_query maker model file_path (cache p) of
            None \<Rightarrow> (Inl MissingItem, (p, l1))
          | Some sz \<Rightarrow>
              (case serve_download a w (SAMPLES_PREFIX @ maker @ ''/'' @ model @ ''/'' @ file_path)
                      (last_seg slash file_path) stream_param p of
                 (r, p1) \<Rightarrow> (r, (p1, l1)))))"

end
