(* ===== verification/Admin_Review.thy ===== *)
theory Admin_Review imports Admin_Edit Public begin

text \<open>
  The review half of \<^verbatim>\<open>src/backend/src/routes/admin.rs\<close>: listing, showing, verifying, approving and
  rejecting pending uploads, and deleting from approved sets. The concurrent copies of an approval
  run in the order of \<open>schedule\<close> up to the first failure; the tasks the handlers spawn run at once.
\<close>

section \<open>The queue\<close>

record pending_row =
  pw_maker :: string
  pw_model :: string
  pw_upload_id :: string
  pw_license :: string
  pw_notes :: "string option"
  pw_uploaded_at :: "datetime option"
  pw_uploaded_by :: "string option"

definition pending_row_of :: "'z meta_ext_scheme \<Rightarrow> psets_row \<Rightarrow> pending_row" where
  "pending_row_of x r =
     \<lparr>pw_maker = p_maker r, pw_model = p_model r, pw_upload_id = p_upload_id r, pw_license = p_license r,
      pw_notes = p_notes r, pw_uploaded_at = parse_ts x (p_uploaded_at r), pw_uploaded_by = p_uploaded_by r\<rparr>"

definition list_pending :: "'s app \<Rightarrow> headers \<Rightarrow> ('s, pending_row list) handler" where
  "list_pending a hs =
     bindE (auth_guard a PENDING_VIEWERS hs) (\<lambda>_.
     read_db (\<lambda>d. map (pending_row_of (externals a)) (order_by pending_order (pending_sets d))))"

section \<open>One upload\<close>

record pending_file =
  pv_path :: string
  pv_category :: string
  pv_extension :: string
  pv_size :: nat
  pv_license :: "string option"
  pv_notes :: "string option"
  pv_sha256 :: "string option"
  pv_tags :: "string list"

record pending_detail =
  pd_set :: set_meta
  pd_files :: "pending_file list"

text \<open>Reading a meta file: the errors of a missing and of an unreadable one differ between the handlers.\<close>

definition load_meta :: "'s app \<Rightarrow> string \<Rightarrow> app_error \<Rightarrow> app_error \<Rightarrow> ('s, rawdb_meta) handler" where
  "load_meta a key missing bad =
     bindE (s3_map (\<lambda>e. case e of NotFound _ \<Rightarrow> missing | PreconditionFailed \<Rightarrow> missing | Other \<Rightarrow> Internal)
        (get_bytes (app_s3 a) key)) (\<lambda>(bytes, _).
     case parse_meta (externals a) bytes of Inl _ \<Rightarrow> throw bad | Inr m \<Rightarrow> ret m)"

definition sizes_by_path :: "string \<Rightarrow> object_info list \<Rightarrow> string \<Rightarrow> nat option" where
  "sizes_by_path prefix objects = foldl (\<lambda>m ob. case strip_prefix prefix (oi_key ob) of
       Some rel \<Rightarrow> m(rel \<mapsto> oi_size ob) | None \<Rightarrow> m) (\<lambda>_. None) objects"

definition pending_file_of :: "(string \<Rightarrow> nat option) \<Rightarrow> file_meta \<Rightarrow> pending_file" where
  "pending_file_of sizes f =
     \<lparr>pv_path = fm_path f, pv_category = category f,
      pv_extension = (case extension f of None \<Rightarrow> [] | Some e \<Rightarrow> e),
      pv_size = (case sizes (fm_path f) of None \<Rightarrow> 0 | Some n \<Rightarrow> n),
      pv_license = fm_license f, pv_notes = fm_notes f, pv_sha256 = fm_sha256 f, pv_tags = fm_tags f\<rparr>"

definition get_pending :: "'s app \<Rightarrow> headers \<Rightarrow> string \<Rightarrow> ('s, pending_detail) handler" where
  "get_pending a hs upload_id =
     bindE (auth_guard a PENDING_VIEWERS hs) (\<lambda>_.
     (let prefix = PENDING_PREFIX @ upload_id @ ''/''; meta_key = prefix @ META_FILE in
     bindE (s3E (list_objects (app_s3 a) prefix)) (\<lambda>objects.
     (let sizes = sizes_by_path prefix objects;
          meta_last_modified = Option.bind (List.find (\<lambda>ob. oi_key ob = meta_key) objects) oi_modified in
     bindE (load_meta a meta_key MissingItem BadRequest) (\<lambda>parsed.
     ret \<lparr>pd_set = rm_set (with_upload_time meta_last_modified parsed),
          pd_files = map (pending_file_of sizes) (rm_files parsed)\<rparr>)))))"

definition download_pending :: "'s app \<Rightarrow> web_ext \<Rightarrow> headers \<Rightarrow> string \<Rightarrow> string \<Rightarrow> string option \<Rightarrow> ('s, download_response) handler" where
  "download_pending a w hs upload_id file_path stream_param =
     bindE (auth_guard a PENDING_VIEWERS hs) (\<lambda>_.
     bindE (guardE (\<not> contains_sub ''..'' file_path) BadRequest) (\<lambda>_.
     (let key = PENDING_PREFIX @ upload_id @ ''/'' @ file_path in
     bindE (s3E (head (app_s3 a) key)) (\<lambda>info. case info of
         None \<Rightarrow> throw MissingItem
       | Some info \<Rightarrow> serve_download a w key (last_seg slash file_path) stream_param))))"

section \<open>Verification\<close>

text \<open>The streaming hash of one object: the bytes read so far are kept across resumed streams.\<close>

fun read_all :: "nat \<Rightarrow> 's s3 \<Rightarrow> string \<Rightarrow> string \<Rightarrow> ('s, app_error, string) cmd" where
  "read_all retries c key acc =
     matchE (get_stream_range c key (if acc \<noteq> [] then Some (length acc) else None)) (\<lambda>r. case r of
         Inl (NotFound _) \<Rightarrow> throw MissingItem
       | Inl PreconditionFailed \<Rightarrow> throw MissingItem
       | Inl Other \<Rightarrow> (case retries of 0 \<Rightarrow> throw Internal | Suc n \<Rightarrow> read_all n c key acc)
       | Inr st \<Rightarrow> (let acc1 = acc @ concat (gs_chunks st) in
           if \<not> gs_broken st then ret acc1
           else (case retries of 0 \<Rightarrow> throw Internal | Suc n \<Rightarrow> read_all n c key acc1)))"

declare read_all.simps [simp del]

record verify_file =
  vf_path :: string
  vf_status :: string
  vf_claimed :: "string option"
  vf_computed :: "string option"

record verify_result =
  vr_ok :: bool
  vr_total :: nat
  vr_verified :: nat
  vr_mismatched :: nat
  vr_missing :: nat
  vr_files :: "verify_file list"

definition verify_status :: "string option \<Rightarrow> string \<Rightarrow> string" where
  "verify_status claimed computed = (case claimed of
       None \<Rightarrow> ''missing''
     | Some c \<Rightarrow> if to_ascii_lowercase c = to_ascii_lowercase computed then ''ok'' else ''mismatch'')"

definition verify_one :: "'s app \<Rightarrow> string \<Rightarrow> file_meta \<Rightarrow> ('s, verify_file) handler" where
  "verify_one a prefix f =
     bindE (s3_map id (read_all MAX_RETRIES (app_s3 a) (prefix @ fm_path f) [])) (\<lambda>content.
     (let computed = hex (sha256 a content) in
     ret \<lparr>vf_path = fm_path f, vf_status = verify_status (fm_sha256 f) computed, vf_claimed = fm_sha256 f,
          vf_computed = Some computed\<rparr>))"

definition verify_summary :: "verify_file list \<Rightarrow> verify_result" where
  "verify_summary out =
     (let n = (\<lambda>st. length (filter (\<lambda>v. vf_status v = st) out)) in
      \<lparr>vr_ok = n ''mismatch'' = 0, vr_total = length out, vr_verified = n ''ok'', vr_mismatched = n ''mismatch'',
       vr_missing = n ''missing'', vr_files = out\<rparr>)"

definition verify_pending :: "'s app \<Rightarrow> headers \<Rightarrow> string \<Rightarrow> ('s, verify_result) handler" where
  "verify_pending a hs upload_id =
     bindE (auth_guard a PENDING_VIEWERS hs) (\<lambda>_.
     (let prefix = PENDING_PREFIX @ upload_id @ ''/'' in
     bindE (load_meta a (prefix @ META_FILE) MissingItem BadRequest) (\<lambda>parsed.
     bindE (foldE (\<lambda>f out. bindE (verify_one a prefix f) (\<lambda>v. ret (out @ [v]))) (rm_files parsed) []) (\<lambda>out.
     ret (verify_summary out)))))"

section \<open>Approval and rejection\<close>

definition approval_record :: "datetime \<Rightarrow> string \<Rightarrow> set_row option \<Rightarrow> set_meta \<Rightarrow> set_meta" where
  "approval_record now sub existing s =
     (let s1 = s \<lparr>sm_approved_at := Some now, sm_approved_by := Some sub\<rparr> in case existing of
       Some row \<Rightarrow> s1 \<lparr>sm_approved_initial_at := sr_approved_initial_at row,
                      sm_approved_initial_by := sr_approved_initial_by row\<rparr>
     | None \<Rightarrow> s1 \<lparr>sm_approved_initial_at := Some now, sm_approved_initial_by := Some sub\<rparr>)"

definition pin_upload_time :: "'s app \<Rightarrow> string \<Rightarrow> rawdb_meta \<Rightarrow> ('s, rawdb_meta) handler" where
  "pin_upload_time a meta_key parsed =
     (if sm_uploaded_at (rm_set parsed) = None
      then bindE (s3E (head (app_s3 a) meta_key)) (\<lambda>h. ret (case h of
          None \<Rightarrow> parsed | Some hd' \<Rightarrow> with_upload_time (hi_modified hd') parsed))
      else ret parsed)"

definition resolve_conflict :: "'s app \<Rightarrow> string \<Rightarrow> bool \<Rightarrow> string \<Rightarrow> ('s, file_meta list) handler" where
  "resolve_conflict a mode already_exists samples_prefix =
     (if \<not> already_exists then ret []
      else if mode = ''refuse'' then throw Conflict
      else if mode = ''replace'' then bindE (s3E (delete_prefix (app_s3 a) samples_prefix)) (\<lambda>_. ret [])
      else bindE (load_meta a (samples_prefix @ META_FILE) Internal Internal) (\<lambda>m. ret (rm_files m)))"

definition merged_files :: "file_meta list \<Rightarrow> file_meta list \<Rightarrow> file_meta list" where
  "merged_files existing promote =
     filter (\<lambda>f. fm_path f \<notin> set (map fm_path promote)) existing @ promote"

text \<open>Copies, new meta, removal of the upload.\<close>

definition promote_files :: "'s app \<Rightarrow> string \<Rightarrow> string \<Rightarrow> file_meta list \<Rightarrow> rawdb_meta \<Rightarrow> ('s, unit) handler" where
  "promote_files a pending_prefix samples_prefix promote approved =
     bindE (forE (schedule (externals a) (map fm_path promote)) (\<lambda>path.
        s3E (copy (app_s3 a) (pending_prefix @ path) (samples_prefix @ path)))) (\<lambda>_.
     bindE (write_meta a samples_prefix approved) (\<lambda>_.
     bindE (s3E (delete_prefix (app_s3 a) pending_prefix)) (\<lambda>_. ret ())))"

definition approve_upload :: "'s app \<Rightarrow> string \<Rightarrow> string \<Rightarrow> string \<Rightarrow> string list \<Rightarrow> ('s, string \<times> string) handler" where
  "approve_upload a sub upload_id mode chosen =
     (let pending_prefix = PENDING_PREFIX @ upload_id @ ''/'' in
     bindE (load_meta a (pending_prefix @ META_FILE) MissingItem BadRequest) (\<lambda>parsed0.
     bindE (pin_upload_time a (pending_prefix @ META_FILE) parsed0) (\<lambda>parsed.
     (let maker = sm_maker (rm_set parsed); model = sm_model (rm_set parsed);
          selected = (if chosen = [] then set (map fm_path (rm_files parsed)) else set chosen);
          promote = filter (\<lambda>f. fm_path f \<in> selected) (rm_files parsed);
          samples_prefix = SAMPLES_PREFIX @ maker @ ''/'' @ model @ ''/'' in
     bindE (guardE (promote \<noteq> []) BadRequest) (\<lambda>_.
     bindE (read_db (get_set (externals a) maker model)) (\<lambda>existing_set.
     bindE (now_at a) (\<lambda>now.
     bindE (resolve_conflict a mode (existing_set \<noteq> None) samples_prefix) (\<lambda>existing.
     bindE (promote_files a pending_prefix samples_prefix promote
        \<lparr>rm_set = approval_record now sub existing_set (rm_set parsed), rm_files = merged_files existing promote\<rparr>) (\<lambda>_.
     ret (maker, model))))))))))"

definition approve_pending :: "'s app \<Rightarrow> headers \<Rightarrow> string \<Rightarrow> string option \<Rightarrow> string list \<Rightarrow> ('s, nat) handler" where
  "approve_pending a hs upload_id conflict chosen =
     bindE (auth_guard a APPROVER_OR_ADMIN hs) (\<lambda>sess.
     (let mode = (case conflict of None \<Rightarrow> ''refuse'' | Some m \<Rightarrow> m) in
     bindE (guardE (mode = ''refuse'' \<or> mode = ''merge'' \<or> mode = ''replace'') BadRequest) (\<lambda>_.
     bindE (approve_upload a (se_sub sess) upload_id mode chosen) (\<lambda>(maker, model).
     bindE (ignoring (refresh_one_set (externals a) (app_s3 a) maker model)) (\<lambda>_.
     bindE (ignoring (refresh_one_pending (externals a) (app_s3 a) upload_id)) (\<lambda>_.
     bindE (bump_ticks a [SyncPending, SyncSets] ''approve_pending'') (\<lambda>_.
     ret 200)))))))"

definition reject_pending :: "'s app \<Rightarrow> headers \<Rightarrow> string \<Rightarrow> ('s, nat) handler" where
  "reject_pending a hs upload_id =
     bindE (auth_guard a APPROVER_OR_ADMIN hs) (\<lambda>_.
     bindE (s3E (delete_prefix (app_s3 a) (PENDING_PREFIX @ upload_id @ ''/''))) (\<lambda>deleted.
     bindE (guardE (deleted \<noteq> 0) MissingItem) (\<lambda>_.
     bindE (ignoring (refresh_one_pending (externals a) (app_s3 a) upload_id)) (\<lambda>_.
     bindE (bump_ticks a [SyncPending] ''reject_pending'') (\<lambda>_.
     ret 200)))))"

section \<open>Deleting from approved sets\<close>

definition delete_approved_set :: "'s app \<Rightarrow> headers \<Rightarrow> string \<Rightarrow> string \<Rightarrow> ('s, nat) handler" where
  "delete_approved_set a hs maker model =
     bindE (auth_guard a DELETER_OR_ADMIN hs) (\<lambda>_.
     bindE (read_db (get_set (externals a) maker model)) (\<lambda>row.
     bindE (guardE (row \<noteq> None) MissingItem) (\<lambda>_.
     bindE (s3E (delete_prefix (app_s3 a) (SAMPLES_PREFIX @ maker @ ''/'' @ model @ ''/''))) (\<lambda>_.
     bindE (ignoring (refresh_one_set (externals a) (app_s3 a) maker model)) (\<lambda>_.
     bindE (bump_ticks a [SyncSets] ''delete_set'') (\<lambda>_.
     ret 204))))))"

definition remove_file :: "'s app \<Rightarrow> string \<Rightarrow> string \<Rightarrow> ('s, unit) handler" where
  "remove_file a prefix file_path =
     bindE (load_meta a (prefix @ META_FILE) MissingItem Internal) (\<lambda>parsed.
     (let kept = filter (\<lambda>f. fm_path f \<noteq> file_path) (rm_files parsed) in
     bindE (guardE (length kept \<noteq> length (rm_files parsed)) MissingItem) (\<lambda>_.
     bindE (guardE (kept \<noteq> []) BadRequest) (\<lambda>_.
     bindE (write_meta a prefix (parsed \<lparr>rm_files := kept\<rparr>)) (\<lambda>_.
     s3E (delete (app_s3 a) (prefix @ file_path)))))))"

definition delete_set_file :: "'s app \<Rightarrow> headers \<Rightarrow> string \<Rightarrow> string \<Rightarrow> string \<Rightarrow> ('s, nat) handler" where
  "delete_set_file a hs maker model file_path =
     bindE (auth_guard a DELETER_OR_ADMIN hs) (\<lambda>_.
     bindE (guardE (\<not> contains_sub ''..'' file_path) BadRequest) (\<lambda>_.
     bindE (read_db (get_set (externals a) maker model)) (\<lambda>row.
     bindE (guardE (row \<noteq> None) MissingItem) (\<lambda>_.
     bindE (remove_file a (SAMPLES_PREFIX @ maker @ ''/'' @ model @ ''/'') file_path) (\<lambda>_.
     bindE (ignoring (refresh_one_set (externals a) (app_s3 a) maker model)) (\<lambda>_.
     bindE (bump_ticks a [SyncSets] ''delete_set_file'') (\<lambda>_.
     ret 204)))))))"

end
