(* ===== verification/Upload.thy ===== *)
theory Upload imports Public begin

text \<open>
  \<^verbatim>\<open>src/backend/src/routes/upload.rs\<close>: the public upload flow. \<^verbatim>\<open>begin\<close> plans an upload, the client sends
  the files, \<^verbatim>\<open>complete\<close> checks them and writes the meta file that puts the upload into the queue.
\<close>

section \<open>Checks\<close>

definition mint_upload_id :: "'s app \<Rightarrow> web_ext \<Rightarrow> ('s pod, 'e, string) cmd" where
  "mint_upload_id a w =
     bindE (now_at a) (\<lambda>t. bindE (rand_bytes a 4) (\<lambda>suffix. ret (compact_time w t @ ''-'' @ hex suffix)))"

definition validate_upload_id :: "string \<Rightarrow> app_error + unit" where
  "validate_upload_id id' = (if length id' \<noteq> 25 \<or> CHR ''-'' \<notin> set id' then Inl BadRequest else Inr ())"

definition validate_rel_path :: "string \<Rightarrow> app_error + unit" where
  "validate_rel_path path =
     (if path = [] \<or> starts_with ''/'' path \<or> contains_sub ''..'' path \<or> list_ex (\<lambda>seg. seg = []) (split_on slash path)
      then Inl BadRequest
      else if slash \<notin> set path then Inl BadRequest
      else Inr ())"

definition blocked_extension :: "string \<Rightarrow> string set \<Rightarrow> string option" where
  "blocked_extension path blocked = (case rsplit_once (CHR ''.'') (last_seg slash path) of
       None \<Rightarrow> None
     | Some (_, e) \<Rightarrow> (let ext = to_ascii_lowercase e in if ext \<in> blocked then Some ext else None))"

definition pending_key :: "string \<Rightarrow> string \<Rightarrow> string" where
  "pending_key upload_id rel = PENDING_PREFIX @ upload_id @ ''/'' @ rel"

section \<open>Begin\<close>

record begin_file =
  bf_path :: string
  bf_size :: nat

datatype file_plan =
    Single string
  | Multipart string nat "(nat \<times> string) list" \<comment> \<open>S3-side id, bytes per part, numbered part urls\<close>

record begin_response =
  br_upload_id :: string
  br_mode :: string
  br_files :: "(string \<times> file_plan) list"
  br_stream_base :: "string option"

definition MAX_PARTS :: nat where "MAX_PARTS = 10000"

definition div_ceil :: "nat \<Rightarrow> nat \<Rightarrow> nat" where
  "div_ceil n k = (n + k - 1) div k"

fun check_begin :: "string set \<Rightarrow> nat \<Rightarrow> begin_file list \<Rightarrow> app_error + unit" where
  "check_begin blocked maximum [] = Inr ()"
| "check_begin blocked maximum (f # fs) =
     bindR (validate_rel_path (bf_path f)) (\<lambda>_.
       if blocked_extension (bf_path f) blocked \<noteq> None then Inl BadRequest
       else if maximum < bf_size f then Inl PayloadTooLarge
       else check_begin blocked maximum fs)"

definition plan_file :: "'s app \<Rightarrow> string \<Rightarrow> begin_file \<Rightarrow> ('s, file_plan) handler" where
  "plan_file a upload_id f =
     (let key = pending_key upload_id (bf_path f); part_size = multipart_part_size (app_config a) in
      if bf_size f \<le> part_size then bindE (s3E (presign_put a key)) (\<lambda>url. ret (Single url))
      else (let eff_part = max part_size (div_ceil (bf_size f) MAX_PARTS);
                part_count = div_ceil (bf_size f) eff_part in
        bindE (s3E (create_multipart_upload (app_s3 a) key)) (\<lambda>s3_upload_id.
        bindE (foldE (\<lambda>n parts. bindE (s3E (presign_upload_part a key s3_upload_id n)) (\<lambda>url. ret (parts @ [(n, url)])))
                 [1..<part_count + 1] []) (\<lambda>parts.
          ret (Multipart s3_upload_id eff_part parts)))))"

text \<open>\<^verbatim>\<open>BTreeMap::insert\<close>, kept as a sorted association list.\<close>

fun btree_insert :: "string \<Rightarrow> 'v \<Rightarrow> (string \<times> 'v) list \<Rightarrow> (string \<times> 'v) list" where
  "btree_insert k v [] = [(k, v)]"
| "btree_insert k v ((j, u) # m) =
     (if k = j then (k, v) # m else if k < j then (k, v) # (j, u) # m else (j, u) # btree_insert k v m)"

definition plan_files :: "'s app \<Rightarrow> string \<Rightarrow> begin_file list \<Rightarrow> ('s, (string \<times> file_plan) list) handler" where
  "plan_files a upload_id fs =
     (if cf_upload_mode (app_config a) = UploadStream then ret []
      else foldE (\<lambda>f m. bindE (plan_file a upload_id f) (\<lambda>plan. ret (btree_insert (bf_path f) plan m))) fs [])"

fun mode_text :: "upload_mode \<Rightarrow> string" where
  "mode_text UploadPresigned = ''presigned''"
| "mode_text UploadStream = ''stream''"
| "mode_text UploadEither = ''either''"

definition begin_upload :: "'s app \<Rightarrow> web_ext \<Rightarrow> string \<Rightarrow> string \<Rightarrow> begin_file list \<Rightarrow> ('s, begin_response) handler" where
  "begin_upload a w maker model fs =
     bindE (guardE (\<not> (trim maker = [] \<or> trim model = [])) BadRequest) (\<lambda>_.
     bindE (guardE (fs \<noteq> []) BadRequest) (\<lambda>_.
     bindE (lift (check_begin (set (blocked_extensions (app_config a))) (max_upload_bytes (app_config a)) fs)) (\<lambda>_.
     bindE (mint_upload_id a w) (\<lambda>upload_id.
     bindE (plan_files a upload_id fs) (\<lambda>plans.
       ret \<lparr>br_upload_id = upload_id, br_mode = mode_text (cf_upload_mode (app_config a)), br_files = plans,
            br_stream_base = (if cf_upload_mode (app_config a) \<noteq> UploadPresigned
              then Some (''/api/upload/stream/'' @ upload_id) else None)\<rparr>)))))"

section \<open>Parts and streams\<close>

definition multipart_complete :: "'s app \<Rightarrow> string \<Rightarrow> string \<Rightarrow> string \<Rightarrow> (int \<times> string) list \<Rightarrow> ('s, nat) handler" where
  "multipart_complete a upload_id path s3_upload_id parts =
     bindE (lift (validate_upload_id upload_id)) (\<lambda>_.
     bindE (lift (validate_rel_path path)) (\<lambda>_.
     bindE (guardE (parts \<noteq> []) BadRequest) (\<lambda>_.
     bindE (s3E (complete_multipart_upload (app_s3 a) (pending_key upload_id path) s3_upload_id parts)) (\<lambda>_.
     ret 200))))"

definition multipart_abort :: "'s app \<Rightarrow> string \<Rightarrow> string \<Rightarrow> string \<Rightarrow> ('s, nat) handler" where
  "multipart_abort a upload_id path s3_upload_id =
     bindE (lift (validate_upload_id upload_id)) (\<lambda>_.
     bindE (lift (validate_rel_path path)) (\<lambda>_.
     bindE (s3E (abort_multipart_upload (app_s3 a) (pending_key upload_id path) s3_upload_id)) (\<lambda>_.
     ret 200)))"

definition stream :: "'s app \<Rightarrow> string \<Rightarrow> string \<Rightarrow> string \<Rightarrow> ('s, nat) handler" where
  "stream a upload_id file_path body =
     bindE (guardE (cf_upload_mode (app_config a) \<noteq> UploadPresigned) Forbidden) (\<lambda>_.
     bindE (lift (validate_upload_id upload_id)) (\<lambda>_.
     bindE (lift (validate_rel_path file_path)) (\<lambda>_.
     bindE (guardE (length body \<le> max_upload_bytes (app_config a)) PayloadTooLarge) (\<lambda>_.
     bindE (s3_map (\<lambda>_. Internal) (put_bytes (app_s3 a) (pending_key upload_id file_path) body None None None)) (\<lambda>_.
     ret 201)))))"

section \<open>Complete\<close>

definition uploaded_meta :: "rawdb_meta \<Rightarrow> rawdb_meta" where
  "uploaded_meta m = m \<lparr>rm_set := (rm_set m) \<lparr>sm_special := False, sm_approved_at := None, sm_approved_by := None,
     sm_approved_initial_at := None, sm_approved_initial_by := None\<rparr>\<rparr>"

definition present_sizes :: "string \<Rightarrow> object_info list \<Rightarrow> string \<Rightarrow> nat option" where
  "present_sizes prefix objects = foldl (\<lambda>m ob. case strip_prefix prefix (oi_key ob) of
       Some rel \<Rightarrow> m(rel \<mapsto> oi_size ob) | None \<Rightarrow> m) (\<lambda>_. None) objects"

definition check_present :: "(string \<Rightarrow> nat option) \<Rightarrow> nat \<Rightarrow> file_meta list \<Rightarrow> app_error + unit" where
  "check_present present maximum fs = forR fs (\<lambda>f. case present (fm_path f) of
       None \<Rightarrow> Inl BadRequest
     | Some n \<Rightarrow> if maximum < n then Inl PayloadTooLarge else Inr ())"

definition complete :: "'s app \<Rightarrow> string \<Rightarrow> string \<Rightarrow> string \<Rightarrow> string \<Rightarrow> ('s, nat) handler" where
  "complete a maker model upload_id meta_toml =
     bindE (guardE (\<not> (trim maker = [] \<or> trim model = [])) BadRequest) (\<lambda>_.
     bindE (lift (validate_upload_id upload_id)) (\<lambda>_.
     bindE (lift (map_errR (\<lambda>_. BadRequest) (parse (externals a) meta_toml))) (\<lambda>parsed.
     bindE (guardE (sm_maker (rm_set parsed) = maker \<and> sm_model (rm_set parsed) = model) BadRequest) (\<lambda>_.
     (let m = uploaded_meta parsed; prefix = PENDING_PREFIX @ upload_id @ ''/'' in
     bindE (guardE (list_all (\<lambda>f. blocked_extension (fm_path f) (set (blocked_extensions (app_config a))) = None) (rm_files m))
              BadRequest) (\<lambda>_.
     bindE (s3E (list_objects (app_s3 a) prefix)) (\<lambda>objects.
     bindE (lift (check_present (present_sizes prefix objects) (max_upload_bytes (app_config a)) (rm_files m))) (\<lambda>_.
     bindE (s3_map (\<lambda>_. Internal) (put_bytes (app_s3 a) (prefix @ META_FILE) (to_toml (externals a) m)
              (Some ''application/toml'') None None)) (\<lambda>_.
     bindE (ignoring (refresh_one_pending (externals a) (app_s3 a) upload_id)) (\<lambda>_.
     bindE (bump_ticks a [SyncPending] ''upload_complete'') (\<lambda>_.
     ret 201)))))))))))"

end
