(* ===== verification/Admin_Props.thy ===== *)
theory Admin_Props imports Admin_Review Admin_Users Upload Frame Sample_App begin

text \<open>The steps of the admin and upload handlers on an undisturbed bucket.\<close>

section \<open>Outside the ticks\<close>

definition untimed :: "'s contract \<Rightarrow> 's pod \<Rightarrow> bucket_view" where
  "untimed S p = (\<lambda>k. if k \<in> range tick_key then None else bucket_of S p k)"

lemma frame_untimed: "frame (bucket_of S) m \<Longrightarrow> frame (untimed S) m"
  by (auto simp: frame_def untimed_def fun_eq_iff)

lemma bump_untimed:
  assumes "store_ok (app_s3 a) S" "quiet S" "entropy_ok a S"
  shows "frame (untimed S) (bump_ticks a ds reason)"
  unfolding bump_ticks_def
proof (rule frame_for)
  fix d
  show "frame (untimed S) (bump_one a reason d)"
    unfolding frame_def
  proof
    fix p :: "'a pod"
    obtain r p' where b: "bump_one a reason d p = (r, p')" by fastforce
    obtain nonce s1 where e: "entropy a 16 (world p) = (nonce, s1)" by fastforce
    have v1: "st_view S s1 = st_view S (world p)" using assms(3) e unfolding entropy_ok_def by (metis snd_conv)
    show "untimed S (snd (bump_one a reason d p)) = untimed S p"
    proof (cases "tick_body a nonce (clock (app_s3 a) s1) reason")
      case None
      then show ?thesis using e v1 by (auto simp: bump_one_def cmd_defs untimed_def bucket_of_def fun_eq_iff)
    next
      case (Some body)
      obtain q s2 where q: "put_bytes (app_s3 a) (tick_key d) body (Some ''application/json'') None None s1 = (q, s2)" by fastforce
      have "st_view S s2 = st_view S s1 \<or> (\<exists>obj. st_view S s2 = (st_view S s1)(tick_key d \<mapsto> obj))"
        using put_bytes_view [OF assms(1) q] assms(2) by (auto simp: quiet_def split: sum.splits s3_error.splits)
      then have "untimed S (p \<lparr>world := s2\<rparr>) = untimed S p" using v1 by (auto simp: untimed_def bucket_of_def fun_eq_iff)
      then show ?thesis using e Some q
        by (cases q) (simp_all add: bump_one_def cmd_defs set_cell_def untimed_def bucket_of_def cong: if_cong)
    qed
  qed
qed

section \<open>Steps\<close>

lemma write_meta_view:
  assumes "store_ok (app_s3 a) S" "quiet S" "write_meta a prefix m p = (Inr e, p')"
  shows "\<exists>obj. ob_bytes obj = to_toml (externals a) m \<and> bucket_of S p' = (bucket_of S p)(prefix @ META_FILE \<mapsto> obj)"
    "cache p' = cache p"
proof -
  have w: "put_bytes (app_s3 a) (prefix @ META_FILE) (to_toml (externals a) m) (Some ''application/toml'') None None (world p) = (Inr e, world p')"
    "p' = p \<lparr>world := world p'\<rparr>"
    using assms(3) by (auto simp: write_meta_def s3_map_Inr)
  show "\<exists>obj. ob_bytes obj = to_toml (externals a) m \<and> bucket_of S p' = (bucket_of S p)(prefix @ META_FILE \<mapsto> obj)"
    using put_bytes_view [OF assms(1) w(1)] assms(2) by (auto simp: quiet_def bucket_of_def)
  show "cache p' = cache p" by (subst w(2)) simp
qed

lemma load_meta_view:
  assumes "store_ok (app_s3 a) S" "quiet S" "load_meta a key missing bad p = (Inr m, p')"
  shows "\<exists>obj. bucket_of S p key = Some obj \<and> parse_meta (externals a) (ob_bytes obj) = Inr m"
    "bucket_of S p' = bucket_of S p" "cache p' = cache p"
proof -
  obtain r s where r: "get_bytes (app_s3 a) key (world p) = (r, s)" by fastforce
  then obtain b t where bt: "r = Inr (b, t)" using assms(3) by (cases r) (auto simp: load_meta_def cmd_defs)
  then have "parse_meta (externals a) b = Inr m" "p' = p \<lparr>world := s\<rparr>"
    using assms(3) r by (cases "parse_meta (externals a) b"; simp add: load_meta_def cmd_defs)+
  note g = r [unfolded bt] this
  note gv = get_bytes_view [OF assms(1) g(1)]
  show "\<exists>obj. bucket_of S p key = Some obj \<and> parse_meta (externals a) (ob_bytes obj) = Inr m"
    "bucket_of S p' = bucket_of S p" "cache p' = cache p"
    using gv assms(2) g(2,3) by (auto simp: quiet_def bucket_of_def)
qed

lemma copy_one_view:
  assumes "store_ok (app_s3 a) S" "quiet S" "CHR ''%'' \<notin> set (bucket (app_s3 a) @ ''/'' @ src)"
    and "s3E (copy (app_s3 a) src dst) p = (Inr u, p')"
  shows "\<exists>obj obj'. bucket_of S p src = Some obj \<and> ob_bytes obj' = ob_bytes obj \<and> bucket_of S p' = (bucket_of S p)(dst \<mapsto> obj')"
    "cache p' = cache p"
proof -
  have c: "copy (app_s3 a) src dst (world p) = (Inr u, world p')" "p' = p \<lparr>world := world p'\<rparr>"
    using assms(4) by (auto simp: s3E_Inr)
  show "\<exists>obj obj'. bucket_of S p src = Some obj \<and> ob_bytes obj' = ob_bytes obj \<and> bucket_of S p' = (bucket_of S p)(dst \<mapsto> obj')"
    using copy_view [OF assms(1) c(1) assms(3)] assms(2) by (auto simp: quiet_def bucket_of_def)
  show "cache p' = cache p" by (subst c(2)) simp
qed

text \<open>Copies between disjoint prefixes, in any order.\<close>

lemma copies_view:
  assumes ok: "store_ok (app_s3 a) S" "quiet S" and apart: "\<And>x y. P @ x \<noteq> Q @ y"
  shows "forE qs (\<lambda>path. s3E (copy (app_s3 a) (P @ path) (Q @ path))) p = (Inr (), p') \<Longrightarrow>
    \<forall>x\<in>set qs. CHR ''%'' \<notin> set (bucket (app_s3 a) @ ''/'' @ P @ x) \<Longrightarrow>
    (\<forall>x\<in>set qs. \<exists>obj obj'. bucket_of S p (P @ x) = Some obj \<and> bucket_of S p' (Q @ x) = Some obj' \<and> ob_bytes obj' = ob_bytes obj)
    \<and> (\<forall>k. k \<notin> (@) Q ` set qs \<longrightarrow> bucket_of S p' k = bucket_of S p k) \<and> cache p' = cache p"
proof (induction qs arbitrary: p)
  case Nil
  then show ?case by (simp add: ret_Inr)
next
  case (Cons x qs)
  then obtain p1 u where c: "s3E (copy (app_s3 a) (P @ x) (Q @ x)) p = (Inr u, p1)"
    and rest: "forE qs (\<lambda>path. s3E (copy (app_s3 a) (P @ path) (Q @ path))) p1 = (Inr (), p')"
    by (auto simp: bindE_Inr)
  have "CHR ''%'' \<notin> set (bucket (app_s3 a) @ ''/'' @ P @ x)" using Cons.prems(2) by simp
  from copy_one_view [OF ok this c] obtain obj obj' where
    o': "bucket_of S p (P @ x) = Some obj" "ob_bytes obj' = ob_bytes obj" "bucket_of S p1 = (bucket_of S p)(Q @ x \<mapsto> obj')"
    and ca: "cache p1 = cache p" by blast
  have src: "bucket_of S p1 (P @ y) = bucket_of S p (P @ y)" for y using apart [of y x] o'(3) by simp
  from Cons.IH [OF rest] Cons.prems(2)
  have ih: "\<forall>y\<in>set qs. \<exists>obj obj'. bucket_of S p1 (P @ y) = Some obj \<and> bucket_of S p' (Q @ y) = Some obj' \<and> ob_bytes obj' = ob_bytes obj"
    "\<forall>k. k \<notin> (@) Q ` set qs \<longrightarrow> bucket_of S p' k = bucket_of S p1 k" "cache p' = cache p1" by simp_all
  have "\<exists>obj obj'. bucket_of S p (P @ y) = Some obj \<and> bucket_of S p' (Q @ y) = Some obj' \<and> ob_bytes obj' = ob_bytes obj"
    if "y \<in> set (x # qs)" for y
  proof (cases "y \<in> set qs")
    case True
    then show ?thesis using ih(1) src by metis
  next
    case False
    then have "y = x" "bucket_of S p' (Q @ x) = Some obj'" using that ih(2) o'(3) by auto
    then show ?thesis using o' by blast
  qed
  moreover have "bucket_of S p' k = bucket_of S p k" if "k \<notin> (@) Q ` set (x # qs)" for k
    using that ih(2) o'(3) by auto
  ultimately show ?case using ih(3) ca by auto
qed

lemma delete_all_view:
  assumes "store_ok (app_s3 a) S" "quiet S" "s3E (delete_prefix (app_s3 a) prefix) p = (Inr n, p')"
  shows "\<not> starts_with prefix k \<Longrightarrow> bucket_of S p' k = bucket_of S p k"
    "starts_with prefix k \<Longrightarrow> bucket_of S p' k = None \<or> refusable (app_s3 a) k \<and> bucket_of S p' k = bucket_of S p k"
    "cache p' = cache p"
proof -
  have d: "delete_prefix (app_s3 a) prefix (world p) = (Inr n, world p')" "p' = p \<lparr>world := world p'\<rparr>"
    using assms(3) by (auto simp: s3E_Inr)
  show "\<not> starts_with prefix k \<Longrightarrow> bucket_of S p' k = bucket_of S p k"
    "starts_with prefix k \<Longrightarrow> bucket_of S p' k = None \<or> refusable (app_s3 a) k \<and> bucket_of S p' k = bucket_of S p k"
    using delete_prefix_view [OF assms(1,2) d(1)] by (auto simp: bucket_of_def)
  show "cache p' = cache p" by (subst d(2)) simp
qed

lemma prefixes_apart: "PENDING_PREFIX @ x \<noteq> SAMPLES_PREFIX @ y"
  by (simp add: PENDING_PREFIX_def SAMPLES_PREFIX_def)

lemma starts_with_append [simp]: "starts_with p (p @ x)"
  by (simp add: starts_with_def)

lemma parsed_path_not_meta: "parse_meta x b = Inr m \<Longrightarrow> f \<in> set (rm_files m) \<Longrightarrow> fm_path f \<noteq> META_FILE"
proof
  assume "parse_meta x b = Inr m" "f \<in> set (rm_files m)" "fm_path f = META_FILE"
  then have "path_segs (split_on slash META_FILE)" using parse_meta_Inr validate_Inr by metis
  moreover have "split_on slash META_FILE = [META_FILE]" by (simp add: META_FILE_def)
  ultimately show False by (simp add: path_segs_def)
qed

end
