(* ===== verification/Sample_Run.thy ===== *)
theory Sample_Run imports Admin_Props begin

unbundle bit_operations_syntax

text \<open>Concrete runs of the handlers: a pending upload with its files, and a request of the bootstrap admin.\<close>

lemma tick_key_prefix: "PENDING_PREFIX @ x \<notin> range tick_key" "SAMPLES_PREFIX @ x \<notin> range tick_key"
  using tick_key_other(2,3) by (auto simp: starts_with_iff) (metis append_assoc)+

lemma untimed_at: "untimed S p' = untimed S p \<Longrightarrow> k \<notin> range tick_key \<Longrightarrow> bucket_of S p' k = bucket_of S p k"
  unfolding untimed_def fun_eq_iff by metis

text \<open>What follows a change of the bucket: refreshes of the cache and ticks.\<close>

lemma refresh_untimed:
  assumes "store_ok (app_s3 a) S" "quiet S"
  shows "frame (untimed S) (ignoring (refresh_one_set x (app_s3 a) mk md))"
    "frame (untimed S) (ignoring (refresh_one_pending x (app_s3 a) u))"
  by (intro frame_untimed frame_rules assms)+

section \<open>Witness runs\<close>

text \<open>On the bucket in memory every call but a read of a missing object succeeds.\<close>

lemma mem_copy_ok:
  assumes "mem_view s src = Some ob" "CHR ''%'' \<notin> set src"
  shows "copy mem_s3 src dst s = (Inr (), mem_put dst (ob_bytes ob) s)"
proof -
  have "percent_decode (''b'' @ ''/'' @ url_encode_key src) = ''b'' @ ''/'' @ src"
    using assms(2) percent_decode_encode [of src encoded_byte] by (simp add: url_encode_key_def percent_decode_plain)
  then show ?thesis using assms(1) by (simp add: copy_def cmd_defs mem_s3_def)
qed

lemma mem_list_ok: "\<exists>objs. list_objects mem_s3 prefix s = (Inr objs, s)"
  by (simp add: list_objects_def mem_s3_def)

lemma mem_delete_prefix_ok: "\<exists>n s'. delete_prefix mem_s3 prefix s = (Inr n, s')"
proof -
  have f: "\<exists>n s'. foldE (\<lambda>chunk deleted. bindE (map_errE (\<lambda>_. ()) (delete_objects mem_s3 (map oi_key chunk))) (\<lambda>_. ret (deleted + length chunk))) chs n0 s = (Inr n, s')"
    for chs n0 s
    by (induction chs arbitrary: n0 s) (auto simp: cmd_defs mem_s3_def)
  obtain objs where "list_objects mem_s3 prefix s = (Inr objs, s)" using mem_list_ok by blast
  then show ?thesis using f [of "chunks 1000 objs" 0 s] by (simp add: delete_prefix_def bindE_def)
qed

lemma ignoring_ok: "ignoring m p = (Inr (), snd (m p))"
  by (simp add: cmd_defs split: prod.splits)

lemma bump_ticks_ok: "\<exists>p'. bump_ticks a ds reason p = (Inr () :: 'e + unit, p')"
proof -
  have one: "\<exists>p'. bump_one a reason d p = (Inr () :: 'e + unit, p')" for d p
    by (auto simp: bump_one_def cmd_defs split: prod.splits option.splits sum.splits)
  show ?thesis unfolding bump_ticks_def
  proof (induction ds arbitrary: p)
    case (Cons d ds)
    obtain p1 where "bump_one a reason d p = (Inr () :: 'e + unit, p1)" using one by blast
    then show ?case using Cons.IH [of p1] by (auto simp: bindE_def)
  qed (simp add: ret_def)
qed

definition upload_bucket :: mem where
  "upload_bucket = mem_put ''pending/u1/rawdb-meta.toml'' ''M''
     (mem_put ''pending/u1/raw/a.CR3'' ''AAAA'' (mem_put ''pending/u1/jpg/b.jpg'' ''BB'' \<lparr>mem_objs = [], mem_seq = 3\<rparr>))"

definition upload_pod :: "mem pod" where
  "upload_pod = \<lparr>world = upload_bucket, cache = empty_db, tick_cells = (\<lambda>_. None)\<rparr>"

definition admin_request :: headers where
  "admin_request = [(''cookie'', ''rawdb_session=bootstrap:admin'')]"

definition admin_session :: session where
  "admin_session = \<lparr>se_sub = ''bootstrap:admin'', se_source = ''oidc'', se_roles = [''admin''], se_exp = 0\<rparr>"

lemma admin_guard: "(bits AND ADMIN_BIT) \<noteq> 0 \<Longrightarrow> auth_guard sample_app bits admin_request p = (Inr admin_session, p)"
proof -
  assume b: "(bits AND ADMIN_BIT) \<noteq> 0"
  have c: "extract_cookie admin_request SESSION_COOKIE = Some ''bootstrap:admin''" by code_simp
  then have "decode_session sample_app t ''bootstrap:admin'' = Some admin_session" for t
    by (simp add: decode_session_def sample_app_def admin_session_def)
  moreover have "is_role_allowed bits admin_session"
    using b by (simp add: is_role_allowed_def ROLE_BIT_TABLE_def has_role_def admin_session_def ROLE_ADMIN_def)
  ultimately show ?thesis
    by (simp add: auth_guard_def session_extractor_def c cmd_defs BOOTSTRAP_SUB_def admin_session_def)
qed

lemma upload_objects:
  "mem_view upload_bucket ''pending/u1/rawdb-meta.toml'' = Some \<lparr>ob_bytes = ''M'', ob_etag = mem_tag ''M'', ob_modified = 5\<rparr>"
  "mem_view upload_bucket ''pending/u1/raw/a.CR3'' = Some \<lparr>ob_bytes = ''AAAA'', ob_etag = mem_tag ''AAAA'', ob_modified = 4\<rparr>"
  "mem_view upload_bucket ''pending/u1/jpg/b.jpg'' = Some \<lparr>ob_bytes = ''BB'', ob_etag = mem_tag ''BB'', ob_modified = 3\<rparr>"
  by (simp_all add: upload_bucket_def view_put) (simp_all add: mem_put_def)

lemma meta_M: "parse_meta sample_pod_ext ''M'' = Inr sample_meta"
proof -
  have "utf8_valid ''M''" by code_simp
  then show ?thesis by (simp add: parse_meta_def parse_def sample_pod_ext_def sample_validate)
qed

end
