(* ===== verification/Approve_Claims.thy ===== *)
theory Approve_Claims imports Sample_Run begin

text \<open>The approval of a pending upload, on a bucket no other pod writes to.\<close>

lemma pin_upload_time_view:
  assumes "store_ok (app_s3 a) S" "quiet S" "pin_upload_time a key m p = (Inr m', p')"
  shows "bucket_of S p' = bucket_of S p" "cache p' = cache p" "rm_files m' = rm_files m"
    "bucket_of S p key = Some obj \<Longrightarrow> m' = with_upload_time (Some (ob_modified obj)) m"
proof -
  have "frame (bucket_of S) (pin_upload_time a key m)" "frame cache (pin_upload_time a key m)"
    unfolding pin_upload_time_def by (intro frame_rules assms(1,2))+
  then show "bucket_of S p' = bucket_of S p" "cache p' = cache p" using frameD assms(3) by metis+
  show "rm_files m' = rm_files m"
    using assms(3) by (auto simp: pin_upload_time_def run_Inr split: if_splits option.splits)
  show "m' = with_upload_time (Some (ob_modified obj)) m" if obj: "bucket_of S p key = Some obj"
  proof (cases "sm_uploaded_at (rm_set m) = None")
    case True
    then obtain h where h: "s3E (head (app_s3 a) key) p = (Inr h, p')"
        "m' = (case h of None \<Rightarrow> m | Some hd' \<Rightarrow> with_upload_time (hi_modified hd') m)"
      using assms(3) by (auto simp: pin_upload_time_def run_Inr)
    then have "head (app_s3 a) key (world p) = (Inr h, world p')" by (auto simp: s3E_Inr)
    from head_view [OF assms(1) this] show ?thesis
      using obj h(2) assms(2) by (auto simp: quiet_def bucket_of_def split: option.splits)
  qed (use assms(3) in \<open>auto simp: pin_upload_time_def run_Inr with_upload_time_def\<close>)
qed

text \<open>The three steps of a promotion.\<close>

lemma promote_view:
  assumes ok: "store_ok (app_s3 a) S" "quiet S" and perm: "set (schedule (externals a) (map fm_path promote)) = set (map fm_path promote)"
    and clean: "\<forall>f\<in>set promote. CHR ''%'' \<notin> set (bucket (app_s3 a) @ ''/'' @ P @ fm_path f)"
    and meta: "\<forall>f\<in>set promote. fm_path f \<noteq> META_FILE"
    and apart: "\<And>x y. P @ x \<noteq> Q @ y" and run: "promote_files a P Q promote approved p = (Inr u, p')"
  shows "\<forall>f\<in>set promote. \<exists>obj obj'. bucket_of S p (P @ fm_path f) = Some obj \<and> bucket_of S p' (Q @ fm_path f) = Some obj' \<and> ob_bytes obj' = ob_bytes obj"
    "\<exists>obj. bucket_of S p' (Q @ META_FILE) = Some obj \<and> ob_bytes obj = to_toml (externals a) approved"
    "\<forall>k. starts_with P k \<longrightarrow> bucket_of S p' k = None \<or> refusable (app_s3 a) k \<and> bucket_of S p' k = bucket_of S p k"
    "\<forall>k. \<not> starts_with P k \<and> k \<noteq> Q @ META_FILE \<and> k \<notin> (\<lambda>f. Q @ fm_path f) ` set promote \<longrightarrow> bucket_of S p' k = bucket_of S p k"
    "cache p' = cache p"
proof -
  obtain p1 p2 e n where c: "forE (schedule (externals a) (map fm_path promote)) (\<lambda>path. s3E (copy (app_s3 a) (P @ path) (Q @ path))) p = (Inr (), p1)"
    and w: "write_meta a Q approved p1 = (Inr e, p2)" and d: "s3E (delete_prefix (app_s3 a) P) p2 = (Inr n, p')"
    using run by (auto simp: promote_files_def run_Inr)
  have "\<forall>x\<in>set (schedule (externals a) (map fm_path promote)). CHR ''%'' \<notin> set (bucket (app_s3 a) @ ''/'' @ P @ x)"
    using clean unfolding perm by simp
  note cv = copies_view [OF ok apart c this, unfolded perm]
  obtain obj where wv: "ob_bytes obj = to_toml (externals a) approved" "bucket_of S p2 = (bucket_of S p1)(Q @ META_FILE \<mapsto> obj)" "cache p2 = cache p1"
    using write_meta_view [OF ok w] by blast
  note dv = delete_all_view [OF ok d]
  have sep: "\<not> starts_with P (Q @ y)" for y using apart by (auto simp: starts_with_iff) metis
  show "\<forall>f\<in>set promote. \<exists>obj obj'. bucket_of S p (P @ fm_path f) = Some obj \<and> bucket_of S p' (Q @ fm_path f) = Some obj' \<and> ob_bytes obj' = ob_bytes obj"
  proof
    fix f assume f: "f \<in> set promote"
    then obtain o1 o2 where "bucket_of S p (P @ fm_path f) = Some o1" "bucket_of S p1 (Q @ fm_path f) = Some o2" "ob_bytes o2 = ob_bytes o1"
      using cv by auto
    moreover have "bucket_of S p' (Q @ fm_path f) = bucket_of S p1 (Q @ fm_path f)"
      using f meta sep wv(2) dv(1) by simp
    ultimately show "\<exists>obj obj'. bucket_of S p (P @ fm_path f) = Some obj \<and> bucket_of S p' (Q @ fm_path f) = Some obj' \<and> ob_bytes obj' = ob_bytes obj"
      by auto
  qed
  show "\<exists>obj. bucket_of S p' (Q @ META_FILE) = Some obj \<and> ob_bytes obj = to_toml (externals a) approved"
    using wv dv(1) sep by simp
  have under: "bucket_of S p2 (P @ x) = bucket_of S p (P @ x)" for x
  proof -
    have "P @ x \<notin> (@) Q ` set (map fm_path promote)" using apart by auto
    then show ?thesis using cv wv(2) apart by simp
  qed
  then have "bucket_of S p2 k = bucket_of S p k" if "starts_with P k" for k using that by (auto simp: starts_with_iff)
  then show "\<forall>k. starts_with P k \<longrightarrow> bucket_of S p' k = None \<or> refusable (app_s3 a) k \<and> bucket_of S p' k = bucket_of S p k"
    using dv(2) by metis
  show "cache p' = cache p" using cv wv(3) dv(3) by simp
  show "\<forall>k. \<not> starts_with P k \<and> k \<noteq> Q @ META_FILE \<and> k \<notin> (\<lambda>f. Q @ fm_path f) ` set promote \<longrightarrow> bucket_of S p' k = bucket_of S p k"
  proof (intro allI impI)
    fix k assume k: "\<not> starts_with P k \<and> k \<noteq> Q @ META_FILE \<and> k \<notin> (\<lambda>f. Q @ fm_path f) ` set promote"
    then have "k \<notin> (@) Q ` set (map fm_path promote)" by auto
    then have "bucket_of S p1 k = bucket_of S p k" using cv by blast
    then show "bucket_of S p' k = bucket_of S p k" using k wv(2) dv(1) by simp
  qed
qed

text \<open>The bucket after the conflict was resolved.\<close>

lemma resolve_conflict_view:
  assumes ok: "store_ok (app_s3 a) S" "quiet S" and run: "resolve_conflict a mode there Q p = (Inr existing, p')"
  shows "bucket_of S p' k = bucket_of S p k \<or> there \<and> mode = ''replace'' \<and> starts_with Q k \<and> bucket_of S p' k = None"
    "there \<Longrightarrow> mode = ''replace'' \<Longrightarrow> starts_with Q k \<Longrightarrow> bucket_of S p' k = None \<or> refusable (app_s3 a) k"
    "cache p' = cache p" "there \<Longrightarrow> mode \<noteq> ''refuse''"
    "if there \<and> mode \<noteq> ''replace'' then \<exists>obj m. bucket_of S p (Q @ META_FILE) = Some obj \<and> parse_meta (externals a) (ob_bytes obj) = Inr m \<and> existing = rm_files m
     else existing = []"
proof -
  consider "\<not> there" | "there" "mode = ''replace''" | "there" "mode \<noteq> ''replace''" by blast
  then have "(\<forall>k. bucket_of S p' k = bucket_of S p k \<or> there \<and> mode = ''replace'' \<and> starts_with Q k \<and> bucket_of S p' k = None)
    \<and> (\<forall>k. there \<and> mode = ''replace'' \<and> starts_with Q k \<longrightarrow> bucket_of S p' k = None \<or> refusable (app_s3 a) k)
    \<and> cache p' = cache p \<and> (there \<longrightarrow> mode \<noteq> ''refuse'') \<and>
    (if there \<and> mode \<noteq> ''replace'' then \<exists>obj m. bucket_of S p (Q @ META_FILE) = Some obj \<and> parse_meta (externals a) (ob_bytes obj) = Inr m \<and> existing = rm_files m
     else existing = [])"
  proof cases
    case 1
    then show ?thesis using run by (simp add: resolve_conflict_def run_Inr)
  next
    case 2
    then obtain n where d: "s3E (delete_prefix (app_s3 a) Q) p = (Inr n, p')" "existing = []"
      using run by (auto simp: resolve_conflict_def bindE_Inr ret_Inr throw_Inr)
    note dv = delete_all_view [OF ok d(1)]
    have "bucket_of S p' k = bucket_of S p k \<or> starts_with Q k \<and> bucket_of S p' k = None"
      "starts_with Q k \<longrightarrow> bucket_of S p' k = None \<or> refusable (app_s3 a) k" for k using dv(1,2) by blast+
    then show ?thesis using dv(3) 2 d(2) by simp
  next
    case 3
    then obtain m where l: "load_meta a (Q @ META_FILE) Internal Internal p = (Inr m, p')" "existing = rm_files m" "mode \<noteq> ''refuse''"
      using run by (auto simp: resolve_conflict_def bindE_Inr ret_Inr throw_Inr split: if_splits)
    show ?thesis using load_meta_view [OF ok l(1)] 3 l(2,3) by auto
  qed
  then show "bucket_of S p' k = bucket_of S p k \<or> there \<and> mode = ''replace'' \<and> starts_with Q k \<and> bucket_of S p' k = None"
    "there \<Longrightarrow> mode = ''replace'' \<Longrightarrow> starts_with Q k \<Longrightarrow> bucket_of S p' k = None \<or> refusable (app_s3 a) k"
    "cache p' = cache p" "there \<Longrightarrow> mode \<noteq> ''refuse''"
    "if there \<and> mode \<noteq> ''replace'' then \<exists>obj m. bucket_of S p (Q @ META_FILE) = Some obj \<and> parse_meta (externals a) (ob_bytes obj) = Inr m \<and> existing = rm_files m
     else existing = []" by blast+
qed

text \<open>The files of an upload an approval promotes.\<close>

definition promoted :: "rawdb_meta \<Rightarrow> string list \<Rightarrow> file_meta list" where
  "promoted m chosen = filter (\<lambda>f. chosen = [] \<or> fm_path f \<in> set chosen) (rm_files m)"

lemma promoted_eq: "filter (\<lambda>f. fm_path f \<in> (if chosen = [] then set (map fm_path (rm_files m)) else set chosen)) (rm_files m) = promoted m chosen"
  by (auto simp: promoted_def intro!: filter_cong)

text \<open>
  The record of the approved set: the upload's own, with its upload time pinned, the approval, and the first
  approval of the set, which is this one when the catalog knows no such set.
\<close>

definition approved_record :: "rawdb_meta \<Rightarrow> datetime \<Rightarrow> datetime \<Rightarrow> string \<Rightarrow> set_row option \<Rightarrow> set_meta" where
  "approved_record m modified now sub existing = (rm_set m)
     \<lparr>sm_uploaded_at := Some (case sm_uploaded_at (rm_set m) of Some t \<Rightarrow> t | None \<Rightarrow> modified),
      sm_approved_at := Some now, sm_approved_by := Some sub,
      sm_approved_initial_at := (case existing of Some row \<Rightarrow> sr_approved_initial_at row | None \<Rightarrow> Some now),
      sm_approved_initial_by := (case existing of Some row \<Rightarrow> sr_approved_initial_by row | None \<Rightarrow> Some sub)\<rparr>"

lemma approval_record_eq:
  "approval_record now sub existing (rm_set (with_upload_time (Some modified) m)) = approved_record m modified now sub existing"
  by (cases "sm_uploaded_at (rm_set m)") (simp_all add: approval_record_def approved_record_def with_upload_time_def Let_def split: option.splits)

lemma approve_upload_view:
  assumes ok: "store_ok (app_s3 a) S" "quiet S" and perm: "\<forall>ps. set (schedule (externals a) ps) = set ps"
    and clean: "CHR ''%'' \<notin> set (bucket (app_s3 a) @ ''/'' @ P)" "\<forall>f\<in>set (rm_files m). CHR ''%'' \<notin> set (fm_path f)"
    and P: "P = PENDING_PREFIX @ uid @ ''/''" and src: "bucket_of S p (P @ META_FILE) = Some obj" "parse_meta (externals a) (ob_bytes obj) = Inr m"
    and run: "approve_upload a sub uid mode chosen p = (Inr (mk, md), p')"
  shows "mk = sm_maker (rm_set m) \<and> md = sm_model (rm_set m) \<and> cache p' = cache p \<and> promoted m chosen \<noteq> [] \<and>
    (let Q = SAMPLES_PREFIX @ mk @ ''/'' @ md @ ''/''; there = get_set (externals a) mk md (cache p) \<noteq> None;
         v = bucket_of S p; v' = bucket_of S p' in
       (\<forall>f\<in>set (promoted m chosen). \<exists>o1 o2. v (P @ fm_path f) = Some o1 \<and> v' (Q @ fm_path f) = Some o2 \<and> ob_bytes o2 = ob_bytes o1)
     \<and> (there \<longrightarrow> mode \<noteq> ''refuse'')
     \<and> (\<exists>w o2 kept. st_view S w = v \<and> v' (Q @ META_FILE) = Some o2 \<and> ob_bytes o2 = to_toml (externals a)
             \<lparr>rm_set = approved_record m (ob_modified obj) (clock (app_s3 a) w) sub (get_set (externals a) mk md (cache p)), rm_files = kept @ promoted m chosen\<rparr>
          \<and> (if there \<and> mode \<noteq> ''replace''
             then \<exists>o3 old. v (Q @ META_FILE) = Some o3 \<and> parse_meta (externals a) (ob_bytes o3) = Inr old
                \<and> kept = filter (\<lambda>f. fm_path f \<notin> fm_path ` set (promoted m chosen)) (rm_files old)
             else kept = []))
     \<and> (\<forall>k. starts_with P k \<longrightarrow> v' k = None \<or> refusable (app_s3 a) k \<and> v' k = v k)
     \<and> (\<forall>k. \<not> starts_with P k \<and> k \<noteq> Q @ META_FILE \<and> k \<notin> (\<lambda>f. Q @ fm_path f) ` set (promoted m chosen)
          \<longrightarrow> (if there \<and> mode = ''replace'' \<and> starts_with Q k then v' k = None \<or> refusable (app_s3 a) k \<and> v' k = v k else v' k = v k)))"
proof -
  obtain m0 p1 m1 p2 existing p3 where
    l: "load_meta a (P @ META_FILE) MissingItem BadRequest p = (Inr m0, p1)"
    and pin: "pin_upload_time a (P @ META_FILE) m0 p1 = (Inr m1, p2)"
    and m1: "mk = sm_maker (rm_set m1)" "md = sm_model (rm_set m1)"
    and ne: "filter (\<lambda>f. fm_path f \<in> (if chosen = [] then set (map fm_path (rm_files m1)) else set chosen)) (rm_files m1) \<noteq> []"
    and rc: "resolve_conflict a mode (get_set (externals a) mk md (cache p2) \<noteq> None) (SAMPLES_PREFIX @ mk @ ''/'' @ md @ ''/'') p2 = (Inr existing, p3)"
    and pr: "promote_files a P (SAMPLES_PREFIX @ mk @ ''/'' @ md @ ''/'')
        (filter (\<lambda>f. fm_path f \<in> (if chosen = [] then set (map fm_path (rm_files m1)) else set chosen)) (rm_files m1))
        \<lparr>rm_set = approval_record (clock (app_s3 a) (world p2)) sub (get_set (externals a) mk md (cache p2)) (rm_set m1),
         rm_files = merged_files existing (filter (\<lambda>f. fm_path f \<in> (if chosen = [] then set (map fm_path (rm_files m1)) else set chosen)) (rm_files m1))\<rparr> p3
        = (Inr (), p')"
    using run unfolding approve_upload_def Let_def P by (auto simp: run_Inr simp del: if_split)
  note lv = load_meta_view [OF ok l]
  note pv = pin_upload_time_view [OF ok pin]
  have m0: "m0 = m" using lv(1) src by auto
  have m1_eq: "m1 = with_upload_time (Some (ob_modified obj)) m" using pv(4) m0 lv src(1) by simp
  have files: "rm_files m1 = rm_files m" using pv(3) m0 by simp
  let ?Q = "SAMPLES_PREFIX @ mk @ ''/'' @ md @ ''/''" and ?pr = "promoted m chosen"
  let ?there = "get_set (externals a) mk md (cache p) \<noteq> None"
  have c2: "cache p2 = cache p" and b2: "bucket_of S p2 = bucket_of S p" using lv pv by simp_all
  note rv = resolve_conflict_view [OF ok rc, unfolded c2 b2]
  note pr' = pr [unfolded files promoted_eq c2]
  have apart: "P @ x \<noteq> ?Q @ y" for x y using prefixes_apart P by simp
  have clean': "\<forall>f\<in>set ?pr. CHR ''%'' \<notin> set (bucket (app_s3 a) @ ''/'' @ P @ fm_path f)"
    using clean by (auto simp: promoted_def)
  have nometa: "\<forall>f\<in>set ?pr. fm_path f \<noteq> META_FILE" using parsed_path_not_meta [OF src(2)] by (auto simp: promoted_def)
  have perm': "set (schedule (externals a) (map fm_path ?pr)) = set (map fm_path ?pr)" using perm by blast
  note v = promote_view [OF ok perm' clean' nometa apart pr']
  have untouched: "bucket_of S p3 (P @ x) = bucket_of S p (P @ x)" for x
    using rv(1) [of "P @ x"] apart by (auto simp: starts_with_iff)
  let ?ex = "get_set (externals a) mk md (cache p)"
  have meta: "\<exists>w o2 kept. st_view S w = bucket_of S p \<and> bucket_of S p' (?Q @ META_FILE) = Some o2 \<and> ob_bytes o2 = to_toml (externals a)
             \<lparr>rm_set = approved_record m (ob_modified obj) (clock (app_s3 a) w) sub ?ex, rm_files = kept @ ?pr\<rparr>
          \<and> (if ?there \<and> mode \<noteq> ''replace''
             then \<exists>o3 old. bucket_of S p (?Q @ META_FILE) = Some o3 \<and> parse_meta (externals a) (ob_bytes o3) = Inr old
                \<and> kept = filter (\<lambda>f. fm_path f \<notin> fm_path ` set ?pr) (rm_files old)
             else kept = [])"
  proof -
    let ?rec = "approved_record m (ob_modified obj) (clock (app_s3 a) (world p2)) sub ?ex"
    let ?kept = "filter (\<lambda>f. fm_path f \<notin> fm_path ` set ?pr) existing"
    have "st_view S (world p2) = bucket_of S p" using b2 by (simp add: bucket_of_def)
    moreover obtain o2 where "bucket_of S p' (?Q @ META_FILE) = Some o2" "ob_bytes o2 = to_toml (externals a) \<lparr>rm_set = ?rec, rm_files = ?kept @ ?pr\<rparr>"
      using v(2) by (auto simp: merged_files_def m1_eq approval_record_eq)
    moreover have "if ?there \<and> mode \<noteq> ''replace''
             then \<exists>o3 old. bucket_of S p (?Q @ META_FILE) = Some o3 \<and> parse_meta (externals a) (ob_bytes o3) = Inr old
                \<and> ?kept = filter (\<lambda>f. fm_path f \<notin> fm_path ` set ?pr) (rm_files old)
             else ?kept = []" using rv(5) by (auto split: if_splits)
    ultimately show ?thesis by blast
  qed
  have "mk = sm_maker (rm_set m)" "md = sm_model (rm_set m)" using m1 m1_eq by simp_all
  moreover have "cache p' = cache p" using v(5) rv(3) by simp
  moreover have "?pr \<noteq> []" using ne [unfolded files promoted_eq] .
  moreover have "\<forall>f\<in>set ?pr. \<exists>o1 o2. bucket_of S p (P @ fm_path f) = Some o1 \<and> bucket_of S p' (?Q @ fm_path f) = Some o2 \<and> ob_bytes o2 = ob_bytes o1"
    using v(1) untouched by auto
  moreover have "?there \<longrightarrow> mode \<noteq> ''refuse''" using rv(4) by blast
  moreover have "\<forall>k. \<not> starts_with P k \<and> k \<noteq> ?Q @ META_FILE \<and> k \<notin> (\<lambda>f. ?Q @ fm_path f) ` set ?pr
          \<longrightarrow> (if ?there \<and> mode = ''replace'' \<and> starts_with ?Q k
               then bucket_of S p' k = None \<or> refusable (app_s3 a) k \<and> bucket_of S p' k = bucket_of S p k else bucket_of S p' k = bucket_of S p k)"
  proof (intro allI impI)
    fix k assume "\<not> starts_with P k \<and> k \<noteq> ?Q @ META_FILE \<and> k \<notin> (\<lambda>f. ?Q @ fm_path f) ` set ?pr"
    then have "bucket_of S p' k = bucket_of S p3 k" using v(4) by blast
    then show "if ?there \<and> mode = ''replace'' \<and> starts_with ?Q k
        then bucket_of S p' k = None \<or> refusable (app_s3 a) k \<and> bucket_of S p' k = bucket_of S p k else bucket_of S p' k = bucket_of S p k"
      using rv(1,2) [of k] by auto
  qed
  moreover have "\<forall>k. starts_with P k \<longrightarrow> bucket_of S p' k = None \<or> refusable (app_s3 a) k \<and> bucket_of S p' k = bucket_of S p k"
  proof (intro allI impI)
    fix k assume k: "starts_with P k"
    then obtain x where "k = P @ x" by (auto simp: starts_with_iff)
    then show "bucket_of S p' k = None \<or> refusable (app_s3 a) k \<and> bucket_of S p' k = bucket_of S p k"
      using v(3) [rule_format, OF k] untouched [of x] by simp
  qed
  ultimately show ?thesis unfolding Let_def using meta by blast
qed

text \<open>A successful approval: the guard, the promotion, and steps that only refresh and tick.\<close>

lemma approve_run:
  fixes a :: "'s app"
  assumes "store_ok (app_s3 a) S" "quiet S" "entropy_ok a S" and run: "approve_pending a hs uid conflict chosen p = (Inr status, p')"
  defines "mode \<equiv> case conflict of None \<Rightarrow> ''refuse'' | Some m \<Rightarrow> m"
  obtains sess mk md p1 where "auth_guard a APPROVER_OR_ADMIN hs p = (Inr sess, p)" "mode \<in> {''refuse'', ''merge'', ''replace''}"
    "approve_upload a (se_sub sess) uid mode chosen p = (Inr (mk, md), p1)" "status = 200" "untimed S p' = untimed S p1"
proof -
  define after :: "string \<times> string \<Rightarrow> ('s, nat) handler" where "after = (\<lambda>(mk, md). bindE (ignoring (refresh_one_set (externals a) (app_s3 a) mk md)) (\<lambda>_.
     bindE (ignoring (refresh_one_pending (externals a) (app_s3 a) uid)) (\<lambda>_.
     bindE (bump_ticks a [SyncPending, SyncSets] ''approve_pending'') (\<lambda>_. ret 200))))"
  obtain sess pa where g: "auth_guard a APPROVER_OR_ADMIN hs p = (Inr sess, pa)"
    and rest: "bindE (guardE (mode = ''refuse'' \<or> mode = ''merge'' \<or> mode = ''replace'') BadRequest)
       (\<lambda>_. bindE (approve_upload a (se_sub sess) uid mode chosen) after) pa = (Inr status, p')"
    using run unfolding approve_pending_def Let_def mode_def after_def [symmetric] bindE_Inr [of "auth_guard a APPROVER_OR_ADMIN hs"] by blast
  then obtain mkmd p1 where mode: "mode = ''refuse'' \<or> mode = ''merge'' \<or> mode = ''replace''"
    and u: "approve_upload a (se_sub sess) uid mode chosen pa = (Inr mkmd, p1)" and tail: "after mkmd p1 = (Inr status, p')"
    unfolding bindE_Inr [of "guardE _ _"] bindE_Inr [of "approve_upload _ _ _ _ _"] guardE_Inr by blast
  have pa: "pa = p" using g frameD [OF frame_guard [where f = id]] by (metis id_apply)
  have "frame (untimed S) (after mkmd)"
    unfolding after_def by (intro frame_rules refresh_untimed bump_untimed assms(1-3))
  moreover have "status = 200" using tail by (auto simp: after_def bindE_Inr ret_Inr split: prod.splits)
  moreover have "untimed S p' = untimed S p1" using frameD [OF calculation(1) tail] .
  ultimately show ?thesis
    using that [of sess "fst mkmd" "snd mkmd" p1] g u mode unfolding pa by auto
qed

text \<open>
  C4. An approval promotes exactly what was selected. When \<^verbatim>\<open>approve_pending\<close> succeeds on an undisturbed
  bucket, the caller held the approver role; every selected file of the upload is in the set with
  its bytes; the set's new meta is the upload's own record with its upload time pinned, the approver and the
  time, and the first approval of the set (\<open>approved_record\<close>); it lists the promoted files, and in merge
  mode before them the existing entries at other paths; no object of the upload is left but such as the
  store refused to delete, which the code does not notice; in refuse mode the catalog knew no such set;
  and no other object changed, except that replace mode removed the old set, refused keys again
  excepted, and the ticks were written.
\<close>

theorem approve_promotes:
  assumes "store_ok (app_s3 a) S" "quiet S" "entropy_ok a S" "\<forall>ps. set (schedule (externals a) ps) = set ps"
    and "CHR ''%'' \<notin> set (bucket (app_s3 a) @ uid)" "\<forall>f\<in>set (rm_files m). CHR ''%'' \<notin> set (fm_path f)"
    and "bucket_of S p (''pending/'' @ uid @ ''/rawdb-meta.toml'') = Some obj" "parse_meta (externals a) (ob_bytes obj) = Inr m"
    and "approve_pending a hs uid conflict chosen p = (Inr status, p')"
  shows "status = 200 \<and> promoted m chosen \<noteq> [] \<and>
    (let P = ''pending/'' @ uid @ ''/''; mk = sm_maker (rm_set m); md = sm_model (rm_set m);
         Q = ''samples/'' @ mk @ ''/'' @ md @ ''/''; there = get_set (externals a) mk md (cache p) \<noteq> None;
         v = bucket_of S p; v' = bucket_of S p' in
       (\<forall>f\<in>set (promoted m chosen). \<exists>o1 o2. v (P @ fm_path f) = Some o1 \<and> v' (Q @ fm_path f) = Some o2 \<and> ob_bytes o2 = ob_bytes o1)
     \<and> (there \<longrightarrow> conflict = Some ''merge'' \<or> conflict = Some ''replace'')
     \<and> (\<exists>sess w o2 kept. auth_guard a APPROVER_OR_ADMIN hs p = (Inr sess, p) \<and> st_view S w = v
          \<and> v' (Q @ ''rawdb-meta.toml'') = Some o2 \<and> ob_bytes o2 = to_toml (externals a)
             \<lparr>rm_set = approved_record m (ob_modified obj) (clock (app_s3 a) w) (se_sub sess) (get_set (externals a) mk md (cache p)),
              rm_files = kept @ promoted m chosen\<rparr>
          \<and> (if there \<and> conflict = Some ''merge''
             then \<exists>o3 old. v (Q @ ''rawdb-meta.toml'') = Some o3 \<and> parse_meta (externals a) (ob_bytes o3) = Inr old
                \<and> kept = filter (\<lambda>f. fm_path f \<notin> fm_path ` set (promoted m chosen)) (rm_files old)
             else kept = []))
     \<and> (\<forall>k. starts_with P k \<longrightarrow> v' k = None \<or> refusable (app_s3 a) k \<and> v' k = v k)
     \<and> (\<forall>k. \<not> starts_with P k \<and> k \<noteq> Q @ ''rawdb-meta.toml'' \<and> k \<notin> (\<lambda>f. Q @ fm_path f) ` set (promoted m chosen) \<and> k \<notin> range tick_key
          \<longrightarrow> (if there \<and> conflict = Some ''replace'' \<and> starts_with Q k then v' k = None \<or> refusable (app_s3 a) k \<and> v' k = v k else v' k = v k)))"
proof -
  let ?mode = "case conflict of None \<Rightarrow> ''refuse'' | Some m \<Rightarrow> m"
  obtain sess mk md p1 where g: "auth_guard a APPROVER_OR_ADMIN hs p = (Inr sess, p)" and mode: "?mode \<in> {''refuse'', ''merge'', ''replace''}"
    and u: "approve_upload a (se_sub sess) uid ?mode chosen p = (Inr (mk, md), p1)" and status: "status = 200" and tail: "untimed S p' = untimed S p1"
    by (rule approve_run [OF assms(1-3) assms(9)])
  let ?P = "PENDING_PREFIX @ uid @ ''/''" and ?Q = "SAMPLES_PREFIX @ mk @ ''/'' @ md @ ''/''"
  have names: "PENDING_PREFIX = ''pending/''" "SAMPLES_PREFIX = ''samples/''" "META_FILE = ''rawdb-meta.toml''"
    by (simp_all add: PENDING_PREFIX_def SAMPLES_PREFIX_def META_FILE_def)
  have clean: "CHR ''%'' \<notin> set (bucket (app_s3 a) @ ''/'' @ ?P)" using assms(5) by (simp add: names)
  have src: "bucket_of S p (?P @ META_FILE) = Some obj" using assms(7) by (simp add: names)
  note v = approve_upload_view [OF assms(1,2,4) clean assms(6) refl src assms(8) u]
  have same: "k \<notin> range tick_key \<Longrightarrow> bucket_of S p' k = bucket_of S p1 k" for k
    using untimed_at [OF tail] .
  have at: "bucket_of S p' (?P @ y) = bucket_of S p1 (?P @ y)" "bucket_of S p' (?Q @ y) = bucket_of S p1 (?Q @ y)" for y
    using same tick_key_prefix by simp_all
  have gone: "starts_with ?P k \<Longrightarrow> bucket_of S p' k = bucket_of S p1 k" for k using at(1) by (auto simp: starts_with_iff)
  have modes: "?mode = ''merge'' \<longleftrightarrow> conflict = Some ''merge''" "?mode = ''replace'' \<longleftrightarrow> conflict = Some ''replace''"
    by (cases conflict; simp)+
  have parts: "mk = sm_maker (rm_set m)" "md = sm_model (rm_set m)" "promoted m chosen \<noteq> []" using v by blast+
  let ?there = "get_set (externals a) mk md (cache p) \<noteq> None"
  note body = v [THEN conjunct2, THEN conjunct2, THEN conjunct2, THEN conjunct2, unfolded Let_def]
  have copied: "\<forall>f\<in>set (promoted m chosen). \<exists>o1 o2. bucket_of S p (?P @ fm_path f) = Some o1 \<and> bucket_of S p' (?Q @ fm_path f) = Some o2 \<and> ob_bytes o2 = ob_bytes o1"
    using body unfolding at by blast
  have conflict: "?there \<longrightarrow> conflict = Some ''merge'' \<or> conflict = Some ''replace''"
    using body mode modes by blast
  have merge: "(?there \<and> ?mode \<noteq> ''replace'') = (?there \<and> conflict = Some ''merge'')"
    using conflict modes by auto
  have meta: "\<exists>w o2 kept. st_view S w = bucket_of S p \<and> bucket_of S p' (?Q @ META_FILE) = Some o2 \<and> ob_bytes o2 = to_toml (externals a)
             \<lparr>rm_set = approved_record m (ob_modified obj) (clock (app_s3 a) w) (se_sub sess) (get_set (externals a) mk md (cache p)),
              rm_files = kept @ promoted m chosen\<rparr>
          \<and> (if ?there \<and> conflict = Some ''merge''
             then \<exists>o3 old. bucket_of S p (?Q @ META_FILE) = Some o3 \<and> parse_meta (externals a) (ob_bytes o3) = Inr old
                \<and> kept = filter (\<lambda>f. fm_path f \<notin> fm_path ` set (promoted m chosen)) (rm_files old)
             else kept = [])"
    using body unfolding at merge by blast
  have gone': "\<forall>k. starts_with ?P k \<longrightarrow> bucket_of S p' k = None \<or> refusable (app_s3 a) k \<and> bucket_of S p' k = bucket_of S p k"
    using body gone by metis
  have rest: "\<forall>k. \<not> starts_with ?P k \<and> k \<noteq> ?Q @ META_FILE \<and> k \<notin> (\<lambda>f. ?Q @ fm_path f) ` set (promoted m chosen) \<and> k \<notin> range tick_key
          \<longrightarrow> (if ?there \<and> conflict = Some ''replace'' \<and> starts_with ?Q k
               then bucket_of S p' k = None \<or> refusable (app_s3 a) k \<and> bucket_of S p' k = bucket_of S p k else bucket_of S p' k = bucket_of S p k)"
  proof (intro allI impI)
    fix k assume k: "\<not> starts_with ?P k \<and> k \<noteq> ?Q @ META_FILE \<and> k \<notin> (\<lambda>f. ?Q @ fm_path f) ` set (promoted m chosen) \<and> k \<notin> range tick_key"
    then have "if ?there \<and> ?mode = ''replace'' \<and> starts_with ?Q k
        then bucket_of S p1 k = None \<or> refusable (app_s3 a) k \<and> bucket_of S p1 k = bucket_of S p k else bucket_of S p1 k = bucket_of S p k"
      using body by blast
    then show "if ?there \<and> conflict = Some ''replace'' \<and> starts_with ?Q k
        then bucket_of S p' k = None \<or> refusable (app_s3 a) k \<and> bucket_of S p' k = bucket_of S p k else bucket_of S p' k = bucket_of S p k"
      using same [of k] k unfolding modes(2) by simp
  qed
  show ?thesis
    using status parts(3) copied conflict meta gone' rest g unfolding Let_def names parts(1,2) by blast
qed

section \<open>A concrete approval\<close>

lemma approve_sample: "\<exists>p'. approve_pending sample_app admin_request ''u1'' None [] upload_pod = (Inr 200, p')"
proof -
  let ?P = "''pending/u1/''" and ?Q = "''samples/Canon/EOS R5/''"
  have g: "auth_guard sample_app APPROVER_OR_ADMIN admin_request p = (Inr admin_session, p)" for p
    by (rule admin_guard) (simp add: APPROVER_OR_ADMIN_def ADMIN_BIT_def APPROVER_BIT_def)
  have load: "load_meta sample_app (?P @ META_FILE) MissingItem BadRequest upload_pod = (Inr sample_meta, upload_pod)"
    using upload_objects(1) meta_M by (simp add: load_meta_def cmd_defs META_FILE_def upload_pod_def)
  have files: "map fm_path (rm_files sample_meta) = [''raw/a.CR3'', ''jpg/b.jpg'']"
    by (simp add: sample_meta_def sample_file_def sample_file2_def)
  have copies: "\<exists>p1. forE [''raw/a.CR3'', ''jpg/b.jpg''] (\<lambda>path. s3E (copy mem_s3 (?P @ path) (?Q @ path))) upload_pod = (Inr (), p1)"
    using mem_copy_ok [OF upload_objects(2)] mem_copy_ok [of "mem_put (?Q @ ''raw/a.CR3'') ''AAAA'' upload_bucket" "?P @ ''jpg/b.jpg''"]
      upload_objects(3)
    by (simp add: cmd_defs upload_pod_def view_put)
  have promote: "\<exists>p1. promote_files sample_app ?P ?Q (rm_files sample_meta) approved upload_pod = (Inr (), p1)" for approved
  proof -
    obtain p1 where p1: "forE [''raw/a.CR3'', ''jpg/b.jpg''] (\<lambda>path. s3E (copy mem_s3 (?P @ path) (?Q @ path))) upload_pod = (Inr (), p1)"
      using copies by blast
    have w: "write_meta sample_app ?Q approved p1 = (Inr (mem_tag (to_toml sample_pod_ext approved)),
        p1 \<lparr>world := mem_put (?Q @ META_FILE) (to_toml sample_pod_ext approved) (world p1)\<rparr>)"
      by (simp add: write_meta_def cmd_defs)
    let ?p2 = "p1 \<lparr>world := mem_put (?Q @ META_FILE) (to_toml sample_pod_ext approved) (world p1)\<rparr>"
    obtain n t where d: "delete_prefix mem_s3 ?P (world ?p2) = (Inr n, t)" using mem_delete_prefix_ok by blast
    have sched: "schedule sample_pod_ext ps = ps" for ps by (simp add: sample_pod_ext_def)
    have "promote_files sample_app ?P ?Q (rm_files sample_meta) approved upload_pod = (Inr (), ?p2 \<lparr>world := t\<rparr>)"
      unfolding promote_files_def files bindE_def [of "forE _ _"] bindE_def [of "write_meta _ _ _"] sample_app_simps sched p1 prod.case sum.case w
      using d by (simp add: s3E_def cmd_defs)
    then show ?thesis by blast
  qed
  have md: "sm_maker (rm_set sample_meta) = ''Canon''" "sm_model (rm_set sample_meta) = ''EOS R5''" "sm_uploaded_at (rm_set sample_meta) \<noteq> None"
    by (simp_all add: sample_meta_def sample_set_def)
  have all: "filter (\<lambda>f. fm_path f \<in> set (map fm_path (rm_files sample_meta))) (rm_files sample_meta) = rm_files sample_meta"
    by (rule filter_True) auto
  have ne: "rm_files sample_meta \<noteq> []" by (simp add: sample_meta_def)
  have none: "get_set sample_pod_ext mk md (cache upload_pod) = None" for mk md
    by (simp add: get_set_def first_row_def upload_pod_def empty_db_def)
  have "\<exists>p1. approve_upload sample_app s ''u1'' ''refuse'' [] upload_pod = (Inr (''Canon'', ''EOS R5''), p1)" for s
  proof -
    let ?app = "\<lparr>rm_set = approval_record (clock mem_s3 (world upload_pod)) s None (rm_set sample_meta), rm_files = merged_files [] (rm_files sample_meta)\<rparr>"
    obtain p1 where p1: "promote_files sample_app ?P ?Q (rm_files sample_meta) ?app upload_pod = (Inr (), p1)" using promote by blast
    have pin: "pin_upload_time sample_app key sample_meta upload_pod = (Inr sample_meta, upload_pod)" for key
      unfolding pin_upload_time_def if_not_P [OF md(3)] ret_def ..
    have rc: "resolve_conflict sample_app ''refuse'' False Q upload_pod = (Inr [], upload_pod)" for Q
      by (simp add: resolve_conflict_def ret_def)
    have names: "PENDING_PREFIX @ ''u1'' @ ''/'' = ?P" "SAMPLES_PREFIX @ ''Canon'' @ ''/'' @ ''EOS R5'' @ ''/'' = ?Q"
      by (simp_all add: PENDING_PREFIX_def SAMPLES_PREFIX_def)
    have "approve_upload sample_app s ''u1'' ''refuse'' [] upload_pod = (Inr (''Canon'', ''EOS R5''), p1)"
      unfolding approve_upload_def Let_def names bindE_Inr ret_Inr
      apply (rule exI, rule exI, rule conjI [OF load])
      apply (rule exI, rule exI, rule conjI [OF pin])
      apply (simp only: if_True all md names sample_app_simps)
      apply (simp add: guardE_Inr ne read_db_Inr none now_at_Inr rc p1)
      done
    then show ?thesis by blast
  qed
  then obtain p1 where "approve_upload sample_app (se_sub admin_session) ''u1'' ''refuse'' [] upload_pod = (Inr (''Canon'', ''EOS R5''), p1)" by blast
  moreover obtain p2 where "bump_ticks sample_app [SyncPending, SyncSets] ''approve_pending''
      (snd (refresh_one_pending sample_pod_ext mem_s3 ''u1'' (snd (refresh_one_set sample_pod_ext mem_s3 ''Canon'' ''EOS R5'' p1)))) = (Inr () :: app_error + unit, p2)"
    using bump_ticks_ok by blast
  ultimately have "approve_pending sample_app admin_request ''u1'' None [] upload_pod = (Inr 200, p2)"
    by (simp add: approve_pending_def bindE_def g guardE_def ret_def ignoring_ok)
  then show ?thesis by blast
qed

lemma approve_promotes_witness:
  "\<exists>ob. mem_view (world (snd (approve_pending sample_app admin_request ''u1'' None [] upload_pod))) ''samples/Canon/EOS R5/raw/a.CR3'' = Some ob
     \<and> ob_bytes ob = ''AAAA''"
proof -
  obtain p' where p': "approve_pending sample_app admin_request ''u1'' None [] upload_pod = (Inr 200, p')" using approve_sample by blast
  have ok: "store_ok (app_s3 sample_app) mem_contract" "\<forall>ps. set (schedule (externals sample_app) ps) = set ps"
    using mem_store_ok by (simp_all add: sample_pod_ext_def)
  have clean: "CHR ''%'' \<notin> set (bucket (app_s3 sample_app) @ ''u1'')" "\<forall>f\<in>set (rm_files sample_meta). CHR ''%'' \<notin> set (fm_path f)"
    by (simp_all add: mem_s3_def sample_meta_def sample_file_def sample_file2_def)
  have src: "bucket_of mem_contract upload_pod (''pending/'' @ ''u1'' @ ''/rawdb-meta.toml'') = Some \<lparr>ob_bytes = ''M'', ob_etag = mem_tag ''M'', ob_modified = 5\<rparr>"
    "parse_meta (externals sample_app) (ob_bytes \<lparr>ob_bytes = ''M'', ob_etag = mem_tag ''M'', ob_modified = 5\<rparr>) = Inr sample_meta"
    using upload_objects(1) meta_M by (simp_all add: bucket_of_def mem_contract_def upload_pod_def)
  have f: "sample_file \<in> set (promoted sample_meta [])" "fm_path sample_file = ''raw/a.CR3''"
    by (simp_all add: promoted_def sample_meta_def sample_file_def)
  have names: "sm_maker (rm_set sample_meta) = ''Canon''" "sm_model (rm_set sample_meta) = ''EOS R5''"
    by (simp_all add: sample_meta_def sample_set_def)
  note c = approve_promotes [OF ok(1) mem_quiet sample_entropy_ok ok(2) clean src p', unfolded Let_def names]
  from c have "\<forall>f\<in>set (promoted sample_meta []). \<exists>o1 o2. bucket_of mem_contract upload_pod ((''pending/'' @ ''u1'' @ ''/'') @ fm_path f) = Some o1
     \<and> bucket_of mem_contract p' ((''samples/'' @ ''Canon'' @ ''/'' @ ''EOS R5'' @ ''/'') @ fm_path f) = Some o2 \<and> ob_bytes o2 = ob_bytes o1"
    by blast
  from bspec [OF this f(1), unfolded f(2)] upload_objects(2) show ?thesis
    unfolding p' snd_conv by (auto simp: bucket_of_def mem_contract_def upload_pod_def)
qed

end
