(* ===== verification/Edit_Claims.thy ===== *)
theory Edit_Claims imports Sample_Run Access_Claims begin

text \<open>
  The edits of pending uploads and approved sets: what a rename keeps when no file moves onto the
  old path of another, and what is lost when two files swap their paths.
\<close>

section \<open>Moves and deletions\<close>

definition renamed :: "edit_file \<Rightarrow> bool" where
  "renamed f \<longleftrightarrow> ed_old_path f \<noteq> ed_path f"

lemma moves_view:
  assumes ok: "store_ok (app_s3 a) S" "quiet S"
  shows "foldE (\<lambda>f to_delete.
         if ed_old_path f = ed_path f then ret to_delete
         else bindE (s3E (copy (app_s3 a) (prefix @ ed_old_path f) (prefix @ ed_path f))) (\<lambda>_.
           ret (if ed_old_path f \<notin> destinations then to_delete @ [prefix @ ed_old_path f] else to_delete))) fs acc p = (Inr td, p') \<Longrightarrow>
    \<forall>f\<in>set fs. renamed f \<longrightarrow> ed_path f \<notin> olds \<and> ed_old_path f \<in> olds \<and> CHR ''%'' \<notin> set (bucket (app_s3 a) @ ''/'' @ prefix @ ed_old_path f) \<Longrightarrow>
    distinct (map ed_path fs) \<Longrightarrow>
    (\<forall>f\<in>set fs. renamed f \<longrightarrow> (\<exists>o1 o2. bucket_of S p (prefix @ ed_old_path f) = Some o1 \<and> bucket_of S p' (prefix @ ed_path f) = Some o2 \<and> ob_bytes o2 = ob_bytes o1))
    \<and> (\<forall>k. k \<notin> (\<lambda>f. prefix @ ed_path f) ` {f \<in> set fs. renamed f} \<longrightarrow> bucket_of S p' k = bucket_of S p k)
    \<and> set td = set acc \<union> (\<lambda>f. prefix @ ed_old_path f) ` {f \<in> set fs. renamed f \<and> ed_old_path f \<notin> destinations} \<and> cache p' = cache p"
proof (induction fs arbitrary: acc p)
  case Nil
  then show ?case by (simp add: ret_Inr)
next
  case (Cons f fs)
  let ?step = "\<lambda>f to_delete.
         if ed_old_path f = ed_path f then ret to_delete
         else bindE (s3E (copy (app_s3 a) (prefix @ ed_old_path f) (prefix @ ed_path f))) (\<lambda>_.
           ret (if ed_old_path f \<notin> destinations then to_delete @ [prefix @ ed_old_path f] else to_delete))"
  have rest_ok: "\<forall>f\<in>set fs. renamed f \<longrightarrow> ed_path f \<notin> olds \<and> ed_old_path f \<in> olds \<and> CHR ''%'' \<notin> set (bucket (app_s3 a) @ ''/'' @ prefix @ ed_old_path f)"
    "distinct (map ed_path fs)" "ed_path f \<notin> ed_path ` set fs" using Cons.prems(2,3) by simp_all
  show ?case
  proof (cases "renamed f")
    case False
    then have same_set: "{g \<in> set (f # fs). renamed g} = {g \<in> set fs. renamed g}"
      "{g \<in> set (f # fs). renamed g \<and> ed_old_path g \<notin> destinations} = {g \<in> set fs. renamed g \<and> ed_old_path g \<notin> destinations}" by auto
    from False have "foldE ?step fs acc p = (Inr td, p')" using Cons.prems(1) by (simp add: renamed_def)
    from Cons.IH [OF this rest_ok(1,2)] False show ?thesis unfolding same_set by simp
  next
    case True
    let ?acc = "if ed_old_path f \<notin> destinations then acc @ [prefix @ ed_old_path f] else acc"
    obtain u p1 where c: "s3E (copy (app_s3 a) (prefix @ ed_old_path f) (prefix @ ed_path f)) p = (Inr u, p1)"
      and rest: "foldE ?step fs ?acc p1 = (Inr td, p')"
      using Cons.prems(1) True by (auto simp: renamed_def bindE_Inr ret_Inr)
    have clean: "CHR ''%'' \<notin> set (bucket (app_s3 a) @ ''/'' @ prefix @ ed_old_path f)" and fo: "ed_path f \<notin> olds"
      using Cons.prems(2) True by simp_all
    from copy_one_view [OF ok clean c] obtain o1 o2 where o': "bucket_of S p (prefix @ ed_old_path f) = Some o1"
      "ob_bytes o2 = ob_bytes o1" "bucket_of S p1 = (bucket_of S p)(prefix @ ed_path f \<mapsto> o2)" and ca: "cache p1 = cache p" by blast
    note ih = Cons.IH [OF rest rest_ok(1,2)]
    have same: "bucket_of S p1 (prefix @ ed_old_path g) = bucket_of S p (prefix @ ed_old_path g)" if "g \<in> set fs" "renamed g" for g
      using that rest_ok(1) fo o'(3) by auto
    have "prefix @ ed_path f \<notin> (\<lambda>f. prefix @ ed_path f) ` {f \<in> set fs. renamed f}" using rest_ok(3) by auto
    then have "bucket_of S p' (prefix @ ed_path f) = Some o2" using ih o'(3) by simp
    moreover have "set td = set ?acc \<union> (\<lambda>f. prefix @ ed_old_path f) ` {f \<in> set fs. renamed f \<and> ed_old_path f \<notin> destinations}"
      using ih by blast
    ultimately have f': "bucket_of S p' (prefix @ ed_path f) = Some o2"
      and td: "set td = set ?acc \<union> (\<lambda>f. prefix @ ed_old_path f) ` {f \<in> set fs. renamed f \<and> ed_old_path f \<notin> destinations}" .
    have "\<forall>g\<in>set (f # fs). renamed g \<longrightarrow> (\<exists>o1 o2. bucket_of S p (prefix @ ed_old_path g) = Some o1
        \<and> bucket_of S p' (prefix @ ed_path g) = Some o2 \<and> ob_bytes o2 = ob_bytes o1)"
      using ih same f' o'(1,2) by auto
    moreover have "\<forall>k. k \<notin> (\<lambda>f. prefix @ ed_path f) ` {g \<in> set (f # fs). renamed g} \<longrightarrow> bucket_of S p' k = bucket_of S p k"
    proof (intro allI impI)
      fix k assume k: "k \<notin> (\<lambda>f. prefix @ ed_path f) ` {g \<in> set (f # fs). renamed g}"
      then have "k \<noteq> prefix @ ed_path f" "k \<notin> (\<lambda>f. prefix @ ed_path f) ` {g \<in> set fs. renamed g}" using True by auto
      then show "bucket_of S p' k = bucket_of S p k" using ih o'(3) by simp
    qed
    moreover have "set td = set acc \<union> (\<lambda>f. prefix @ ed_old_path f) ` {g \<in> set (f # fs). renamed g \<and> ed_old_path g \<notin> destinations}"
      using td True by auto
    moreover have "cache p' = cache p" using ih ca by simp
    ultimately show ?thesis by blast
  qed
qed

lemma deletes_view:
  assumes ok: "store_ok (app_s3 a) S" "quiet S"
  shows "forE keys (\<lambda>key. s3E (delete (app_s3 a) key)) p = (Inr (), p') \<Longrightarrow>
    bucket_of S p' = (\<lambda>k. if k \<in> set keys then None else bucket_of S p k) \<and> cache p' = cache p"
proof (induction keys arbitrary: p)
  case (Cons k keys)
  then obtain u p1 where d: "s3E (delete (app_s3 a) k) p = (Inr u, p1)"
    and rest: "forE keys (\<lambda>key. s3E (delete (app_s3 a) key)) p1 = (Inr (), p')" by (auto simp: bindE_Inr)
  have d': "delete (app_s3 a) k (world p) = (Inr u, world p1)" "p1 = p \<lparr>world := world p1\<rparr>" using d by (auto simp: s3E_Inr)
  have "bucket_of S p1 = (bucket_of S p)(k := None)"
    using delete_view [OF ok(1) d'(1)] ok(2) by (auto simp: quiet_def bucket_of_def)
  moreover have "cache p1 = cache p" by (subst d'(2)) simp
  ultimately show ?case using Cons.IH [OF rest] by (auto simp: fun_eq_iff)
qed (simp add: ret_Inr)

text \<open>The entries the edit starts from: those of the meta file, and none when it does not read.\<close>

definition entries_from :: "'s app \<Rightarrow> ('s \<Rightarrow> string \<Rightarrow> obj option) \<Rightarrow> string \<Rightarrow> 's pod \<Rightarrow> (string \<times> file_meta) list \<Rightarrow> bool" where
  "entries_from a view prefix p existing \<longleftrightarrow>
     (case fst (get_bytes (app_s3 a) (prefix @ ''rawdb-meta.toml'') (world p)) of
        Inl _ \<Rightarrow> existing = []
      | Inr _ \<Rightarrow> (\<exists>ob. view (world p) (prefix @ ''rawdb-meta.toml'') = Some ob
          \<and> existing = (case parse_meta (externals a) (ob_bytes ob) of
              Inl _ \<Rightarrow> [] | Inr m \<Rightarrow> map (\<lambda>f. (fm_path f, f)) (rm_files m))))"

lemma load_existing_view:
  assumes "store_ok (app_s3 a) S" "quiet S" "load_existing_file_meta a prefix p = (r, p')"
  shows "bucket_of S p' = bucket_of S p" "cache p' = cache p"
    "\<exists>existing. r = Inr existing \<and> entries_from a (st_view S) prefix p existing"
proof -
  have meta: "META_FILE = ''rawdb-meta.toml''" by (simp add: META_FILE_def)
  obtain q s where g: "get_bytes (app_s3 a) (prefix @ META_FILE) (world p) = (q, s)" by fastforce
  note gv = get_bytes_view [OF assms(1) g]
  show "bucket_of S p' = bucket_of S p" "cache p' = cache p"
    using assms(2,3) g gv by (auto simp: load_existing_file_meta_def cmd_defs bucket_of_def quiet_def split: sum.splits)
  show "\<exists>existing. r = Inr existing \<and> entries_from a (st_view S) prefix p existing"
  proof (cases q)
    case (Inl e)
    then show ?thesis using assms(3) g by (auto simp: load_existing_file_meta_def cmd_defs entries_from_def meta)
  next
    case (Inr bt)
    obtain b t where bt: "bt = (b, t)" by (cases bt)
    obtain ob where ob: "st_view S (world p) (prefix @ META_FILE) = Some ob" "ob_bytes ob = b"
      using gv Inr bt assms(2) by (auto simp: quiet_def)
    show ?thesis using assms(3) g Inr bt ob
      by (auto simp: load_existing_file_meta_def cmd_defs entries_from_def meta split: sum.splits)
  qed
qed

lemma check_destinations_ok:
  "check_destinations blocked seen fs = Inr v \<Longrightarrow>
   distinct (map (\<lambda>f. trim (ed_path f)) fs) \<and> (\<lambda>f. trim (ed_path f)) ` set fs \<inter> seen = {}
   \<and> (\<forall>f\<in>set fs. valid_destination (trim (ed_path f)))"
  by (induction fs arbitrary: seen) (fastforce simp: Let_def split: if_splits)+

lemma edited_record:
  "sm_maker (rm_set (edited_pending_meta existing req)) = trim (er_maker req)"
  "sm_model (rm_set (edited_pending_meta existing req)) = trim (er_model req)"
  "sm_approved_at (rm_set (edited_pending_meta existing req)) = None"
  "map fm_path (rm_files (edited_pending_meta existing req)) = map (\<lambda>f. trim (ed_path f)) (er_files req)"
  "map fm_sha256 (rm_files (edited_pending_meta existing req))
     = map (\<lambda>f. Option.bind (map_of existing (ed_old_path f)) fm_sha256) (er_files req)"
  by (simp_all add: edited_pending_meta_def edited_file_def comp_def)

text \<open>The whole edit of an upload's directory.\<close>

lemma pending_edit_view:
  assumes ok: "store_ok (app_s3 a) S" "quiet S"
    and perm: "\<And>ps. set (schedule (externals a) ps) = set ps"
    and fs: "fs = er_files req" and run: "apply_pending_edit a P req p = (Inr u, p')"
    and apart: "\<forall>f\<in>set fs. renamed f \<longrightarrow> ed_path f \<notin> ed_old_path ` set fs \<and> CHR ''%'' \<notin> set (bucket (app_s3 a) @ ''/'' @ P @ ed_old_path f)"
    and paths: "distinct (map ed_path fs)" "META_FILE \<notin> ed_path ` set fs"
  shows "\<exists>existing. entries_from a (st_view S) P p existing
     \<and> (\<exists>ob. bucket_of S p' (P @ META_FILE) = Some ob \<and> ob_bytes ob = to_toml (externals a) (edited_pending_meta existing req))
     \<and> sm_maker (rm_set (edited_pending_meta existing req)) = trim (er_maker req)
     \<and> sm_model (rm_set (edited_pending_meta existing req)) = trim (er_model req)
     \<and> sm_approved_at (rm_set (edited_pending_meta existing req)) = None
     \<and> map fm_path (rm_files (edited_pending_meta existing req)) = map (\<lambda>f. trim (ed_path f)) fs
     \<and> map fm_sha256 (rm_files (edited_pending_meta existing req))
        = map (\<lambda>f. Option.bind (map_of existing (ed_old_path f)) fm_sha256) fs
     \<and> (\<forall>f\<in>set fs. if renamed f
          then \<exists>o1 o2. bucket_of S p (P @ ed_old_path f) = Some o1 \<and> bucket_of S p' (P @ ed_path f) = Some o2 \<and> ob_bytes o2 = ob_bytes o1
          else bucket_of S p' (P @ ed_path f) = bucket_of S p (P @ ed_path f))
     \<and> (\<forall>k. k \<noteq> P @ META_FILE \<and> k \<notin> (\<lambda>f. P @ ed_path f) ` set fs \<longrightarrow> bucket_of S p' k =
          (if k \<in> (@) P ` (ed_old_path ` set fs \<union> fst ` set existing) then None else bucket_of S p k))"
proof -
  let ?D = "set (map ed_path fs)" and ?O = "ed_old_path ` set fs"
  define keys where "keys existing moved = moved @ map (\<lambda>p. P @ p) (filter (\<lambda>p. p \<notin> set (map ed_old_path fs) \<and> p \<notin> ?D)
    (schedule (externals a) (map fst existing)))" for existing :: "(string \<times> file_meta) list" and moved
  from run obtain existing p1 moved p2 p3 e ac where l: "load_existing_file_meta a P p = (Inr existing :: app_error + _, p1)"
    and m: "move_files a P ?D fs p1 = (Inr moved, p2)"
    and d: "forE (keys existing moved) (\<lambda>key. s3E (delete (app_s3 a) key)) p2 = (Inr ac, p3)"
    and w: "write_meta a P (edited_pending_meta existing req) p3 = (Inr e, p')"
    unfolding apply_pending_edit_def Let_def fs [symmetric] keys_def [symmetric] bindE_Inr ret_Inr by blast
  have lv: "bucket_of S p1 = bucket_of S p" "entries_from a (st_view S) P p existing"
    using load_existing_view [OF ok l] by auto
  have ap: "\<forall>f\<in>set fs. renamed f \<longrightarrow> ed_path f \<notin> ?O \<and> ed_old_path f \<in> ?O \<and> CHR ''%'' \<notin> set (bucket (app_s3 a) @ ''/'' @ P @ ed_old_path f)"
    using apart by auto
  note mv = moves_view [OF ok m [unfolded move_files_def] ap paths(1), unfolded lv(1)]
  have dv: "bucket_of S p3 = (\<lambda>k. if k \<in> set (keys existing moved) then None else bucket_of S p2 k)" using deletes_view [OF ok] d by simp
  have "set moved = (@) P ` (?O - ?D)"
  proof -
    have "{f \<in> set fs. renamed f \<and> ed_old_path f \<notin> ?D} = {f \<in> set fs. ed_old_path f \<notin> ?D}" by (auto simp: renamed_def)
    then show ?thesis using mv by auto
  qed
  then have "set (keys existing moved) = (@) P ` ((?O \<union> fst ` set existing) - ?D)"
    unfolding keys_def set_append set_map set_filter perm by blast
  then have keys: "k \<in> set (keys existing moved) \<longleftrightarrow> k \<notin> (\<lambda>f. P @ ed_path f) ` set fs \<and> k \<in> (@) P ` (?O \<union> fst ` set existing)" for k
    by auto
  obtain ob where ob: "ob_bytes ob = to_toml (externals a) (edited_pending_meta existing req)" "bucket_of S p' = (bucket_of S p3)(P @ META_FILE \<mapsto> ob)"
    using write_meta_view [OF ok w] by blast
  have at_path: "bucket_of S p' (P @ ed_path f) = bucket_of S p2 (P @ ed_path f)" if "f \<in> set fs" for f
  proof -
    have "ed_path f \<noteq> META_FILE" using that paths(2) by (metis imageI)
    then show ?thesis using that keys by (simp add: ob(2) dv)
  qed
  have "if renamed f then \<exists>o1 o2. bucket_of S p (P @ ed_old_path f) = Some o1 \<and> bucket_of S p' (P @ ed_path f) = Some o2 \<and> ob_bytes o2 = ob_bytes o1
      else bucket_of S p' (P @ ed_path f) = bucket_of S p (P @ ed_path f)" if f: "f \<in> set fs" for f
  proof (cases "renamed f")
    case True
    then show ?thesis using f mv by (simp add: at_path)
  next
    case False
    then have "P @ ed_path f \<notin> (\<lambda>f. P @ ed_path f) ` {f \<in> set fs. renamed f}"
      using f paths(1) by (auto simp: distinct_map inj_on_def)
    then show ?thesis using f mv False by (simp add: at_path)
  qed
  moreover have "bucket_of S p' k = (if k \<in> (@) P ` (?O \<union> fst ` set existing) then None else bucket_of S p k)"
    if "k \<noteq> P @ META_FILE \<and> k \<notin> (\<lambda>f. P @ ed_path f) ` set fs" for k
  proof -
    have "k \<notin> (\<lambda>f. P @ ed_path f) ` {f \<in> set fs. renamed f}" using that by auto
    then have "bucket_of S p2 k = bucket_of S p k" using mv by blast
    then show ?thesis using that keys by (simp add: ob(2) dv)
  qed
  moreover have "\<exists>ob. bucket_of S p' (P @ META_FILE) = Some ob \<and> ob_bytes ob = to_toml (externals a) (edited_pending_meta existing req)"
    using ob by simp
  ultimately show ?thesis using lv(2) edited_record [of existing req] unfolding fs by blast
qed

section \<open>Editing an upload\<close>

lemma destination_slash: "valid_destination p \<Longrightarrow> p \<noteq> META_FILE"
  by (auto simp: valid_destination_def META_FILE_def)

text \<open>
  C27. A successful edit of a pending upload, on a bucket no other pod writes to: when the submitted
  destinations carry no blank ends and no renamed file moves onto an old path of the request, every
  renamed file has its old content at the new path, every other listed file is unchanged, the meta file
  is the serialization of the edited record over exactly the entries of the upload's meta file (none when
  its read failed or it did not parse): one entry per submitted file, at its new path and with the
  checksum recorded for its old path, under the submitted maker and model and with no approval; and everything else the request or the old meta file names in the upload is
  deleted; every other object of the bucket is left alone.
\<close>

theorem edit_moves:
  assumes ok: "store_ok (app_s3 a) S" "quiet S" and perm: "\<forall>ps. set (schedule (externals a) ps) = set ps"
    and run: "edit_pending a hs u req p = (Inr status, p')"
    and trimmed: "\<forall>f\<in>set (er_files req). trim (ed_path f) = ed_path f"
    and apart: "\<forall>f\<in>set (er_files req). ed_old_path f \<noteq> ed_path f \<longrightarrow> ed_path f \<notin> ed_old_path ` set (er_files req)"
    and clean: "CHR ''%'' \<notin> set (bucket (app_s3 a) @ u)" "\<forall>f\<in>set (er_files req). CHR ''%'' \<notin> set (ed_old_path f)"
  shows "let P = ''pending/'' @ u @ ''/''; fs = er_files req in
     \<exists>existing. (case fst (get_bytes (app_s3 a) (P @ ''rawdb-meta.toml'') (world p)) of
           Inl _ \<Rightarrow> existing = []
         | Inr _ \<Rightarrow> (\<exists>ob. bucket_of S p (P @ ''rawdb-meta.toml'') = Some ob
             \<and> existing = (case parse_meta (externals a) (ob_bytes ob) of
                 Inl _ \<Rightarrow> [] | Inr m \<Rightarrow> map (\<lambda>f. (fm_path f, f)) (rm_files m))))
     \<and> (\<exists>ob. bucket_of S p' (P @ ''rawdb-meta.toml'') = Some ob \<and> ob_bytes ob = to_toml (externals a) (edited_pending_meta existing req))
     \<and> sm_maker (rm_set (edited_pending_meta existing req)) = trim (er_maker req)
     \<and> sm_model (rm_set (edited_pending_meta existing req)) = trim (er_model req)
     \<and> sm_approved_at (rm_set (edited_pending_meta existing req)) = None
     \<and> map fm_path (rm_files (edited_pending_meta existing req)) = map (\<lambda>f. trim (ed_path f)) fs
     \<and> map fm_sha256 (rm_files (edited_pending_meta existing req))
        = map (\<lambda>f. Option.bind (map_of existing (ed_old_path f)) fm_sha256) fs
     \<and> (\<forall>f\<in>set fs. if ed_old_path f \<noteq> ed_path f
          then \<exists>o1 o2. bucket_of S p (P @ ed_old_path f) = Some o1 \<and> bucket_of S p' (P @ ed_path f) = Some o2 \<and> ob_bytes o2 = ob_bytes o1
          else bucket_of S p' (P @ ed_path f) = bucket_of S p (P @ ed_path f))
     \<and> (\<forall>k. k \<noteq> P @ ''rawdb-meta.toml'' \<and> k \<notin> (\<lambda>f. P @ ed_path f) ` set fs \<longrightarrow> bucket_of S p' k =
          (if k \<in> (@) P ` (ed_old_path ` set fs \<union> fst ` set existing) then None else bucket_of S p k))"
proof -
  let ?P = "''pending/'' @ u @ ''/''"
  have names: "PENDING_PREFIX @ u @ ''/'' = ?P" "META_FILE = ''rawdb-meta.toml''" by (simp_all add: PENDING_PREFIX_def META_FILE_def)
  obtain sess q v p2 w where g: "auth_guard a REVIEWER_OR_ADMIN hs p = (Inr sess, q)"
    and c: "check_destinations (blocked_extensions (app_config a)) {} (er_files req) = Inr v"
    and e0: "apply_pending_edit a ?P req q = (Inr w, p2)"
    and r: "ignoring (refresh_one_pending (externals a) (app_s3 a) u) p2 = (Inr () :: app_error + unit, p')"
    using run unfolding edit_pending_def names(1) by (auto simp: run_Inr)
  have q: "q = p" using g by (auto simp: auth_guard_eq)
  note e = e0 [unfolded q]
  have "frame (bucket_of S) (ignoring (refresh_one_pending (externals a) (app_s3 a) u))" by (intro frame_rules ok)
  then have b': "bucket_of S p' = bucket_of S p2" using frameD r by metis
  from check_destinations_ok [OF c] have cd: "distinct (map (\<lambda>f. trim (ed_path f)) (er_files req))"
    "\<forall>f\<in>set (er_files req). valid_destination (trim (ed_path f))" by simp_all
  have eq: "map (\<lambda>f. trim (ed_path f)) (er_files req) = map ed_path (er_files req)" using trimmed by simp
  have paths: "distinct (map ed_path (er_files req))" "META_FILE \<notin> ed_path ` set (er_files req)"
    using cd trimmed destination_slash unfolding eq by (simp, fastforce)
  have ap: "\<forall>f\<in>set (er_files req). renamed f \<longrightarrow> ed_path f \<notin> ed_old_path ` set (er_files req)
      \<and> CHR ''%'' \<notin> set (bucket (app_s3 a) @ ''/'' @ ?P @ ed_old_path f)"
    using apart clean by (auto simp: renamed_def)
  from pending_edit_view [OF ok _ refl e ap paths, unfolded renamed_def names entries_from_def bucket_of_def [symmetric]] perm
  show ?thesis unfolding Let_def b' by simp
qed

section \<open>Two files that swap their paths\<close>

lemma trim_meta: "trim META_FILE = META_FILE"
  by code_simp

text \<open>
  C28. A successful edit of a pending upload that swaps the paths of two files loses one of them: the
  first copy overwrites the second file before it is copied, so both paths end with the first file's
  content, although the paths passed every check of the request.
\<close>

theorem edit_swap_loses:
  assumes ok: "store_ok (app_s3 a) S" "quiet S"
    and run: "edit_pending a hs u req p = (Inr status, p')"
    and swap: "er_files req = [f, g]" "ed_old_path f = x" "ed_path f = y" "ed_old_path g = y" "ed_path g = x" "x \<noteq> y"
    and clean: "CHR ''%'' \<notin> set (bucket (app_s3 a) @ u @ x @ y)"
  shows "\<exists>ob o1 o2. bucket_of S p (''pending/'' @ u @ ''/'' @ x) = Some ob
     \<and> bucket_of S p' (''pending/'' @ u @ ''/'' @ x) = Some o1 \<and> ob_bytes o1 = ob_bytes ob
     \<and> bucket_of S p' (''pending/'' @ u @ ''/'' @ y) = Some o2 \<and> ob_bytes o2 = ob_bytes ob"
proof -
  let ?P = "''pending/'' @ u @ ''/''"
  have names: "PENDING_PREFIX @ u @ ''/'' = ?P" by (simp add: PENDING_PREFIX_def)
  obtain sess q v p2 w where gd: "auth_guard a REVIEWER_OR_ADMIN hs p = (Inr sess, q)"
    and c: "check_destinations (blocked_extensions (app_config a)) {} (er_files req) = Inr v"
    and e: "apply_pending_edit a ?P req q = (Inr w, p2)"
    and r: "ignoring (refresh_one_pending (externals a) (app_s3 a) u) p2 = (Inr () :: app_error + unit, p')"
    using run unfolding edit_pending_def names(1) by (auto simp: run_Inr)
  have "frame (bucket_of S) (ignoring (refresh_one_pending (externals a) (app_s3 a) u))" by (intro frame_rules ok)
  then have b': "bucket_of S p' = bucket_of S p2" using frameD r by metis
  have b: "bucket_of S q = bucket_of S p" using frameD [OF frame_guard gd] .
  have "valid_destination (trim x)" "valid_destination (trim y)" using check_destinations_ok [OF c] swap(1-5) by simp_all
  then have nm: "x \<noteq> META_FILE" "y \<noteq> META_FILE" using destination_slash trim_meta by metis+
  define keys where "keys existing = map (\<lambda>p. ?P @ p) (filter (\<lambda>p. p \<notin> set [x, y] \<and> p \<notin> set [y, x])
    (schedule (externals a) (map fst existing)))" for existing :: "(string \<times> file_meta) list"
  have ds: "set (map ed_path (er_files req)) = set [y, x]" "set (map ed_old_path (er_files req)) = set [x, y]" using swap by simp_all
  from e obtain existing p1 moved p3 p4 k ac where l: "load_existing_file_meta a ?P q = (Inr existing :: app_error + _, p1)"
    and m: "move_files a ?P (set [y, x]) [f, g] p1 = (Inr moved, p3)"
    and d: "forE (moved @ keys existing) (\<lambda>key. s3E (delete (app_s3 a) key)) p3 = (Inr ac, p4)"
    and wm: "write_meta a ?P (edited_pending_meta existing req) p4 = (Inr k, p2)"
    unfolding apply_pending_edit_def Let_def ds swap(1) [symmetric] keys_def [symmetric] bindE_Inr ret_Inr by blast
  obtain u1 q1 u2 where c1: "s3E (copy (app_s3 a) (?P @ x) (?P @ y)) p1 = (Inr u1, q1)"
    and c2: "s3E (copy (app_s3 a) (?P @ y) (?P @ x)) q1 = (Inr u2, p3)" and mv: "moved = []"
    using m swap(2-6) by (auto simp: move_files_def bindE_Inr ret_Inr)
  have pc: "CHR ''%'' \<notin> set (bucket (app_s3 a) @ ''/'' @ ?P @ x)" "CHR ''%'' \<notin> set (bucket (app_s3 a) @ ''/'' @ ?P @ y)"
    using clean by simp_all
  have lv: "bucket_of S p1 = bucket_of S p" using load_existing_view [OF ok l] b by simp
  obtain ob o1 where v1: "bucket_of S p (?P @ x) = Some ob" "ob_bytes o1 = ob_bytes ob" "bucket_of S q1 = (bucket_of S p)(?P @ y \<mapsto> o1)"
    using copy_one_view [OF ok pc(1) c1] lv by auto
  obtain o2 where v2: "ob_bytes o2 = ob_bytes o1" "bucket_of S p3 = (bucket_of S q1)(?P @ x \<mapsto> o2)"
    using copy_one_view [OF ok pc(2) c2] v1(3) by auto
  have "bucket_of S p4 = (\<lambda>k. if k \<in> set (moved @ keys existing) then None else bucket_of S p3 k)"
    using deletes_view [OF ok] d by simp
  then have v4: "bucket_of S p4 (?P @ z) = bucket_of S p3 (?P @ z)" if "z \<in> {x, y}" for z
    using that by (auto simp: keys_def mv)
  have v5: "bucket_of S p2 (?P @ z) = bucket_of S p4 (?P @ z)" if "z \<in> {x, y}" for z
    using write_meta_view(1) [OF ok wm] that nm by auto
  show ?thesis using v1 v2 v4 v5 b' swap(6) by (intro exI [of _ ob] exI [of _ o2] exI [of _ o1]) simp
qed

section \<open>Concrete edits\<close>

definition edit_of :: "string \<Rightarrow> string \<Rightarrow> edit_file" where
  "edit_of x y = \<lparr>ed_old_path = x, ed_path = y, ed_tags = [], ed_notes = None, ed_license = None\<rparr>"

definition edit_request_of :: "edit_file list \<Rightarrow> edit_request" where
  "edit_request_of fs = \<lparr>er_maker = ''Canon'', er_model = ''EOS R5'', er_license = ''CC0-1.0'', er_notes = None,
     er_uploaded_by = None, er_special = False, er_files = fs\<rparr>"

lemma mem_deletes_ok: "\<exists>q. forE keys (\<lambda>key. s3E (delete mem_s3 key)) p = (Inr (), q)"
proof (induction keys arbitrary: p)
  case (Cons k keys)
  have "s3E (delete mem_s3 k) p = (Inr (), p \<lparr>world := world p \<lparr>mem_objs := AList.delete k (mem_objs (world p))\<rparr>\<rparr>)"
    by (simp add: delete_def cmd_defs mem_s3_def)
  then show ?case using Cons.IH by (auto simp: bindE_def)
qed (simp add: ret_def)

lemma edit_runs:
  assumes chk: "check_destinations [''exe''] {} fs = Inr ()"
    and m: "\<exists>moved p1. move_files sample_app ''pending/u1/'' (set (map ed_path fs)) fs upload_pod = (Inr moved, p1)"
  shows "\<exists>p'. edit_pending sample_app admin_request ''u1'' (edit_request_of fs) upload_pod = (Inr 200, p')"
proof -
  let ?req = "edit_request_of fs" and ?P = "''pending/u1/''"
  have g: "auth_guard sample_app REVIEWER_OR_ADMIN admin_request p = (Inr admin_session, p)" for p
    by (rule admin_guard) (simp add: REVIEWER_OR_ADMIN_def ADMIN_BIT_def REVIEWER_BIT_def)
  have load: "load_existing_file_meta sample_app ?P upload_pod
      = (Inr (map (\<lambda>f. (fm_path f, f)) (rm_files sample_meta)) :: app_error + _, upload_pod)"
    using upload_objects(1) meta_M by (simp add: load_existing_file_meta_def cmd_defs META_FILE_def upload_pod_def)
  obtain moved p1 where m: "move_files sample_app ?P (set (map ed_path fs)) fs upload_pod = (Inr moved, p1)" using m by blast
  have w: "\<exists>p3. write_meta sample_app ?P x p2 = (Inr (mem_tag (to_toml sample_pod_ext x)), p3)" for x p2
    by (simp add: write_meta_def cmd_defs)
  have "\<exists>p3. apply_pending_edit sample_app ?P ?req upload_pod = (Inr (), p3)"
    unfolding apply_pending_edit_def Let_def bindE_Inr ret_Inr
    using load m mem_deletes_ok w by (fastforce simp: edit_request_of_def)
  then obtain p3 where "apply_pending_edit sample_app ?P ?req upload_pod = (Inr (), p3)" by blast
  moreover have "trim ''Canon'' \<noteq> []" "trim ''EOS R5'' \<noteq> []" by code_simp+
  ultimately have "edit_pending sample_app admin_request ''u1'' ?req upload_pod =
      (Inr 200, snd (refresh_one_pending sample_pod_ext mem_s3 ''u1'' p3))"
    using chk by (simp add: edit_pending_def bindE_def g guardE_def ret_def ignoring_ok lift_def edit_request_of_def
        PENDING_PREFIX_def sample_config_def)
  then show ?thesis by blast
qed

text \<open>One file renamed, the other kept.\<close>

lemma edit_moves_witness:
  "\<exists>ob. mem_view (world (snd (edit_pending sample_app admin_request ''u1''
        (edit_request_of [edit_of ''raw/a.CR3'' ''raw/c.CR3'', edit_of ''jpg/b.jpg'' ''jpg/b.jpg'']) upload_pod)))
      ''pending/u1/raw/c.CR3'' = Some ob \<and> ob_bytes ob = ''AAAA''"
proof -
  let ?fs = "[edit_of ''raw/a.CR3'' ''raw/c.CR3'', edit_of ''jpg/b.jpg'' ''jpg/b.jpg'']"
  have chk: "check_destinations [''exe''] {} ?fs = Inr ()" by code_simp
  have "\<exists>moved p1. move_files sample_app ''pending/u1/'' (set (map ed_path ?fs)) ?fs upload_pod = (Inr moved, p1)"
    using mem_copy_ok [OF upload_objects(2)] by (simp add: move_files_def edit_of_def cmd_defs upload_pod_def)
  from edit_runs [OF chk this] obtain p' where p': "edit_pending sample_app admin_request ''u1'' (edit_request_of ?fs) upload_pod = (Inr 200, p')" by blast
  have trimmed: "\<forall>f\<in>set ?fs. trim (ed_path f) = ed_path f" by code_simp
  have files: "er_files (edit_request_of ?fs) = ?fs" by (simp add: edit_request_of_def)
  have ext: "\<forall>ps. set (schedule (externals sample_app) ps) = set ps" by (simp add: sample_pod_ext_def)
  have ok: "store_ok (app_s3 sample_app) mem_contract" using mem_store_ok by simp
  have h: "\<forall>f\<in>set ?fs. ed_old_path f \<noteq> ed_path f \<longrightarrow> ed_path f \<notin> ed_old_path ` set ?fs"
    "CHR ''%'' \<notin> set (bucket (app_s3 sample_app) @ ''u1'')" "\<forall>f\<in>set ?fs. CHR ''%'' \<notin> set (ed_old_path f)"
    by (simp_all add: edit_of_def mem_s3_def)
  note c = edit_moves [OF ok mem_quiet ext p', unfolded files, OF trimmed h]
  have "\<forall>f\<in>set ?fs. if ed_old_path f \<noteq> ed_path f
      then \<exists>o1 o2. bucket_of mem_contract upload_pod ((''pending/'' @ ''u1'' @ ''/'') @ ed_old_path f) = Some o1
        \<and> bucket_of mem_contract p' ((''pending/'' @ ''u1'' @ ''/'') @ ed_path f) = Some o2 \<and> ob_bytes o2 = ob_bytes o1
      else bucket_of mem_contract p' ((''pending/'' @ ''u1'' @ ''/'') @ ed_path f) = bucket_of mem_contract upload_pod ((''pending/'' @ ''u1'' @ ''/'') @ ed_path f)"
    using c unfolding Let_def by blast
  then have "\<exists>o1 o2. bucket_of mem_contract upload_pod ''pending/u1/raw/a.CR3'' = Some o1
        \<and> bucket_of mem_contract p' ''pending/u1/raw/c.CR3'' = Some o2 \<and> ob_bytes o2 = ob_bytes o1" by (simp add: edit_of_def)
  then show ?thesis using upload_objects(2) unfolding p' by (auto simp: bucket_of_def mem_contract_def upload_pod_def)
qed

text \<open>Two files swapped.\<close>

lemma edit_swap_loses_witness:
  "\<exists>o1 o2. mem_view (world (snd (edit_pending sample_app admin_request ''u1''
        (edit_request_of [edit_of ''raw/a.CR3'' ''jpg/b.jpg'', edit_of ''jpg/b.jpg'' ''raw/a.CR3'']) upload_pod)))
      ''pending/u1/raw/a.CR3'' = Some o1 \<and> ob_bytes o1 = ''AAAA''
    \<and> mem_view (world (snd (edit_pending sample_app admin_request ''u1''
        (edit_request_of [edit_of ''raw/a.CR3'' ''jpg/b.jpg'', edit_of ''jpg/b.jpg'' ''raw/a.CR3'']) upload_pod)))
      ''pending/u1/jpg/b.jpg'' = Some o2 \<and> ob_bytes o2 = ''AAAA''"
proof -
  let ?f = "edit_of ''raw/a.CR3'' ''jpg/b.jpg''" and ?g = "edit_of ''jpg/b.jpg'' ''raw/a.CR3''"
  have chk: "check_destinations [''exe''] {} [?f, ?g] = Inr ()" by code_simp
  have "\<exists>moved p1. move_files sample_app ''pending/u1/'' (set (map ed_path [?f, ?g])) [?f, ?g] upload_pod = (Inr moved, p1)"
    using mem_copy_ok [OF upload_objects(2)] mem_copy_ok [of "mem_put ''pending/u1/jpg/b.jpg'' ''AAAA'' upload_bucket" "''pending/u1/jpg/b.jpg''"]
    by (simp add: move_files_def edit_of_def cmd_defs upload_pod_def view_put)
  from edit_runs [OF chk this] obtain p' where p': "edit_pending sample_app admin_request ''u1'' (edit_request_of [?f, ?g]) upload_pod = (Inr 200, p')" by blast
  have ok: "store_ok (app_s3 sample_app) mem_contract" using mem_store_ok by simp
  have fs: "er_files (edit_request_of [?f, ?g]) = [?f, ?g]" "ed_old_path ?f = ''raw/a.CR3''" "ed_path ?f = ''jpg/b.jpg''"
    "ed_old_path ?g = ''jpg/b.jpg''" "ed_path ?g = ''raw/a.CR3''" "''raw/a.CR3'' \<noteq> ''jpg/b.jpg''"
    by (simp_all add: edit_of_def edit_request_of_def)
  have clean: "CHR ''%'' \<notin> set (bucket (app_s3 sample_app) @ ''u1'' @ ''raw/a.CR3'' @ ''jpg/b.jpg'')" by (simp add: mem_s3_def)
  from edit_swap_loses [OF ok mem_quiet p' fs clean] upload_objects(2)
  show ?thesis unfolding p' by (auto simp: bucket_of_def mem_contract_def upload_pod_def)
qed

end
