(* ===== verification/Upload_Claims.thy ===== *)
theory Upload_Claims imports Sample_Run begin

text \<open>
  The upload flow: what a plan of \<^verbatim>\<open>begin\<close> covers, and what \<^verbatim>\<open>complete\<close> puts into the review queue.
\<close>

section \<open>Plans\<close>

lemma div_ceil_bounds:
  assumes "0 < k" shows "n \<le> div_ceil n k * k" "div_ceil n k * k < n + k"
proof -
  have "(n + k - 1) div k * k + (n + k - 1) mod k = n + k - 1" by simp
  moreover have "(n + k - 1) mod k < k" using assms by simp
  ultimately show "n \<le> div_ceil n k * k" "div_ceil n k * k < n + k"
    unfolding div_ceil_def using assms by linarith+
qed

lemmas div_ceil_covers = div_ceil_bounds(1)

lemma div_ceil_tight: "0 < k \<Longrightarrow> 0 < n \<Longrightarrow> (div_ceil n k - 1) * k < n"
  using div_ceil_bounds(2) [of k n] by (cases "div_ceil n k") simp_all

lemma div_ceil_le: "0 < k \<Longrightarrow> n \<le> m * k \<Longrightarrow> div_ceil n k \<le> m"
proof -
  assume k: "0 < k" and n: "n \<le> m * k"
  then have "n + k - 1 < Suc m * k" by simp
  then have "(n + k - 1) div k < Suc m" using k by (simp only: div_less_iff_less_mult)
  then show ?thesis by (simp add: div_ceil_def)
qed

text \<open>At most ten thousand parts, which the parts' numbers count from one.\<close>

lemma part_count:
  assumes "0 < ps"
  shows "div_ceil n (max ps (div_ceil n MAX_PARTS)) \<le> MAX_PARTS"
proof (rule div_ceil_le)
  have "n \<le> div_ceil n MAX_PARTS * MAX_PARTS" by (rule div_ceil_covers) (simp add: MAX_PARTS_def)
  also have "\<dots> \<le> MAX_PARTS * max ps (div_ceil n MAX_PARTS)" by (subst mult.commute) simp
  finally show "n \<le> MAX_PARTS * max ps (div_ceil n MAX_PARTS)" .
qed (use assms in simp)

fun plan_fits :: "nat \<Rightarrow> nat \<Rightarrow> file_plan \<Rightarrow> bool" where
  "plan_fits ps n (Single url) \<longleftrightarrow> n \<le> ps"
| "plan_fits ps n (Multipart s3id eff parts) \<longleftrightarrow> ps < n \<and> ps \<le> eff \<and> length parts \<le> 10000
     \<and> map fst parts = [1..<length parts + 1] \<and> (length parts - 1) * eff < n \<and> n \<le> length parts * eff"

lemma presigned_parts:
  "foldE (\<lambda>n parts. bindE (m n) (\<lambda>url. ret (parts @ [(n, url)]))) ns acc p = (Inr parts, p') \<Longrightarrow> map fst parts = map fst acc @ ns"
  by (induction ns arbitrary: acc p) (auto simp: bindE_Inr ret_Inr)

lemma plan_file_fits:
  assumes "0 < multipart_part_size (app_config a)" "plan_file a u f p = (Inr plan, p')"
  shows "plan_fits (multipart_part_size (app_config a)) (bf_size f) plan"
proof (cases "bf_size f \<le> multipart_part_size (app_config a)")
  case True
  then show ?thesis using assms(2) by (auto simp: plan_file_def Let_def bindE_Inr ret_Inr)
next
  case False
  let ?ps = "multipart_part_size (app_config a)" and ?n = "bf_size f"
  let ?eff = "max ?ps (div_ceil ?n MAX_PARTS)"
  obtain s3id parts where plan: "plan = Multipart s3id ?eff parts" and "map fst parts = [1..<div_ceil ?n ?eff + 1]"
    using assms(2) False by (auto simp: plan_file_def Let_def bindE_Inr ret_Inr dest: presigned_parts)
  then have "map fst parts = [1..<length parts + 1] \<and> length parts = div_ceil ?n ?eff"
    by (metis add_diff_cancel_right' length_map length_upt)
  then show ?thesis
    using plan False assms(1) part_count [OF assms(1), of ?n] div_ceil_covers [of ?eff ?n] div_ceil_tight [of ?eff ?n]
    by (simp add: MAX_PARTS_def)
qed

lemma btree_insert_keys: "fst ` set (btree_insert k v m) = insert k (fst ` set m)"
  by (induction k v m rule: btree_insert.induct) auto

lemma btree_insert_sorted: "sorted (map fst m) \<Longrightarrow> distinct (map fst m) \<Longrightarrow>
    sorted (map fst (btree_insert k v m)) \<and> distinct (map fst (btree_insert k v m))"
proof (induction m)
  case (Cons q m)
  obtain j w where q: "q = (j, w)" by (cases q)
  have keys: "set (map fst (btree_insert k v m)) = insert k (fst ` set m)" using btree_insert_keys [of k v m] by simp
  show ?case using Cons keys unfolding q by (auto simp: not_less)
qed simp

lemma btree_insert_set: "set (btree_insert k v m) \<subseteq> insert (k, v) (set m)"
  by (induction k v m rule: btree_insert.induct) auto

lemma plans_fold:
  assumes ps: "0 < multipart_part_size (app_config a)"
  shows "foldE (\<lambda>f m. bindE (plan_file a u f) (\<lambda>plan. ret (btree_insert (bf_path f) plan m))) fs acc p = (Inr m, p') \<Longrightarrow>
    sorted (map fst acc) \<Longrightarrow> distinct (map fst acc) \<Longrightarrow>
    sorted (map fst m) \<and> distinct (map fst m) \<and> fst ` set m = fst ` set acc \<union> bf_path ` set fs
    \<and> (\<forall>(path, plan)\<in>set m. (path, plan) \<in> set acc \<or> (\<exists>f\<in>set fs. bf_path f = path \<and> plan_fits (multipart_part_size (app_config a)) (bf_size f) plan))"
proof (induction fs arbitrary: acc p)
  case Nil
  then show ?case by (auto simp: ret_Inr)
next
  case (Cons f fs)
  obtain plan p1 where pl: "plan_file a u f p = (Inr plan, p1)"
    and rest: "foldE (\<lambda>f m. bindE (plan_file a u f) (\<lambda>plan. ret (btree_insert (bf_path f) plan m))) fs (btree_insert (bf_path f) plan acc) p1 = (Inr m, p')"
    using Cons.prems(1) by (auto simp: bindE_Inr ret_Inr)
  have s: "sorted (map fst (btree_insert (bf_path f) plan acc))" "distinct (map fst (btree_insert (bf_path f) plan acc))"
    using btree_insert_sorted [OF Cons.prems(2,3)] by simp_all
  note ih = Cons.IH [OF rest s] and fits = plan_file_fits [OF ps pl]
  have "(path, pl') \<in> set acc \<or> (\<exists>g\<in>set (f # fs). bf_path g = path \<and> plan_fits (multipart_part_size (app_config a)) (bf_size g) pl')"
    if "(path, pl') \<in> set m" for path pl'
  proof -
    have "(path, pl') \<in> set (btree_insert (bf_path f) plan acc)
        \<or> (\<exists>g\<in>set fs. bf_path g = path \<and> plan_fits (multipart_part_size (app_config a)) (bf_size g) pl')"
      using ih that by blast
    then show ?thesis
    proof
      assume "(path, pl') \<in> set (btree_insert (bf_path f) plan acc)"
      then have "path = bf_path f \<and> pl' = plan \<or> (path, pl') \<in> set acc" using btree_insert_set by fastforce
      then show ?thesis using fits by auto
    qed auto
  qed
  moreover have "fst ` set m = fst ` set acc \<union> bf_path ` set (f # fs)" using ih unfolding btree_insert_keys by auto
  ultimately show ?case using ih by blast
qed

lemma check_begin_ok:
  "check_begin blocked maximum fs = Inr v \<Longrightarrow> f \<in> set fs \<Longrightarrow>
   validate_rel_path (bf_path f) = Inr () \<and> blocked_extension (bf_path f) blocked = None \<and> bf_size f \<le> maximum"
  by (induction fs) (auto simp: bindR_def not_less split: sum.splits if_splits)

text \<open>
  C29. A successful \<^verbatim>\<open>begin\<close> in a mode that presigns: every declared file is within the size limit and of an
  allowed type, the answer has exactly one plan for each declared path, in path order, and a plan
  covers its file, with a single request up to the part size and otherwise with at most 10000 parts,
  numbered from 1, none of them empty or smaller than the configured part size except the last.
\<close>

theorem begin_plans:
  assumes "begin_upload a w maker model fs p = (Inr r, p')"
    and "0 < multipart_part_size (app_config a)" "cf_upload_mode (app_config a) \<noteq> UploadStream"
  shows "(\<forall>f\<in>set fs. bf_size f \<le> max_upload_bytes (app_config a)
        \<and> blocked_extension (bf_path f) (set (blocked_extensions (app_config a))) = None)
     \<and> sorted (map fst (br_files r)) \<and> distinct (map fst (br_files r)) \<and> fst ` set (br_files r) = bf_path ` set fs
     \<and> (\<forall>(path, plan)\<in>set (br_files r). \<exists>f\<in>set fs. bf_path f = path
          \<and> plan_fits (multipart_part_size (app_config a)) (bf_size f) plan)"
proof -
  obtain v u q plans q' where c: "check_begin (set (blocked_extensions (app_config a))) (max_upload_bytes (app_config a)) fs = Inr v"
    and pl: "plan_files a u fs q = (Inr plans, q')" and r: "br_files r = plans"
    using assms(1) unfolding begin_upload_def by (auto simp: run_Inr)
  have "foldE (\<lambda>f m. bindE (plan_file a u f) (\<lambda>plan. ret (btree_insert (bf_path f) plan m))) fs [] q = (Inr plans, q')"
    using pl assms(3) by (simp add: plan_files_def)
  from plans_fold [OF assms(2) this] check_begin_ok [OF c] show ?thesis unfolding r by simp
qed

definition plan_app :: "mem app" where
  "plan_app = sample_app \<lparr>app_config := sample_config \<lparr>max_upload_bytes := 20000000\<rparr>\<rparr>"

definition plan_web :: web_ext where
  "plan_web = \<lparr>json_text = (\<lambda>_. Some []), header_valid = (\<lambda>_. True), compact_time = (\<lambda>_. ''20260101T000000Z'')\<rparr>"

definition plan_request :: "begin_file list" where
  "plan_request = [\<lparr>bf_path = ''raw/b.CR3'', bf_size = 12000000\<rparr>, \<lparr>bf_path = ''jpg/a.jpg'', bf_size = 5000\<rparr>]"

lemma begin_sample: "\<exists>r p'. begin_upload plan_app plan_web ''Canon'' ''EOS R5'' plan_request upload_pod = (Inr r, p')"
proof -
  have t: "trim ''Canon'' \<noteq> []" "trim ''EOS R5'' \<noteq> []" "plan_request \<noteq> []" by (code_simp, code_simp, simp add: plan_request_def)
  have c: "check_begin (set (blocked_extensions (app_config plan_app))) (max_upload_bytes (app_config plan_app)) plan_request = Inr ()"
  proof -
    have "validate_rel_path ''raw/b.CR3'' = Inr ()" "validate_rel_path ''jpg/a.jpg'' = Inr ()"
      "blocked_extension ''raw/b.CR3'' {''exe''} = None" "blocked_extension ''jpg/a.jpg'' {''exe''} = None" by code_simp+
    then show ?thesis by (simp add: plan_app_def sample_app_def sample_config_def plan_request_def bindR_def)
  qed
  have r: "\<exists>k q. rand_bytes plan_app 4 p = (Inr k :: app_error + _, q)" for p
    by (simp add: rand_bytes_def plan_app_def sample_app_def cmd_defs)
  have m: "\<exists>u q. mint_upload_id plan_app plan_web p = (Inr u :: app_error + _, q)" for p
    using r by (force simp: mint_upload_id_def run_Inr)
  have parts: "\<exists>parts. foldE (\<lambda>n parts. bindE (s3E (presign_upload_part plan_app key u n)) (\<lambda>url. ret (parts @ [(n, url)]))) ns acc p
      = (Inr parts, p)" for key u ns acc p
    by (induction ns arbitrary: acc) (simp_all add: plan_app_def sample_app_def cmd_defs)
  have pl: "\<exists>plan q. plan_file plan_app u f p = (Inr plan, q)" for u f p
  proof (cases "bf_size f \<le> multipart_part_size (app_config plan_app)")
    case True
    then show ?thesis by (simp add: plan_file_def plan_app_def sample_app_def cmd_defs)
  next
    case False
    have "s3E (create_multipart_upload (app_s3 plan_app) key) p = (Inr ''m'', p)" for key
      by (simp add: create_multipart_upload_def plan_app_def mem_s3_def cmd_defs)
    then show ?thesis using False parts by (force simp: plan_file_def Let_def run_Inr)
  qed
  have "\<exists>plans q. foldE (\<lambda>f m. bindE (plan_file plan_app u f) (\<lambda>plan. ret (btree_insert (bf_path f) plan m))) fs acc p = (Inr plans, q)" for u fs acc p
  proof (induction fs arbitrary: acc p)
    case (Cons f fs)
    obtain plan q where "plan_file plan_app u f p = (Inr plan, q)" using pl by blast
    then show ?case using Cons.IH by (simp add: bindE_def ret_def)
  qed (simp add: ret_def)
  then have pls: "\<exists>plans q. plan_files plan_app u fs p = (Inr plans, q)" for u fs p
    by (auto simp: plan_files_def ret_Inr)
  obtain u q where m: "mint_upload_id plan_app plan_web upload_pod = (Inr u :: app_error + _, q)" using m by blast
  obtain plans q' where "plan_files plan_app u plan_request q = (Inr plans, q')" using pls by blast
  then show ?thesis unfolding begin_upload_def bindE_def using m t c by (simp add: guardE_def ret_def lift_def)
qed

lemma begin_plans_witness:
  "\<exists>r. fst (begin_upload plan_app plan_web ''Canon'' ''EOS R5'' plan_request upload_pod) = Inr r
     \<and> map fst (br_files r) = [''jpg/a.jpg'', ''raw/b.CR3'']"
proof -
  obtain r p' where r: "begin_upload plan_app plan_web ''Canon'' ''EOS R5'' plan_request upload_pod = (Inr r, p')" using begin_sample by blast
  have c: "0 < multipart_part_size (app_config plan_app)" "cf_upload_mode (app_config plan_app) \<noteq> UploadStream"
    by (simp_all add: plan_app_def sample_app_def sample_config_def)
  have k: "sorted (map fst (br_files r))" "distinct (map fst (br_files r))" "set (map fst (br_files r)) = set [''jpg/a.jpg'', ''raw/b.CR3'']"
    using begin_plans [OF r c] by (auto simp: plan_request_def)
  have "sorted [''jpg/a.jpg'', ''raw/b.CR3'']" "distinct [''jpg/a.jpg'', ''raw/b.CR3'']" by code_simp+
  with k have "map fst (br_files r) = [''jpg/a.jpg'', ''raw/b.CR3'']" by (metis sorted_distinct_set_unique)
  then show ?thesis using r by simp
qed

section \<open>Completion\<close>

lemma present_sound: "present_sizes prefix objects rel = Some n \<Longrightarrow> \<exists>oi\<in>set objects. oi_key oi = prefix @ rel \<and> oi_size oi = n"
proof -
  have "foldl (\<lambda>m ob. case strip_prefix prefix (oi_key ob) of Some rel \<Rightarrow> m(rel \<mapsto> oi_size ob) | None \<Rightarrow> m) m0 objects rel = Some n \<Longrightarrow>
      m0 rel = Some n \<or> (\<exists>oi\<in>set objects. oi_key oi = prefix @ rel \<and> oi_size oi = n)" for m0
    by (induction objects arbitrary: m0) (fastforce simp: strip_prefix_Some split: option.splits if_splits)+
  then show "present_sizes prefix objects rel = Some n \<Longrightarrow> \<exists>oi\<in>set objects. oi_key oi = prefix @ rel \<and> oi_size oi = n"
    by (auto simp: present_sizes_def)
qed

lemma check_present_ok: "check_present present maximum fs = Inr v \<Longrightarrow> f \<in> set fs \<Longrightarrow> \<exists>n. present (fm_path f) = Some n \<and> n \<le> maximum"
  unfolding check_present_def
  by (induction fs) (auto simp: bindR_def not_less split: sum.splits if_splits option.splits)

text \<open>
  C14. A successful \<^verbatim>\<open>complete\<close>, on a bucket no other pod writes to, queues exactly what was sent: the posted
  meta file parses and names the request's maker and model, every file it lists is in the bucket under
  the upload's prefix, of an allowed type and within the size limit, and the upload's meta file becomes
  the posted record with the special flag and the approval fields cleared; apart from the tick, no other
  object changes.
\<close>

theorem complete_queued:
  assumes ok: "store_ok (app_s3 a) S" "quiet S" "entropy_ok a S"
    and run: "complete a maker model u toml p = (Inr status, p')"
  shows "\<exists>m ob. parse (externals a) toml = Inr m \<and> sm_maker (rm_set m) = maker \<and> sm_model (rm_set m) = model
     \<and> (\<forall>f\<in>set (rm_files m). blocked_extension (fm_path f) (set (blocked_extensions (app_config a))) = None
        \<and> (\<exists>o1. bucket_of S p (''pending/'' @ u @ ''/'' @ fm_path f) = Some o1 \<and> length (ob_bytes o1) \<le> max_upload_bytes (app_config a)))
     \<and> bucket_of S p' (''pending/'' @ u @ ''/rawdb-meta.toml'') = Some ob
     \<and> ob_bytes ob = to_toml (externals a) (m \<lparr>rm_set := (rm_set m) \<lparr>sm_special := False, sm_approved_at := None, sm_approved_by := None,
          sm_approved_initial_at := None, sm_approved_initial_by := None\<rparr>\<rparr>)
     \<and> (\<forall>k. k \<noteq> ''pending/'' @ u @ ''/rawdb-meta.toml'' \<and> k \<notin> range tick_key \<longrightarrow> bucket_of S p' k = bucket_of S p k)"
proof -
  let ?P = "''pending/'' @ u @ ''/''"
  have names: "PENDING_PREFIX @ u @ ''/'' = ?P" "META_FILE = ''rawdb-meta.toml''" by (simp_all add: PENDING_PREFIX_def META_FILE_def)
  obtain m objects p1 v e p2 p3 where m: "parse (externals a) toml = Inr m" "sm_maker (rm_set m) = maker" "sm_model (rm_set m) = model"
    and bl: "list_all (\<lambda>f. blocked_extension (fm_path f) (set (blocked_extensions (app_config a))) = None) (rm_files (uploaded_meta m))"
    and l: "s3E (list_objects (app_s3 a) ?P) p = (Inr objects, p1)"
    and c: "check_present (present_sizes ?P objects) (max_upload_bytes (app_config a)) (rm_files (uploaded_meta m)) = Inr v"
    and w: "s3_map (\<lambda>_. Internal) (put_bytes (app_s3 a) (?P @ META_FILE) (to_toml (externals a) (uploaded_meta m))
              (Some ''application/toml'') None None) p1 = (Inr e :: app_error + _, p2)"
    and r: "ignoring (refresh_one_pending (externals a) (app_s3 a) u) p2 = (Inr () :: app_error + unit, p3)"
    and b: "bump_ticks a [SyncPending] ''upload_complete'' p3 = (Inr () :: app_error + unit, p')"
    using run unfolding complete_def names(1) Let_def
    by (auto simp: bindE_Inr guardE_Inr lift_Inr ret_Inr map_errR_def split: sum.splits)
  have v1: "bucket_of S p1 = bucket_of S p" using l frameD [OF frame_lifted(1) [OF frame_world [OF reading_list [OF ok(1,2)]]] l] by simp
  have here: "\<exists>o1. bucket_of S p (?P @ fm_path f) = Some o1 \<and> length (ob_bytes o1) \<le> max_upload_bytes (app_config a)"
    if "f \<in> set (rm_files m)" for f
  proof -
    from that have f: "f \<in> set (rm_files (uploaded_meta m))" by (simp add: uploaded_meta_def)
    obtain n where n: "present_sizes ?P objects (fm_path f) = Some n" "n \<le> max_upload_bytes (app_config a)"
      using check_present_ok [OF c f] by blast
    obtain oi where "oi \<in> set objects" "oi_key oi = ?P @ fm_path f" "oi_size oi = n" using present_sound [OF n(1)] by blast
    moreover have l': "list_objects (app_s3 a) ?P (world p) = (Inr objects, world p1)" using l by (simp add: s3E_Inr)
    ultimately have "\<exists>obj. st_view S (world p1) (?P @ fm_path f) = Some obj \<and> n = length (ob_bytes obj)"
      using list_objects_view [OF ok(1) l', unfolded sum.case] by blast
    then show ?thesis using n(2) unfolding v1 [symmetric] by (auto simp: bucket_of_def)
  qed
  obtain ob where ob: "ob_bytes ob = to_toml (externals a) (uploaded_meta m)" "bucket_of S p2 = (bucket_of S p1)(?P @ META_FILE \<mapsto> ob)"
    using w put_bytes_view [OF ok(1)] ok(2) by (fastforce simp: s3_map_Inr quiet_def bucket_of_def)
  have "untimed S p' = untimed S p2"
    using frameD [OF bump_untimed [OF ok] b] frameD [OF refresh_untimed(2) [OF ok(1,2)] r] by simp
  then have after: "k \<notin> range tick_key \<Longrightarrow> bucket_of S p' k = bucket_of S p2 k" for k by (rule untimed_at)
  have "?P @ META_FILE \<notin> range tick_key" using tick_key_prefix(1) [of "u @ ''/'' @ META_FILE"] by (simp add: PENDING_PREFIX_def)
  then have "bucket_of S p' (?P @ META_FILE) = Some ob" using after ob(2) by simp
  moreover have "\<forall>k. k \<noteq> ?P @ META_FILE \<and> k \<notin> range tick_key \<longrightarrow> bucket_of S p' k = bucket_of S p k"
    using after ob(2) v1 by simp
  moreover have "\<forall>f\<in>set (rm_files m). blocked_extension (fm_path f) (set (blocked_extensions (app_config a))) = None"
    using bl by (simp add: uploaded_meta_def list_all_iff)
  ultimately show ?thesis using m here ob(1)
    by (intro exI [of _ m] exI [of _ ob]) (simp add: names uploaded_meta_def)
qed

definition sent_id :: string where
  "sent_id = ''20260101T000000Z-deadbeef''"

definition sent_bucket :: mem where
  "sent_bucket = mem_put ''pending/20260101T000000Z-deadbeef/raw/a.CR3'' ''AAAA''
     (mem_put ''pending/20260101T000000Z-deadbeef/jpg/b.jpg'' ''BB'' \<lparr>mem_objs = [], mem_seq = 3\<rparr>)"

definition sent_pod :: "mem pod" where
  "sent_pod = \<lparr>world = sent_bucket, cache = empty_db, tick_cells = (\<lambda>_. None)\<rparr>"

lemma sent_objects: "\<exists>objs. list_objects mem_s3 ''pending/20260101T000000Z-deadbeef/'' sent_bucket = (Inr objs, sent_bucket)
     \<and> check_present (present_sizes ''pending/20260101T000000Z-deadbeef/'' objs) 100 (rm_files sample_meta) = Inr ()"
proof -
  have l: "list_objects mem_s3 ''pending/20260101T000000Z-deadbeef/'' sent_bucket =
     (Inr [\<lparr>oi_key = ''pending/20260101T000000Z-deadbeef/jpg/b.jpg'', oi_size = 2, oi_etag = Some ''BB'', oi_modified = Some 3\<rparr>,
           \<lparr>oi_key = ''pending/20260101T000000Z-deadbeef/raw/a.CR3'', oi_size = 4, oi_etag = Some ''AAAA'', oi_modified = Some 4\<rparr>], sent_bucket)"
    by code_simp
  show ?thesis
    by (rule exI, rule conjI [OF l], code_simp)
qed

lemma complete_sample: "\<exists>p'. complete sample_app ''Canon'' ''EOS R5'' sent_id ''M'' sent_pod = (Inr 201, p')"
proof -
  let ?P = "''pending/20260101T000000Z-deadbeef/''"
  have t: "trim ''Canon'' \<noteq> []" "trim ''EOS R5'' \<noteq> []" "validate_upload_id sent_id = Inr ()" by code_simp+
  have m: "map_errR (\<lambda>_. BadRequest) (parse sample_pod_ext ''M'') = Inr sample_meta"
    by (simp add: parse_def sample_pod_ext_def sample_validate map_errR_def)
  have n: "sm_maker (rm_set sample_meta) = ''Canon''" "sm_model (rm_set sample_meta) = ''EOS R5''" "rm_files (uploaded_meta sample_meta) = rm_files sample_meta"
    by (simp_all add: sample_meta_def sample_set_def uploaded_meta_def)
  have b: "list_all (\<lambda>f. blocked_extension (fm_path f) {''exe''} = None) (rm_files sample_meta)" by code_simp
  obtain objs where o': "list_objects mem_s3 ?P sent_bucket = (Inr objs, sent_bucket)"
    "check_present (present_sizes ?P objs) 100 (rm_files sample_meta) = Inr ()" using sent_objects by blast
  have bump: "\<exists>q. bump_ticks sample_app [SyncPending] ''upload_complete'' p = (Inr () :: app_error + unit, q)" for p
    using bump_ticks_ok by blast
  have l: "s3E (list_objects mem_s3 ?P) sent_pod = (Inr objs, sent_pod)"
    using o'(1) by (simp add: cmd_defs sent_pod_def)
  let ?q = "sent_pod \<lparr>world := mem_put (?P @ META_FILE) (to_toml sample_pod_ext (uploaded_meta sample_meta)) (world sent_pod)\<rparr>"
  have w: "s3_map (\<lambda>_. Internal) (put_bytes mem_s3 (?P @ META_FILE) (to_toml sample_pod_ext (uploaded_meta sample_meta))
      (Some ''application/toml'') None None) sent_pod = (Inr (mem_tag (to_toml sample_pod_ext (uploaded_meta sample_meta))), ?q)"
    by (simp add: cmd_defs)
  have P: "PENDING_PREFIX @ sent_id @ ''/'' = ?P" by (simp add: PENDING_PREFIX_def sent_id_def)
  have cf: "set (blocked_extensions sample_config) = {''exe''}" "max_upload_bytes sample_config = 100" by (simp_all add: sample_config_def)
  obtain q where q: "bump_ticks sample_app [SyncPending] ''upload_complete'' (snd (refresh_one_pending sample_pod_ext mem_s3 sent_id ?q))
      = (Inr () :: app_error + unit, q)" using bump by blast
  have "complete sample_app ''Canon'' ''EOS R5'' sent_id ''M'' sent_pod = (Inr 201, q)"
    unfolding complete_def P Let_def sample_app_simps cf bindE_def guardE_def lift_def m t(3) n
    by (simp only: t simp_thms if_True b l o'(2) w n ret_def ignoring_ok q prod.case sum.case not_False_eq_True)
  then show ?thesis by blast
qed

lemma complete_queued_witness:
  "\<exists>ob. mem_view (world (snd (complete sample_app ''Canon'' ''EOS R5'' sent_id ''M'' sent_pod))) (''pending/'' @ sent_id @ ''/rawdb-meta.toml'') = Some ob"
proof -
  obtain p' where p': "complete sample_app ''Canon'' ''EOS R5'' sent_id ''M'' sent_pod = (Inr 201, p')" using complete_sample by blast
  have ok: "store_ok (app_s3 sample_app) mem_contract" using mem_store_ok by simp
  from complete_queued [OF ok mem_quiet sample_entropy_ok p'] show ?thesis
    unfolding p' by (auto simp: bucket_of_def mem_contract_def)
qed

end
