(* ===== verification/Verify_Claims.thy ===== *)
theory Verify_Claims imports Sample_Run S3_Claims begin

text \<open>The verification of a pending upload's files against the hashes its meta file claims.\<close>

text \<open>What a ranged read may answer: bytes of the object from the offset on, all of them unless the stream breaks.\<close>

definition range_ok :: "'s s3 \<Rightarrow> 's contract \<Rightarrow> bool" where
  "range_ok c S \<longleftrightarrow> (\<forall>key start s r s'. get_stream_range c key start s = (r, s') \<longrightarrow> st_view S s' = st_view S s \<and>
     (\<forall>st. r = Inr st \<longrightarrow> (\<exists>ob t. st_view S s key = Some ob \<and> (\<not> gs_broken st \<longrightarrow> t = [])
        \<and> drop (case start of None \<Rightarrow> 0 | Some n \<Rightarrow> n) (ob_bytes ob) = concat (gs_chunks st) @ t)))"

lemma range_step:
  assumes "range_ok c S" "get_stream_range c key (if acc \<noteq> [] then Some (length acc) else None) s = (r, s1)"
    and "\<forall>ob. st_view S s key = Some ob \<longrightarrow> (\<exists>t. ob_bytes ob = acc @ t)"
  shows "st_view S s1 = st_view S s"
    "r = Inr st \<Longrightarrow> \<exists>ob t. st_view S s key = Some ob \<and> ob_bytes ob = (acc @ concat (gs_chunks st)) @ t \<and> (\<not> gs_broken st \<longrightarrow> t = [])"
proof -
  note k = assms(1) [unfolded range_ok_def, rule_format, OF assms(2)]
  show "st_view S s1 = st_view S s" using k by simp
  assume "r = Inr st"
  then obtain ob t where o': "st_view S s key = Some ob" "\<not> gs_broken st \<longrightarrow> t = []"
    "drop (case (if acc \<noteq> [] then Some (length acc) else None) of None \<Rightarrow> 0 | Some n \<Rightarrow> n) (ob_bytes ob) = concat (gs_chunks st) @ t"
    using k by blast
  then obtain u where "ob_bytes ob = acc @ u" using assms(3) by blast
  then show "\<exists>ob t. st_view S s key = Some ob \<and> ob_bytes ob = (acc @ concat (gs_chunks st)) @ t \<and> (\<not> gs_broken st \<longrightarrow> t = [])"
    using o' by (cases "acc = []") auto
qed

lemma read_all_content:
  assumes "range_ok c S"
  shows "read_all n c key acc s = (Inr out, s') \<Longrightarrow> \<forall>ob. st_view S s key = Some ob \<longrightarrow> (\<exists>t. ob_bytes ob = acc @ t) \<Longrightarrow>
    st_view S s' = st_view S s \<and> (\<exists>ob. st_view S s key = Some ob \<and> out = ob_bytes ob)"
proof (induction n arbitrary: acc s)
  case 0
  obtain r s1 where g: "get_stream_range c key (if acc \<noteq> [] then Some (length acc) else None) s = (r, s1)" by fastforce
  with 0 obtain st where r: "r = Inr st" "\<not> gs_broken st" "out = acc @ concat (gs_chunks st)" "s' = s1"
    by (auto simp: read_all.simps [of 0] matchE_def ret_def throw_def Let_def split: sum.splits s3_error.splits if_splits)
  show ?case using range_step [OF assms g 0(2)] r by fastforce
next
  case (Suc n)
  obtain r s1 where g: "get_stream_range c key (if acc \<noteq> [] then Some (length acc) else None) s = (r, s1)" by fastforce
  note step = range_step [OF assms g Suc.prems(2)]
  show ?case
  proof (cases r)
    case (Inl e)
    with Suc.prems g have "read_all n c key acc s1 = (Inr out, s')"
      by (auto simp: read_all.simps [of "Suc n"] matchE_def ret_def throw_def split: s3_error.splits)
    then show ?thesis using Suc.IH Suc.prems(2) step(1) by metis
  next
    case (Inr st)
    obtain ob t where o': "st_view S s key = Some ob" "ob_bytes ob = (acc @ concat (gs_chunks st)) @ t" "\<not> gs_broken st \<longrightarrow> t = []"
      using step(2) [OF Inr] by blast
    show ?thesis
    proof (cases "gs_broken st")
      case True
      with Suc.prems g Inr have "read_all n c key (acc @ concat (gs_chunks st)) s1 = (Inr out, s')"
        by (simp add: read_all.simps [of "Suc n"] matchE_def Let_def)
      from Suc.IH [OF this] show ?thesis unfolding step(1) using o'(1,2) by simp
    next
      case False
      with Suc.prems g Inr have "out = acc @ concat (gs_chunks st)" "s' = s1"
        by (simp_all add: read_all.simps [of "Suc n"] matchE_def Let_def ret_def)
      then show ?thesis using o' False step(1) by simp
    qed
  qed
qed

definition verified :: "'s app \<Rightarrow> (string \<Rightarrow> string) \<Rightarrow> file_meta \<Rightarrow> verify_file" where
  "verified a content f =
     (let computed = hex (sha256 a (content (fm_path f))) in
      \<lparr>vf_path = fm_path f, vf_status = verify_status (fm_sha256 f) computed, vf_claimed = fm_sha256 f, vf_computed = Some computed\<rparr>)"

lemma verify_loop:
  assumes "range_ok (app_s3 a) S"
  shows "foldE (\<lambda>f out. bindE (verify_one a P f) (\<lambda>v. ret (out @ [v]))) fs acc p = (Inr out, p') \<Longrightarrow>
   out = acc @ map (verified a (\<lambda>x. ob_bytes (the (bucket_of S p (P @ x))))) fs \<and> (\<forall>f\<in>set fs. bucket_of S p (P @ fm_path f) \<noteq> None)"
proof (induction fs arbitrary: acc p)
  case (Cons f fs)
  obtain v p1 where v: "verify_one a P f p = (Inr v, p1)"
    and rest: "foldE (\<lambda>f out. bindE (verify_one a P f) (\<lambda>v. ret (out @ [v]))) fs (acc @ [v]) p1 = (Inr out, p')"
    using Cons.prems(1) by (auto simp: bindE_Inr ret_Inr)
  obtain b where b: "read_all MAX_RETRIES (app_s3 a) (P @ fm_path f) [] (world p) = (Inr b, world p1)"
    and v': "v = verified a (\<lambda>_. b) f"
    using v by (auto simp: verify_one_def bindE_Inr s3_map_Inr ret_Inr verified_def Let_def)
  from read_all_content [OF assms b] obtain ob where ob: "bucket_of S p1 = bucket_of S p" "bucket_of S p (P @ fm_path f) = Some ob" "b = ob_bytes ob"
    by (auto simp: bucket_of_def)
  then have "v = verified a (\<lambda>x. ob_bytes (the (bucket_of S p (P @ x)))) f" using v' by (simp add: verified_def)
  then show ?case using Cons.IH [OF rest] ob by simp
qed (simp add: ret_Inr)

lemma status_distinct: "verify_status c h = ''mismatch'' \<longleftrightarrow> (\<exists>x. c = Some x \<and> to_ascii_lowercase x \<noteq> to_ascii_lowercase h)"
  "verify_status c h = ''ok'' \<longleftrightarrow> (\<exists>x. c = Some x \<and> to_ascii_lowercase x = to_ascii_lowercase h)"
  "verify_status c h = ''missing'' \<longleftrightarrow> c = None"
  by (auto simp: verify_status_def split: option.splits)

text \<open>
  C21. A verification that answers is right, however often the streams broke and were resumed: every file
  of the upload's meta file is in the bucket, the answer lists them in order, each with the digest of its
  stored bytes, and the upload passes exactly when every hash the meta file claims is, up to letter case,
  the digest of the file; the three counts add up to the number of files.
\<close>

theorem verify_sound:
  assumes ok: "store_ok (app_s3 a) S" "quiet S" "range_ok (app_s3 a) S"
    and run: "verify_pending a hs u p = (Inr r, p')"
  shows "\<exists>ob m digest. bucket_of S p (''pending/'' @ u @ ''/rawdb-meta.toml'') = Some ob \<and> parse_meta (externals a) (ob_bytes ob) = Inr m
     \<and> (\<forall>f\<in>set (rm_files m). \<exists>o1. bucket_of S p (''pending/'' @ u @ ''/'' @ fm_path f) = Some o1
          \<and> digest (fm_path f) = hex (sha256 a (ob_bytes o1)))
     \<and> (vr_ok r \<longleftrightarrow> (\<forall>f\<in>set (rm_files m). \<forall>h. fm_sha256 f = Some h \<longrightarrow> to_ascii_lowercase h = to_ascii_lowercase (digest (fm_path f))))
     \<and> map vf_path (vr_files r) = map fm_path (rm_files m)
     \<and> map vf_computed (vr_files r) = map (\<lambda>f. Some (digest (fm_path f))) (rm_files m)
     \<and> vr_total r = length (rm_files m) \<and> vr_verified r + vr_mismatched r + vr_missing r = vr_total r"
proof -
  let ?P = "''pending/'' @ u @ ''/''"
  have names: "PENDING_PREFIX @ u @ ''/'' = ?P" "?P @ META_FILE = ''pending/'' @ u @ ''/rawdb-meta.toml''"
    by (simp_all add: PENDING_PREFIX_def META_FILE_def)
  obtain sess q m p1 out p2 where g: "auth_guard a PENDING_VIEWERS hs p = (Inr sess, q)"
    and l: "load_meta a (?P @ META_FILE) MissingItem BadRequest q = (Inr m, p1)"
    and f: "foldE (\<lambda>f out. bindE (verify_one a ?P f) (\<lambda>v. ret (out @ [v]))) (rm_files m) [] p1 = (Inr out, p2)"
    and r: "r = verify_summary out"
    using run unfolding verify_pending_def Let_def names(1) by (auto simp: bindE_Inr ret_Inr)
  have q: "bucket_of S q = bucket_of S p" using frameD [OF frame_guard g] .
  note lv = load_meta_view [OF ok(1,2) l, unfolded q names(2)]
  define content where "content = (\<lambda>x. ob_bytes (the (bucket_of S p (?P @ x))))"
  have out: "out = map (verified a content) (rm_files m)" "\<forall>f\<in>set (rm_files m). bucket_of S p (?P @ fm_path f) \<noteq> None"
    using verify_loop [OF ok(3) f] unfolding lv(2) content_def by simp_all
  define digest where "digest = (\<lambda>x. hex (sha256 a (content x)))"
  have counts: "length (filter (\<lambda>v. vf_status v = ''ok'') (map (verified a content) fs))
      + length (filter (\<lambda>v. vf_status v = ''mismatch'') (map (verified a content) fs))
      + length (filter (\<lambda>v. vf_status v = ''missing'') (map (verified a content) fs)) = length fs" for fs
    by (induction fs) (auto simp: verified_def Let_def verify_status_def split: option.splits)
  have "vr_ok r \<longleftrightarrow> (\<forall>f\<in>set (rm_files m). vf_status (verified a content f) \<noteq> ''mismatch'')"
    by (simp add: r out verify_summary_def Let_def filter_empty_conv)
  then have okay: "vr_ok r \<longleftrightarrow> (\<forall>f\<in>set (rm_files m). \<forall>h. fm_sha256 f = Some h \<longrightarrow> to_ascii_lowercase h = to_ascii_lowercase (digest (fm_path f)))"
    by (simp add: verified_def Let_def status_distinct(1) digest_def)
  have files: "\<forall>f\<in>set (rm_files m). \<exists>o1. bucket_of S p (''pending/'' @ u @ ''/'' @ fm_path f) = Some o1 \<and> digest (fm_path f) = hex (sha256 a (ob_bytes o1))"
    using out(2) by (auto simp: digest_def content_def)
  have rest: "map vf_path (vr_files r) = map fm_path (rm_files m)" "map vf_computed (vr_files r) = map (\<lambda>f. Some (digest (fm_path f))) (rm_files m)"
    "vr_total r = length (rm_files m)" "vr_verified r + vr_mismatched r + vr_missing r = vr_total r"
    using counts [of "rm_files m"] by (simp_all add: r out verify_summary_def Let_def comp_def verified_def digest_def)
  show ?thesis using lv(1) files okay rest by blast
qed

lemma mem_range_ok: "range_ok mem_s3 mem_contract"
proof -
  have "concat (if b = [] then [] else [b]) = b" for b :: string by simp
  then show ?thesis
    by (auto simp: range_ok_def get_stream_range_def cmd_defs mem_s3_def mem_contract_def map_errR_def split: option.splits if_splits prod.splits)
qed

lemma verify_sample: "\<exists>r p'. verify_pending sample_app admin_request ''u1'' upload_pod = (Inr r, p')"
proof -
  let ?P = "''pending/u1/''"
  have g: "auth_guard sample_app PENDING_VIEWERS admin_request p = (Inr admin_session, p)" for p
    by (rule admin_guard) (simp add: PENDING_VIEWERS_def ADMIN_BIT_def REVIEWER_BIT_def APPROVER_BIT_def)
  have load: "load_meta sample_app (?P @ META_FILE) MissingItem BadRequest upload_pod = (Inr sample_meta, upload_pod)"
    using upload_objects(1) meta_M by (simp add: load_meta_def cmd_defs META_FILE_def upload_pod_def)
  have one: "read_all MAX_RETRIES mem_s3 k [] s = (Inr (ob_bytes ob), s)" if "mem_view s k = Some ob" for k s ob
    using that by (subst read_all.simps) (simp add: MAX_RETRIES_def get_stream_range_def cmd_defs mem_s3_def Let_def)
  have v: "\<exists>v. verify_one sample_app ?P f upload_pod = (Inr v, upload_pod)" if "mem_view upload_bucket (?P @ fm_path f) = Some ob" for f ob
    using one [of upload_bucket] that by (simp add: verify_one_def cmd_defs upload_pod_def Let_def)
  have files: "rm_files sample_meta = [sample_file, sample_file2]" "fm_path sample_file = ''raw/a.CR3''" "fm_path sample_file2 = ''jpg/b.jpg''"
    by (simp_all add: sample_meta_def sample_file_def sample_file2_def)
  obtain v1 v2 where "verify_one sample_app ?P sample_file upload_pod = (Inr v1, upload_pod)" "verify_one sample_app ?P sample_file2 upload_pod = (Inr v2, upload_pod)"
    using v [of sample_file] v [of sample_file2] upload_objects(2,3) files(2,3) by auto
  then have "foldE (\<lambda>f out. bindE (verify_one sample_app ?P f) (\<lambda>v. ret (out @ [v]))) (rm_files sample_meta) [] upload_pod = (Inr [v1, v2], upload_pod)"
    unfolding files(1) by (simp add: bindE_def ret_def)
  then show ?thesis using g load by (simp add: verify_pending_def Let_def bindE_def ret_def PENDING_PREFIX_def)
qed

lemma verify_sound_witness:
  "\<exists>r. fst (verify_pending sample_app admin_request ''u1'' upload_pod) = Inr r \<and> vr_verified r + vr_mismatched r + vr_missing r = vr_total r"
proof -
  obtain r p' where r: "verify_pending sample_app admin_request ''u1'' upload_pod = (Inr r, p')" using verify_sample by blast
  have ok: "store_ok (app_s3 sample_app) mem_contract" "range_ok (app_s3 sample_app) mem_contract" using mem_store_ok mem_range_ok by simp_all
  from verify_sound [OF ok(1) mem_quiet ok(2) r] r show ?thesis by auto
qed

end
