(* ===== verification/Delete_Claims.thy ===== *)
theory Delete_Claims imports Sample_Run begin

text \<open>The deletion of one file from an approved set.\<close>

text \<open>
  C35. A successful deletion of a file from an approved set, on a bucket no other pod writes to: the set was
  indexed, its meta file listed the path and at least one other file, and afterwards the object is gone and
  the meta file is the old record without that entry; apart from the tick, no other object changes.
\<close>

theorem delete_file_exact:
  assumes ok: "store_ok (app_s3 a) S" "quiet S" "entropy_ok a S"
    and run: "delete_set_file a hs mk md path p = (Inr status, p')"
  shows "let P = ''samples/'' @ mk @ ''/'' @ md @ ''/'' in get_set (externals a) mk md (cache p) \<noteq> None
     \<and> (\<exists>ob m ob'. bucket_of S p (P @ ''rawdb-meta.toml'') = Some ob \<and> parse_meta (externals a) (ob_bytes ob) = Inr m
        \<and> path \<in> fm_path ` set (rm_files m) \<and> (\<exists>f\<in>set (rm_files m). fm_path f \<noteq> path)
        \<and> bucket_of S p' (P @ ''rawdb-meta.toml'') = Some ob'
        \<and> ob_bytes ob' = to_toml (externals a) (m \<lparr>rm_files := filter (\<lambda>f. fm_path f \<noteq> path) (rm_files m)\<rparr>))
     \<and> bucket_of S p' (P @ path) = None
     \<and> (\<forall>k. k \<noteq> P @ ''rawdb-meta.toml'' \<and> k \<noteq> P @ path \<and> k \<notin> range tick_key \<longrightarrow> bucket_of S p' k = bucket_of S p k)"
proof -
  let ?P = "''samples/'' @ mk @ ''/'' @ md @ ''/''"
  have names: "SAMPLES_PREFIX @ mk @ ''/'' @ md @ ''/'' = ?P" "META_FILE = ''rawdb-meta.toml''"
    by (simp_all add: SAMPLES_PREFIX_def META_FILE_def)
  obtain sess q w p1 p2 where g: "auth_guard a DELETER_OR_ADMIN hs p = (Inr sess, q)"
    and there: "get_set (externals a) mk md (cache q) \<noteq> None"
    and rm: "remove_file a ?P path q = (Inr w, p1)"
    and r: "ignoring (refresh_one_set (externals a) (app_s3 a) mk md) p1 = (Inr () :: app_error + unit, p2)"
    and b: "bump_ticks a [SyncSets] ''delete_set_file'' p2 = (Inr () :: app_error + unit, p')"
    using run unfolding delete_set_file_def names(1) by (auto simp: run_Inr)
  have q: "bucket_of S q = bucket_of S p" "cache q = cache p" using frameD [OF frame_guard g] by auto
  obtain m e p3 q1 u where l: "load_meta a (?P @ META_FILE) MissingItem Internal q = (Inr m, q1)"
    and len: "length (filter (\<lambda>f. fm_path f \<noteq> path) (rm_files m)) \<noteq> length (rm_files m)" "filter (\<lambda>f. fm_path f \<noteq> path) (rm_files m) \<noteq> []"
    and wm: "write_meta a ?P (m \<lparr>rm_files := filter (\<lambda>f. fm_path f \<noteq> path) (rm_files m)\<rparr>) q1 = (Inr e, p3)"
    and d: "s3E (delete (app_s3 a) (?P @ path)) p3 = (Inr u, p1)"
    using rm unfolding remove_file_def Let_def by (auto simp: bindE_Inr guardE_Inr)
  note lv = load_meta_view [OF ok(1,2) l]
  obtain ob where ob: "bucket_of S p (?P @ META_FILE) = Some ob" "parse_meta (externals a) (ob_bytes ob) = Inr m"
    using lv(1) q by auto
  obtain f where f: "f \<in> set (rm_files m)" "fm_path f = path"
    using len(1) by (metis (mono_tags, lifting) filter_True)
  then have pm: "path \<noteq> META_FILE" using parsed_path_not_meta [OF ob(2)] by auto
  have others: "\<exists>f\<in>set (rm_files m). fm_path f \<noteq> path" using len(2) by (auto simp: filter_empty_conv)
  obtain ob' where w: "ob_bytes ob' = to_toml (externals a) (m \<lparr>rm_files := filter (\<lambda>f. fm_path f \<noteq> path) (rm_files m)\<rparr>)"
    "bucket_of S p3 = (bucket_of S q1)(?P @ META_FILE \<mapsto> ob')" using write_meta_view(1) [OF ok(1,2) wm] by blast
  have "delete (app_s3 a) (?P @ path) (world p3) = (Inr u, world p1)" using d by (simp add: s3E_Inr)
  then have v1: "bucket_of S p1 = (bucket_of S p3)(?P @ path := None)"
    using delete_view [OF ok(1)] ok(2) by (fastforce simp: quiet_def bucket_of_def)
  have "untimed S p' = untimed S p1"
    using frameD [OF bump_untimed [OF ok] b] frameD [OF refresh_untimed(1) [OF ok(1,2)] r] by simp
  then have after: "k \<notin> range tick_key \<Longrightarrow> bucket_of S p' k = bucket_of S p1 k" for k by (rule untimed_at)
  have untick: "?P @ y \<notin> range tick_key" for y using tick_key_prefix(2) [of "mk @ ''/'' @ md @ ''/'' @ y"] by (simp add: SAMPLES_PREFIX_def)
  have "bucket_of S p' (?P @ META_FILE) = Some ob'" "bucket_of S p' (?P @ path) = None"
    using after [OF untick] v1 w(2) pm by simp_all
  moreover have "\<forall>k. k \<noteq> ?P @ META_FILE \<and> k \<noteq> ?P @ path \<and> k \<notin> range tick_key \<longrightarrow> bucket_of S p' k = bucket_of S p k"
    using after v1 w(2) lv(2) q(1) by simp
  ultimately show ?thesis unfolding Let_def names(2) [symmetric] using there q(2) ob f others w(1) by auto
qed

definition indexed_pod :: "mem pod" where
  "indexed_pod = sample_pod \<lparr>cache := empty_db \<lparr>sets := [\<lparr>s_maker = ''Canon'', s_model = ''EOS R5'', s_license = ''CC0 1.0'', s_notes = None,
     s_uploaded_at = None, s_uploaded_by = None, s_meta_etag = None, s_special = False, s_last_indexed_at = [],
     s_approved_at = None, s_approved_by = None, s_approved_initial_at = None, s_approved_initial_by = None\<rparr>]\<rparr>\<rparr>"

lemma delete_sample: "\<exists>p'. delete_set_file sample_app admin_request ''Canon'' ''EOS R5'' ''jpg/b.jpg'' indexed_pod = (Inr 204, p')"
proof -
  let ?P = "''samples/Canon/EOS R5/''"
  have g: "auth_guard sample_app DELETER_OR_ADMIN admin_request p = (Inr admin_session, p)" for p
    by (rule admin_guard) (simp add: DELETER_OR_ADMIN_def ADMIN_BIT_def DELETER_BIT_def)
  have "mem_view sample_bucket (?P @ META_FILE) = Some \<lparr>ob_bytes = ''M'', ob_etag = mem_tag ''M'', ob_modified = 6\<rparr>"
    by (simp add: sample_bucket_def view_put META_FILE_def) (simp add: mem_put_def)
  then have load: "load_meta sample_app (?P @ META_FILE) MissingItem Internal indexed_pod = (Inr sample_meta, indexed_pod)"
    using meta_M by (simp add: load_meta_def cmd_defs indexed_pod_def sample_pod_def)
  have there: "get_set sample_pod_ext ''Canon'' ''EOS R5'' (cache indexed_pod) \<noteq> None"
    by (simp add: get_set_def first_row_def indexed_pod_def of_set_def)
  have kept: "filter (\<lambda>f. fm_path f \<noteq> ''jpg/b.jpg'') (rm_files sample_meta) = [sample_file]" "length (rm_files sample_meta) = 2"
    by (simp_all add: sample_meta_def sample_file_def sample_file2_def)
  have del: "\<exists>q. s3E (delete mem_s3 k) p = (Inr (), q)" for k p
    by (simp add: delete_def cmd_defs mem_s3_def)
  have "\<exists>q. remove_file sample_app ?P ''jpg/b.jpg'' indexed_pod = (Inr (), q)"
    unfolding remove_file_def bindE_def [of "load_meta _ _ _ _"] load prod.case sum.case Let_def kept
    using del by (simp add: bindE_def guardE_def ret_def write_meta_def s3_map_def on_world_def map_errE_def map_errR_def)
  then obtain q where q: "remove_file sample_app ?P ''jpg/b.jpg'' indexed_pod = (Inr (), q)" by blast
  have dots: "\<not> contains_sub ''..'' ''jpg/b.jpg''" by code_simp
  obtain q2 where "bump_ticks sample_app [SyncSets] ''delete_set_file'' (snd (refresh_one_set sample_pod_ext mem_s3 ''Canon'' ''EOS R5'' q))
      = (Inr () :: app_error + unit, q2)" using bump_ticks_ok by blast
  then have "delete_set_file sample_app admin_request ''Canon'' ''EOS R5'' ''jpg/b.jpg'' indexed_pod = (Inr 204, q2)"
    using q there dots by (simp add: delete_set_file_def bindE_def g guardE_def ret_def read_db_def gets_def ignoring_ok SAMPLES_PREFIX_def)
  then show ?thesis by blast
qed

lemma delete_file_exact_witness:
  "mem_view (world (snd (delete_set_file sample_app admin_request ''Canon'' ''EOS R5'' ''jpg/b.jpg'' indexed_pod)))
     (''samples/'' @ ''Canon'' @ ''/'' @ ''EOS R5'' @ ''/'' @ ''jpg/b.jpg'') = None"
proof -
  obtain p' where p': "delete_set_file sample_app admin_request ''Canon'' ''EOS R5'' ''jpg/b.jpg'' indexed_pod = (Inr 204, p')"
    using delete_sample by blast
  have ok: "store_ok (app_s3 sample_app) mem_contract" using mem_store_ok by simp
  from delete_file_exact [OF ok mem_quiet sample_entropy_ok p'] show ?thesis
    unfolding p' Let_def by (simp add: bucket_of_def mem_contract_def)
qed

end
