(* ===== verification/Catalog_Claims.thy ===== *)
theory Catalog_Claims imports Response_Claims Public Sample_App begin

text \<open>The cached catalog endpoints meet the hypotheses of \<open>response_fresh\<close>: each reads only the tables of its
  domains, and no two share a key.\<close>

definition catalog_endpoints :: "'s app \<Rightarrow> web_ext \<Rightarrow> endpoint list" where
  "catalog_endpoints a w = [tags_endpoint a w, makers_endpoint w False, makers_endpoint w True, models_endpoint w False,
     models_endpoint w True, stats_endpoint a w False, stats_endpoint a w True, pending_endpoint w]"

lemmas endpoint_defs = tags_endpoint_def makers_endpoint_def models_endpoint_def stats_endpoint_def pending_endpoint_def

lemmas catalog_queries = tag_list_def tag_counts_def distinct_makers_def distinct_maker_models_def stats_doc_def
  count_models_def count_special_def count_pending_def count_files_def last_full_scan_at_def pending_maker_models_def

lemma catalog_ok: "ep \<in> set (catalog_endpoints a w) \<Longrightarrow> endpoint_ok ep"
  unfolding catalog_endpoints_def endpoint_ok_def reads_only_def
  by (auto simp: endpoint_defs catalog_queries same_domain_def)

lemma catalog_keys: "inj_on ep_key (set (catalog_endpoints a w))"
proof -
  have "distinct (map ep_key (catalog_endpoints a w))"
    by (simp add: catalog_endpoints_def endpoint_defs ep_key_def response_key_def catalog_variant_def)
  then show ?thesis by (simp add: distinct_map)
qed

text \<open>
  C11. Freshness of the catalog: however requests and committing writers interleaved before, a request for the
  tags, the makers, the models, the statistics or the pending names, with no write of its domains
  between commit and bump, gets exactly what would be rendered from the tables now (the same body
  under its content tag, or the same error), from the cache or not.
\<close>

theorem catalog_fresh:
  assumes "reached a (set (catalog_endpoints a w)) s" "ep \<in> set (catalog_endpoints a w)"
    and "set (ep_domains ep) \<inter> set (sh_unbumped s) = {}"
    and "get_or_build a (ep_name ep) (ep_variant ep) (stamp (ep_domains ep) (sh_db s)) ct
        (ep_render ep (sh_db s)) (sh_entries s) = (r, entries')"
  shows "map_errR id (ep_render ep (sh_db s)) = (case r of Inl e \<Rightarrow> Inl e | Inr c \<Rightarrow> Inr (ca_body c))
     \<and> (case r of Inl _ \<Rightarrow> entries' = sh_entries s | Inr c \<Rightarrow> ca_etag c = etag_for a (ca_body c))"
  using assms catalog_ok catalog_keys by (intro response_fresh [OF assms(1)]) blast+

text \<open>The body of before a write, stored after it, is not served.\<close>

definition sample_web :: web_ext where
  "sample_web = \<lparr>json_text = (\<lambda>doc. case doc of ModelsDoc ms \<Rightarrow> Some (dec (length ms)) | _ \<Rightarrow> None),
     header_valid = (\<lambda>_. True), compact_time = dec\<rparr>"

definition written_db :: db where
  "written_db = bump Pending (empty_db \<lparr>pending_sets := [undefined]\<rparr>)"

theorem catalog_fresh_witness:
  "\<forall>ct. map_errR id (ep_render (pending_endpoint sample_web) written_db) =
     (case fst (get_or_build sample_app ''pending_names'' [] (stamp [Pending] written_db) ct
        (ep_render (pending_endpoint sample_web) written_db)
        (store_entry (ep_key (pending_endpoint sample_web)) (new_entry sample_app 0 ct (dec 0)) [])) of Inl e \<Rightarrow> Inl e | Inr c \<Rightarrow> Inr (ca_body c))"
proof
  fix ct
  let ?e = "pending_endpoint sample_web" and ?eps = "set (catalog_endpoints sample_app sample_web)"
  let ?s = "\<lparr>sh_db = written_db, sh_entries = store_entry (ep_key ?e) (new_entry sample_app 0 ct (dec 0)) [], sh_unbumped = [], sh_running = []\<rparr>"
  have e: "ep_name ?e = ''pending_names''" "ep_variant ?e = []" "ep_domains ?e = [Pending]" by (simp_all add: pending_endpoint_def)
  have i: "?e \<in> ?eps" by (simp add: catalog_endpoints_def)
  have "ep_render ?e empty_db = Inr (dec 0)"
    by (simp add: pending_endpoint_def to_json_def sample_web_def pending_maker_models_def empty_db_def)
  then have r: "reached sample_app ?eps ?s"
    unfolding written_db_def using e i by (intro overtaken) (auto simp: same_domain_def split: domain.splits)
  obtain r es where run: "get_or_build sample_app (ep_name ?e) (ep_variant ?e) (stamp (ep_domains ?e) (sh_db ?s)) ct
      (ep_render ?e (sh_db ?s)) (sh_entries ?s) = (r, es)" by fastforce
  show "map_errR id (ep_render ?e written_db) = (case fst (get_or_build sample_app ''pending_names'' [] (stamp [Pending] written_db) ct
        (ep_render ?e written_db) (store_entry (ep_key ?e) (new_entry sample_app 0 ct (dec 0)) [])) of Inl e \<Rightarrow> Inl e | Inr c \<Rightarrow> Inr (ca_body c))"
    using catalog_fresh [OF r i _ run] run e by simp
qed

end
