(* ===== verification/Feeds.thy ===== *)
theory Feeds imports Public begin

text \<open>
  \<^verbatim>\<open>src/backend/src/routes/feeds.rs\<close>: the two public Atom feeds, written by hand. Texts are escaped byte
  for byte; \<^verbatim>\<open>urlencoding::encode\<close> and chrono's RFC 3339 text with whole seconds are parameters.
\<close>

definition ATOM_CONTENT_TYPE :: string where "ATOM_CONTENT_TYPE = ''application/atom+xml; charset=utf-8''"
definition FEED_CACHE_CONTROL :: string where "FEED_CACHE_CONTROL = ''public, max-age=300''"

record feed_ext =
  fe_encode :: "string \<Rightarrow> string"
  fe_ts :: "datetime \<Rightarrow> string"

section \<open>Text\<close>

text \<open>\<^verbatim>\<open>U+FFFE\<close> and \<^verbatim>\<open>U+FFFF\<close> in UTF-8.\<close>

definition noncharacters :: "string list" where
  "noncharacters = [[CHR 0xEF, CHR 0xBF, CHR 0xBE], [CHR 0xEF, CHR 0xBF, CHR 0xBF]]"

definition escape1 :: "char \<Rightarrow> string" where
  "escape1 c =
     (if c = CHR ''&'' then ''&amp;'' else if c = CHR ''<'' then ''&lt;'' else if c = CHR ''>'' then ''&gt;''
      else if c = CHR 0x22 then ''&quot;'' else if c = CHR 0x27 then ''&#39;''
      else if c \<in> {CHR 0x09, CHR 0x0A, CHR 0x0D} then [c]
      else if byte c < 32 then [] else [c])"

function escape :: "string \<Rightarrow> string" where
  "escape s = (case s of [] \<Rightarrow> []
     | c # r \<Rightarrow> (case strip_any noncharacters s of Some t \<Rightarrow> escape t | None \<Rightarrow> escape1 c @ escape r))"
  by auto
termination
  by (relation "measure length") (auto dest: strip_any_length)

declare escape.simps [simp del]

definition multiline :: "string \<Rightarrow> string" where
  "multiline s = replace_char (CHR 0x0A) ''<br/>'' (escape (trim s))"

text \<open>
  \<^verbatim>\<open>n as f64\<close> is the nearest double, ties to even; dividing by 1024 is exact, and \<^verbatim>\<open>{:.0}\<close> and \<^verbatim>\<open>{:.1}\<close> print
  the exact value rounded to the nearest decimal, ties to even. The value is the fraction \<open>r / 1024 ^ (i + 1)\<close>.
\<close>

definition div_even :: "nat \<Rightarrow> nat \<Rightarrow> nat" where
  "div_even a b = (let q = a div b; m = a mod b in
     if 2 * m < b \<or> 2 * m = b \<and> even q then q else q + 1)"

fun bit_len :: "nat \<Rightarrow> nat" where
  "bit_len n = (if n = 0 then 0 else Suc (bit_len (n div 2)))"

declare bit_len.simps [simp del]

definition as_f64 :: "nat \<Rightarrow> nat" where
  "as_f64 n = (let u = 2 ^ (bit_len n - 53) in div_even n u * u)"

fun pick_unit :: "nat \<Rightarrow> nat \<Rightarrow> string list \<Rightarrow> nat \<times> string" where
  "pick_unit r d [] = (d, [])"
| "pick_unit r d [u] = (d, u)"
| "pick_unit r d (u # v # us) = (if 1024 * d \<le> r then pick_unit r (1024 * d) (v # us) else (d, u))"

definition human_size :: "nat \<Rightarrow> string" where
  "human_size n =
     (if n < 1024 then dec n @ '' B''
      else (let r = as_f64 n; (d, u) = pick_unit r 1024 [''KB'', ''MB'', ''GB'', ''TB''] in
        if 10 * d \<le> r then dec (div_even r d) @ '' '' @ u
        else (let t = div_even (10 * r) d in dec (t div 10) @ ''.'' @ dec (t mod 10) @ '' '' @ u)))"

section \<open>Entries\<close>

record feed_entry =
  fe_id :: string
  fe_title :: string
  fe_link :: string
  fe_published :: "datetime option"
  fe_updated :: datetime
  fe_author :: "string option"
  fe_html :: string

record feed_summary =
  fs_maker :: string
  fs_model :: string
  fs_license :: string
  fs_uploaded_by :: "string option"
  fs_notes :: "string option"
  fs_special :: bool

text \<open>The counts of a hash map, most frequent first, ties by name.\<close>

definition count_by :: "string list \<Rightarrow> (string \<times> nat) list" where
  "count_by items = order_by (then_by (desc (by_key snd)) (by_key fst)) (map (\<lambda>i. (i, count_list items i)) (remdups items))"

definition em_dash :: string where "em_dash = [CHR '' '', CHR 0xE2, CHR 0x80, CHR 0x94, CHR '' '']"
definition times_sign :: string where "times_sign = [CHR '' '', CHR 0xC3, CHR 0x97, CHR '' '']"

definition to_upper1 :: "char \<Rightarrow> char" where
  "to_upper1 c = (if CHR ''a'' \<le> c \<and> c \<le> CHR ''z'' then char_of (byte c - 32) else c)"

definition not_blank :: "string option \<Rightarrow> string option" where
  "not_blank s = (case s of Some t \<Rightarrow> if trim t \<noteq> [] then Some t else None | None \<Rightarrow> None)"

text \<open>The sum of the sizes wraps around at 64 bits, as it does in a release build.\<close>

definition summary_items :: "feed_summary \<Rightarrow> file_row list \<Rightarrow> (string \<times> string) list" where
  "summary_items s fs =
     (let total = sum_list (map fr_size fs) mod 2 ^ 64;
          by_ext = count_by (List.map_filter (\<lambda>f. map_option (map to_upper1) (fr_extension f)) fs);
          files_line = dec (length fs) @ '' ('' @ human_size total @ '')''
            @ (if by_ext \<noteq> [] then em_dash @ join '', '' (map (\<lambda>(e, n). dec n @ times_sign @ e) by_ext) else []);
          cats = map (\<lambda>(c, n). c @ '' ('' @ dec n @ '')'') (count_by (map fr_category fs))
      in [(''Maker'', escape (fs_maker s)), (''Model'', escape (fs_model s))]
         @ (if fs_special s then [(''Type'', ''Non-camera set'')] else [])
         @ [(''Files'', escape files_line)]
         @ (if cats \<noteq> [] then [(''Categories'', escape (join '', '' cats))] else [])
         @ [(''License'', escape (fs_license s))]
         @ (case not_blank (fs_uploaded_by s) of Some b \<Rightarrow> [(''Uploaded by'', escape b)] | None \<Rightarrow> [])
         @ (case not_blank (fs_notes s) of Some n \<Rightarrow> [(''Note'', multiline n)] | None \<Rightarrow> []))"

definition item_html :: "string \<times> string \<Rightarrow> string" where
  "item_html item = (case item of (label, value) \<Rightarrow> ''<li><strong>'' @ label @ '':</strong> '' @ value @ ''</li>'')"

definition summary_html :: "feed_summary \<Rightarrow> file_row list \<Rightarrow> string" where
  "summary_html s fs = ''<ul>'' @ concat (map item_html (summary_items s fs)) @ ''</ul>''"

definition pending_html :: "feed_summary \<Rightarrow> file_row list \<Rightarrow> string" where
  "pending_html s fs = ''<p>A new set was uploaded and is waiting for review. Its files are not ''
     @ ''publicly available until it has been reviewed and approved.</p>'' @ summary_html s fs"

definition file_html :: "feed_ext \<Rightarrow> string \<Rightarrow> feed_summary \<Rightarrow> (string \<Rightarrow> string list) \<Rightarrow> file_row \<Rightarrow> string" where
  "file_html x base s tg f =
     (let name = (case split_once slash (fr_path f) of Some (_, rest) \<Rightarrow> rest | None \<Rightarrow> fr_path f);
          href = base @ ''/api/download/'' @ fe_encode x (fs_maker s) @ ''/'' @ fe_encode x (fs_model s) @ ''/''
            @ join ''/'' (map (fe_encode x) (split_on slash (fr_path f)))
      in ''<li><a href=\"'' @ escape href @ ''\">'' @ escape name @ ''</a> ('' @ human_size (fr_size f) @ '')''
         @ (case not_blank (fr_notes f) of Some n \<Rightarrow> em_dash @ multiline n | None \<Rightarrow> [])
         @ (if tg (fr_path f) \<noteq> [] then ''<br/>Tags: '' @ escape (join '', '' (tg (fr_path f))) else [])
         @ ''</li>'')"

text \<open>The loop over the files with the cat of the list it is in.\<close>

fun files_html :: "feed_ext \<Rightarrow> string \<Rightarrow> feed_summary \<Rightarrow> (string \<Rightarrow> string list) \<Rightarrow> string option \<Rightarrow> file_row list \<Rightarrow> string" where
  "files_html x base s tg cat [] = (if cat \<noteq> None then ''</ul>'' else [])"
| "files_html x base s tg cat (f # fs) =
     (if cat \<noteq> Some (fr_category f)
      then (if cat \<noteq> None then ''</ul>'' else []) @ ''<h3>'' @ escape (fr_category f) @ ''</h3><ul>'' else [])
     @ file_html x base s tg f @ files_html x base s tg (Some (fr_category f)) fs"

definition published_html :: "feed_ext \<Rightarrow> string \<Rightarrow> feed_summary \<Rightarrow> file_row list \<Rightarrow> (string \<Rightarrow> string list) \<Rightarrow> string" where
  "published_html x base s fs tg = summary_html s fs @ files_html x base s tg None fs"

definition published_entry :: "feed_ext \<Rightarrow> string \<Rightarrow> set_row \<Rightarrow> file_row list \<Rightarrow> (string \<Rightarrow> string list) \<Rightarrow> feed_entry option" where
  "published_entry x base st fs tg = (case sr_approved_initial_at st of None \<Rightarrow> None | Some at \<Rightarrow>
     (let set_url = base @ ''/sets/'' @ fe_encode x (sr_maker st) @ ''/'' @ fe_encode x (sr_model st);
          summary = \<lparr>fs_maker = sr_maker st, fs_model = sr_model st, fs_license = sr_license st,
            fs_uploaded_by = sr_uploaded_by st, fs_notes = sr_notes st, fs_special = sr_special st\<rparr>
      in Some \<lparr>fe_id = set_url @ ''#published-'' @ fe_ts x at,
           fe_title = ''Samples published for '' @ sr_maker st @ '' - '' @ sr_model st, fe_link = set_url,
           fe_published = Some at, fe_updated = at, fe_author = sr_uploaded_by st,
           fe_html = published_html x base summary fs tg\<rparr>))"

definition pending_entry :: "feed_ext \<Rightarrow> string \<Rightarrow> datetime \<Rightarrow> pending_set_row \<Rightarrow> file_row list \<Rightarrow> feed_entry" where
  "pending_entry x base now row fs =
     (let url = base @ ''/admin/pending/'' @ fe_encode x (psr_upload_id row);
          summary = \<lparr>fs_maker = psr_maker row, fs_model = psr_model row, fs_license = psr_license row,
            fs_uploaded_by = None, fs_notes = psr_notes row, fs_special = False\<rparr>
      in \<lparr>fe_id = url, fe_title = ''New pending upload for '' @ psr_maker row @ '' - '' @ psr_model row, fe_link = url,
          fe_published = None, fe_updated = (case psr_uploaded_at row of Some t \<Rightarrow> t | None \<Rightarrow> now),
          fe_author = None, fe_html = pending_html summary fs\<rparr>)"

section \<open>The feed\<close>

definition entry_xml :: "feed_ext \<Rightarrow> feed_entry \<Rightarrow> string" where
  "entry_xml x e =
     ''  <entry>'' @ nl
     @ ''    <id>'' @ escape (fe_id e) @ ''</id>'' @ nl
     @ ''    <title>'' @ escape (fe_title e) @ ''</title>'' @ nl
     @ ''    <link rel=\"alternate\" type=\"text/html\" href=\"'' @ escape (fe_link e) @ ''\"/>'' @ nl
     @ (case fe_published e of Some p \<Rightarrow> ''    <published>'' @ fe_ts x p @ ''</published>'' @ nl | None \<Rightarrow> [])
     @ ''    <updated>'' @ fe_ts x (fe_updated e) @ ''</updated>'' @ nl
     @ (case not_blank (fe_author e) of Some a \<Rightarrow> ''    <author><name>'' @ escape a @ ''</name></author>'' @ nl | None \<Rightarrow> [])
     @ ''    <content type=\"html\">'' @ escape (fe_html e) @ ''</content>'' @ nl
     @ ''  </entry>'' @ nl"

definition feed_updated :: "datetime \<Rightarrow> feed_entry list \<Rightarrow> datetime" where
  "feed_updated now entries = (if entries = [] then now else Max (set (map fe_updated entries)))"

definition render_feed :: "feed_ext \<Rightarrow> datetime \<Rightarrow> string \<Rightarrow> string \<Rightarrow> string \<Rightarrow> feed_entry list \<Rightarrow> string" where
  "render_feed x now title self_url site_url entries =
     ''<?xml version=\"1.0\" encoding=\"utf-8\"?>'' @ nl
     @ ''<feed xmlns=\"http://www.w3.org/2005/Atom\">'' @ nl
     @ ''  <title>'' @ escape title @ ''</title>'' @ nl
     @ ''  <id>'' @ escape self_url @ ''</id>'' @ nl
     @ ''  <link rel=\"self\" type=\"application/atom+xml\" href=\"'' @ escape self_url @ ''\"/>'' @ nl
     @ ''  <link rel=\"alternate\" type=\"text/html\" href=\"'' @ escape site_url @ ''/\"/>'' @ nl
     @ ''  <updated>'' @ fe_ts x (feed_updated now entries) @ ''</updated>'' @ nl
     @ ''  <author><name>RawDB</name></author>'' @ nl
     @ concat (map (entry_xml x) entries)
     @ ''</feed>'' @ nl"

section \<open>The endpoints\<close>

definition proxy_header :: "headers \<Rightarrow> string \<Rightarrow> string option" where
  "proxy_header hs name = (case header_text name hs of
       None \<Rightarrow> None
     | Some v \<Rightarrow> (let t = trim (hd (split_on (CHR '','') v)) in if t \<noteq> [] then Some t else None))"

text \<open>\<^verbatim>\<open>trim_end_matches('/')\<close>\<close>

definition trim_slashes :: "string \<Rightarrow> string" where
  "trim_slashes s = rev (dropWhile (\<lambda>c. c = slash) (rev s))"

definition base_url :: "string option \<Rightarrow> headers \<Rightarrow> string" where
  "base_url configured hs = (case not_blank configured of
       Some u \<Rightarrow> trim_slashes (trim u)
     | None \<Rightarrow>
         (let proto = (case proxy_header hs ''x-forwarded-proto'' of
                Some p \<Rightarrow> if p = ''http'' \<or> p = ''https'' then p else ''http'' | None \<Rightarrow> ''http'');
              host = (case proxy_header hs ''x-forwarded-host'' of Some h \<Rightarrow> h
                | None \<Rightarrow> (case proxy_header hs ''host'' of Some h \<Rightarrow> h | None \<Rightarrow> ''localhost''))
          in proto @ ''://'' @ host))"

definition published_feed :: "'s app \<Rightarrow> feed_ext \<Rightarrow> string \<Rightarrow> datetime \<Rightarrow> db \<Rightarrow> string" where
  "published_feed a x base now d =
     (let entries = List.map_filter (\<lambda>st. published_entry x base st (list_files (sr_maker st) (sr_model st) d)
            (file_tags (sr_maker st) (sr_model st) d)) (recent_sets (externals a) (feed_limit (app_config a)) d)
      in render_feed x now (feed_published_title (app_config a)) (base @ ''/api/feeds/published.atom'') base entries)"

definition pending_feed :: "'s app \<Rightarrow> feed_ext \<Rightarrow> string \<Rightarrow> datetime \<Rightarrow> db \<Rightarrow> string" where
  "pending_feed a x base now d =
     (let entries = map (\<lambda>row. pending_entry x base now row (list_pending_files (psr_upload_id row) d))
            (recent_pending (externals a) (feed_limit (app_config a)) d)
      in render_feed x now (feed_pending_title (app_config a)) (base @ ''/api/feeds/pending.atom'') base entries)"

definition published_endpoint :: "'s app \<Rightarrow> feed_ext \<Rightarrow> string \<Rightarrow> datetime \<Rightarrow> endpoint" where
  "published_endpoint a x base now = \<lparr>ep_name = ''feed_published'', ep_variant = base, ep_domains = [Sets],
     ep_render = (\<lambda>d. Inr (published_feed a x base now d))\<rparr>"

definition pending_feed_endpoint :: "'s app \<Rightarrow> feed_ext \<Rightarrow> string \<Rightarrow> datetime \<Rightarrow> endpoint" where
  "pending_feed_endpoint a x base now = \<lparr>ep_name = ''feed_pending'', ep_variant = base, ep_domains = [Pending],
     ep_render = (\<lambda>d. Inr (pending_feed a x base now d))\<rparr>"

definition serve_feed :: "'s app \<Rightarrow> endpoint \<Rightarrow> headers \<Rightarrow> ('s pod \<times> responses, app_error, response) cmd" where
  "serve_feed a ep hs = (\<lambda>(p, rs).
     case get_or_build a (ep_name ep) (ep_variant ep) (stamp (ep_domains ep) (cache p)) ATOM_CONTENT_TYPE
            (ep_render ep (cache p)) rs of
       (Inl e, rs') \<Rightarrow> (Inl e, (p, rs'))
     | (Inr c, rs') \<Rightarrow> (Inr (respond c (if_none_match_values hs) FEED_CACHE_CONTROL), (p, rs')))"

definition published :: "'s app \<Rightarrow> feed_ext \<Rightarrow> headers \<Rightarrow> ('s pod \<times> responses, app_error, response) cmd" where
  "published a x hs = (\<lambda>(p, rs).
     serve_feed a (published_endpoint a x (base_url (public_url (app_config a)) hs) (clock (app_s3 a) (world p))) hs (p, rs))"

definition pending :: "'s app \<Rightarrow> feed_ext \<Rightarrow> headers \<Rightarrow> ('s pod \<times> responses, app_error, response) cmd" where
  "pending a x hs = (\<lambda>(p, rs).
     serve_feed a (pending_feed_endpoint a x (base_url (public_url (app_config a)) hs) (clock (app_s3 a) (world p))) hs (p, rs))"

end
