(* ===== verification/Xml.thy ===== *)
theory Xml imports Strings begin

text \<open>
  A reader of the XML the feeds are written in: elements with quoted attributes, text and the five
  entities the writer uses. It yields the events of a document, byte for byte, and rejects stray markup
  characters, unknown entities and control characters. \<open>reads s ev\<close> says that a piece of text
  contributes exactly the events \<open>ev\<close> wherever it stands; pieces compose.
\<close>

datatype xml_event = Start string "(string \<times> string) list" | End string | Ch char

definition entities :: "(string \<times> char) list" where
  "entities = [(''&amp;'', CHR ''&''), (''&lt;'', CHR ''<''), (''&gt;'', CHR ''>''), (''&quot;'', CHR 0x22), (''&#39;'', CHR 0x27)]"

fun read_entity :: "(string \<times> char) list \<Rightarrow> string \<Rightarrow> (char \<times> string) option" where
  "read_entity [] s = None"
| "read_entity ((p, c) # es) s = (case strip_prefix p s of Some r \<Rightarrow> Some (c, r) | None \<Rightarrow> read_entity es s)"

definition control :: "char \<Rightarrow> bool" where
  "control c \<longleftrightarrow> byte c < 32 \<and> c \<notin> {CHR 0x09, CHR 0x0A, CHR 0x0D}"

definition read_char :: "string \<Rightarrow> (char \<times> string) option" where
  "read_char s = (case s of [] \<Rightarrow> None
     | c # r \<Rightarrow> if c = CHR ''<'' \<or> control c then None else if c = CHR ''&'' then read_entity entities s else Some (c, r))"

lemma read_entity_shorter: "read_entity es s = Some (c, r) \<Longrightarrow> \<forall>e\<in>set es. fst e \<noteq> [] \<Longrightarrow> length r < length s"
  by (induction es) (auto simp: strip_prefix_Some split: option.splits)

lemma read_char_shorter: "read_char s = Some (c, r) \<Longrightarrow> length r < length s"
proof -
  have "\<forall>e\<in>set entities. fst e \<noteq> []" by (simp add: entities_def)
  then show "read_char s = Some (c, r) \<Longrightarrow> length r < length s"
    by (auto simp: read_char_def dest: read_entity_shorter split: list.splits if_splits)
qed

function unescape :: "string \<Rightarrow> string option" where
  "unescape s = (if s = [] then Some [] else case read_char s of
       None \<Rightarrow> None | Some (c, r) \<Rightarrow> map_option ((#) c) (unescape r))"
  by auto
termination
  by (relation "measure length") (auto dest: read_char_shorter)

declare unescape.simps [simp del]

definition name_char :: "char \<Rightarrow> bool" where
  "name_char c \<longleftrightarrow> ascii_alnum c"

lemma split_once_shorter: "split_once c s = Some (a, b) \<Longrightarrow> length b < length s"
  by (auto simp: split_once_Some)

lemma strip_prefix_shorter: "strip_prefix p s = Some r \<Longrightarrow> length r \<le> length s"
  by (auto simp: strip_prefix_Some)

function attrs :: "string \<Rightarrow> ((string \<times> string) list \<times> bool \<times> string) option" where
  "attrs s = (case strip_prefix '' '' s of
       Some r \<Rightarrow> (case split_once (CHR ''='') r of None \<Rightarrow> None | Some (n, r1) \<Rightarrow>
         if n = [] \<or> \<not> list_all name_char n then None
         else (case strip_prefix [CHR 0x22] r1 of None \<Rightarrow> None | Some r2 \<Rightarrow>
           (case split_once (CHR 0x22) r2 of None \<Rightarrow> None | Some (v, r3) \<Rightarrow>
             (case unescape v of None \<Rightarrow> None | Some w \<Rightarrow>
               map_option (\<lambda>(as, e, t). ((n, w) # as, e, t)) (attrs r3)))))
     | None \<Rightarrow> (case strip_prefix ''/>'' s of Some t \<Rightarrow> Some ([], True, t)
         | None \<Rightarrow> (case strip_prefix ''>'' s of Some t \<Rightarrow> Some ([], False, t) | None \<Rightarrow> None)))"
  by auto
termination
  by (relation "measure length") (auto simp: strip_prefix_Some split_once_Some)

declare attrs.simps [simp del]

lemma attrs_shorter: "attrs s = Some (as, e, t) \<Longrightarrow> length t < length s"
proof (induction s arbitrary: as e t rule: attrs.induct)
  case (1 s)
  show ?case
  proof (cases "strip_prefix '' '' s")
    case None
    with "1.prems" show ?thesis by (subst (asm) attrs.simps) (auto simp: strip_prefix_Some split: option.splits)
  next
    case (Some r)
    with "1.prems" obtain n r1 r2 v r3 w as' where s: "split_once (CHR ''='') r = Some (n, r1)" "\<not> (n = [] \<or> \<not> list_all name_char n)"
        "strip_prefix [CHR 0x22] r1 = Some r2" "split_once (CHR 0x22) r2 = Some (v, r3)" "unescape v = Some w" "attrs r3 = Some (as', e, t)"
      by (subst (asm) attrs.simps) (auto split: option.splits if_splits)
    have "length t < length r3" by (rule "1.IH" [OF Some s(1) refl s(2,3,4) refl s(5,6)])
    moreover have "length r3 < length s" using Some s by (auto simp: strip_prefix_Some split_once_Some)
    ultimately show ?thesis by simp
  qed
qed

lemma opened_shorter: "attrs (dropWhile P r) = Some (as, e, t) \<Longrightarrow> length t < Suc (length r)"
  using length_dropWhile_le [of P r] attrs_shorter [of "dropWhile P r" as e t] by simp

lemma closed_shorter: "strip_prefix p (dropWhile P r1) = Some t \<Longrightarrow> strip_prefix q r = Some r1 \<Longrightarrow> length t < Suc (length r)"
  using length_dropWhile_le [of P r1] strip_prefix_shorter [of p "dropWhile P r1" t] strip_prefix_shorter [of q r r1] by simp

function events :: "string \<Rightarrow> xml_event list option" where
  "events s = (case s of [] \<Rightarrow> Some []
     | c # r \<Rightarrow>
         if c = CHR ''<''
         then (case strip_prefix ''/'' r of
             Some r1 \<Rightarrow> if takeWhile name_char r1 = [] then None
               else (case strip_prefix ''>'' (dropWhile name_char r1) of None \<Rightarrow> None
                 | Some t \<Rightarrow> map_option ((#) (End (takeWhile name_char r1))) (events t))
           | None \<Rightarrow> if takeWhile name_char r = [] then None
               else (case attrs (dropWhile name_char r) of None \<Rightarrow> None
                 | Some (as, e, t) \<Rightarrow> map_option (\<lambda>ev. Start (takeWhile name_char r) as # (if e then [End (takeWhile name_char r)] else []) @ ev)
                     (events t)))
         else (case read_char s of None \<Rightarrow> None | Some (d, t) \<Rightarrow> map_option ((#) (Ch d)) (events t)))"
  by auto
termination
  by (relation "measure length") (auto dest: opened_shorter closed_shorter read_char_shorter)

declare events.simps [simp del]

fun nested :: "string list \<Rightarrow> xml_event list \<Rightarrow> bool" where
  "nested st [] = (st = [])"
| "nested st (Start n as # es) = (distinct (map fst as) \<and> nested (n # st) es)"
| "nested st (End n # es) = (case st of [] \<Rightarrow> False | m # st' \<Rightarrow> m = n \<and> nested st' es)"
| "nested st (Ch c # es) = nested st es"

section \<open>Reading piece by piece\<close>

definition text_of :: "string \<Rightarrow> xml_event list" where
  "text_of s = map Ch s"

definition reads :: "string \<Rightarrow> xml_event list \<Rightarrow> bool" where
  "reads s ev \<longleftrightarrow> (\<forall>y. events (s @ y) = map_option ((@) ev) (events y))"

definition unescapes :: "string \<Rightarrow> string \<Rightarrow> bool" where
  "unescapes s w \<longleftrightarrow> (\<forall>y. unescape (s @ y) = map_option ((@) w) (unescape y))"

lemma prepend: "(@) [] = (\<lambda>r. r)" "(@) (a # s) = (\<lambda>r. a # s @ r)" "(@) (s @ t) = (\<lambda>r. s @ t @ r)"
  by (simp_all add: fun_eq_iff)

lemma reads_events: "reads s ev \<Longrightarrow> events s = Some ev"
  unfolding reads_def by (drule spec [of _ "[]"]) (simp add: events.simps [of "[]"])

lemma unescapes_unescape: "unescapes s w \<Longrightarrow> unescape s = Some w"
  unfolding unescapes_def by (drule spec [of _ "[]"]) (simp add: unescape.simps [of "[]"])

lemma reads_Nil [intro]: "reads [] []"
  by (simp add: reads_def prepend option.map_ident)

lemma unescapes_Nil [intro]: "unescapes [] []"
  by (simp add: unescapes_def prepend option.map_ident)

lemma reads_append [intro]: "reads s ev \<Longrightarrow> reads t fv \<Longrightarrow> reads (s @ t) (ev @ fv)"
  by (simp add: reads_def option.map_comp o_def prepend)

lemma unescapes_append [intro]: "unescapes s v \<Longrightarrow> unescapes t w \<Longrightarrow> unescapes (s @ t) (v @ w)"
  by (simp add: unescapes_def option.map_comp o_def prepend)

lemma reads_concat: "\<forall>x\<in>set xs. reads (f x) (g x) \<Longrightarrow> reads (concat (map f xs)) (concat (map g xs))"
  by (induction xs) auto

text \<open>A character that stands for itself, and an entity.\<close>

definition plain :: "char \<Rightarrow> bool" where
  "plain c \<longleftrightarrow> c \<noteq> CHR ''<'' \<and> c \<noteq> CHR ''&'' \<and> \<not> control c"

lemma read_text: "(\<And>y. read_char (s @ y) = Some (c, y)) \<Longrightarrow> s \<noteq> [] \<Longrightarrow> reads s [Ch c] \<and> unescapes s [c]"
proof -
  assume r: "\<And>y. read_char (s @ y) = Some (c, y)" and "s \<noteq> []"
  then obtain d t where s: "s = d # t" by (cases s) auto
  have d: "d \<noteq> CHR ''<''" using r [of "[]"] by (auto simp: read_char_def s split: if_splits)
  have "events (s @ y) = map_option ((@) [Ch c]) (events y)" for y
    using r [of y] d unfolding s by (subst events.simps) (simp add: prepend)
  moreover have "unescape (s @ y) = map_option ((@) [c]) (unescape y)" for y
    using r [of y] unfolding s by (subst unescape.simps) (simp add: prepend)
  ultimately show ?thesis unfolding reads_def unescapes_def by blast
qed

lemma plain_char: "plain c \<Longrightarrow> reads [c] [Ch c]" "plain c \<Longrightarrow> unescapes [c] [c]"
  using read_text [of "[c]" c] by (simp_all add: read_char_def plain_def)

lemma plain_text: "list_all plain s \<Longrightarrow> reads s (text_of s)"
  by (induction s) (use plain_char(1) reads_append in \<open>force simp: text_of_def\<close>)+

lemma plain_value: "list_all plain s \<Longrightarrow> unescapes s s"
  by (induction s) (use plain_char(2) unescapes_append in force)+

lemma entity_text: "(p, c) \<in> set entities \<Longrightarrow> reads p [Ch c]" "(p, c) \<in> set entities \<Longrightarrow> unescapes p [c]"
proof -
  have "read_char (p @ y) = Some (c, y) \<and> p \<noteq> []" if "(p, c) \<in> set entities" for y
    using that by (auto simp: entities_def read_char_def control_def byte_def)
  then show "(p, c) \<in> set entities \<Longrightarrow> reads p [Ch c]" "(p, c) \<in> set entities \<Longrightarrow> unescapes p [c]"
    using read_text [of p c] by blast+
qed

text \<open>Tags.\<close>

definition name_ok :: "string \<Rightarrow> bool" where
  "name_ok n \<longleftrightarrow> n \<noteq> [] \<and> list_all name_char n"

lemma name_split: "name_ok n \<Longrightarrow> \<not> name_char c \<Longrightarrow> takeWhile name_char (n @ c # y) = n \<and> dropWhile name_char (n @ c # y) = c # y"
  by (simp add: name_ok_def takeWhile_append2 dropWhile_append2 list_all_iff)

lemma no_name: "\<not> name_char (CHR ''>'')" "\<not> name_char (CHR '' '')" "\<not> name_char slash" "\<not> name_char (CHR ''='')"
  by code_simp+

definition open_tag :: "string \<Rightarrow> string" where "open_tag n = ''<'' @ n @ ''>''"
definition close_tag :: "string \<Rightarrow> string" where "close_tag n = ''</'' @ n @ ''>''"

lemma name_not_slash: "name_ok n \<Longrightarrow> strip_prefix ''/'' (n @ y) = None"
  using no_name(3) by (cases n) (auto simp: name_ok_def)

lemma reads_open: "name_ok n \<Longrightarrow> reads (open_tag n) [Start n []]"
proof -
  assume n: "name_ok n"
  have "attrs (CHR ''>'' # y) = Some ([], False, y)" for y by (subst attrs.simps) simp
  then have "events (open_tag n @ y) = map_option ((@) [Start n []]) (events y)" for y
    using name_split [OF n no_name(1), of y] name_not_slash [OF n] n
    unfolding open_tag_def by (subst events.simps) (auto simp: name_ok_def prepend)
  then show ?thesis by (simp add: reads_def)
qed

lemma reads_close: "name_ok n \<Longrightarrow> reads (close_tag n) [End n]"
proof -
  assume n: "name_ok n"
  have "events (close_tag n @ y) = map_option ((@) [End n]) (events y)" for y
    using name_split [OF n no_name(1), of y] n unfolding close_tag_def by (subst events.simps) (auto simp: name_ok_def prepend)
  then show ?thesis by (simp add: reads_def)
qed

text \<open>An attribute as it is written, and a tag with attributes.\<close>

definition attr_xml :: "string \<times> string \<Rightarrow> string" where
  "attr_xml a = '' '' @ fst a @ ''=\"'' @ snd a @ ''\"''"

definition attr_ok :: "string \<times> string \<Rightarrow> string \<times> string \<Rightarrow> bool" where
  "attr_ok a b \<longleftrightarrow> name_ok (fst a) \<and> fst b = fst a \<and> CHR 0x22 \<notin> set (snd a) \<and> unescape (snd a) = Some (snd b)"

lemma attrs_read:
  assumes "list_all2 attr_ok as bs" "e \<in> {''>'', ''/>''}"
  shows "attrs (concat (map attr_xml as) @ e @ y) = Some (bs, e = ''/>'', y)"
  using assms(1)
proof (induction as bs rule: list_all2_induct)
  case Nil
  then show ?case using assms(2) by (subst attrs.simps) auto
next
  case (Cons a as b bs)
  obtain n v w where ab: "a = (n, v)" "b = (n, w)" and n: "name_ok n" "CHR 0x22 \<notin> set v" "unescape v = Some w"
    using Cons(1) by (cases a; cases b) (auto simp: attr_ok_def)
  have "CHR ''='' \<notin> set n" using n(1) no_name(4) by (auto simp: name_ok_def list_all_iff)
  then have "split_once (CHR ''='') (n @ CHR ''='' # r) = Some (n, r)" for r by (simp add: split_once_Some)
  moreover have "split_once (CHR 0x22) (v @ CHR 0x22 # r) = Some (v, r)" for r using n(2) by (simp add: split_once_Some)
  ultimately show ?case
    using Cons.IH n unfolding list.map concat.simps ab attr_xml_def [of "(n, v)"] by (subst attrs.simps) (auto simp: name_ok_def)
qed

lemma reads_tag:
  assumes n: "name_ok n" and as: "list_all2 attr_ok as bs" "as \<noteq> []" and e: "e \<in> {''>'', ''/>''}"
  shows "reads (''<'' @ n @ concat (map attr_xml as) @ e) (Start n bs # (if e = ''/>'' then [End n] else []))"
proof -
  have "events ((''<'' @ n @ concat (map attr_xml as) @ e) @ y) = map_option ((@) (Start n bs # (if e = ''/>'' then [End n] else []))) (events y)" for y
  proof -
    obtain t where t: "concat (map attr_xml as) @ e @ y = CHR '' '' # t" using as(2) by (cases as) (auto simp: attr_xml_def)
    note split = name_split [OF n no_name(2), of t] and read = attrs_read [OF as(1) e, of y, unfolded t]
    have "events (CHR ''<'' # n @ CHR '' '' # t) = map_option ((@) (Start n bs # (if e = ''/>'' then [End n] else []))) (events y)"
      using split name_not_slash [OF n] n
      by (subst events.simps) (auto simp: read name_ok_def prepend)
    then show ?thesis by (simp add: t)
  qed
  then show ?thesis by (simp add: reads_def)
qed

end
