(* ===== verification/Feeds_Claims.thy ===== *)
theory Feeds_Claims imports Feeds Xml Response_Claims Data_Claims Sample_App begin

text \<open>The properties of the feeds: what a reader of XML gets out of them, and which sets they list.\<close>

section \<open>Escaped text\<close>

text \<open>A text without the characters XML forbids.\<close>

function printable :: "string \<Rightarrow> string" where
  "printable s = (case s of [] \<Rightarrow> []
     | c # r \<Rightarrow> (case strip_any noncharacters s of Some t \<Rightarrow> printable t
         | None \<Rightarrow> (if control c then [] else [c]) @ printable r))"
  by auto
termination
  by (relation "measure length") (auto dest: strip_any_length)

declare printable.simps [simp del]

lemma escape1_plain: "plain c \<Longrightarrow> c \<notin> {CHR ''>'', CHR 0x22, CHR 0x27} \<Longrightarrow> escape1 c = [c]"
  by (auto simp: escape1_def plain_def control_def)

lemma escape1_control: "control c \<Longrightarrow> escape1 c = []"
proof -
  assume c: "control c"
  then have "byte c < 32" by (simp add: control_def)
  then have "c \<notin> set ''&<>'' \<and> c \<noteq> CHR 0x22 \<and> c \<noteq> CHR 0x27" by (auto simp: byte_def)
  then show "escape1 c = []" using c by (auto simp: escape1_def control_def)
qed

lemma escape1_reads: "reads (escape1 c) (if control c then [] else [Ch c]) \<and> unescapes (escape1 c) (if control c then [] else [c])"
proof (cases "control c")
  case True
  then show ?thesis using escape1_control by auto
next
  case False
  show ?thesis
  proof (cases "\<exists>p. (p, c) \<in> set entities")
    case True
    then obtain p where p: "(p, c) \<in> set entities" by blast
    then have "escape1 c = p" by (auto simp: entities_def escape1_def)
    then show ?thesis using entity_text [OF p] False by simp
  next
    case no: False
    then have "plain c" "c \<notin> {CHR ''>'', CHR 0x22, CHR 0x27}" using False by (auto simp: entities_def plain_def)
    then show ?thesis using plain_char [of c] escape1_plain False by simp
  qed
qed

lemma escape_reads: "reads (escape s) (text_of (printable s)) \<and> unescapes (escape s) (printable s)"
proof (induction s rule: escape.induct)
  case (1 s)
  show ?case
  proof (cases s)
    case Nil
    then show ?thesis by (subst (1 2) escape.simps, subst (1 2) printable.simps) (auto simp: text_of_def)
  next
    case (Cons c r)
    show ?thesis
    proof (cases "strip_any noncharacters s")
      case (Some t)
      then have "escape s = escape t" "printable s = printable t"
        using Cons by (subst escape.simps, simp, subst printable.simps, simp)
      then show ?thesis using "1.IH"(2) [OF Cons Some] by simp
    next
      case None
      then have "escape s = escape1 c @ escape r" "printable s = (if control c then [] else [c]) @ printable r"
        using Cons by (subst escape.simps, simp, subst printable.simps, simp)
      moreover have "text_of ((if control c then [] else [c]) @ printable r) = (if control c then [] else [Ch c]) @ text_of (printable r)"
        by (simp add: text_of_def)
      ultimately show ?thesis using "1.IH"(1) [OF Cons None] escape1_reads [of c] by (metis reads_append unescapes_append)
    qed
  qed
qed

lemmas escaped = escape_reads [THEN conjunct1] escape_reads [THEN conjunct2]

lemma escape_set: "CHR ''<'' \<notin> set (escape s) \<and> CHR ''>'' \<notin> set (escape s) \<and> CHR 0x22 \<notin> set (escape s)"
proof (induction s rule: escape.induct)
  case (1 s)
  have "CHR ''<'' \<notin> set (escape1 c) \<and> CHR ''>'' \<notin> set (escape1 c) \<and> CHR 0x22 \<notin> set (escape1 c)" for c
    by (auto simp: escape1_def)
  then show ?case using 1 by (subst (1 2 3) escape.simps) (auto split: list.splits option.splits)
qed

section \<open>The feed read back\<close>

text \<open>The document a feed stands for, with the white space between its elements.\<close>

definition line :: "nat \<Rightarrow> xml_event list \<Rightarrow> xml_event list" where
  "line ind ev = text_of (replicate ind (CHR '' '')) @ ev @ text_of nl"

definition node :: "string \<Rightarrow> xml_event list \<Rightarrow> xml_event list" where
  "node n ev = [Start n []] @ ev @ [End n]"

definition leaf :: "string \<Rightarrow> (string \<times> string) list \<Rightarrow> xml_event list" where
  "leaf n as = [Start n as, End n]"

definition entry_body :: "feed_ext \<Rightarrow> feed_entry \<Rightarrow> xml_event list" where
  "entry_body x e =
     line 4 (node ''id'' (text_of (printable (fe_id e))))
     @ line 4 (node ''title'' (text_of (printable (fe_title e))))
     @ line 4 (leaf ''link'' [(''rel'', ''alternate''), (''type'', ''text/html''), (''href'', printable (fe_link e))])
     @ (case fe_published e of Some p \<Rightarrow> line 4 (node ''published'' (text_of (fe_ts x p))) | None \<Rightarrow> [])
     @ line 4 (node ''updated'' (text_of (fe_ts x (fe_updated e))))
     @ (case not_blank (fe_author e) of Some a \<Rightarrow> line 4 (node ''author'' (node ''name'' (text_of (printable a)))) | None \<Rightarrow> [])
     @ line 4 ([Start ''content'' [(''type'', ''html'')]] @ text_of (printable (fe_html e)) @ [End ''content''])"

definition entry_events :: "feed_ext \<Rightarrow> feed_entry \<Rightarrow> xml_event list" where
  "entry_events x e = line 2 [Start ''entry'' []] @ entry_body x e @ line 2 [End ''entry'']"

definition feed_body :: "feed_ext \<Rightarrow> datetime \<Rightarrow> string \<Rightarrow> string \<Rightarrow> string \<Rightarrow> feed_entry list \<Rightarrow> xml_event list" where
  "feed_body x now title self_url site_url entries =
     line 2 (node ''title'' (text_of (printable title)))
     @ line 2 (node ''id'' (text_of (printable self_url)))
     @ line 2 (leaf ''link'' [(''rel'', ''self''), (''type'', ''application/atom+xml''), (''href'', printable self_url)])
     @ line 2 (leaf ''link'' [(''rel'', ''alternate''), (''type'', ''text/html''), (''href'', printable site_url @ ''/'')])
     @ line 2 (node ''updated'' (text_of (fe_ts x (feed_updated now entries))))
     @ line 2 (node ''author'' (node ''name'' (text_of ''RawDB'')))
     @ concat (map (entry_events x) entries)"

definition feed_events :: "feed_ext \<Rightarrow> datetime \<Rightarrow> string \<Rightarrow> string \<Rightarrow> string \<Rightarrow> feed_entry list \<Rightarrow> xml_event list" where
  "feed_events x now title self_url site_url entries =
     text_of nl @ line 0 [Start ''feed'' [(''xmlns'', ''http://www.w3.org/2005/Atom'')]]
     @ feed_body x now title self_url site_url entries @ line 0 [End ''feed'']"

text \<open>The same lines as they are written.\<close>

definition line_xml :: "nat \<Rightarrow> string \<Rightarrow> string" where
  "line_xml ind s = replicate ind (CHR '' '') @ s @ nl"

definition node_xml :: "string \<Rightarrow> string \<Rightarrow> string" where
  "node_xml n s = open_tag n @ s @ close_tag n"

definition tag_xml :: "string \<Rightarrow> (string \<times> string) list \<Rightarrow> string \<Rightarrow> string" where
  "tag_xml n as e = ''<'' @ n @ concat (map attr_xml as) @ e"

lemma white_plain: "plain (CHR '' '')" "list_all plain nl"
  by code_simp+

lemma reads_line: "reads s ev \<Longrightarrow> reads (line_xml ind s) (line ind ev)"
  unfolding line_xml_def line_def
  by (intro reads_append plain_text) (use white_plain in \<open>auto simp: list_all_iff\<close>)

lemma reads_node: "name_ok n \<Longrightarrow> reads s ev \<Longrightarrow> reads (node_xml n s) (node n ev)"
  unfolding node_xml_def node_def by (intro reads_append reads_open reads_close)

lemma reads_leaf: "name_ok n \<Longrightarrow> list_all2 attr_ok as bs \<Longrightarrow> as \<noteq> [] \<Longrightarrow> reads (tag_xml n as ''/>'') (leaf n bs)"
  using reads_tag [of n as bs "''/>''"] by (simp add: tag_xml_def leaf_def)

lemma reads_start: "name_ok n \<Longrightarrow> list_all2 attr_ok as bs \<Longrightarrow> as \<noteq> [] \<Longrightarrow> reads (tag_xml n as ''>'') [Start n bs]"
  using reads_tag [of n as bs "''>''"] by (simp add: tag_xml_def)

lemma attr_fixed: "name_ok n \<Longrightarrow> list_all plain v \<Longrightarrow> CHR 0x22 \<notin> set v \<Longrightarrow> attr_ok (n, v) (n, v)"
  using unescapes_unescape [OF plain_value [of v]] by (simp add: attr_ok_def)

lemma attr_escaped: "name_ok n \<Longrightarrow> attr_ok (n, escape v) (n, printable v)"
  using unescapes_unescape [OF escaped(2) [of v]] escape_set [of v] by (simp add: attr_ok_def)

lemma attr_escaped_slash: "name_ok n \<Longrightarrow> attr_ok (n, escape v @ ''/'') (n, printable v @ ''/'')"
proof -
  have "list_all plain ''/''" by code_simp
  then show "name_ok n \<Longrightarrow> ?thesis"
    using unescapes_unescape [OF unescapes_append [OF escaped(2) [of v] plain_value [of "''/''"]]] escape_set [of v] by (simp add: attr_ok_def)
qed

lemma feed_names:
  "name_ok ''feed''" "name_ok ''title''" "name_ok ''id''" "name_ok ''link''" "name_ok ''updated''" "name_ok ''author''" "name_ok ''name''" "name_ok ''entry''" "name_ok ''published''" "name_ok ''content''" "name_ok ''rel''" "name_ok ''type''" "name_ok ''href''" "name_ok ''xmlns''"
  by code_simp+

lemma fixed_attrs: "list_all (\<lambda>a. attr_ok a a) [(''rel'', ''alternate''), (''type'', ''text/html''), (''rel'', ''self''),
    (''type'', ''application/atom+xml''), (''xmlns'', ''http://www.w3.org/2005/Atom''), (''type'', ''html'')]"
  by code_simp

lemma fixed_values: "list_all plain ''RawDB''"
  by code_simp

lemma entry_lines: "entry_xml x e =
     line_xml 2 (open_tag ''entry'')
     @ line_xml 4 (node_xml ''id'' (escape (fe_id e)))
     @ line_xml 4 (node_xml ''title'' (escape (fe_title e)))
     @ line_xml 4 (tag_xml ''link'' [(''rel'', ''alternate''), (''type'', ''text/html''), (''href'', escape (fe_link e))] ''/>'')
     @ (case fe_published e of Some p \<Rightarrow> line_xml 4 (node_xml ''published'' (fe_ts x p)) | None \<Rightarrow> [])
     @ line_xml 4 (node_xml ''updated'' (fe_ts x (fe_updated e)))
     @ (case not_blank (fe_author e) of Some a \<Rightarrow> line_xml 4 (node_xml ''author'' (node_xml ''name'' (escape a))) | None \<Rightarrow> [])
     @ line_xml 4 (tag_xml ''content'' [(''type'', ''html'')] ''>'' @ escape (fe_html e) @ close_tag ''content'')
     @ line_xml 2 (close_tag ''entry'')"
  by (simp add: entry_xml_def line_xml_def node_xml_def tag_xml_def open_tag_def close_tag_def attr_xml_def numeral_eq_Suc split: option.split)

lemma feed_lines: "render_feed x now title self_url site_url entries = ''<?xml version=\"1.0\" encoding=\"utf-8\"?>'' @
    (nl
     @ line_xml 0 (tag_xml ''feed'' [(''xmlns'', ''http://www.w3.org/2005/Atom'')] ''>'')
     @ line_xml 2 (node_xml ''title'' (escape title))
     @ line_xml 2 (node_xml ''id'' (escape self_url))
     @ line_xml 2 (tag_xml ''link'' [(''rel'', ''self''), (''type'', ''application/atom+xml''), (''href'', escape self_url)] ''/>'')
     @ line_xml 2 (tag_xml ''link'' [(''rel'', ''alternate''), (''type'', ''text/html''), (''href'', escape site_url @ ''/'')] ''/>'')
     @ line_xml 2 (node_xml ''updated'' (fe_ts x (feed_updated now entries)))
     @ line_xml 2 (node_xml ''author'' (node_xml ''name'' ''RawDB''))
     @ concat (map (entry_xml x) entries)
     @ line_xml 0 (close_tag ''feed''))"
  by (simp add: render_feed_def line_xml_def node_xml_def tag_xml_def open_tag_def close_tag_def attr_xml_def numeral_eq_Suc)


definition ts_ok :: "feed_ext \<Rightarrow> bool" where
  "ts_ok x \<longleftrightarrow> (\<forall>t. list_all plain (fe_ts x t))"

lemma entry_reads: "ts_ok x \<Longrightarrow> reads (entry_xml x e) (entry_events x e)"
  unfolding entry_lines entry_events_def entry_body_def append_assoc
  using fixed_attrs
  by (intro reads_append reads_line reads_node reads_leaf reads_start reads_open reads_close feed_names escaped(1))
    (auto simp: ts_ok_def attr_escaped feed_names split: option.split
      intro!: reads_line reads_node plain_text escaped(1) feed_names)

text \<open>Events that leave the open elements as they are.\<close>

definition closed :: "xml_event list \<Rightarrow> bool" where
  "closed ev \<longleftrightarrow> (\<forall>st rest. nested st (ev @ rest) = nested st rest)"

lemma closed_simps [simp]: "closed []" "closed ev \<Longrightarrow> closed fv \<Longrightarrow> closed (ev @ fv)" "closed (text_of s)"
proof -
  show "closed (text_of s)" by (induction s) (simp_all add: closed_def text_of_def)
qed (simp_all add: closed_def)

lemma closed_concat: "\<forall>x\<in>set xs. closed (g x) \<Longrightarrow> closed (concat (map g xs))"
  by (induction xs) auto

lemma closed_node: "closed ev \<Longrightarrow> closed (node n ev)"
  by (simp add: closed_def node_def)

lemma closed_leaf: "distinct (map fst as) \<Longrightarrow> closed (leaf n as)"
  by (simp add: closed_def leaf_def)

lemma closed_line: "closed ev \<Longrightarrow> closed (line ind ev)"
  unfolding line_def by (intro closed_simps)

lemma closed_nested: "closed ev \<Longrightarrow> nested [] ev"
  unfolding closed_def using nested.simps(1) by (metis append_Nil2)

lemma white_nested: "nested st (text_of s @ rest) = nested st rest"
  using closed_simps(3) [of s] by (simp add: closed_def)

lemma between: "closed ev \<Longrightarrow> distinct (map fst as) \<Longrightarrow> closed (line i [Start n as] @ ev @ line i [End n])"
  unfolding closed_def line_def by (simp add: white_nested)

lemma entry_closed: "closed (entry_events x e)"
proof -
  have content: "closed ([Start ''content'' [(''type'', ''html'')]] @ text_of h @ [End ''content''])" for h
    by (simp add: closed_def white_nested)
  have "closed (entry_body x e)"
    unfolding entry_body_def
    by (intro closed_simps closed_line closed_node closed_leaf content)
      (auto split: option.split intro!: closed_line closed_node)
  then show ?thesis unfolding entry_events_def by (intro between) simp_all
qed

text \<open>
  C5. Whatever users typed, a reader of XML gets exactly the intended document out of a feed: after the XML
  declaration the rendered bytes are well-formed and properly nested, and the events read from them
  are those of the feed's fixed elements with the title, the URLs, the times, the authors and the
  HTML bodies in their places, each as it was given, but for the control characters and
  noncharacters that XML forbids. No text can end an element, open another or add an attribute.
\<close>

theorem feed_reads_back:
  assumes "ts_ok x"
  shows "\<exists>body. render_feed x now title self_url site_url entries = ''<?xml version=\"1.0\" encoding=\"utf-8\"?>'' @ body
    \<and> events body = Some (feed_events x now title self_url site_url entries)
    \<and> nested [] (feed_events x now title self_url site_url entries)"
proof -
  let ?ev = "feed_events x now title self_url site_url entries"
  let ?body = "nl @ line_xml 0 (tag_xml ''feed'' [(''xmlns'', ''http://www.w3.org/2005/Atom'')] ''>'')
     @ line_xml 2 (node_xml ''title'' (escape title))
     @ line_xml 2 (node_xml ''id'' (escape self_url))
     @ line_xml 2 (tag_xml ''link'' [(''rel'', ''self''), (''type'', ''application/atom+xml''), (''href'', escape self_url)] ''/>'')
     @ line_xml 2 (tag_xml ''link'' [(''rel'', ''alternate''), (''type'', ''text/html''), (''href'', escape site_url @ ''/'')] ''/>'')
     @ line_xml 2 (node_xml ''updated'' (fe_ts x (feed_updated now entries)))
     @ line_xml 2 (node_xml ''author'' (node_xml ''name'' ''RawDB''))
     @ concat (map (entry_xml x) entries)
     @ line_xml 0 (close_tag ''feed'')"
  have entries: "reads (concat (map (entry_xml x) entries)) (concat (map (entry_events x) entries))"
    by (rule reads_concat) (use entry_reads [OF assms] in blast)
  have ev: "events ?body = Some ?ev"
    unfolding feed_events_def feed_body_def append_assoc
    using fixed_attrs assms
    by (intro reads_events reads_append reads_line reads_node reads_leaf reads_start reads_close feed_names escaped(1) entries plain_text white_plain fixed_values)
      (auto simp: ts_ok_def attr_escaped attr_escaped_slash feed_names)
  have "closed (concat (map (entry_events x) entries))"
    by (rule closed_concat) (simp add: entry_closed)
  then have "closed (feed_body x now title self_url site_url entries)"
    unfolding feed_body_def by (intro closed_simps(2,3) closed_line closed_node closed_leaf) simp_all
  then have nest: "nested [] ?ev"
    unfolding feed_events_def by (intro closed_nested closed_simps(2,3) between) simp_all
  show ?thesis
    using conjI [OF feed_lines [of x now title self_url site_url entries] conjI [OF ev nest]] by (rule exI)
qed


definition sample_feed :: feed_ext where
  "sample_feed = \<lparr>fe_encode = (\<lambda>s. s), fe_ts = (\<lambda>t. ''2024-05-01T12:00:00Z'')\<rparr>"

theorem feed_reads_back_witness:
  "\<exists>body. render_feed sample_feed 7 ''</title><entry>'' ''http://a\"b'' ''http://a'' [] = ''<?xml version=\"1.0\" encoding=\"utf-8\"?>'' @ body
    \<and> events body = Some (feed_events sample_feed 7 ''</title><entry>'' ''http://a\"b'' ''http://a'' [])
    \<and> nested [] (feed_events sample_feed 7 ''</title><entry>'' ''http://a\"b'' ''http://a'' [])"
proof (rule feed_reads_back)
  have "list_all plain ''2024-05-01T12:00:00Z''" by code_simp
  then show "ts_ok sample_feed" by (simp add: ts_ok_def sample_feed_def)
qed

section \<open>The HTML bodies\<close>

text \<open>
  \<open>markup base i o s\<close>: read after the open elements \<open>i\<close> the piece \<open>s\<close> leaves \<open>o\<close> open, and
  every element it starts is one of the template's: without attributes, or a link below \<open>base\<close>.
\<close>

definition template_event :: "string \<Rightarrow> xml_event \<Rightarrow> bool" where
  "template_event base ev = (case ev of
     Start n as \<Rightarrow> n \<in> {''p'', ''ul'', ''li'', ''strong'', ''h3'', ''br''} \<and> as = []
       \<or> n = ''a'' \<and> (\<exists>rest. as = [(''href'', printable (base @ rest))])
   | _ \<Rightarrow> True)"

definition markup :: "string \<Rightarrow> string list \<Rightarrow> string list \<Rightarrow> string \<Rightarrow> bool" where
  "markup base i o' s \<longleftrightarrow> (\<exists>ev. reads s ev \<and> (\<forall>st rest. nested (i @ st) (ev @ rest) = nested (o' @ st) rest)
     \<and> list_all (template_event base) ev)"

lemma markup_append [intro]: "markup base i m s \<Longrightarrow> markup base m o' t \<Longrightarrow> markup base i o' (s @ t)"
proof -
  assume "markup base i m s" "markup base m o' t"
  then obtain ev fv where "reads s ev" "\<forall>st rest. nested (i @ st) (ev @ rest) = nested (m @ st) rest"
      "list_all (template_event base) ev" "reads t fv" "\<forall>st rest. nested (m @ st) (fv @ rest) = nested (o' @ st) rest"
      "list_all (template_event base) fv"
    unfolding markup_def by blast
  then show "markup base i o' (s @ t)"
    unfolding markup_def by (intro exI [of _ "ev @ fv"]) (auto intro: reads_append)
qed

lemma markup_text: "reads s (text_of t) \<Longrightarrow> markup base i i s"
proof -
  have "list_all (template_event base) (text_of t)" by (simp add: text_of_def list_all_iff template_event_def)
  then show "reads s (text_of t) \<Longrightarrow> markup base i i s" unfolding markup_def by (auto simp: white_nested)
qed

lemma markup_plain: "list_all plain s \<Longrightarrow> markup base i i s"
  by (rule markup_text) (rule plain_text)

lemma markup_Nil [simp]: "markup base i i []"
  by (rule markup_plain) simp

lemma markup_escape [intro]: "markup base i i (escape s)"
  by (rule markup_text) (rule escaped(1))

lemma markup_open: "n \<in> {''p'', ''ul'', ''li'', ''strong'', ''h3''} \<Longrightarrow> markup base i (n # i) (open_tag n)"
proof -
  have "\<forall>m\<in>{''p'', ''ul'', ''li'', ''strong'', ''h3''}. name_ok m" by code_simp
  then show "n \<in> {''p'', ''ul'', ''li'', ''strong'', ''h3''} \<Longrightarrow> markup base i (n # i) (open_tag n)"
    unfolding markup_def by (intro exI [of _ "[Start n []]"]) (auto simp: template_event_def intro: reads_open)
qed

lemma markup_close: "n \<in> {''p'', ''ul'', ''li'', ''strong'', ''h3'', ''a''} \<Longrightarrow> markup base (n # i) i (close_tag n)"
proof -
  have "\<forall>m\<in>{''p'', ''ul'', ''li'', ''strong'', ''h3'', ''a''}. name_ok m" by code_simp
  then show "n \<in> {''p'', ''ul'', ''li'', ''strong'', ''h3'', ''a''} \<Longrightarrow> markup base (n # i) i (close_tag n)"
    unfolding markup_def by (intro exI [of _ "[End n]"]) (auto simp: template_event_def intro: reads_close)
qed

lemma markup_break: "markup base i i ''<br/>''"
proof -
  have "takeWhile name_char (''br'' @ CHR ''/'' # y) = ''br'' \<and> dropWhile name_char (''br'' @ CHR ''/'' # y) = CHR ''/'' # y" for y
    by (rule name_split) code_simp+
  moreover have "attrs (CHR ''/'' # CHR ''>'' # y) = Some ([], True, y)" for y by (subst attrs.simps) simp
  ultimately have "reads ''<br/>'' [Start ''br'' [], End ''br'']"
    unfolding reads_def by (intro allI, subst events.simps) (simp add: prepend)
  then show ?thesis unfolding markup_def by (intro exI [of _ "[Start ''br'' [], End ''br'']"]) (simp add: template_event_def)
qed

lemma markup_link: "markup base i (''a'' # i) (''<a href=\"'' @ escape (base @ u) @ ''\">'')"
proof -
  have "reads (tag_xml ''a'' [(''href'', escape (base @ u))] ''>'') [Start ''a'' [(''href'', printable (base @ u))]]"
    by (rule reads_start, code_simp) (simp_all add: attr_escaped feed_names)
  then show ?thesis
    unfolding markup_def
    by (intro exI [of _ "[Start ''a'' [(''href'', printable (base @ u))]]"]) (auto simp: template_event_def tag_xml_def attr_xml_def)
qed

text \<open>The pieces of the bodies.\<close>

lemma escape1_markup: "markup base i i (escape1 c)"
proof -
  have "reads (escape1 c) (text_of (if control c then [] else [c]))" 
    using escape1_reads [of c] by (auto simp: text_of_def split: if_splits)
  then show ?thesis by (rule markup_text)
qed

lemma multiline_markup: "markup base i i (multiline s)"
proof -
  have one: "markup base i i (replace_char (CHR 0x0A) ''<br/>'' (escape1 c))" for c
  proof (cases "c = CHR 0x0A")
    case True
    then show ?thesis using markup_break by (simp add: escape1_def)
  next
    case False
    then have "CHR 0x0A \<notin> set (escape1 c)" by (auto simp: escape1_def)
    then show ?thesis using escape1_markup by (simp add: replace_char_id)
  qed
  have "markup base i i (replace_char (CHR 0x0A) ''<br/>'' (escape t))" for t
  proof (induction t rule: escape.induct)
    case (1 t)
    show ?case
    proof (cases t)
      case (Cons c r)
      then show ?thesis
        using 1 one [of c] by (subst escape.simps) (auto split: option.split)
    qed (subst escape.simps, simp)
  qed
  then show ?thesis by (simp add: multiline_def)
qed

lemma plain_dec: "list_all plain (dec n)"
proof (induction n rule: dec.induct)
  case (1 n)
  have "plain (char_of (48 + m))" if "m < 10" for m :: nat
  proof -
    have "m \<in> {0, 1, 2, 3, 4, 5, 6, 7, 8, 9}" using that by auto
    then show ?thesis by (elim insertE emptyE; hypsubst; code_simp)
  qed
  then show ?case using 1 by (subst dec.simps) simp
qed

lemma pick_unit_unit: "us \<noteq> [] \<Longrightarrow> snd (pick_unit r d us) \<in> set us"
  by (induction r d us rule: pick_unit.induct) auto

lemma plain_size: "list_all plain (human_size n)"
proof -
  have fixed: "list_all plain '' B''" "list_all plain '' ''" "list_all plain ''.''" by code_simp+
  have "\<forall>u\<in>set [''KB'', ''MB'', ''GB'', ''TB'']. list_all plain u" by code_simp
  then have unit: "list_all plain (snd (pick_unit r 1024 [''KB'', ''MB'', ''GB'', ''TB'']))" for r
    using pick_unit_unit [of "[''KB'', ''MB'', ''GB'', ''TB'']" r 1024] by blast
  have num: "list_all plain (dec a @ '' '' @ u)" "list_all plain (dec a @ ''.'' @ dec b @ '' '' @ u)" if "list_all plain u" for a b u
    using that fixed plain_dec by (auto simp: list_all_iff)
  show ?thesis
  proof (cases "n < 1024")
    case True
    then show ?thesis using fixed(1) plain_dec [of n] by (simp add: human_size_def)
  next
    case False
    obtain d u where du: "pick_unit (as_f64 n) 1024 [''KB'', ''MB'', ''GB'', ''TB''] = (d, u)" by (cases "pick_unit (as_f64 n) 1024 [''KB'', ''MB'', ''GB'', ''TB'']")
    have "list_all plain u" using unit [of "as_f64 n"] du by simp
    then show ?thesis using False num unfolding human_size_def Let_def du by simp
  qed
qed

lemma markup_element:
  "n \<in> {''p'', ''ul'', ''li'', ''strong'', ''h3''} \<Longrightarrow> markup base (n # i) (n # i) s \<Longrightarrow> markup base i i (open_tag n @ s @ close_tag n)"
  by (intro markup_append [OF markup_open] markup_append [of base "n # i" "n # i" s i "close_tag n"] markup_close) auto

lemmas markup_seq = markup_append [where m = i and i = i and o' = i for i]

lemma markup_if: "markup base i i s \<Longrightarrow> markup base i i (if P then s else [])"
  by simp

lemma concat_markup: "\<forall>x\<in>set xs. markup base i i (f x) \<Longrightarrow> markup base i i (concat (map f xs))"
  by (induction xs) auto

lemma item_markup: "list_all plain (fst it) \<Longrightarrow> markup base (''li'' # i) (''li'' # i) (snd it) \<Longrightarrow> markup base i i (item_html it)"
proof -
  assume l: "list_all plain (fst it)" and v: "markup base (''li'' # i) (''li'' # i) (snd it)"
  have fixed: "list_all plain '':''" "list_all plain '' ''" by code_simp+
  have label: "markup base j j (open_tag ''strong'' @ (fst it @ '':'') @ close_tag ''strong'')" for j
    by (intro markup_element markup_seq markup_plain l fixed) simp
  have split: "item_html it = open_tag ''li'' @ ((open_tag ''strong'' @ (fst it @ '':'') @ close_tag ''strong'') @ '' '' @ snd it) @ close_tag ''li''"
    by (cases it) (simp add: item_html_def open_tag_def close_tag_def)
  show ?thesis
    unfolding split by (rule markup_element, simp) (intro markup_seq label markup_plain fixed v)
qed

lemma item_labels: "list_all (list_all plain) [''Maker'', ''Model'', ''Type'', ''Files'', ''Categories'', ''License'', ''Uploaded by'', ''Note'', ''Non-camera set'']"
  by code_simp

lemma summary_markup: "markup base i i (summary_html s fs)"
proof -
  have "\<forall>it\<in>set (summary_items s fs). list_all plain (fst it) \<and> markup base (''li'' # ''ul'' # i) (''li'' # ''ul'' # i) (snd it)"
    using item_labels markup_plain [of "''Non-camera set''"] unfolding summary_items_def Let_def
    by (auto intro!: multiline_markup markup_escape split: option.splits)
  then have items: "markup base (''ul'' # i) (''ul'' # i) (concat (map item_html (summary_items s fs)))"
    by (intro concat_markup ballI item_markup) auto
  have split: "summary_html s fs = open_tag ''ul'' @ concat (map item_html (summary_items s fs)) @ close_tag ''ul''"
    by (simp add: summary_html_def open_tag_def close_tag_def)
  show ?thesis unfolding split by (rule markup_element [OF _ items]) simp
qed

lemma file_markup: "markup base i i (file_html x base s tg f)"
proof -
  have fixed: "list_all plain '' (''" "list_all plain '')''" "list_all plain em_dash" "list_all plain ''Tags: ''" by code_simp+
  define u where "u = ''/api/download/'' @ fe_encode x (fs_maker s) @ ''/'' @ fe_encode x (fs_model s) @ ''/''
    @ join ''/'' (map (fe_encode x) (split_on slash (fr_path f)))"
  define nm where "nm = (case split_once slash (fr_path f) of Some (_, rest) \<Rightarrow> rest | None \<Rightarrow> fr_path f)"
  have link: "markup base j j ((''<a href=\"'' @ escape (base @ u) @ ''\">'') @ escape nm @ close_tag ''a'')" for j
    by (rule markup_append [OF markup_link markup_append [OF markup_escape markup_close]]) simp
  have note': "markup base j j (case not_blank (fr_notes f) of Some n \<Rightarrow> em_dash @ multiline n | None \<Rightarrow> [])" for j
    using markup_plain [OF fixed(3)] by (cases "not_blank (fr_notes f)") (auto intro!: multiline_markup)
  have split: "file_html x base s tg f = open_tag ''li''
    @ (((''<a href=\"'' @ escape (base @ u) @ ''\">'') @ escape nm @ close_tag ''a'') @ '' ('' @ human_size (fr_size f) @ '')''
      @ (case not_blank (fr_notes f) of Some n \<Rightarrow> em_dash @ multiline n | None \<Rightarrow> [])
      @ (if tg (fr_path f) \<noteq> [] then ''<br/>'' @ ''Tags: '' @ escape (join '', '' (tg (fr_path f))) else []))
    @ close_tag ''li''"
    unfolding file_html_def u_def nm_def Let_def open_tag_def close_tag_def by simp
  show ?thesis
    unfolding split
    by (rule markup_element, simp)
      (intro markup_seq link note' markup_if markup_escape markup_break markup_plain plain_size fixed)
qed

lemma files_markup: "markup base ((if cat = None then [] else [''ul'']) @ i) i (files_html x base s tg cat fs)"
proof (induction fs arbitrary: cat)
  case Nil
  have "markup base (''ul'' # i) i (close_tag ''ul'')" by (rule markup_close) simp
  then show ?case by (simp add: close_tag_def)
next
  case (Cons f fs)
  let ?c = "Some (fr_category f)"
  have rest: "markup base (''ul'' # i) i (file_html x base s tg f @ files_html x base s tg ?c fs)"
    using Cons.IH [of ?c] by (intro markup_append [OF file_markup]) simp
  have head: "markup base i (''ul'' # i) ((open_tag ''h3'' @ escape (fr_category f) @ close_tag ''h3'') @ open_tag ''ul'')"
    by (intro markup_append [OF markup_element markup_open] markup_escape) simp_all
  have close: "markup base ((if cat = None then [] else [''ul'']) @ i) i (if cat \<noteq> None then close_tag ''ul'' else [])"
    using markup_close [of "''ul''" base i] by simp
  show ?case
  proof (cases "cat = ?c")
    case True
    then show ?thesis using rest by simp
  next
    case False
    have split: "files_html x base s tg cat (f # fs) = ((if cat \<noteq> None then close_tag ''ul'' else [])
        @ (open_tag ''h3'' @ escape (fr_category f) @ close_tag ''h3'') @ open_tag ''ul'')
        @ file_html x base s tg f @ files_html x base s tg ?c fs"
      using False by (simp add: open_tag_def close_tag_def)
    show ?thesis unfolding split by (rule markup_append [OF markup_append [OF close head] rest])
  qed
qed

text \<open>
  C22. No text of an upload or a set becomes markup in a feed: the HTML of an entry, published or pending, is read
  back as properly nested events whose elements are all the template's, without attributes but for
  the links, whose address starts with the site's own URL. Notes, makers, tags, paths and names stay text.
\<close>

theorem feed_html_inert:
  fixes x :: feed_ext
  assumes body: "html = published_html x base s fs tg \<or> html = pending_html s fs"
  shows "\<exists>ev. events html = Some ev \<and> nested [] ev \<and> list_all (template_event base) ev"
proof -
  obtain t where t: "list_all plain t" "pending_html s fs = (open_tag ''p'' @ t @ close_tag ''p'') @ summary_html s fs"
  proof
    show "list_all plain (''A new set was uploaded and is waiting for review. Its files are not '' @ ''publicly available until it has been reviewed and approved.'')"
      by code_simp
  qed (simp add: pending_html_def open_tag_def close_tag_def)
  have "markup base [] [] (pending_html s fs)"
    unfolding t(2) by (intro markup_append [OF markup_element summary_markup] markup_plain t(1)) simp
  moreover have "markup base [] [] (published_html x base s fs tg)"
    using markup_append [OF summary_markup files_markup [of base None "[]"]] by (simp add: published_html_def)
  ultimately have "markup base [] [] html" using body by auto
  then show ?thesis
    unfolding markup_def using reads_events by (metis append_Nil append_Nil2 nested.simps(1))
qed

definition evil_file :: file_row where
  "evil_file = \<lparr>fr_path = ''raw/\"><script>'', fr_category = ''raw'', fr_extension = None, fr_size = 3, fr_license = None,
     fr_notes = Some ''<img src=x onerror=alert(1)>'', fr_sha256 = None\<rparr>"

definition evil_summary :: feed_summary where
  "evil_summary = \<lparr>fs_maker = ''<b>'', fs_model = ''</ul>'', fs_license = ''CC0'', fs_uploaded_by = None, fs_notes = Some ''&'', fs_special = False\<rparr>"

theorem feed_html_inert_witness:
  "\<exists>ev. events (published_html sample_feed ''http://a'' evil_summary [evil_file] (\<lambda>_. [''<t>''])) = Some ev
    \<and> nested [] ev \<and> list_all (template_event ''http://a'') ev"
  by (rule feed_html_inert [where x = sample_feed and base = "''http://a''" and s = evil_summary and fs = "[evil_file]" and tg = "\<lambda>_. [''<t>'']"]) simp

section \<open>Which sets a feed lists\<close>

definition set_id :: "feed_ext \<Rightarrow> string \<Rightarrow> string \<times> string \<Rightarrow> string" where
  "set_id x base k = base @ ''/sets/'' @ fe_encode x (fst k) @ ''/'' @ fe_encode x (snd k)"

definition encode_ok :: "feed_ext \<Rightarrow> bool" where
  "encode_ok x \<longleftrightarrow> inj (fe_encode x) \<and> (\<forall>s. slash \<notin> set (fe_encode x s) \<and> CHR ''#'' \<notin> set (fe_encode x s))"

lemma entry_id: "published_entry x base st fs tg = Some e \<Longrightarrow>
  \<exists>at. sr_approved_initial_at st = Some at \<and> fe_id e = set_id x base (sr_maker st, sr_model st) @ ''#published-'' @ fe_ts x at
    \<and> fe_published e = Some at \<and> fe_updated e = at"
  by (auto simp: published_entry_def set_id_def Let_def split: option.splits)

lemma id_inj:
  assumes "encode_ok x" "set_id x base k @ ''#published-'' @ s = set_id x base l @ ''#published-'' @ t"
  shows "k = l"
proof -
  have free: "slash \<notin> set (fe_encode x u)" "CHR ''#'' \<notin> set (fe_encode x u)" for u using assms(1) by (simp_all add: encode_ok_def)
  have ids: "fe_encode x (fst k) @ slash # fe_encode x (snd k) @ CHR ''#'' # ''published-'' @ s
      = fe_encode x (fst l) @ slash # fe_encode x (snd l) @ CHR ''#'' # ''published-'' @ t"
    using assms(2) by (simp add: set_id_def)
  note first = cut_eq [OF free(1) free(1) ids]
  note second = cut_eq [OF free(2) free(2) conjunct2 [OF first]]
  show ?thesis using first second assms(1) by (auto simp: encode_ok_def inj_def intro: prod_eqI)
qed

lemma set_filtered: "set (List.map_filter f xs) = {b. \<exists>a\<in>set xs. f a = Some b}"
  by (induction xs) (auto simp: List.map_filter_simps split: option.split)

lemma entries_distinct:
  assumes "encode_ok x" "distinct (map (\<lambda>st. (sr_maker st, sr_model st)) sts)"
  shows "distinct (map fe_id (List.map_filter (\<lambda>st. published_entry x base st (f st) (g st)) sts))"
  using assms(2)
proof (induction sts)
  case (Cons st sts)
  have "fe_id e \<noteq> fe_id e'" if e: "published_entry x base st (f st) (g st) = Some e"
    and st': "st' \<in> set sts" "published_entry x base st' (f st') (g st') = Some e'" for e e' st'
  proof -
    have "(sr_maker st, sr_model st) \<noteq> (sr_maker st', sr_model st')" using Cons.prems st'(1) by auto
    then show ?thesis using entry_id [OF e] entry_id [OF st'(2)] id_inj [OF assms(1)] by metis
  qed
  then show ?case using Cons by (auto simp: List.map_filter_simps set_filtered split: option.split)
qed (simp add: List.map_filter_simps)

lemma filtered_length: "length (List.map_filter f xs) \<le> length xs"
  by (induction xs) (auto simp: List.map_filter_simps split: option.split)

text \<open>
  C34. The published feed has one entry for each of the most recently published sets whose stored
  publication time reads back, never more than the limit, with distinct ids made of the set's key and its first
  publication alone; the times of an entry are that publication too. So re-approving or editing
  a set announces nothing again, whatever else of it changes.
\<close>

theorem published_feed_ids:
  assumes "db_inv d" "encode_ok x"
  shows "\<exists>entries. published_feed a x base now d
        = render_feed x now (feed_published_title (app_config a)) (base @ ''/api/feeds/published.atom'') base entries
    \<and> length entries \<le> feed_limit (app_config a) \<and> distinct (map fe_id entries)
    \<and> (\<forall>e. e \<in> set entries \<longrightarrow> (\<exists>st at. st \<in> set (recent_sets (externals a) (feed_limit (app_config a)) d)
          \<and> sr_approved_initial_at st = Some at \<and> fe_published e = Some at \<and> fe_updated e = at
          \<and> fe_id e = set_id x base (sr_maker st, sr_model st) @ ''#published-'' @ fe_ts x at))
    \<and> (\<forall>st at. st \<in> set (recent_sets (externals a) (feed_limit (app_config a)) d) \<longrightarrow> sr_approved_initial_at st = Some at
          \<longrightarrow> set_id x base (sr_maker st, sr_model st) @ ''#published-'' @ fe_ts x at \<in> fe_id ` set entries)"
proof -
  let ?sts = "recent_sets (externals a) (feed_limit (app_config a)) d"
  let ?e = "\<lambda>st. published_entry x base st (list_files (sr_maker st) (sr_model st) d) (file_tags (sr_maker st) (sr_model st) d)"
  have "distinct (map set_key (sets d))" using assms(1) by (simp add: db_inv_def sets_inv_def)
  then have "distinct (map set_key (filter (\<lambda>r. s_approved_initial_at r \<noteq> None) (sets d)))" by (rule distinct_map_filter)
  then have "distinct (map set_key (take (feed_limit (app_config a)) (order_by recent_order (filter (\<lambda>r. s_approved_initial_at r \<noteq> None) (sets d)))))"
    unfolding take_map [symmetric] by (intro distinct_take) simp
  then have keys: "distinct (map (\<lambda>st. (sr_maker st, sr_model st)) ?sts)"
    by (simp add: recent_sets_def o_def row_to_set_def set_key_def [abs_def])
  have "length ?sts \<le> feed_limit (app_config a)" by (simp add: recent_sets_def)
  then have len: "length (List.map_filter ?e ?sts) \<le> feed_limit (app_config a)"
    using filtered_length [of ?e ?sts] by (rule le_trans [rotated])
  have sound: "\<exists>st at. st \<in> set ?sts \<and> sr_approved_initial_at st = Some at \<and> fe_published e = Some at \<and> fe_updated e = at
      \<and> fe_id e = set_id x base (sr_maker st, sr_model st) @ ''#published-'' @ fe_ts x at" if "e \<in> set (List.map_filter ?e ?sts)" for e
    using that entry_id by (fastforce simp: set_filtered)
  have complete: "set_id x base (sr_maker st, sr_model st) @ ''#published-'' @ fe_ts x at \<in> fe_id ` set (List.map_filter ?e ?sts)"
    if st: "st \<in> set ?sts" "sr_approved_initial_at st = Some at" for st at
  proof -
    obtain e where e: "?e st = Some e" using st(2) by (auto simp: published_entry_def Let_def)
    then have "e \<in> set (List.map_filter ?e ?sts)" using st(1) by (force simp: set_filtered)
    then show ?thesis using entry_id [OF e] st(2) by (force intro: image_eqI [of _ _ e])
  qed
  have feed: "published_feed a x base now d
      = render_feed x now (feed_published_title (app_config a)) (base @ ''/api/feeds/published.atom'') base (List.map_filter ?e ?sts)"
    unfolding published_feed_def Let_def ..
  show ?thesis
    by (rule exI [of _ "List.map_filter ?e ?sts"], intro conjI allI impI)
      (rule feed len sound complete entries_distinct [OF assms(2) keys], assumption?)+
qed

definition unary :: "string \<Rightarrow> string" where
  "unary s = concat (map (\<lambda>c. replicate (byte c) (CHR ''a'') @ ''b'') s)"

lemma unary_inj: "unary s = unary t \<Longrightarrow> s = t"
proof (induction s arbitrary: t)
  case Nil
  then show ?case by (cases t) (auto simp: unary_def)
next
  case (Cons c s)
  then obtain d t' where t: "t = d # t'" by (cases t) (auto simp: unary_def)
  have "replicate (byte c) (CHR ''a'') = replicate (byte d) (CHR ''a'') \<and> unary s = unary t'"
    using Cons.prems unfolding t by (intro cut_eq [of "CHR ''b''"]) (auto simp: unary_def)
  then show ?case using Cons.IH t by (auto simp: byte_def dest!: arg_cong [of "replicate _ _" _ length])
qed

definition unary_feed :: feed_ext where
  "unary_feed = \<lparr>fe_encode = unary, fe_ts = (\<lambda>t. dec t)\<rparr>"

definition published_db :: db where
  "published_db = snd (upsert_set sample_ext 9 (sample_meta \<lparr>rm_set := sample_set \<lparr>sm_approved_initial_at := Some 5\<rparr>\<rparr>) None sample_files empty_db)"

lemma published_inv: "db_inv published_db"
  unfolding published_db_def by (rule upsert_set_inv [OF db_inv_empty])

theorem published_feed_ids_witness:
  "\<exists>entries. published_feed sample_app unary_feed ''http://a'' 9 published_db
        = render_feed unary_feed 9 (feed_published_title (app_config sample_app)) (''http://a'' @ ''/api/feeds/published.atom'') ''http://a'' entries
    \<and> length entries \<le> feed_limit (app_config sample_app) \<and> distinct (map fe_id entries)"
proof -
  have "inj unary" by (rule injI) (rule unary_inj)
  moreover have "slash \<notin> set (unary s) \<and> CHR ''#'' \<notin> set (unary s)" for s by (auto simp: unary_def)
  ultimately have "encode_ok unary_feed" unfolding encode_ok_def unary_feed_def by simp
  from published_feed_ids [OF published_inv this, of sample_app "''http://a''" 9] show ?thesis
    by (elim exE conjE) (intro exI conjI, assumption+)
qed

end
