(* ===== verification/Inspect.thy ===== *)
theory Inspect imports App "HOL-Library.AList" begin

text \<open>
  \<^verbatim>\<open>src/backend/src/inspect/mod.rs\<close>: jobs that download a pending file and run processors on it, the directory of
  cached results, and the requests that wait for them. A job and a request are state machines whose states are the
  \<^verbatim>\<open>await\<close> points of \<^verbatim>\<open>run_job\<close> and \<^verbatim>\<open>get\<close>; what a step hears from outside (a permit, the file system, the
  store, a tool) is its \<open>answer\<close>. SHA-256, the JSON of a manifest and RFC 3339 are parameters.
\<close>

definition MAX_STDERR :: nat where "MAX_STDERR = 1024"
definition MANIFEST :: string where "MANIFEST = ''manifest.json''"

section \<open>Processors and results\<close>

record output_file =
  of_name :: string
  of_file :: string
  of_type :: string

datatype outcome = Done "output_file list" | NoResult string | Failed string

text \<open>How \<^verbatim>\<open>Processor::run\<close> ends: with an outcome, an \<^verbatim>\<open>anyhow\<close> error, or by unwinding.\<close>

datatype run_end = Ended outcome | RunError | Panicked

record processor =
  pr_name :: string
  pr_outputs :: "string list"
  pr_check :: "string \<Rightarrow> string + unit"
  pr_params :: string

datatype manifest = Outputs "output_file list" | Reason string

record artifact =
  ar_etag :: string
  ar_body :: string
  ar_type :: string
  ar_ext :: string
  ar_fresh :: nat

datatype inspect_error = InspectNotFound | Unavailable string | InspectOther
datatype failure = FailNotFound | FailUnavailable string | FailInternal

fun inspect_error_of :: "failure \<Rightarrow> inspect_error" where
  "inspect_error_of FailNotFound = InspectNotFound"
| "inspect_error_of (FailUnavailable reason) = Unavailable reason"
| "inspect_error_of FailInternal = InspectOther"

section \<open>Names\<close>

record inspected =
  io_key :: string
  io_version :: string
  io_size :: nat
  io_file :: string

record inspector =
  iq_processors :: "processor list"
  iq_ttl :: nat
  iq_max_bytes :: nat
  iq_slots :: nat
  iq_sha256 :: "string \<Rightarrow> string"
  iq_to_json :: "manifest \<Rightarrow> string"
  iq_of_json :: "string \<Rightarrow> manifest option"
  iq_rfc3339 :: "datetime \<Rightarrow> string"

abbreviation nul :: char where "nul \<equiv> CHR 0x00"

definition job_key :: "inspected \<Rightarrow> string" where
  "job_key ob = io_key ob @ [nul] @ io_version ob @ [nul] @ dec (io_size ob)"

definition id_text :: "processor \<Rightarrow> inspected \<Rightarrow> string" where
  "id_text p ob = pr_name p @ [nul] @ io_key ob @ [nul] @ io_version ob @ [nul] @ dec (io_size ob) @ [nul] @ pr_params p"

definition cache_id :: "inspector \<Rightarrow> processor \<Rightarrow> inspected \<Rightarrow> string" where
  "cache_id i p ob = hex (take 16 (iq_sha256 i (id_text p ob)))"

definition final_extension :: "string \<Rightarrow> string option" where
  "final_extension name = (case rsplit_once (CHR ''.'') name of
     None \<Rightarrow> None | Some (_, ext) \<Rightarrow> if ext \<noteq> [] then Some ext else None)"

definition input_name :: "string \<Rightarrow> string" where
  "input_name name = (case final_extension name of
     Some ext \<Rightarrow> if length ext \<le> 10 \<and> list_all ascii_alnum ext then ''input.'' @ ext else ''input''
   | None \<Rightarrow> ''input'')"

section \<open>The cache directory\<close>

text \<open>
  An entry of \<^verbatim>\<open>cache/\<close> is a directory of files, kept with the modification time of its manifest (the only
  one read), or a plain file of an older layout.
\<close>

datatype entry = Folder "(string \<times> string) list" datetime | Plain

type_synonym cache_dir = "(string \<times> entry) list"

definition remaining :: "inspector \<Rightarrow> datetime \<Rightarrow> datetime \<Rightarrow> nat option" where
  "remaining i now modified = (let age = now - modified in
     if age \<le> iq_ttl i \<and> iq_ttl i - age \<noteq> 0 then Some (iq_ttl i - age) else None)"

definition fresh_for :: "inspector \<Rightarrow> datetime \<Rightarrow> cache_dir \<Rightarrow> string \<Rightarrow> nat option" where
  "fresh_for i now dir rid = (case map_of dir rid of
     Some (Folder fs modified) \<Rightarrow> if map_of fs MANIFEST \<noteq> None then remaining i now modified else None
   | _ \<Rightarrow> None)"

definition is_fresh :: "inspector \<Rightarrow> datetime \<Rightarrow> cache_dir \<Rightarrow> string \<Rightarrow> bool" where
  "is_fresh i now dir rid = (fresh_for i now dir rid \<noteq> None)"

definition read_in :: "cache_dir \<Rightarrow> string \<Rightarrow> string \<Rightarrow> string option" where
  "read_in dir rid name = (case map_of dir rid of Some (Folder fs _) \<Rightarrow> map_of fs name | _ \<Rightarrow> None)"

definition lookup :: "inspector \<Rightarrow> datetime \<Rightarrow> cache_dir \<Rightarrow> string \<Rightarrow> string \<Rightarrow> string \<Rightarrow> (inspect_error + artifact) option" where
  "lookup i now dir rid name output =
     (case fresh_for i now dir rid of None \<Rightarrow> None | Some fresh \<Rightarrow>
      (case Option.bind (read_in dir rid MANIFEST) (iq_of_json i) of None \<Rightarrow> None
       | Some (Reason reason) \<Rightarrow> Some (Inl (Unavailable reason))
       | Some (Outputs fs) \<Rightarrow>
          (case find (\<lambda>f. of_name f = output) fs of
             None \<Rightarrow> Some (Inl (Unavailable (name @ '' produced no '' @ output @ '' for this file'')))
           | Some f \<Rightarrow>
              (case read_in dir rid (of_file f) of None \<Rightarrow> None | Some body \<Rightarrow>
                 Some (Inr \<lparr>ar_etag = rid @ ''.'' @ output, ar_body = body, ar_type = of_type f,
                   ar_ext = (case final_extension (of_file f) of Some e \<Rightarrow> e | None \<Rightarrow> ''bin''), ar_fresh = fresh\<rparr>)))))"

definition checked_outputs :: "processor \<Rightarrow> (string \<times> string) list \<Rightarrow> output_file list \<Rightarrow> string + manifest" where
  "checked_outputs p written outs =
     (case find (\<lambda>f. of_name f \<notin> set (pr_outputs p) \<or>
          slash \<in> set (of_file f) \<or> of_file f = MANIFEST \<or> map_of written (of_file f) = None) outs of
        Some f \<Rightarrow> Inl (if of_name f \<notin> set (pr_outputs p)
          then pr_name p @ '' reported undeclared output '' @ of_name f
          else pr_name p @ '' reported a missing output file '' @ of_file f)
      | None \<Rightarrow> Inr (Outputs outs))"

text \<open>Which of \<^verbatim>\<open>store\<close>'s file system calls go through: the write, \<^verbatim>\<open>try_exists\<close>, the move of the old result, the rename.\<close>

record store_io =
  st_write :: bool
  st_exists :: bool
  st_move :: bool
  st_rename :: bool

definition occupied :: "entry option \<Rightarrow> bool" where
  "occupied e = (case e of None \<Rightarrow> False | Some (Folder [] _) \<Rightarrow> False | _ \<Rightarrow> True)"

definition store :: "inspector \<Rightarrow> string \<Rightarrow> (string \<times> string) list \<Rightarrow> manifest \<Rightarrow> store_io \<Rightarrow> datetime \<Rightarrow> cache_dir \<Rightarrow> (unit + unit) \<times> cache_dir" where
  "store i rid written m io now dir =
     (if \<not> st_write io then (Inl (), dir)
      else (let files = AList.update MANIFEST (iq_to_json i m) written;
                dir1 = (if map_of dir rid \<noteq> None \<and> st_exists io \<and> st_move io then filter (\<lambda>e. fst e \<noteq> rid) dir else dir)
            in if occupied (map_of dir1 rid) \<or> \<not> st_rename io then (Inl (), dir1)
               else (Inr (), (rid, Folder files now) # filter (\<lambda>e. fst e \<noteq> rid) dir1)))"

definition run_processor ::
  "inspector \<Rightarrow> processor \<Rightarrow> inspected \<Rightarrow> bool \<Rightarrow> run_end \<Rightarrow> (string \<times> string) list \<Rightarrow> store_io \<Rightarrow> datetime \<Rightarrow> cache_dir
    \<Rightarrow> (failure + unit) option \<times> cache_dir" where
  "run_processor i p ob dir_made r written io now dir =
     (let publish = (\<lambda>m. case store i (cache_id i p ob) written m io now dir of
            (Inl _, dir') \<Rightarrow> (Some (Inl FailInternal), dir') | (Inr _, dir') \<Rightarrow> (Some (Inr ()), dir'))
      in if \<not> dir_made then (Some (Inl FailInternal), dir)
         else case r of
           Panicked \<Rightarrow> (None, dir)
         | RunError \<Rightarrow> (Some (Inl FailInternal), dir)
         | Ended (Failed reason) \<Rightarrow> (Some (Inl (FailUnavailable reason)), dir)
         | Ended (NoResult reason) \<Rightarrow> publish (Reason reason)
         | Ended (Done outs) \<Rightarrow>
            (case checked_outputs p written outs of
               Inl _ \<Rightarrow> (Some (Inl FailInternal), dir) | Inr m \<Rightarrow> publish m))"

text \<open>\<^verbatim>\<open>sweep\<close>, with the entries that can be deleted; the number of deleted ones.\<close>

definition sweep_results :: "inspector \<Rightarrow> (string \<Rightarrow> bool) \<Rightarrow> datetime \<Rightarrow> cache_dir \<Rightarrow> nat \<times> cache_dir" where
  "sweep_results i removable now dir =
     (let gone = (\<lambda>e. \<not> is_fresh i now dir (fst e) \<and> removable (fst e))
      in (length (filter gone dir), filter (\<lambda>e. \<not> gone e) dir))"

section \<open>Jobs\<close>

datatype phase =
    Queued \<comment> \<open>waiting for a slot\<close>
  | Preparing \<comment> \<open>creating the work directory\<close>
  | Downloading
  | Running "processor list" string \<comment> \<open>processors left, the downloaded bytes\<close>
  | Publishing processor "failure + unit" "processor list" string
  | Failing failure
  | Leaving \<comment> \<open>\<^verbatim>\<open>JobDone::drop\<close>, before it unregisters\<close>
  | Waking \<comment> \<open>before it marks the job finished\<close>
  | Over

record job =
  jb_object :: inspected
  jb_plan :: "processor list"
  jb_done :: "(string \<times> (failure + unit)) list"
  jb_finished :: bool
  jb_phase :: phase

datatype request_phase =
    Looking nat \<comment> \<open>rounds of the loop left\<close>
  | Joining nat
  | Awaiting nat nat \<comment> \<open>rounds left, the job\<close>
  | Reading
  | Answered "inspect_error + artifact"

record request =
  rq_processor :: processor
  rq_output :: string
  rq_object :: inspected
  rq_phase :: request_phase

text \<open>\<open>ix_made\<close>: every job ever started, its index the identity of its channel; \<open>ix_jobs\<close>: the registered ones by key.\<close>

record inspection =
  ix_now :: datetime
  ix_dir :: cache_dir
  ix_free :: nat
  ix_made :: "job list"
  ix_jobs :: "(string \<times> nat) list"
  ix_requests :: "request list"

definition applies :: "inspector \<Rightarrow> datetime \<Rightarrow> cache_dir \<Rightarrow> inspected \<Rightarrow> processor \<Rightarrow> bool" where
  "applies i now dir ob p \<longleftrightarrow> pr_check p (io_file ob) = Inr () \<and> \<not> is_fresh i now dir (cache_id i p ob)"

definition job_plan :: "inspector \<Rightarrow> processor \<Rightarrow> inspected \<Rightarrow> inspection \<Rightarrow> processor list" where
  "job_plan i wanted ob s = filter (applies i (ix_now s) (ix_dir s) ob)
     (wanted # filter (\<lambda>p. pr_name p \<noteq> pr_name wanted) (iq_processors i))"

definition join_or_start :: "inspector \<Rightarrow> processor \<Rightarrow> inspected \<Rightarrow> inspection \<Rightarrow> nat option \<times> inspection" where
  "join_or_start i wanted ob s =
     (case map_of (ix_jobs s) (job_key ob) of
        Some n \<Rightarrow> (Some n, s)
      | None \<Rightarrow>
         (let plan = job_plan i wanted ob s in
          if plan = [] \<or> pr_name (hd plan) \<noteq> pr_name wanted then (None, s)
          else (let n = length (ix_made s) in
            (Some n, s \<lparr>ix_made := ix_made s @ [\<lparr>jb_object = ob, jb_plan = plan, jb_done = [], jb_finished = False, jb_phase = Queued\<rparr>],
                        ix_jobs := (job_key ob, n) # ix_jobs s\<rparr>))))"

text \<open>What a step of a job hears.\<close>

datatype answer =
    Go
  | Created bool
  | Fetched "s3_error + string"
  | Ran bool run_end "(string \<times> string) list" store_io

definition download_failure :: "s3_error \<Rightarrow> failure" where
  "download_failure e = (case e of NotFound _ \<Rightarrow> FailNotFound | PreconditionFailed \<Rightarrow> FailNotFound | Other \<Rightarrow> FailInternal)"

definition fail_rest :: "failure \<Rightarrow> job \<Rightarrow> job" where
  "fail_rest f j = j \<lparr>jb_done := jb_done j @ map (\<lambda>p. (pr_name p, Inl f)) (filter (\<lambda>p. map_of (jb_done j) (pr_name p) = None) (jb_plan j))\<rparr>"

text \<open>Leaving \<^verbatim>\<open>run_plan\<close> gives the slot back and removes the work directory.\<close>

definition set_job :: "nat \<Rightarrow> job \<Rightarrow> inspection \<Rightarrow> inspection" where
  "set_job n j s = s \<lparr>ix_made := (ix_made s)[n := j]\<rparr>"

definition set_phase :: "nat \<Rightarrow> phase \<Rightarrow> inspection \<Rightarrow> inspection" where
  "set_phase n ph s = set_job n ((ix_made s ! n) \<lparr>jb_phase := ph\<rparr>) s"

definition leave :: "nat \<Rightarrow> phase \<Rightarrow> inspection \<Rightarrow> inspection" where
  "leave n ph s = set_phase n ph (s \<lparr>ix_free := ix_free s + 1\<rparr>)"

definition unregister :: "nat \<Rightarrow> string \<Rightarrow> inspection \<Rightarrow> inspection" where
  "unregister n key s = (if map_of (ix_jobs s) key = Some n then s \<lparr>ix_jobs := filter (\<lambda>e. fst e \<noteq> key) (ix_jobs s)\<rparr> else s)"

definition run_job :: "inspector \<Rightarrow> answer \<Rightarrow> nat \<Rightarrow> inspection \<Rightarrow> inspection option" where
  "run_job i ans n s = (let j = ix_made s ! n in
     case jb_phase j of
       Queued \<Rightarrow> (if ans = Go \<and> 0 < ix_free s then Some (set_phase n Preparing (s \<lparr>ix_free := ix_free s - 1\<rparr>)) else None)
     | Preparing \<Rightarrow> (case ans of Created ok \<Rightarrow> Some (if ok then set_phase n Downloading s else leave n (Failing FailInternal) s) | _ \<Rightarrow> None)
     | Downloading \<Rightarrow> (case ans of
           Fetched (Inl e) \<Rightarrow> Some (leave n (Failing (download_failure e)) s)
         | Fetched (Inr bytes) \<Rightarrow> Some (set_phase n (Running (jb_plan j) bytes) s)
         | _ \<Rightarrow> None)
     | Running [] bytes \<Rightarrow> (if ans = Go then Some (leave n Leaving s) else None)
     | Running (p # ps) bytes \<Rightarrow> (case ans of
           Ran dir_made r written io \<Rightarrow>
            (case run_processor i p (jb_object j) dir_made r written io (ix_now s) (ix_dir s) of
               (None, dir) \<Rightarrow> Some (leave n Leaving (s \<lparr>ix_dir := dir\<rparr>))
             | (Some res, dir) \<Rightarrow> Some (set_phase n (Publishing p res ps bytes) (s \<lparr>ix_dir := dir\<rparr>)))
         | _ \<Rightarrow> None)
     | Publishing p res ps bytes \<Rightarrow>
         (if ans = Go then Some (set_job n (j \<lparr>jb_done := AList.update (pr_name p) res (jb_done j), jb_phase := Running ps bytes\<rparr>) s) else None)
     | Failing f \<Rightarrow> (if ans = Go then Some (set_job n (fail_rest f j \<lparr>jb_phase := Leaving\<rparr>) s) else None)
     | Leaving \<Rightarrow> (if ans = Go then Some (set_phase n Waking (unregister n (job_key (jb_object j)) s)) else None)
     | Waking \<Rightarrow> (if ans = Go then Some (set_job n (j \<lparr>jb_finished := True, jb_phase := Over\<rparr>) s) else None)
     | Over \<Rightarrow> None)"

section \<open>Requests\<close>

text \<open>The checks of \<^verbatim>\<open>get\<close> before its loop; a \<open>None\<close> head is a missing object.\<close>

definition admit_checks :: "inspector \<Rightarrow> string \<Rightarrow> string \<Rightarrow> string \<Rightarrow> inspect_error + processor" where
  "admit_checks i name output fname =
     (case find (\<lambda>p. pr_name p = name) (iq_processors i) of
        None \<Rightarrow> Inl InspectNotFound
      | Some wanted \<Rightarrow>
          if output \<notin> set (pr_outputs wanted) then Inl InspectNotFound
          else map_errR Unavailable (bindR (pr_check wanted fname) (\<lambda>_. Inr wanted)))"

definition admit_object :: "inspector \<Rightarrow> string \<Rightarrow> string \<Rightarrow> head_info option \<Rightarrow> inspect_error + inspected" where
  "admit_object i key fname found = (case found of
     None \<Rightarrow> Inl InspectNotFound
   | Some h \<Rightarrow>
      if hi_size h > iq_max_bytes i
      then Inl (Unavailable (''file is too large to inspect ('' @ dec (hi_size h) @ '' bytes; limit is '' @ dec (iq_max_bytes i) @ '' bytes)''))
      else Inr \<lparr>io_key = key, io_version = (case hi_etag h of Some e \<Rightarrow> e
           | None \<Rightarrow> (case hi_modified h of Some t \<Rightarrow> iq_rfc3339 i t | None \<Rightarrow> [])),
         io_size = hi_size h, io_file = fname\<rparr>)"

definition get_request :: "inspector \<Rightarrow> 's s3 \<Rightarrow> string \<Rightarrow> string \<Rightarrow> string \<Rightarrow> string \<Rightarrow> ('s, inspect_error, request) cmd" where
  "get_request i c name output key fname =
     bindE (lift (admit_checks i name output fname)) (\<lambda>wanted.
     bindE (map_errE (\<lambda>_. InspectOther) (head c key)) (\<lambda>found.
     bindE (lift (admit_object i key fname found)) (\<lambda>ob.
     ret \<lparr>rq_processor = wanted, rq_output = output, rq_object = ob, rq_phase = Looking 2\<rparr>)))"

text \<open>A step of the loop; \<^term>\<open>None\<close> while the request waits or when it is answered.\<close>

definition get_step :: "inspector \<Rightarrow> request \<Rightarrow> inspection \<Rightarrow> (request_phase \<times> inspection) option" where
  "get_step i rq s =
     (let p = rq_processor rq; look = lookup i (ix_now s) (ix_dir s) (cache_id i p (rq_object rq)) (pr_name p) (rq_output rq)
      in case rq_phase rq of
        Looking 0 \<Rightarrow> Some (Answered (Inl InspectOther), s)
      | Looking (Suc n) \<Rightarrow> (case look of Some r \<Rightarrow> Some (Answered r, s) | None \<Rightarrow> Some (Joining n, s))
      | Joining n \<Rightarrow> (case join_or_start i p (rq_object rq) s of
            (None, s') \<Rightarrow> Some (Looking n, s') | (Some m, s') \<Rightarrow> Some (Awaiting n m, s'))
      | Awaiting n m \<Rightarrow>
          (let j = ix_made s ! m in
           if map_of (jb_done j) (pr_name p) \<noteq> None \<or> jb_finished j
           then (case map_of (jb_done j) (pr_name p) of
               Some (Inr _) \<Rightarrow> Some (Reading, s)
             | Some (Inl f) \<Rightarrow> Some (Answered (Inl (inspect_error_of f)), s)
             | None \<Rightarrow> Some (Looking n, s))
           else None)
      | Reading \<Rightarrow> Some (Answered (case look of Some r \<Rightarrow> r | None \<Rightarrow> Inl InspectOther), s)
      | Answered r \<Rightarrow> None)"

section \<open>Everything together\<close>

text \<open>
  The parameters of the interleaving: \<open>may_run p name bytes r written\<close>, how a run of a tool on a download may end
  and what it may leave in its output directory; \<open>delivers key len bytes\<close>, what a completed download may write;
  \<open>versions\<close>, the object versions requests ask for.
\<close>

type_synonym tools = "processor \<Rightarrow> string \<Rightarrow> string \<Rightarrow> run_end \<Rightarrow> (string \<times> string) list \<Rightarrow> bool"
type_synonym downloads = "string \<Rightarrow> nat \<Rightarrow> string \<Rightarrow> bool"

definition answer_ok :: "tools \<Rightarrow> downloads \<Rightarrow> job \<Rightarrow> answer \<Rightarrow> bool" where
  "answer_ok may_run delivers j ans = (case (jb_phase j, ans) of
     (Downloading, Fetched (Inr bytes)) \<Rightarrow> delivers (io_key (jb_object j)) (io_size (jb_object j)) bytes
   | (Running (p # ps) bytes, Ran True r written io) \<Rightarrow> may_run p (input_name (io_file (jb_object j))) bytes r written
   | _ \<Rightarrow> True)"

inductive act :: "inspector \<Rightarrow> tools \<Rightarrow> downloads \<Rightarrow> inspection \<Rightarrow> inspection \<Rightarrow> bool" for i may_run delivers where
  request: "n < length (ix_requests s) \<Longrightarrow> get_step i (ix_requests s ! n) s = Some (ph, s') \<Longrightarrow>
     act i may_run delivers s (s' \<lparr>ix_requests := (ix_requests s)[n := (ix_requests s ! n) \<lparr>rq_phase := ph\<rparr>]\<rparr>)"
| job: "n < length (ix_made s) \<Longrightarrow> answer_ok may_run delivers (ix_made s ! n) ans \<Longrightarrow> run_job i ans n s = Some s' \<Longrightarrow>
     act i may_run delivers s s'"

inductive inspecting :: "inspector \<Rightarrow> tools \<Rightarrow> downloads
    \<Rightarrow> inspected set \<Rightarrow> inspection \<Rightarrow> bool" for i may_run delivers versions where
  start: "inspecting i may_run delivers versions
     \<lparr>ix_now = t, ix_dir = [], ix_free = max 1 (iq_slots i), ix_made = [], ix_jobs = [], ix_requests = []\<rparr>"
| acted: "inspecting i may_run delivers versions s \<Longrightarrow> act i may_run delivers s s' \<Longrightarrow> inspecting i may_run delivers versions s'"
| arrived: "inspecting i may_run delivers versions s \<Longrightarrow> admit_checks i name output (io_file ob) = Inr p \<Longrightarrow> ob \<in> versions \<Longrightarrow>
     inspecting i may_run delivers versions
       (s \<lparr>ix_requests := ix_requests s @ [\<lparr>rq_processor = p, rq_output = output, rq_object = ob, rq_phase = Looking 2\<rparr>]\<rparr>)"
| cancelled: "inspecting i may_run delivers versions s \<Longrightarrow> ix_requests s = xs @ rq # ys \<Longrightarrow>
     inspecting i may_run delivers versions (s \<lparr>ix_requests := xs @ ys\<rparr>)"
| restarted: "inspecting i may_run delivers versions s \<Longrightarrow> inspecting i may_run delivers versions
     \<lparr>ix_now = ix_now s, ix_dir = ix_dir s, ix_free = max 1 (iq_slots i), ix_made = [], ix_jobs = [], ix_requests = []\<rparr>"
| swept: "inspecting i may_run delivers versions s \<Longrightarrow>
     inspecting i may_run delivers versions (s \<lparr>ix_dir := snd (sweep_results i removable (ix_now s) (ix_dir s))\<rparr>)"
| passed: "inspecting i may_run delivers versions s \<Longrightarrow> ix_now s \<le> t \<Longrightarrow>
     inspecting i may_run delivers versions (s \<lparr>ix_now := t\<rparr>)"

end
