(* ===== verification/Utf8.thy ===== *)
theory Utf8 imports App begin

text \<open>
  Rust's reading of bytes that may not be UTF-8: the chunks of \<^verbatim>\<open>utf8_chunks\<close>, one character or one invalid
  sequence (the longest prefix of a character, one to three bytes) at a time.
\<close>

definition second_ok :: "char \<Rightarrow> char \<Rightarrow> bool" where
  "second_ok a b \<longleftrightarrow> cont_byte b \<and> (byte a = 224 \<longrightarrow> 160 \<le> byte b) \<and> (byte a = 237 \<longrightarrow> byte b < 160)
     \<and> (byte a = 240 \<longrightarrow> 144 \<le> byte b) \<and> (byte a = 244 \<longrightarrow> byte b < 144)"

text \<open>Whether the next chunk is a character, and its length.\<close>

fun utf8_head :: "string \<Rightarrow> bool \<times> nat" where
  "utf8_head [] = (True, 0)"
| "utf8_head (a # s) =
     (if byte a < 128 then (True, 1)
      else if 194 \<le> byte a \<and> byte a < 224 then
        (case s of b # _ \<Rightarrow> if cont_byte b then (True, 2) else (False, 1) | [] \<Rightarrow> (False, 1))
      else if 224 \<le> byte a \<and> byte a < 240 then
        (case s of [] \<Rightarrow> (False, 1) | b # s1 \<Rightarrow>
          if \<not> second_ok a b then (False, 1)
          else (case s1 of c # _ \<Rightarrow> if cont_byte c then (True, 3) else (False, 2) | [] \<Rightarrow> (False, 2)))
      else if 240 \<le> byte a \<and> byte a < 245 then
        (case s of [] \<Rightarrow> (False, 1) | b # s1 \<Rightarrow>
          if \<not> second_ok a b then (False, 1)
          else (case s1 of [] \<Rightarrow> (False, 2) | c # s2 \<Rightarrow>
            if \<not> cont_byte c then (False, 2)
            else (case s2 of e # _ \<Rightarrow> if cont_byte e then (True, 4) else (False, 3) | [] \<Rightarrow> (False, 3))))
      else (False, 1))"

lemma utf8_head_bound: "s \<noteq> [] \<Longrightarrow> 0 < snd (utf8_head s) \<and> snd (utf8_head s) \<le> length s"
  by (cases s) (auto split: list.splits)

lemma list_upto4:
  obtains "s = []" | a where "s = [a]" | a b where "s = [a, b]" | a b c where "s = [a, b, c]" | a b c e r where "s = a # b # c # e # r"
  by (metis neq_Nil_conv)

lemma utf8_head_valid:
  assumes "utf8_head s = (True, n)" shows "utf8_valid (take n s @ t) = utf8_valid t"
  by (cases s rule: list_upto4) (use assms in \<open>simp_all add: second_ok_def split: if_splits, auto\<close>)

lemma utf8_head_invalid:
  assumes "utf8_head s = (False, n)" shows "\<not> utf8_valid s"
proof (cases s)
  case (Cons a r)
  show ?thesis
    using assms unfolding Cons utf8_valid.simps(2) [of a r]
    by (cases r rule: list_upto4) (auto simp: second_ok_def simp del: utf8_valid.simps split: if_splits)
qed (use assms in simp)

lemma utf8_valid_head: "utf8_valid s \<Longrightarrow> \<exists>n. utf8_head s = (True, n)"
  using utf8_head_invalid by (metis (full_types) prod.collapse)

lemma utf8_valid_append: "utf8_valid u \<Longrightarrow> utf8_valid v \<Longrightarrow> utf8_valid (u @ v)"
proof (induction "length u" arbitrary: u rule: less_induct)
  case less
  show ?case
  proof (cases "u = []")
    case False
    obtain n where h: "utf8_head u = (True, n)" using utf8_valid_head [OF less.prems(1)] by blast
    then have "0 < n" using utf8_head_bound [OF False] by simp
    then have "utf8_valid (drop n u @ v)" using less utf8_head_valid [OF h, of "drop n u"] False by simp
    then show ?thesis using utf8_head_valid [OF h, of "drop n u @ v"] by (simp flip: append_assoc)
  qed (use less in simp)
qed

text \<open>A text from the chunks: \<open>bad\<close> says what stands for an invalid one.\<close>

function decode_chunks :: "(string \<Rightarrow> string) \<Rightarrow> string \<Rightarrow> string" where
  "decode_chunks bad s = (if s = [] then []
     else (let n = snd (utf8_head s); chunk = take n s in
       (if fst (utf8_head s) then chunk else bad chunk) @ decode_chunks bad (drop n s)))"
  by auto
termination
  by (relation "measure (\<lambda>(bad, s). length s)") (use utf8_head_bound in auto)

declare decode_chunks.simps [simp del]

lemma decode_valid: "(\<And>c. utf8_valid (bad c)) \<Longrightarrow> utf8_valid (decode_chunks bad s)"
proof (induction bad s rule: decode_chunks.induct)
  case (1 bad s)
  show ?case
  proof (cases "s = []")
    case False
    then have "utf8_valid (decode_chunks bad (drop (snd (utf8_head s)) s))" using "1.IH" "1.prems" by simp
    moreover have "utf8_valid (take (snd (utf8_head s)) s)" if "fst (utf8_head s)"
      using utf8_head_valid [of s "snd (utf8_head s)" "[]"] that by (metis append_Nil2 prod.collapse utf8_valid.simps(1))
    ultimately show ?thesis using False "1.prems"
      by (subst decode_chunks.simps) (simp add: Let_def utf8_valid_append)
  qed (simp add: decode_chunks.simps)
qed

lemma decode_same: "utf8_valid s \<Longrightarrow> decode_chunks bad s = s"
proof (induction bad s rule: decode_chunks.induct)
  case (1 bad s)
  show ?case
  proof (cases "s = []")
    case False
    obtain n where h: "utf8_head s = (True, n)" using utf8_valid_head [OF "1.prems"] by blast
    then have "utf8_valid (drop n s)" using utf8_head_valid [OF h, of "drop n s"] "1.prems" by simp
    then have "decode_chunks bad (drop n s) = drop n s" using "1.IH" [OF False] h by simp
    then show ?thesis using False h by (subst decode_chunks.simps) (simp add: Let_def)
  qed (simp add: decode_chunks.simps)
qed

text \<open>\<^verbatim>\<open>String::from_utf8_lossy\<close>\<close>

definition utf8_lossy :: "string \<Rightarrow> string" where
  "utf8_lossy s = decode_chunks (\<lambda>_. [CHR 0xEF, CHR 0xBF, CHR 0xBD]) s"

end
