(* ===== verification/Tools.thy ===== *)
theory Tools imports Inspect Utf8 Public begin

text \<open>
  The two processors: \<^verbatim>\<open>src/backend/src/inspect/exiftool.rs\<close> and \<^verbatim>\<open>src/backend/src/inspect/preview.rs\<close>, from what a
  child process did to how the run ended and what it wrote. rawler and the image library are parameters.
\<close>

section \<open>Child processes\<close>

text \<open>\<^verbatim>\<open>ExitStatus\<close> on Unix, a signal with whether it dumped core, and its text.\<close>

datatype exit_status = Exited int | Signaled nat bool

definition signal_names :: "string list" where
  "signal_names = [''SIGHUP'', ''SIGINT'', ''SIGQUIT'', ''SIGILL'', ''SIGTRAP'', ''SIGABRT'', ''SIGBUS'', ''SIGFPE'',
     ''SIGKILL'', ''SIGUSR1'', ''SIGSEGV'', ''SIGUSR2'', ''SIGPIPE'', ''SIGALRM'', ''SIGTERM'', ''SIGSTKFLT'',
     ''SIGCHLD'', ''SIGCONT'', ''SIGSTOP'', ''SIGTSTP'', ''SIGTTIN'', ''SIGTTOU'', ''SIGURG'', ''SIGXCPU'', ''SIGXFSZ'',
     ''SIGVTALRM'', ''SIGPROF'', ''SIGWINCH'', ''SIGIO'', ''SIGPWR'', ''SIGSYS'']"

fun status_text :: "exit_status \<Rightarrow> string" where
  "status_text (Exited c) = ''exit status: '' @ int_text c"
| "status_text (Signaled n core) = ''signal: '' @ dec n
     @ (if 1 \<le> n \<and> n \<le> length signal_names then '' ('' @ signal_names ! (n - 1) @ '')'' else [])
     @ (if core then '' (core dumped)'' else [])"

fun status_code :: "exit_status \<Rightarrow> int option" where
  "status_code (Exited c) = Some c" | "status_code (Signaled _ _) = None"

definition stderr_text :: "string \<Rightarrow> string" where
  "stderr_text raw = (let t = trim (utf8_lossy (take MAX_STDERR raw)) in if t = [] then ''no error output'' else t)"

text \<open>What a run has of the tool: the reads of its two pipes and its exit, or why there are none.\<close>

datatype child = NotSpawned | TimedOut | NotCollected | Finished "string list" "string list" exit_status

section \<open>ExifTool\<close>

definition EXIFTOOL :: string where "EXIFTOOL = ''exiftool''"
definition LISTING :: string where "LISTING = ''listing''"
definition LISTING_FILE :: string where "LISTING_FILE = ''listing.txt''"
definition ARGS :: "string list" where "ARGS = [''-a'', ''-u'', ''-G1'', ''-s'', ''--System:all'']"
definition MAX_OUTPUT :: nat where "MAX_OUTPUT = 4 * 1024 * 1024"

record exiftool =
  et_bin :: string
  et_version :: string

definition exiftool_processor :: "exiftool option \<Rightarrow> processor" where
  "exiftool_processor tool = \<lparr>pr_name = EXIFTOOL, pr_outputs = [LISTING],
     pr_check = (\<lambda>_. case tool of Some _ \<Rightarrow> Inr () | None \<Rightarrow> Inl ''exiftool is not available on this server''),
     pr_params = (case tool of None \<Rightarrow> [] | Some t \<Rightarrow> et_version t) @ [nul] @ join '' '' ARGS\<rparr>"

text \<open>\<^verbatim>\<open>read_capped\<close>'s loop over the reads.\<close>

fun read_capped :: "nat \<Rightarrow> string \<Rightarrow> bool \<Rightarrow> string list \<Rightarrow> string \<times> bool" where
  "read_capped cap acc over [] = (acc, over)"
| "read_capped cap acc over (buf # bufs) =
     (let room = cap - length acc in read_capped cap (acc @ take (min (length buf) room) buf) (over \<or> room < length buf) bufs)"

definition listing_failure :: "string \<Rightarrow> string \<Rightarrow> exit_status \<Rightarrow> nat \<Rightarrow> string option" where
  "listing_failure listing stderr status memory =
     (if contains_sub ''Out of memory'' stderr
      then Some (''exiftool needs more memory than it may use (RAWDB_INSPECT_MEMORY_BYTES='' @ dec memory @ '')'')
      else if status_code status = None then Some (''exiftool crashed ('' @ status_text status @ ''): '' @ stderr)
      else if listing = [] then Some (''exiftool failed ('' @ status_text status @ ''): '' @ stderr)
      else None)"

definition to_utf8 :: "string \<Rightarrow> string" where
  "to_utf8 listing = decode_chunks (\<lambda>bs. concat (map (\<lambda>b. CHR 0x5C # ''x'' @ hex [b]) bs)) listing"

definition truncation_note :: string where
  "truncation_note = ''[rawdb] output truncated after '' @ dec (MAX_OUTPUT div 2 ^ 20) @ '' MiB'' @ nl"

text \<open>\<^verbatim>\<open>Exiftool::run\<close>: \<^term>\<open>None\<close> for an \<^verbatim>\<open>anyhow\<close> error, else why there is no listing or the text written; \<open>wrote\<close>: the write went through.\<close>

definition exiftool_run :: "nat \<Rightarrow> nat \<Rightarrow> child \<times> bool \<Rightarrow> (string + string) option" where
  "exiftool_run timeout_secs memory = (\<lambda>(child, wrote). case child of
     NotSpawned \<Rightarrow> None
   | TimedOut \<Rightarrow> Some (Inl (''exiftool timed out after '' @ dec timeout_secs @ ''s''))
   | NotCollected \<Rightarrow> None
   | Finished out err status \<Rightarrow>
      (let (listing, truncated) = read_capped MAX_OUTPUT [] False out;
           errors = fst (read_capped MAX_STDERR [] False err)
       in case listing_failure listing (stderr_text errors) status memory of
            Some reason \<Rightarrow> Some (Inl reason)
          | None \<Rightarrow> (let txt = to_utf8 listing @ (if truncated then truncation_note else [])
              in if wrote then Some (Inr txt) else None)))"

definition exiftool_process :: "exiftool option \<Rightarrow> nat \<Rightarrow> nat \<Rightarrow> child \<times> bool \<Rightarrow> run_end \<times> (string \<times> string) list" where
  "exiftool_process tool timeout_secs memory x = (case tool of
     None \<Rightarrow> (Ended (Failed ''exiftool is not available on this server''), [])
   | Some t \<Rightarrow> (case exiftool_run timeout_secs memory x of
        None \<Rightarrow> (RunError, [])
      | Some (Inl reason) \<Rightarrow> (Ended (Failed reason), [])
      | Some (Inr txt) \<Rightarrow> (Ended (Done [\<lparr>of_name = LISTING, of_file = LISTING_FILE, of_type = ''text/plain; charset=utf-8''\<rparr>]),
          [(LISTING_FILE, txt)])))"

text \<open>Finding the tool: \<^verbatim>\<open>resolve\<close> over the regular files, and what \<^verbatim>\<open>-ver\<close> did.\<close>

definition search_path :: "string option \<Rightarrow> string" where
  "search_path env = (case env of Some p \<Rightarrow> p | None \<Rightarrow> ''/usr/local/bin:/usr/bin:/bin'')"

definition component_count :: "string \<Rightarrow> nat" where
  "component_count path = (let segs = split_on slash path in
     length (filter (\<lambda>g. g \<noteq> [] \<and> g \<noteq> ''.'') segs) + (if hd segs = ''.'' \<or> path \<noteq> [] \<and> hd path = slash then 1 else 0))"

definition path_join :: "string \<Rightarrow> string \<Rightarrow> string" where
  "path_join dir name = (if starts_with ''/'' name then name
     else if dir = [] \<or> ends_with ''/'' dir then dir @ name else dir @ ''/'' @ name)"

definition resolve :: "string option \<Rightarrow> (string \<Rightarrow> bool) \<Rightarrow> string \<Rightarrow> string option" where
  "resolve env is_file bin =
     (if 1 < component_count bin then (if is_file bin then Some bin else None)
      else find is_file (map (\<lambda>dir. path_join dir bin) (split_on (CHR '':'') (search_path env))))"

datatype probe_end = Probed exit_status string | CannotRun | ProbeTimedOut

definition probe :: "string option \<Rightarrow> (string \<Rightarrow> bool) \<Rightarrow> (string \<Rightarrow> probe_end) \<Rightarrow> string \<Rightarrow> exiftool option" where
  "probe env is_file ver bin = (case resolve env is_file bin of
     None \<Rightarrow> None
   | Some path \<Rightarrow> (case ver path of
        Probed status out \<Rightarrow> if status = Exited 0 then Some \<lparr>et_bin = path, et_version = trim (utf8_lossy out)\<rparr> else None
      | CannotRun \<Rightarrow> None | ProbeTimedOut \<Rightarrow> None))"

section \<open>Previews\<close>

definition PREVIEW :: string where "PREVIEW = ''preview''"
definition IMAGE :: string where "IMAGE = ''image''"
definition IMAGE_FILE :: string where "IMAGE_FILE = ''image.jpg''"
definition RENDER_VERSION :: nat where "RENDER_VERSION = 1"
definition WORKER_ARG :: string where "WORKER_ARG = ''__preview-worker''"
definition EXIT_NO_PREVIEW :: int where "EXIT_NO_PREVIEW = 2"
definition EXIT_USAGE :: int where "EXIT_USAGE = 64"
definition JPEG_QUALITY :: nat where "JPEG_QUALITY = 85"

definition raw_extension :: "string list \<Rightarrow> string \<Rightarrow> string option" where
  "raw_extension known name = (case final_extension name of None \<Rightarrow> None
     | Some ext \<Rightarrow> find (\<lambda>k. to_ascii_lowercase k = to_ascii_lowercase ext) known)"

definition preview_processor :: "string list \<Rightarrow> nat \<Rightarrow> processor" where
  "preview_processor known max_dim = \<lparr>pr_name = PREVIEW, pr_outputs = [IMAGE],
     pr_check = (\<lambda>name. if raw_extension known name \<noteq> None then Inr ()
       else Inl (case final_extension name of Some ext \<Rightarrow> ''.'' @ ext @ '' is not a RAW format rawler reads''
         | None \<Rightarrow> ''file has no extension; not a RAW format rawler reads'')),
     pr_params = dec max_dim @ [nul] @ dec RENDER_VERSION\<rparr>"

text \<open>rawler and the image library, for a source \<open>'r\<close> and an image \<open>'i\<close>; errors by their text.\<close>

record ('r, 'i) rawler =
  rw_source :: "string \<Rightarrow> string + 'r"
  rw_decoder :: "'r \<Rightarrow> string + unit"
  rw_preview :: "'r \<Rightarrow> string + 'i option"
  rw_thumbnail :: "'r \<Rightarrow> string + 'i option"
  rw_orientation :: "'r \<Rightarrow> nat option"
  im_width :: "'i \<Rightarrow> nat"
  im_height :: "'i \<Rightarrow> nat"
  im_thumbnail :: "nat \<Rightarrow> 'i \<Rightarrow> 'i"
  im_orient :: "nat \<Rightarrow> 'i \<Rightarrow> 'i"
  im_jpeg :: "nat \<Rightarrow> 'i \<Rightarrow> string + string"

definition embedded :: "('r, 'i) rawler \<Rightarrow> 'r \<Rightarrow> string + 'i" where
  "embedded rw src = (case rw_preview rw src of
     Inr (Some img) \<Rightarrow> Inr img
   | preview \<Rightarrow> (case rw_thumbnail rw src of
        Inr (Some img) \<Rightarrow> Inr img
      | thumbnail \<Rightarrow> Inl (case (preview, thumbnail) of
          (Inl e, _) \<Rightarrow> ''preview: '' @ e
        | (_, Inl e) \<Rightarrow> ''thumbnail: '' @ e
        | _ \<Rightarrow> ''no embedded preview or thumbnail'')))"

definition render :: "('r, 'i) rawler \<Rightarrow> string \<Rightarrow> nat \<Rightarrow> string + string" where
  "render rw path max_dim =
     bindR (map_errR (\<lambda>e. ''cannot read file: '' @ e) (rw_source rw path)) (\<lambda>src.
     bindR (rw_decoder rw src) (\<lambda>_.
     bindR (embedded rw src) (\<lambda>img.
       (let img1 = (if 0 < max_dim \<and> (max_dim < im_width rw img \<or> max_dim < im_height rw img)
              then im_thumbnail rw max_dim img else img);
            img2 = (case rw_orientation rw src of
                Some o' \<Rightarrow> if 1 \<le> o' \<and> o' \<le> 8 then im_orient rw o' img1 else img1 | None \<Rightarrow> img1)
        in map_errR (\<lambda>e. ''encode JPEG: '' @ e) (im_jpeg rw JPEG_QUALITY img2)))))"

text \<open>\<^verbatim>\<open>str::parse\<close> of an unsigned integer of the width.\<close>

definition parse_uint :: "nat \<Rightarrow> string \<Rightarrow> nat option" where
  "parse_uint width s =
     (let d = (case strip_prefix ''+'' s of Some r \<Rightarrow> r | None \<Rightarrow> s);
          v = foldl (\<lambda>a c. 10 * a + (byte c - 48)) 0 d
      in if d \<noteq> [] \<and> list_all (in_range (CHR ''0'') (CHR ''9'')) d \<and> v < 2 ^ width then Some v else None)"

definition limit_memory :: "(nat \<Rightarrow> string + unit) \<Rightarrow> nat \<Rightarrow> string + unit" where
  "limit_memory setrlimit bytes = (if bytes = 0 then Inr () else setrlimit bytes)"

text \<open>The worker: its exit code, its last line on stderr and the file it wrote, if any; \<open>write_file\<close> may fail with a text.\<close>

definition worker :: "('r, 'i) rawler \<Rightarrow> (nat \<Rightarrow> string + unit) \<Rightarrow> (string \<Rightarrow> string + unit) \<Rightarrow> string list \<Rightarrow> int \<times> string \<times> string option" where
  "worker rw setrlimit write_file args = (case args of
     [input, out, max_dim, memory] \<Rightarrow>
       (case (parse_uint 32 max_dim, parse_uint 64 memory) of
          (Some dim, Some mem) \<Rightarrow>
            (case limit_memory setrlimit mem of Inl e \<Rightarrow> (EXIT_USAGE, ''setrlimit(RLIMIT_DATA): '' @ e @ nl, None)
             | Inr _ \<Rightarrow>
              (case render rw input dim of Inl reason \<Rightarrow> (EXIT_NO_PREVIEW, reason @ nl, None)
               | Inr jpeg \<Rightarrow>
                (case write_file out of Inl e \<Rightarrow> (EXIT_USAGE, ''write '' @ out @ '': '' @ e @ nl, None)
                 | Inr _ \<Rightarrow> (0, [], Some jpeg))))
        | _ \<Rightarrow> (EXIT_USAGE, ''invalid <max-dim> or <memory-bytes>'' @ nl, None))
   | _ \<Rightarrow> (EXIT_USAGE, ''usage: rawdb '' @ WORKER_ARG @ '' <input> <output> <max-dim> <memory-bytes>'' @ nl, None))"

definition run_if_requested :: "(string list \<Rightarrow> 'x) \<Rightarrow> string list \<Rightarrow> 'x option" where
  "run_if_requested run args = (case drop 1 args of a # rest \<Rightarrow> if a = WORKER_ARG then Some (run rest) else None | [] \<Rightarrow> None)"

text \<open>What became of a worker process: it ran to its end, panicked (exit code 101), or died of a signal, with its stderr.\<close>

datatype fate = NotStarted | OutOfTime | NotWaited | Returned | Panics string | Dies nat bool string

definition preview_outcome :: "nat \<Rightarrow> exit_status \<Rightarrow> string \<Rightarrow> outcome" where
  "preview_outcome memory status raw = (let stderr = stderr_text raw in
     if status_code status = Some 0 then Done [\<lparr>of_name = IMAGE, of_file = IMAGE_FILE, of_type = ''image/jpeg''\<rparr>]
     else if status_code status = Some EXIT_NO_PREVIEW then NoResult stderr
     else if contains_sub ''memory allocation of'' stderr
     then Failed (''preview needs more memory than the worker may use (RAWDB_INSPECT_MEMORY_BYTES='' @ dec memory @ '')'')
     else Failed (''decoder crashed ('' @ status_text status @ ''): '' @ stderr))"

definition preview_process :: "('r, 'i) rawler \<Rightarrow> (nat \<Rightarrow> string + unit) \<Rightarrow> (string \<Rightarrow> string + unit) \<Rightarrow> nat \<Rightarrow> nat \<Rightarrow> nat
    \<Rightarrow> string \<Rightarrow> string \<Rightarrow> fate \<Rightarrow> run_end \<times> (string \<times> string) list" where
  "preview_process rw setrlimit write_file max_dim timeout_secs memory input out fate = (case fate of
     NotStarted \<Rightarrow> (RunError, [])
   | OutOfTime \<Rightarrow> (Ended (Failed (''decoder timed out after '' @ dec timeout_secs @ ''s'')), [])
   | NotWaited \<Rightarrow> (RunError, [])
   | Returned \<Rightarrow>
      (case worker rw setrlimit write_file [input, path_join out IMAGE_FILE, dec max_dim, dec memory] of
         (code, err, file) \<Rightarrow> (Ended (preview_outcome memory (Exited code) err),
            case file of Some jpeg \<Rightarrow> [(IMAGE_FILE, jpeg)] | None \<Rightarrow> []))
   | Panics err \<Rightarrow> (Ended (preview_outcome memory (Exited 101) err), [])
   | Dies n core err \<Rightarrow> (Ended (preview_outcome memory (Signaled n core) err), []))"

end
