(* ===== verification/Inspect_Props.thy ===== *)
theory Inspect_Props imports Inspect begin

text \<open>What every interleaving of requests, jobs and sweeps keeps, and why it comes to an end.\<close>

section \<open>Steps of a job\<close>

definition holds_slot :: "job \<Rightarrow> bool" where
  "holds_slot j = (case jb_phase j of Preparing \<Rightarrow> True | Downloading \<Rightarrow> True | Running _ _ \<Rightarrow> True
     | Publishing _ _ _ _ \<Rightarrow> True | _ \<Rightarrow> False)"

definition registered :: "job \<Rightarrow> bool" where
  "registered j \<longleftrightarrow> jb_phase j \<noteq> Waking \<and> jb_phase j \<noteq> Over"

text \<open>How the job itself changes.\<close>

lemma set_simps [simp]:
  "ix_made (set_job n j s) = (ix_made s)[n := j]" "ix_free (set_job n j s) = ix_free s" "ix_jobs (set_job n j s) = ix_jobs s"
  "ix_dir (set_job n j s) = ix_dir s" "ix_now (set_job n j s) = ix_now s" "ix_requests (set_job n j s) = ix_requests s"
  "ix_made (unregister n k s) = ix_made s" "ix_free (unregister n k s) = ix_free s"
  "ix_dir (unregister n k s) = ix_dir s" "ix_now (unregister n k s) = ix_now s" "ix_requests (unregister n k s) = ix_requests s"
  "ix_jobs (unregister n k s) = (if map_of (ix_jobs s) k = Some n then filter (\<lambda>e. fst e \<noteq> k) (ix_jobs s) else ix_jobs s)"
  by (simp_all add: set_job_def unregister_def)

lemmas phase_steps = set_phase_def leave_def

lemma sum_at: "n < length xs \<Longrightarrow> sum_list (map f (xs[n := x])) + f (xs ! n) = sum_list (map f xs) + (f x :: nat)"
  by (induction xs arbitrary: n) (auto split: nat.split simp: nth_Cons')

definition slots_of :: "job \<Rightarrow> nat" where "slots_of j = (if holds_slot j then 1 else 0)"

text \<open>The steps a job still has to make.\<close>

definition job_work :: "job \<Rightarrow> nat" where
  "job_work j = (case jb_phase j of
     Queued \<Rightarrow> 2 * length (jb_plan j) + 6
   | Preparing \<Rightarrow> 2 * length (jb_plan j) + 5
   | Downloading \<Rightarrow> 2 * length (jb_plan j) + 4
   | Running ps _ \<Rightarrow> 2 * length ps + 3
   | Publishing _ _ ps _ \<Rightarrow> 2 * length ps + 4
   | Failing _ \<Rightarrow> 3 | Leaving \<Rightarrow> 2 | Waking \<Rightarrow> 1 | Over \<Rightarrow> 0)"

definition job_change :: "nat \<Rightarrow> inspection \<Rightarrow> inspection \<Rightarrow> job \<Rightarrow> bool" where
  "job_change n s s' j' \<longleftrightarrow> (let j = ix_made s ! n in
     ix_made s' = (ix_made s)[n := j'] \<and> ix_now s' = ix_now s \<and> ix_requests s' = ix_requests s \<and> jb_phase j \<noteq> Over
     \<and> jb_object j' = jb_object j \<and> jb_plan j' = jb_plan j
     \<and> ix_free s' + slots_of j' = ix_free s + slots_of j \<and> job_work j' < job_work j
     \<and> (if jb_phase j = Leaving then jb_phase j' = Waking \<and> ix_jobs s' = ix_jobs (unregister n (job_key (jb_object j)) s)
        else jb_phase j' \<noteq> Waking \<and> ix_jobs s' = ix_jobs s)
     \<and> (if jb_phase j = Waking then jb_phase j' = Over \<and> jb_finished j' else jb_phase j' \<noteq> Over \<and> jb_finished j' = jb_finished j))"

lemmas change_simps = job_change_def run_job_def phase_steps fail_rest_def slots_of_def holds_slot_def job_work_def

lemma run_job_change: "run_job i ans n s = Some s' \<Longrightarrow> n < length (ix_made s) \<Longrightarrow> \<exists>j'. job_change n s s' j'"
proof (rule exI [of _ "ix_made s' ! n"])
  assume r: "run_job i ans n s = Some s'" and n: "n < length (ix_made s)"
  show "job_change n s s' (ix_made s' ! n)"
  proof (cases "jb_phase (ix_made s ! n)")
    case (Running ps bytes)
    then show ?thesis using r n
      by (cases ps) (auto simp: change_simps Let_def split: answer.splits if_splits prod.splits option.splits)
  next
    case Downloading
    then show ?thesis using r n by (auto simp: change_simps Let_def split: answer.splits sum.splits)
  qed (use r n in \<open>auto simp: change_simps Let_def split: answer.splits if_splits\<close>)
qed

section \<open>Steps of a request\<close>

definition new_job :: "inspected \<Rightarrow> processor list \<Rightarrow> job" where
  "new_job ob plan = \<lparr>jb_object = ob, jb_plan = plan, jb_done = [], jb_finished = False, jb_phase = Queued\<rparr>"

definition started :: "inspector \<Rightarrow> request \<Rightarrow> inspection \<Rightarrow> inspection" where
  "started i rq s = s \<lparr>ix_made := ix_made s @ [new_job (rq_object rq) (job_plan i (rq_processor rq) (rq_object rq) s)],
     ix_jobs := (job_key (rq_object rq), length (ix_made s)) # ix_jobs s\<rparr>"

text \<open>A request changes the jobs only when it starts one, which it then waits for.\<close>

lemma get_step_cases:
  assumes "get_step i rq s = Some (ph, s')"
  obtains (same) "s' = s" "\<And>n m. ph = Awaiting n m \<Longrightarrow> map_of (ix_jobs s) (job_key (rq_object rq)) = Some m"
  | (begun) n where "rq_phase rq = Joining n" "ph = Awaiting n (length (ix_made s))" "s' = started i rq s"
      "map_of (ix_jobs s) (job_key (rq_object rq)) = None"
proof (cases "rq_phase rq")
  case (Joining n)
  have st: "join_or_start i (rq_processor rq) (rq_object rq) s = (Some m, t) \<Longrightarrow>
      (t = s \<and> map_of (ix_jobs s) (job_key (rq_object rq)) = Some m)
      \<or> (t = started i rq s \<and> m = length (ix_made s) \<and> map_of (ix_jobs s) (job_key (rq_object rq)) = None)"
    "join_or_start i (rq_processor rq) (rq_object rq) s = (None, t) \<Longrightarrow> t = s" for m t
    unfolding join_or_start_def started_def new_job_def Let_def by (auto split: option.splits if_splits)
  obtain r t where j: "join_or_start i (rq_processor rq) (rq_object rq) s = (r, t)" by fastforce
  show thesis
  proof (cases r)
    case None
    then show thesis using assms Joining j st(2) same [of] by (auto simp: get_step_def Let_def)
  next
    case (Some m)
    then have "ph = Awaiting n m" "s' = t" using assms Joining j by (simp_all add: get_step_def Let_def)
    then show thesis using st(1) [of m t] j [unfolded Some] same begun [OF Joining] by auto
  qed
next
  case (Looking n)
  then show thesis using assms same unfolding get_step_def by (cases n) (auto simp: Let_def split: option.splits)
next
  case (Awaiting n m)
  then show thesis using assms same unfolding get_step_def
    by (auto simp: Let_def split: option.splits if_splits sum.splits)
qed (use assms same in \<open>auto simp: get_step_def Let_def\<close>)

section \<open>The job table\<close>

definition waits_for :: "request \<Rightarrow> nat option" where
  "waits_for rq = (case rq_phase rq of Awaiting _ m \<Rightarrow> Some m | _ \<Rightarrow> None)"

definition jobs_inv :: "inspector \<Rightarrow> inspection \<Rightarrow> bool" where
  "jobs_inv i s \<longleftrightarrow>
     (\<forall>k n. map_of (ix_jobs s) k = Some n \<longleftrightarrow>
        n < length (ix_made s) \<and> registered (ix_made s ! n) \<and> k = job_key (jb_object (ix_made s ! n)))
     \<and> ix_free s + sum_list (map slots_of (ix_made s)) = max 1 (iq_slots i)
     \<and> (\<forall>j\<in>set (ix_made s). jb_finished j \<longleftrightarrow> jb_phase j = Over)
     \<and> (\<forall>rq\<in>set (ix_requests s). \<forall>m. waits_for rq = Some m \<longrightarrow> m < length (ix_made s))"

lemma set_list_update: "n < length xs \<Longrightarrow> x \<in> set (xs[n := y]) \<Longrightarrow> x = y \<or> x \<in> set xs"
  using set_update_subset_insert by fastforce

lemma map_of_filter_key: "map_of (filter (\<lambda>e. P (fst e)) xs) k = (if P k then map_of xs k else None)"
  by (induction xs) auto

lemma jobs_inv_job:
  assumes "jobs_inv i s" "job_change n s s' j'" "n < length (ix_made s)"
  shows "jobs_inv i s'"
proof -
  let ?j = "ix_made s ! n"
  have tab: "map_of (ix_jobs s) k = Some m \<longleftrightarrow> m < length (ix_made s) \<and> registered (ix_made s ! m) \<and> k = job_key (jb_object (ix_made s ! m))"
    for k m using assms(1) by (simp add: jobs_inv_def)
  have c: "ix_made s' = (ix_made s)[n := j']" "ix_requests s' = ix_requests s" "jb_object j' = jb_object ?j"
    "ix_free s' + slots_of j' = ix_free s + slots_of ?j"
    using assms(2) by (simp_all add: job_change_def Let_def)
  have "map_of (ix_jobs s') k = Some m \<longleftrightarrow> m < length (ix_made s') \<and> registered (ix_made s' ! m) \<and> k = job_key (jb_object (ix_made s' ! m))" for k m
  proof (cases "jb_phase ?j = Leaving")
    case True
    then have "registered ?j" and nreg: "\<not> registered j'" and n: "map_of (ix_jobs s) (job_key (jb_object ?j)) = Some n"
      using assms(2,3) tab by (auto simp: job_change_def Let_def registered_def)
    moreover from this have "ix_jobs s' = filter (\<lambda>e. fst e \<noteq> job_key (jb_object ?j)) (ix_jobs s)"
      using True assms(2) by (simp add: job_change_def Let_def)
    ultimately have "map_of (ix_jobs s') k = (if k = job_key (jb_object ?j) then None else map_of (ix_jobs s) k)"
      by (simp add: map_of_filter_key [of "\<lambda>l. l \<noteq> job_key (jb_object ?j)"])
    then show ?thesis
      using tab [of k m] assms(3) c(1) nreg n by (cases "m = n"; cases "k = job_key (jb_object ?j)") simp_all
  next
    case False
    then have "registered j' = registered ?j" "ix_jobs s' = ix_jobs s"
      using assms(2) by (auto simp: job_change_def Let_def registered_def split: if_splits)
    then show ?thesis using tab c(1,3) assms(3) by (auto simp: nth_list_update)
  qed
  moreover have "ix_free s' + sum_list (map slots_of (ix_made s')) = max 1 (iq_slots i)"
    using assms(1) c(4) sum_at [OF assms(3), of slots_of j'] by (simp add: c(1) jobs_inv_def)
  moreover have "jb_finished j \<longleftrightarrow> jb_phase j = Over" if "j \<in> set (ix_made s')" for j
    using that set_list_update [OF assms(3), of j j'] assms c(1)
    by (auto simp: jobs_inv_def job_change_def Let_def split: if_splits)
  moreover have "\<forall>rq\<in>set (ix_requests s'). \<forall>m. waits_for rq = Some m \<longrightarrow> m < length (ix_made s')"
    using assms(1) c(1,2) by (simp add: jobs_inv_def)
  ultimately show ?thesis by (simp add: jobs_inv_def)
qed

lemma jobs_inv_started:
  assumes "jobs_inv i s" "map_of (ix_jobs s) (job_key (rq_object rq)) = None"
  shows "jobs_inv i (started i rq s)"
proof -
  let ?j = "new_job (rq_object rq) (job_plan i (rq_processor rq) (rq_object rq) s)"
  have j: "registered ?j" "jb_object ?j = rq_object rq" "slots_of ?j = 0" "\<not> jb_finished ?j" "jb_phase ?j \<noteq> Over"
    by (simp_all add: new_job_def registered_def slots_of_def holds_slot_def)
  have tab: "map_of (ix_jobs s) k = Some m \<longleftrightarrow> m < length (ix_made s) \<and> registered (ix_made s ! m) \<and> k = job_key (jb_object (ix_made s ! m))"
    for k m using assms(1) by (simp add: jobs_inv_def)
  have free: "job_key (jb_object (ix_made s ! m)) \<noteq> job_key (rq_object rq)" if "m < length (ix_made s)" "registered (ix_made s ! m)" for m
    using tab [of "job_key (rq_object rq)" m] that assms(2) by auto
  have "map_of (ix_jobs (started i rq s)) k = Some m \<longleftrightarrow> m < length (ix_made (started i rq s))
      \<and> registered (ix_made (started i rq s) ! m) \<and> k = job_key (jb_object (ix_made (started i rq s) ! m))" for k m
    using j tab [of k m] free [of m] by (auto simp: started_def nth_append less_Suc_eq)
  then show ?thesis using assms(1) j by (auto simp: jobs_inv_def started_def intro: less_SucI)
qed

lemma jobs_inv_request:
  assumes "jobs_inv i s" "get_step i (ix_requests s ! n) s = Some (ph, s')" "n < length (ix_requests s)"
  shows "jobs_inv i (s' \<lparr>ix_requests := (ix_requests s)[n := (ix_requests s ! n) \<lparr>rq_phase := ph\<rparr>]\<rparr>)"
proof -
  let ?q = "(ix_requests s ! n) \<lparr>rq_phase := ph\<rparr>"
  have upd: "jobs_inv i (t \<lparr>ix_requests := (ix_requests s)[n := ?q]\<rparr>)"
    if "jobs_inv i t" "ix_requests t = ix_requests s" "\<forall>m. waits_for ?q = Some m \<longrightarrow> m < length (ix_made t)" for t
  proof -
    have "\<forall>m. waits_for rq = Some m \<longrightarrow> m < length (ix_made t)" if "rq \<in> set ((ix_requests s)[n := ?q])" for rq
      using set_list_update [OF assms(3) that]
    proof
      assume "rq \<in> set (ix_requests s)"
      then show ?thesis using \<open>jobs_inv i t\<close> \<open>ix_requests t = ix_requests s\<close> by (simp add: jobs_inv_def)
    qed (use \<open>\<forall>m. waits_for ?q = Some m \<longrightarrow> m < length (ix_made t)\<close> in simp)
    then show ?thesis using \<open>jobs_inv i t\<close> by (simp add: jobs_inv_def)
  qed
  show ?thesis
    using assms(2)
  proof (cases rule: get_step_cases)
    case same
    have "m < length (ix_made s)" if "waits_for ?q = Some m" for m
    proof -
      obtain r where "ph = Awaiting r m" using \<open>waits_for ?q = Some m\<close> by (auto simp: waits_for_def split: request_phase.splits)
      then show ?thesis using same(2) assms(1) by (auto simp: jobs_inv_def)
    qed
    then show ?thesis using upd [of s] assms(1) same(1) by simp
  next
    case begun
    then show ?thesis using upd [of "started i (ix_requests s ! n) s"] jobs_inv_started [OF assms(1)]
      by (auto simp: waits_for_def started_def)
  qed
qed

lemma inspecting_jobs: "inspecting i may_run delivers versions s \<Longrightarrow> jobs_inv i s"
proof (induction rule: inspecting.induct)
  case (acted s s')
  from acted.hyps(2) show ?case
  proof cases
    case (request n ph s'')
    then show ?thesis using acted.IH jobs_inv_request by simp
  next
    case (job n ans)
    then obtain j' where "job_change n s s' j'" using run_job_change by blast
    then show ?thesis using jobs_inv_job [OF acted.IH] job(1) by blast
  qed
qed (auto simp: jobs_inv_def waits_for_def)

section \<open>Work left\<close>

definition job_max :: "inspector \<Rightarrow> nat" where
  "job_max i = 2 * length (iq_processors i) + 9"

definition request_work :: "inspector \<Rightarrow> request \<Rightarrow> nat" where
  "request_work i rq = (let w = job_max i in case rq_phase rq of
     Looking n \<Rightarrow> n * (w + 3) + 1
   | Joining n \<Rightarrow> n * (w + 3) + w + 2
   | Awaiting n m \<Rightarrow> n * (w + 3) + 2
   | Reading \<Rightarrow> 1
   | Answered r \<Rightarrow> 0)"

definition work_left :: "inspector \<Rightarrow> inspection \<Rightarrow> nat" where
  "work_left i s = sum_list (map (request_work i) (ix_requests s)) + sum_list (map job_work (ix_made s))"

lemma plan_length: "length (job_plan i p ob s) \<le> length (iq_processors i) + 1"
  unfolding job_plan_def using le_trans [OF length_filter_le] length_filter_le by (metis Suc_eq_plus1 Suc_le_mono length_Cons)

lemma request_work_step:
  assumes "get_step i rq s = Some (ph, s')"
  shows "ix_requests s' = ix_requests s
     \<and> request_work i (rq \<lparr>rq_phase := ph\<rparr>) + sum_list (map job_work (ix_made s')) < request_work i rq + sum_list (map job_work (ix_made s))"
  using assms
proof (cases rule: get_step_cases)
  case same
  have "request_work i (rq \<lparr>rq_phase := ph\<rparr>) < request_work i rq"
  proof (cases "rq_phase rq")
    case (Looking n)
    then show ?thesis using assms by (cases n) (auto simp: get_step_def request_work_def Let_def split: option.splits)
  next
    case (Joining n)
    obtain r t where "join_or_start i (rq_processor rq) (rq_object rq) s = (r, t)" by fastforce
    then have "ph = Looking n \<or> (\<exists>m. ph = Awaiting n m)"
      using assms Joining by (cases r) (auto simp: get_step_def Let_def)
    then show ?thesis using Joining by (auto simp: request_work_def Let_def job_max_def)
  next
    case (Awaiting n m)
    then show ?thesis using assms
      by (auto simp: get_step_def request_work_def Let_def split: option.splits sum.splits if_splits)
  qed (use assms in \<open>auto simp: get_step_def request_work_def Let_def\<close>)
  then show ?thesis using same(1) by simp
next
  case (begun n)
  then show ?thesis using plan_length [of i "rq_processor rq" "rq_object rq" s]
    by (simp add: request_work_def started_def new_job_def job_work_def job_max_def Let_def)
qed

lemma act_work: assumes "act i may_run delivers s s'" shows "work_left i s' < work_left i s"
  using assms
proof cases
  case (request n ph t)
  show ?thesis
    using request_work_step [OF request(3)] sum_at [OF request(2), of "request_work i" "(ix_requests s ! n) \<lparr>rq_phase := ph\<rparr>"]
    by (simp add: work_left_def request(1))
next
  case (job n ans)
  then obtain j' where "job_change n s s' j'" using run_job_change by blast
  then show ?thesis using sum_at [OF job(1), of job_work j'] by (simp add: work_left_def job_change_def Let_def)
qed

text \<open>A job that is not over can make its next step, a queued one when a slot is free.\<close>

lemma job_enabled:
  assumes "jb_phase (ix_made s ! n) \<noteq> Over" "jb_phase (ix_made s ! n) = Queued \<longrightarrow> 0 < ix_free s"
  shows "\<exists>ans s'. answer_ok may_run delivers (ix_made s ! n) ans \<and> run_job i ans n s = Some s'"
proof (cases "jb_phase (ix_made s ! n)")
  case Preparing
  then show ?thesis by (intro exI [of _ "Created True"]) (simp add: answer_ok_def run_job_def Let_def)
next
  case Downloading
  then show ?thesis by (intro exI [of _ "Fetched (Inl Other)"]) (simp add: answer_ok_def run_job_def Let_def)
next
  case (Running ps bytes)
  then show ?thesis
  proof (cases ps)
    case Nil
    then show ?thesis using Running by (intro exI [of _ Go]) (simp add: answer_ok_def run_job_def Let_def)
  next
    case (Cons p qs)
    then show ?thesis using Running
      by (intro exI [of _ "Ran False RunError [] undefined"]) (simp add: answer_ok_def run_job_def run_processor_def Let_def)
  qed
qed (use assms in \<open>auto intro!: exI [of _ Go] simp: answer_ok_def run_job_def Let_def\<close>)

lemma stuck_done:
  assumes inv: "jobs_inv i s" and stuck: "\<nexists>s'. act i may_run delivers s s'"
  shows "(\<forall>rq\<in>set (ix_requests s). \<exists>r. rq_phase rq = Answered r) \<and> (\<forall>j\<in>set (ix_made s). jb_phase j = Over) \<and> ix_jobs s = []"
proof -
  have able: "jb_phase (ix_made s ! n) = Over \<or> jb_phase (ix_made s ! n) = Queued \<and> ix_free s = 0" if "n < length (ix_made s)" for n
    using that job_enabled stuck act.job by (metis gr0I)
  have "slots_of j = 0" if j: "j \<in> set (ix_made s)" for j
  proof -
    obtain n where "n < length (ix_made s)" "ix_made s ! n = j" using j by (auto simp: in_set_conv_nth)
    then show ?thesis using able [of n] by (auto simp: slots_of_def holds_slot_def)
  qed
  then have none: "sum_list (map slots_of (ix_made s)) = 0" by (simp add: sum_list_eq_0_iff)
  have "ix_free s + sum_list (map slots_of (ix_made s)) = max 1 (iq_slots i)" using inv unfolding jobs_inv_def by blast
  then have "0 < ix_free s" unfolding none by simp
  then have over: "jb_phase (ix_made s ! n) = Over" if "n < length (ix_made s)" for n using able that by fastforce
  have "\<exists>r. rq_phase rq = Answered r" if rq: "rq \<in> set (ix_requests s)" for rq
  proof (rule ccontr)
    assume open_rq: "\<not> ?thesis"
    obtain n where n: "n < length (ix_requests s)" "rq = ix_requests s ! n" using rq by (auto simp: in_set_conv_nth)
    have "jb_finished (ix_made s ! m)" if "waits_for rq = Some m" for m
      using inv over rq that by (auto simp: jobs_inv_def)
    then have "\<exists>ph s'. get_step i rq s = Some (ph, s')"
    proof (cases "rq_phase rq")
      case (Looking k)
      then show ?thesis by (cases k) (auto simp: get_step_def Let_def split: option.splits)
    next
      case (Joining k)
      then show ?thesis by (auto simp: get_step_def Let_def split: option.splits prod.splits)
    qed (use open_rq in \<open>auto simp: get_step_def waits_for_def Let_def split: option.splits sum.splits\<close>)
    then show False using act.request [OF n(1)] n(2) stuck by blast
  qed
  moreover have "ix_jobs s = []"
  proof (rule ccontr)
    assume "ix_jobs s \<noteq> []"
    then obtain k m xs where "ix_jobs s = (k, m) # xs" by (cases "ix_jobs s") auto
    then have "map_of (ix_jobs s) k = Some m" by simp
    then show False using inv over by (auto simp: jobs_inv_def registered_def)
  qed
  ultimately show ?thesis using over by (auto simp: in_set_conv_nth)
qed

section \<open>Where results come from\<close>

text \<open>
  \<open>produced i may_run delivers ob p m written\<close>: a run of \<open>p\<close> on a download of that object version ended with an answer to keep,
  \<open>m\<close>, leaving the files \<open>written\<close>. The object may be another record of the same key, version and size.
\<close>

definition same_version :: "inspected \<Rightarrow> inspected \<Rightarrow> bool" where
  "same_version ob ob' \<longleftrightarrow> io_key ob = io_key ob' \<and> io_version ob = io_version ob' \<and> io_size ob = io_size ob'"

definition kept :: "processor \<Rightarrow> run_end \<Rightarrow> (string \<times> string) list \<Rightarrow> manifest \<Rightarrow> bool" where
  "kept p r written m \<longleftrightarrow> (\<exists>reason. r = Ended (NoResult reason) \<and> m = Reason reason)
     \<or> (\<exists>outs. r = Ended (Done outs) \<and> checked_outputs p written outs = Inr m)"

definition produced :: "inspector \<Rightarrow> tools \<Rightarrow> downloads \<Rightarrow> inspected set \<Rightarrow> inspected \<Rightarrow> processor \<Rightarrow> manifest \<Rightarrow> (string \<times> string) list \<Rightarrow> bool" where
  "produced i may_run delivers versions ob p m written \<longleftrightarrow>
     (\<exists>ob' bytes r. ob' \<in> versions \<and> same_version ob' ob \<and> delivers (io_key ob') (io_size ob') bytes
        \<and> may_run p (input_name (io_file ob')) bytes r written \<and> kept p r written m)"

definition dir_inv :: "inspector \<Rightarrow> tools \<Rightarrow> downloads \<Rightarrow> inspected set \<Rightarrow> cache_dir \<Rightarrow> bool" where
  "dir_inv i may_run delivers versions dir \<longleftrightarrow> (\<forall>rid files t. map_of dir rid = Some (Folder files t) \<longrightarrow>
     (\<exists>p ob m written. p \<in> set (iq_processors i) \<and> ob \<in> versions \<and> rid = cache_id i p ob
        \<and> files = AList.update MANIFEST (iq_to_json i m) written \<and> produced i may_run delivers versions ob p m written))"

lemma dir_inv_filter: "dir_inv i may_run delivers versions dir \<Longrightarrow> dir_inv i may_run delivers versions (filter (\<lambda>e. P (fst e)) dir)"
  by (simp add: dir_inv_def map_of_filter_key)

lemma dir_inv_sweep: "dir_inv i may_run delivers versions dir \<Longrightarrow> dir_inv i may_run delivers versions (snd (sweep_results i removable now dir))"
  using dir_inv_filter [of i may_run delivers versions dir "\<lambda>rid. \<not> (\<not> is_fresh i now dir rid \<and> removable rid)"]
  by (simp add: sweep_results_def Let_def)

lemma dir_inv_run:
  assumes "dir_inv i may_run delivers versions dir" "p \<in> set (iq_processors i)" "ob \<in> versions"
    and "delivers (io_key ob) (io_size ob) bytes" "dir_made \<Longrightarrow> may_run p (input_name (io_file ob)) bytes r written"
    and run: "run_processor i p ob dir_made r written io now dir = (res, dir')"
  shows "dir_inv i may_run delivers versions dir'"
proof -
  have keep: "dir_inv i may_run delivers versions (snd (store i (cache_id i p ob) written m io now dir))"
    if "kept p r written m" dir_made for m
  proof -
    let ?rid = "cache_id i p ob"
    have "produced i may_run delivers versions ob p m written"
      unfolding produced_def same_version_def using assms(3,4,5) that by blast
    then have new: "dir_inv i may_run delivers versions ((?rid, Folder (AList.update MANIFEST (iq_to_json i m) written) now) # dir1)"
      if "dir_inv i may_run delivers versions dir1" for dir1
      using that assms(2,3) unfolding dir_inv_def by auto
    show ?thesis
      using assms(1) dir_inv_filter [of i may_run delivers versions _ "\<lambda>k. k \<noteq> ?rid"] new
      by (auto simp: store_def Let_def)
  qed
  show ?thesis
  proof (cases "dir_made \<and> (\<exists>m. kept p r written m)")
    case False
    then have "dir' = dir" using run
      by (auto simp: run_processor_def kept_def Let_def split: run_end.splits outcome.splits sum.splits if_splits)
    then show ?thesis using assms(1) by simp
  next
    case True
    then obtain m where m: dir_made "kept p r written m" by blast
    then have "dir' = snd (store i (cache_id i p ob) written m io now dir)" using run
      by (auto simp: run_processor_def kept_def Let_def split: sum.splits prod.splits)
    then show ?thesis using keep m by simp
  qed
qed

section \<open>Names identify results\<close>

definition names_ok :: "inspector \<Rightarrow> bool" where
  "names_ok i \<longleftrightarrow> distinct (map pr_name (iq_processors i)) \<and> (\<forall>p\<in>set (iq_processors i). nul \<notin> set (pr_name p))"

definition versions_ok :: "inspected set \<Rightarrow> bool" where
  "versions_ok versions \<longleftrightarrow> (\<forall>ob\<in>versions. nul \<notin> set (io_version ob))"

lemma dec_nul: "nul \<notin> set (dec n)"
  using dec_digits [of nul n] by (auto simp: byte_def)

lemma key_text_inj:
  assumes "nul \<notin> set (io_version ob)" "nul \<notin> set (io_version ob')"
    and "io_key ob @ [nul] @ io_version ob @ [nul] @ dec (io_size ob) = io_key ob' @ [nul] @ io_version ob' @ [nul] @ dec (io_size ob')"
  shows "same_version ob ob'"
proof -
  have "(io_key ob @ nul # io_version ob) @ nul # dec (io_size ob) = (io_key ob' @ nul # io_version ob') @ nul # dec (io_size ob')"
    using assms(3) by simp
  note sz = rcut_eq [OF dec_nul dec_nul this]
  show ?thesis
    using rcut_eq [OF assms(1,2) conjunct1 [OF sz]] dec_inj [OF conjunct2 [OF sz]] by (simp add: same_version_def)
qed

lemma id_text_inj:
  assumes "names_ok i" "p \<in> set (iq_processors i)" "p' \<in> set (iq_processors i)"
    and "nul \<notin> set (io_version ob)" "nul \<notin> set (io_version ob')" "id_text p ob = id_text p' ob'"
  shows "p = p' \<and> same_version ob ob'"
proof -
  have free: "nul \<notin> set (pr_name p)" "nul \<notin> set (pr_name p')" using assms(1-3) by (simp_all add: names_ok_def)
  let ?t = "\<lambda>p ob. (io_key ob @ [nul] @ io_version ob @ [nul] @ dec (io_size ob)) @ nul # pr_params p"
  have "pr_name p @ nul # ?t p ob = pr_name p' @ nul # ?t p' ob'" using assms(6) by (simp add: id_text_def)
  from cut_eq [OF free this] have rest: "pr_name p = pr_name p'" "?t p ob = ?t p' ob'" by blast+
  then have "p = p'" using assms(1-3) by (auto simp: names_ok_def distinct_map inj_on_def)
  then show ?thesis using rest(2) key_text_inj [OF assms(4,5)] by simp
qed

definition hash_ok :: "inspector \<Rightarrow> inspected set \<Rightarrow> bool" where
  "hash_ok i versions \<longleftrightarrow> (\<forall>p\<in>set (iq_processors i). \<forall>p'\<in>set (iq_processors i). \<forall>ob\<in>versions. \<forall>ob'\<in>versions.
     take 16 (iq_sha256 i (id_text p ob)) = take 16 (iq_sha256 i (id_text p' ob')) \<longrightarrow> id_text p ob = id_text p' ob')"

lemma cache_id_inj:
  assumes "names_ok i" "versions_ok versions" "hash_ok i versions" "p \<in> set (iq_processors i)" "p' \<in> set (iq_processors i)"
    and "ob \<in> versions" "ob' \<in> versions" "cache_id i p ob = cache_id i p' ob'"
  shows "p = p' \<and> same_version ob ob'"
proof (rule id_text_inj [OF assms(1,4,5)])
  have "take 16 (iq_sha256 i (id_text p ob)) = take 16 (iq_sha256 i (id_text p' ob'))"
    using assms(8) unfolding cache_id_def by (rule hex_inj)
  then show "id_text p ob = id_text p' ob'" using assms(3-7) unfolding hash_ok_def by blast
qed (use assms(2,6,7) in \<open>simp_all add: versions_ok_def\<close>)

section \<open>What is served\<close>

definition served :: "inspector \<Rightarrow> tools \<Rightarrow> downloads \<Rightarrow> inspected set \<Rightarrow> request \<Rightarrow> artifact \<Rightarrow> bool" where
  "served i may_run delivers versions rq a \<longleftrightarrow> rq_output rq \<in> set (pr_outputs (rq_processor rq)) \<and> 0 < ar_fresh a \<and> ar_fresh a \<le> iq_ttl i
     \<and> (\<exists>outs f written. produced i may_run delivers versions (rq_object rq) (rq_processor rq) (Outputs outs) written
          \<and> f \<in> set outs \<and> of_name f = rq_output rq \<and> ar_type a = of_type f \<and> map_of written (of_file f) = Some (ar_body a))"

lemma same_version_trans: "same_version a b \<Longrightarrow> same_version b c \<Longrightarrow> same_version a c"
  by (simp add: same_version_def)

lemma produced_same: "produced i may_run delivers versions ob p m written \<Longrightarrow> same_version ob ob' \<Longrightarrow> produced i may_run delivers versions ob' p m written"
  unfolding produced_def using same_version_trans by blast

lemma kept_file: "kept p r written (Outputs outs) \<Longrightarrow> f \<in> set outs \<Longrightarrow>
    of_name f \<in> set (pr_outputs p) \<and> of_file f \<noteq> MANIFEST \<and> map_of written (of_file f) \<noteq> None"
  by (auto simp: kept_def checked_outputs_def find_None_iff split: option.splits)

lemma lookup_served:
  assumes "dir_inv i may_run delivers versions dir" "names_ok i" "versions_ok versions" "hash_ok i versions"
    and json: "\<forall>m. iq_of_json i (iq_to_json i m) = Some m"
    and rq: "rq_processor rq \<in> set (iq_processors i)" "rq_object rq \<in> versions"
    and look: "lookup i now dir (cache_id i (rq_processor rq) (rq_object rq)) (pr_name (rq_processor rq)) (rq_output rq) = Some (Inr a)"
  shows "served i may_run delivers versions rq a"
proof -
  let ?rid = "cache_id i (rq_processor rq) (rq_object rq)"
  obtain fresh outs f body where l: "fresh_for i now dir ?rid = Some fresh" "Option.bind (read_in dir ?rid MANIFEST) (iq_of_json i) = Some (Outputs outs)"
      "find (\<lambda>f. of_name f = rq_output rq) outs = Some f" "read_in dir ?rid (of_file f) = Some body"
      "ar_body a = body" "ar_type a = of_type f" "ar_fresh a = fresh"
    using look unfolding lookup_def by (auto split: option.splits manifest.splits)
  obtain files t where e: "map_of dir ?rid = Some (Folder files t)" "remaining i now t = Some fresh"
    using l(1) by (auto simp: fresh_for_def split: option.splits entry.splits if_splits)
  obtain p ob m written where d: "p \<in> set (iq_processors i)" "ob \<in> versions" "?rid = cache_id i p ob"
      "files = AList.update MANIFEST (iq_to_json i m) written" "produced i may_run delivers versions ob p m written"
    using assms(1) e(1) unfolding dir_inv_def by blast
  have same: "p = rq_processor rq" "same_version ob (rq_object rq)"
    using cache_id_inj [OF assms(2-4) d(1) rq(1) d(2) rq(2)] d(3) by simp_all
  have m: "m = Outputs outs" using l(2) e(1) d(4) json by (simp add: read_in_def update_conv')
  have f: "f \<in> set outs" "of_name f = rq_output rq" using l(3) by (auto simp: find_Some_iff)
  obtain r where "kept p r written (Outputs outs)" using d(5) m by (auto simp: produced_def)
  from kept_file [OF this f(1)] have k: "of_name f \<in> set (pr_outputs p)" "of_file f \<noteq> MANIFEST" by simp_all
  then have "map_of written (of_file f) = Some (ar_body a)"
    using l(4,5) e(1) d(4) by (simp add: read_in_def update_conv')
  moreover have "0 < fresh \<and> fresh \<le> iq_ttl i" using e(2) by (auto simp: remaining_def Let_def split: if_splits)
  ultimately show ?thesis
    unfolding served_def using produced_same [OF d(5) same(2)] m same(1) f k(1) l(6,7) by auto
qed

section \<open>Provenance in every state\<close>

definition job_ok :: "inspector \<Rightarrow> downloads \<Rightarrow> inspected set \<Rightarrow> job \<Rightarrow> bool" where
  "job_ok i delivers versions j \<longleftrightarrow> jb_object j \<in> versions \<and> set (jb_plan j) \<subseteq> set (iq_processors i)
     \<and> (case jb_phase j of
          Running ps bytes \<Rightarrow> set ps \<subseteq> set (iq_processors i) \<and> delivers (io_key (jb_object j)) (io_size (jb_object j)) bytes
        | Publishing _ _ ps bytes \<Rightarrow> set ps \<subseteq> set (iq_processors i) \<and> delivers (io_key (jb_object j)) (io_size (jb_object j)) bytes
        | _ \<Rightarrow> True)"

definition request_ok :: "inspector \<Rightarrow> tools \<Rightarrow> downloads \<Rightarrow> inspected set \<Rightarrow> request \<Rightarrow> bool" where
  "request_ok i may_run delivers versions rq \<longleftrightarrow> rq_processor rq \<in> set (iq_processors i) \<and> rq_object rq \<in> versions
     \<and> (\<forall>a. rq_phase rq = Answered (Inr a) \<longrightarrow> served i may_run delivers versions rq a)"

definition results_inv :: "inspector \<Rightarrow> tools \<Rightarrow> downloads \<Rightarrow> inspected set \<Rightarrow> inspection \<Rightarrow> bool" where
  "results_inv i may_run delivers versions s \<longleftrightarrow> dir_inv i may_run delivers versions (ix_dir s)
     \<and> (\<forall>j\<in>set (ix_made s). job_ok i delivers versions j) \<and> (\<forall>rq\<in>set (ix_requests s). request_ok i may_run delivers versions rq)"

lemma results_inv_set:
  assumes "results_inv i may_run delivers versions s" "n < length (ix_made s)"
    and "ix_made s' = (ix_made s)[n := j]" "job_ok i delivers versions j" "ix_requests s' = ix_requests s"
    and "dir_inv i may_run delivers versions (ix_dir s')"
  shows "results_inv i may_run delivers versions s'"
  using assms set_list_update [OF assms(2), of _ j] by (auto simp: results_inv_def)

lemma results_inv_job:
  assumes inv: "results_inv i may_run delivers versions s" and n: "n < length (ix_made s)"
    and ok: "answer_ok may_run delivers (ix_made s ! n) ans" and run: "run_job i ans n s = Some s'"
  shows "results_inv i may_run delivers versions s'"
proof -
  have j: "job_ok i delivers versions (ix_made s ! n)" and d: "dir_inv i may_run delivers versions (ix_dir s)"
    using inv n by (simp_all add: results_inv_def)
  obtain j' where c: "job_change n s s' j'" using run_job_change [OF run n] by blast
  have made: "ix_made s' = (ix_made s)[n := j']" "ix_requests s' = ix_requests s" "jb_object j' = jb_object (ix_made s ! n)"
      "jb_plan j' = jb_plan (ix_made s ! n)"
    using c by (simp_all add: job_change_def Let_def)
  have j': "j' = ix_made s' ! n" using made(1) n by simp
  have "job_ok i delivers versions j' \<and> dir_inv i may_run delivers versions (ix_dir s')"
  proof (cases "jb_phase (ix_made s ! n)")
    case (Running ps bytes)
    show ?thesis
    proof (cases ps)
      case Nil
      then show ?thesis using run j d Running n unfolding j' by (auto simp: run_job_def job_ok_def phase_steps Let_def split: if_splits)
    next
      case (Cons p qs)
      then obtain dir_made r written io where a: "ans = Ran dir_made r written io"
        using run Running by (cases ans) (auto simp: run_job_def Let_def)
      obtain res dir where rp: "run_processor i p (jb_object (ix_made s ! n)) dir_made r written io (ix_now s) (ix_dir s) = (res, dir)" by fastforce
      have "dir_inv i may_run delivers versions dir"
        by (rule dir_inv_run [OF d _ _ _ _ rp, of bytes])
          (use j ok Running Cons a in \<open>auto simp: job_ok_def answer_ok_def\<close>)
      then show ?thesis using run j Running Cons a rp n unfolding j'
        by (cases res) (auto simp: run_job_def job_ok_def phase_steps Let_def)
    qed
  next
    case Downloading
    then show ?thesis using run j d ok n unfolding j'
      by (auto simp: run_job_def job_ok_def answer_ok_def phase_steps Let_def split: answer.splits sum.splits)
  qed (use run j d n in \<open>unfold j', auto simp: run_job_def job_ok_def phase_steps fail_rest_def Let_def split: answer.splits if_splits\<close>)
  then show ?thesis using results_inv_set [OF inv n made(1)] made(2) by blast
qed

lemma started_ok:
  "rq_object rq \<in> versions \<Longrightarrow> rq_processor rq \<in> set (iq_processors i) \<Longrightarrow>
   job_ok i delivers versions (new_job (rq_object rq) (job_plan i (rq_processor rq) (rq_object rq) s))"
  by (auto simp: job_ok_def new_job_def job_plan_def)

lemma results_inv_request:
  assumes inv: "results_inv i may_run delivers versions s" and n: "n < length (ix_requests s)"
    and hyps: "names_ok i" "versions_ok versions" "hash_ok i versions" "\<forall>m. iq_of_json i (iq_to_json i m) = Some m"
    and g: "get_step i (ix_requests s ! n) s = Some (ph, s')"
  shows "results_inv i may_run delivers versions (s' \<lparr>ix_requests := (ix_requests s)[n := (ix_requests s ! n) \<lparr>rq_phase := ph\<rparr>]\<rparr>)"
proof -
  let ?q = "ix_requests s ! n"
  have q: "rq_processor ?q \<in> set (iq_processors i)" "rq_object ?q \<in> versions" and d: "dir_inv i may_run delivers versions (ix_dir s)"
    using inv n by (simp_all add: results_inv_def request_ok_def)
  have same_dir: "ix_dir s' = ix_dir s" "\<forall>j\<in>set (ix_made s'). job_ok i delivers versions j"
    using g inv q started_ok [OF q(2,1)] by (auto elim!: get_step_cases simp: results_inv_def started_def)
  have "served i may_run delivers versions ?q a" if "ph = Answered (Inr a)" for a
  proof -
    have "lookup i (ix_now s) (ix_dir s) (cache_id i (rq_processor ?q) (rq_object ?q)) (pr_name (rq_processor ?q)) (rq_output ?q) = Some (Inr a)"
      using g that unfolding get_step_def Let_def
      by (auto split: request_phase.splits nat.splits option.splits prod.splits sum.splits if_splits)
    then show ?thesis by (rule lookup_served [OF d hyps q])
  qed
  then have new: "request_ok i may_run delivers versions (?q \<lparr>rq_phase := ph\<rparr>)"
    using q by (auto simp: request_ok_def served_def)
  have "request_ok i may_run delivers versions rq" if "rq \<in> set ((ix_requests s)[n := ?q \<lparr>rq_phase := ph\<rparr>])" for rq
    using set_list_update [OF n that] new inv by (auto simp: results_inv_def)
  then show ?thesis using same_dir d by (simp add: results_inv_def)
qed

lemma admitted: "admit_checks i name output fname = Inr p \<Longrightarrow> p \<in> set (iq_processors i) \<and> pr_name p = name \<and> output \<in> set (pr_outputs p) \<and> pr_check p fname = Inr ()"
  by (auto simp: admit_checks_def find_Some_iff bindR_def map_errR_def split: option.splits if_splits sum.splits)

lemma inspecting_results:
  assumes "inspecting i may_run delivers versions s"
    and hyps: "names_ok i" "versions_ok versions" "hash_ok i versions" "\<forall>m. iq_of_json i (iq_to_json i m) = Some m"
  shows "results_inv i may_run delivers versions s"
  using assms(1)
proof (induction rule: inspecting.induct)
  case (acted s s')
  from acted.hyps(2) show ?case
  proof cases
    case (request n ph s'')
    then show ?thesis using results_inv_request [OF acted.IH _ hyps] by simp
  next
    case (job n ans)
    then show ?thesis using results_inv_job [OF acted.IH] by blast
  qed
next
  case (arrived s name out ob p)
  then show ?case using admitted [of i name out "io_file ob" p] by (auto simp: results_inv_def request_ok_def)
next
  case (swept s removable)
  then show ?case using dir_inv_sweep by (simp add: results_inv_def)
qed (auto simp: results_inv_def dir_inv_def)

section \<open>When results are stored and how long they are served\<close>

text \<open>
  \<open>stored_now\<close>: the files come from a run that a job for the version named by \<open>rid\<close> is making at this moment, on
  the bytes it downloaded.
\<close>

definition stored_now :: "inspector \<Rightarrow> tools \<Rightarrow> downloads \<Rightarrow> inspection \<Rightarrow> string \<Rightarrow> (string \<times> string) list \<Rightarrow> datetime \<Rightarrow> bool" where
  "stored_now i may_run delivers s rid fs t \<longleftrightarrow> t = ix_now s
     \<and> (\<exists>j\<in>set (ix_made s). \<exists>p ps bytes r written m. jb_phase j = Running (p # ps) bytes \<and> rid = cache_id i p (jb_object j)
          \<and> delivers (io_key (jb_object j)) (io_size (jb_object j)) bytes
          \<and> may_run p (input_name (io_file (jb_object j))) bytes r written \<and> kept p r written m
          \<and> fs = AList.update MANIFEST (iq_to_json i m) written)"

lemma store_entries:
  assumes "map_of (snd (store i rid written m io now dir)) k = Some e"
  shows "map_of dir k = Some e \<or> k = rid \<and> e = Folder (AList.update MANIFEST (iq_to_json i m) written) now"
  using assms by (auto simp: store_def Let_def map_of_filter_key [of "\<lambda>k. k \<noteq> rid"] split: if_splits)

lemma run_processor_entries:
  assumes "run_processor i p ob dir_made r written io now dir = (res, dir')" "map_of dir' k = Some e"
  shows "map_of dir k = Some e \<or> dir_made \<and> k = cache_id i p ob
    \<and> (\<exists>m. kept p r written m \<and> e = Folder (AList.update MANIFEST (iq_to_json i m) written) now)"
proof (cases "dir_made \<and> (\<exists>m. kept p r written m)")
  case False
  then have "dir' = dir" using assms(1)
    by (auto simp: run_processor_def kept_def Let_def split: run_end.splits outcome.splits sum.splits if_splits)
  then show ?thesis using assms(2) by simp
next
  case True
  then obtain m where m: dir_made "kept p r written m" by blast
  then have "dir' = snd (store i (cache_id i p ob) written m io now dir)" using assms(1)
    by (auto simp: run_processor_def kept_def Let_def split: sum.splits prod.splits)
  then show ?thesis using store_entries assms(2) m by metis
qed

lemma run_job_dir:
  assumes "run_job i ans n s = Some s'"
  shows "ix_dir s' = ix_dir s \<or> (\<exists>p ps bytes dir_made r written io res. jb_phase (ix_made s ! n) = Running (p # ps) bytes
    \<and> ans = Ran dir_made r written io
    \<and> run_processor i p (jb_object (ix_made s ! n)) dir_made r written io (ix_now s) (ix_dir s) = (res, ix_dir s'))"
proof (cases "jb_phase (ix_made s ! n)")
  case (Running ps bytes)
  show ?thesis
  proof (cases ps)
    case Nil
    then show ?thesis using assms Running by (auto simp: run_job_def phase_steps Let_def split: if_splits)
  next
    case (Cons p qs)
    then show ?thesis using assms Running
      by (auto simp: run_job_def phase_steps Let_def split: answer.splits prod.splits option.splits)
  qed
next
  case Downloading
  then show ?thesis using assms by (auto simp: run_job_def phase_steps Let_def split: answer.splits sum.splits)
qed (use assms in \<open>auto simp: run_job_def phase_steps Let_def split: answer.splits if_splits\<close>)

lemma act_entries:
  assumes "act i may_run delivers s s'" "results_inv i may_run delivers versions s" "map_of (ix_dir s') rid = Some (Folder fs t)"
  shows "map_of (ix_dir s) rid = Some (Folder fs t) \<or> stored_now i may_run delivers s rid fs t"
  using assms(1)
proof cases
  case (request n ph t')
  have "ix_dir t' = ix_dir s" using request(3) by (auto elim!: get_step_cases simp: started_def)
  then show ?thesis using assms(3) request(1) by simp
next
  case (job n ans)
  from run_job_dir [OF job(3)] show ?thesis
  proof (elim disjE exE conjE)
    fix p ps bytes dir_made r written io res
    assume ph: "jb_phase (ix_made s ! n) = Running (p # ps) bytes" and a: "ans = Ran dir_made r written io"
      and run: "run_processor i p (jb_object (ix_made s ! n)) dir_made r written io (ix_now s) (ix_dir s) = (res, ix_dir s')"
    have mem: "ix_made s ! n \<in> set (ix_made s)" using job(1) by simp
    then have "job_ok i delivers versions (ix_made s ! n)" using assms(2) unfolding results_inv_def by blast
    then have dl: "delivers (io_key (jb_object (ix_made s ! n))) (io_size (jb_object (ix_made s ! n))) bytes"
      using ph by (simp add: job_ok_def)
    have mr: "dir_made \<Longrightarrow> may_run p (input_name (io_file (jb_object (ix_made s ! n)))) bytes r written"
      using job(2) ph a by (simp add: answer_ok_def)
    from run_processor_entries [OF run assms(3)] show ?thesis
    proof (elim disjE exE conjE)
      fix m assume "dir_made" "rid = cache_id i p (jb_object (ix_made s ! n))" "kept p r written m"
        "Folder fs t = Folder (AList.update MANIFEST (iq_to_json i m) written) (ix_now s)"
      then have "stored_now i may_run delivers s rid fs t"
        using mem ph dl mr unfolding stored_now_def by blast
      then show ?thesis ..
    qed simp
  qed (use assms(3) in simp)
qed

lemma act_now: "act i may_run delivers s s' \<Longrightarrow> ix_now s' = ix_now s"
proof (induction rule: act.induct)
  case (request n s ph s')
  then show ?case by (auto elim!: get_step_cases simp: started_def)
next
  case (job n s ans s')
  then show ?case using run_job_change by (fastforce simp: job_change_def Let_def)
qed

lemma entry_times:
  assumes "inspecting i may_run delivers versions s"
    and hyps: "names_ok i" "versions_ok versions" "hash_ok i versions" "\<forall>m. iq_of_json i (iq_to_json i m) = Some m"
  shows "map_of (ix_dir s) rid = Some (Folder fs t) \<Longrightarrow> t \<le> ix_now s"
  using assms(1)
proof (induction arbitrary: rid fs t rule: inspecting.induct)
  case (acted s s')
  from act_entries [OF acted.hyps(2) inspecting_results [OF acted.hyps(1) hyps] acted.prems] act_now [OF acted.hyps(2)] acted.IH
  show ?case by (auto simp: stored_now_def)
next
  case (swept s removable)
  then show ?case
    by (auto simp: sweep_results_def Let_def map_of_filter_key [of "\<lambda>k. is_fresh i (ix_now s) (ix_dir s) k \<or> \<not> removable k"] split: if_splits)
next
  case (passed s t')
  then show ?case by fastforce
qed auto

text \<open>What an answered request was given: an entry still young enough, for as long as that entry has left.\<close>

lemma lookup_fresh:
  assumes "lookup i now dir rid name output = Some (Inr a)"
  shows "\<exists>fs t. map_of dir rid = Some (Folder fs t) \<and> remaining i now t = Some (ar_fresh a)"
  using assms by (auto simp: lookup_def fresh_for_def split: option.splits manifest.splits entry.splits if_splits)

lemma act_answer:
  assumes "act i may_run delivers s s'" "n < length (ix_requests s)"
    and "rq_phase (ix_requests s' ! n) = Answered (Inr a)" "rq_phase (ix_requests s ! n) \<noteq> Answered (Inr a)"
  shows "\<exists>fs t. map_of (ix_dir s) (cache_id i (rq_processor (ix_requests s ! n)) (rq_object (ix_requests s ! n))) = Some (Folder fs t)
    \<and> remaining i (ix_now s) t = Some (ar_fresh a)"
  using assms(1)
proof cases
  case (request k ph t)
  have "k = n" using assms(3,4) request(1,2) by (cases "k = n") simp_all
  then have "ph = Answered (Inr a)" using assms(2,3) request(1) by simp
  then have "lookup i (ix_now s) (ix_dir s) (cache_id i (rq_processor (ix_requests s ! n)) (rq_object (ix_requests s ! n)))
      (pr_name (rq_processor (ix_requests s ! n))) (rq_output (ix_requests s ! n)) = Some (Inr a)"
    using request(3) \<open>k = n\<close> unfolding get_step_def Let_def
    by (auto split: request_phase.splits nat.splits option.splits prod.splits sum.splits if_splits)
  then show ?thesis by (rule lookup_fresh)
next
  case (job k ans)
  then have "ix_requests s' = ix_requests s" using run_job_change by (fastforce simp: job_change_def Let_def)
  then show ?thesis using assms(3,4) by simp
qed

lemma remaining_age: "remaining i now t = Some f \<Longrightarrow> t \<le> now \<Longrightarrow> now < t + iq_ttl i \<and> now + f = t + iq_ttl i"
  by (auto simp: remaining_def Let_def split: if_splits)

end
