(* ===== verification/Tools_Props.thy ===== *)
theory Tools_Props imports Tools Inspect_Props begin

text \<open>
  What every processor owes the inspector, as a locale, its two instances, and what the inspector makes of
  it: a result that a tool reports is stored and then served byte for byte.
\<close>

section \<open>Storing and looking up\<close>

definition io_ok :: "store_io \<Rightarrow> bool" where
  "io_ok io \<longleftrightarrow> st_write io \<and> st_exists io \<and> st_move io \<and> st_rename io"

lemma store_ok: "io_ok io \<Longrightarrow> \<exists>dir'. store i rid written m io now dir = (Inr (), dir')
    \<and> map_of dir' rid = Some (Folder (AList.update MANIFEST (iq_to_json i m) written) now)"
  by (auto simp: store_def io_ok_def Let_def occupied_def map_of_filter_key [of "\<lambda>k. k \<noteq> rid"])

lemma lookup_folder:
  assumes "map_of dir rid = Some (Folder (AList.update MANIFEST (iq_to_json i m) written) t)"
    and "\<forall>m. iq_of_json i (iq_to_json i m) = Some m" "t \<le> now" "now < t + iq_ttl i"
  shows "lookup i now dir rid name out = (case m of
      Reason reason \<Rightarrow> Some (Inl (Unavailable reason))
    | Outputs fs \<Rightarrow> (case find (\<lambda>f. of_name f = out) fs of
        None \<Rightarrow> Some (Inl (Unavailable (name @ '' produced no '' @ out @ '' for this file'')))
      | Some f \<Rightarrow> map_option (\<lambda>body. Inr \<lparr>ar_etag = rid @ ''.'' @ out, ar_body = body, ar_type = of_type f,
            ar_ext = (case final_extension (of_file f) of Some e \<Rightarrow> e | None \<Rightarrow> ''bin''), ar_fresh = t + iq_ttl i - now\<rparr>)
          (map_of (AList.update MANIFEST (iq_to_json i m) written) (of_file f))))"
proof -
  have "remaining i now t = Some (t + iq_ttl i - now)" using assms(3,4) by (auto simp: remaining_def Let_def)
  then show ?thesis
    using assms(1,2) by (auto simp: lookup_def fresh_for_def read_in_def update_conv' split: manifest.splits option.splits)
qed

section \<open>The contract of a processor\<close>

text \<open>
  A run is determined by what its child did, \<open>'x\<close>. A reported output is declared, is a plain file other than
  the manifest, and was written; no output is reported twice.
\<close>

locale tool =
  fixes proc :: processor and exec :: "'x \<Rightarrow> run_end \<times> (string \<times> string) list"
  assumes reported: "exec x = (Ended (Done outs), written) \<Longrightarrow> f \<in> set outs \<Longrightarrow>
      of_name f \<in> set (pr_outputs proc) \<and> slash \<notin> set (of_file f) \<and> of_file f \<noteq> MANIFEST \<and> map_of written (of_file f) \<noteq> None"
    and once: "exec x = (Ended (Done outs), written) \<Longrightarrow> distinct (map of_name outs)"
begin

lemma accepted: "exec x = (Ended (Done outs), written) \<Longrightarrow> checked_outputs proc written outs = Inr (Outputs outs)"
proof -
  assume run: "exec x = (Ended (Done outs), written)"
  have "find (\<lambda>f. of_name f \<notin> set (pr_outputs proc) \<or> slash \<in> set (of_file f) \<or> of_file f = MANIFEST
      \<or> map_of written (of_file f) = None) outs = None"
    unfolding find_None_iff using reported [OF run] by blast
  then show ?thesis by (simp add: checked_outputs_def)
qed

lemma found: "exec x = (Ended (Done outs), written) \<Longrightarrow> f \<in> set outs \<Longrightarrow> find (\<lambda>g. of_name g = of_name f) outs = Some f"
proof -
  have "distinct (map of_name fs) \<Longrightarrow> f \<in> set fs \<Longrightarrow> find (\<lambda>g. of_name g = of_name f) fs = Some f" for fs
    by (induction fs) auto
  then show "exec x = (Ended (Done outs), written) \<Longrightarrow> f \<in> set outs \<Longrightarrow> ?thesis" using once by blast
qed

text \<open>Once a run is stored, its output is what a request gets until the result expires.\<close>

lemma stored_served:
  assumes run: "exec x = (Ended (Done outs), written)" and f: "f \<in> set outs" "map_of written (of_file f) = Some body"
    and io: "io_ok io" and json: "\<forall>m. iq_of_json i (iq_to_json i m) = Some m"
  shows "\<exists>dir'. run_processor i proc ob True (fst (exec x)) (snd (exec x)) io t dir = (Some (Inr ()), dir')
    \<and> (\<forall>now. t \<le> now \<and> now < t + iq_ttl i \<longrightarrow>
         lookup i now dir' (cache_id i proc ob) (pr_name proc) (of_name f)
         = Some (Inr \<lparr>ar_etag = cache_id i proc ob @ ''.'' @ of_name f, ar_body = body, ar_type = of_type f,
             ar_ext = (case final_extension (of_file f) of Some e \<Rightarrow> e | None \<Rightarrow> ''bin''), ar_fresh = t + iq_ttl i - now\<rparr>))"
proof -
  obtain dir' where d: "store i (cache_id i proc ob) written (Outputs outs) io t dir = (Inr (), dir')"
      "map_of dir' (cache_id i proc ob) = Some (Folder (AList.update MANIFEST (iq_to_json i (Outputs outs)) written) t)"
    using store_ok [OF io] by blast
  have "of_file f \<noteq> MANIFEST" using reported [OF run f(1)] by blast
  then have "map_of (AList.update MANIFEST (iq_to_json i (Outputs outs)) written) (of_file f) = Some body"
    using f(2) by (simp add: update_conv')
  then show ?thesis
    using d(1) accepted [OF run] found [OF run f(1)] lookup_folder [OF d(2) json]
    by (intro exI [of _ dir']) (simp add: run run_processor_def Let_def)
qed

end

section \<open>The two processors\<close>

lemma exiftool_done: "exiftool_process installed timeout memory x = (Ended (Done outs), written) \<Longrightarrow>
    outs = [\<lparr>of_name = LISTING, of_file = LISTING_FILE, of_type = ''text/plain; charset=utf-8''\<rparr>]
    \<and> (\<exists>txt. exiftool_run timeout memory x = Some (Inr txt) \<and> written = [(LISTING_FILE, txt)])"
  by (auto simp: exiftool_process_def split: option.splits sum.splits)

lemma preview_done: "preview_process rw setrlimit write_file dim timeout memory input out fate = (Ended (Done outs), written) \<Longrightarrow>
    outs = [\<lparr>of_name = IMAGE, of_file = IMAGE_FILE, of_type = ''image/jpeg''\<rparr>] \<and> (\<exists>jpeg. written = [(IMAGE_FILE, jpeg)])"
  by (auto simp: preview_process_def preview_outcome_def worker_def Let_def EXIT_USAGE_def EXIT_NO_PREVIEW_def
      split: fate.splits list.splits option.splits sum.splits prod.splits if_splits)

lemmas output_names = LISTING_def LISTING_FILE_def IMAGE_def IMAGE_FILE_def MANIFEST_def

interpretation exif: tool "exiftool_processor (Some t)" "exiftool_process (Some t) timeout memory" for t timeout memory
  by unfold_locales (auto dest!: exiftool_done simp: exiftool_processor_def output_names)

interpretation prev: tool "preview_processor known dim" "preview_process rw setrlimit write_file dim timeout memory input out"
  for known dim rw setrlimit write_file timeout memory input out
  by unfold_locales (auto dest!: preview_done simp: preview_processor_def output_names)

end
