(* ===== verification/Inspect_Pending.thy ===== *)
theory Inspect_Pending imports Tools Auth begin

text \<open>
  The inspection endpoint of \<^verbatim>\<open>src/backend/src/routes/admin.rs\<close>: the key of a pending file, the request it
  starts and the response to its answer.
\<close>

definition pending_file_key :: "string \<Rightarrow> string \<Rightarrow> app_error + string \<times> string" where
  "pending_file_key upload_id path =
     (if contains_sub ''..'' path then Inl BadRequest
      else Inr (''pending/'' @ upload_id @ ''/'' @ path, last_seg slash path))"

definition inspect_error :: "inspect_error \<Rightarrow> app_error" where
  "inspect_error e = (case e of InspectNotFound \<Rightarrow> MissingItem | Unavailable _ \<Rightarrow> Unprocessable | InspectOther \<Rightarrow> Internal)"

definition artifact_response :: "artifact \<Rightarrow> headers \<Rightarrow> string \<Rightarrow> string \<Rightarrow> response" where
  "artifact_response art hs processor fname =
     (let etag = [CHR 0x22] @ ar_etag art @ [CHR 0x22];
          cache_control = ''private, max-age='' @ dec (ar_fresh art div 10 ^ 9);
          stem = (case rsplit_once (CHR ''.'') fname of Some (stem, _) \<Rightarrow> stem | None \<Rightarrow> fname);
          disposition = ''inline; filename*=UTF-8'' @ [CHR 0x27, CHR 0x27] @ percent_encode_filename stem @ ''.'' @ processor @ ''.'' @ ar_ext art
      in if if_none_match (if_none_match_values hs) etag
         then \<lparr>rs_status = 304, rs_headers = [(''etag'', etag), (''cache-control'', cache_control)], rs_body = []\<rparr>
         else \<lparr>rs_status = 200, rs_headers = [(''content-type'', ar_type art), (''etag'', etag), (''cache-control'', cache_control),
                 (''content-disposition'', disposition), (''x-content-type-options'', ''nosniff'')], rs_body = ar_body art\<rparr>)"

text \<open>The handler up to the loop of \<^verbatim>\<open>get\<close>, and what it makes of the answer.\<close>

definition inspect_pending :: "'s app \<Rightarrow> inspector \<Rightarrow> headers \<Rightarrow> string \<Rightarrow> string \<Rightarrow> string \<Rightarrow> string \<Rightarrow> ('s, request) handler" where
  "inspect_pending a i hs upload_id processor out path =
     bindE (auth_guard a PENDING_VIEWERS hs) (\<lambda>_.
     bindE (lift (pending_file_key upload_id path)) (\<lambda>(key, fname).
     s3_map inspect_error (get_request i (app_s3 a) processor out key fname)))"

definition inspect_answer :: "headers \<Rightarrow> request \<Rightarrow> inspect_error + artifact \<Rightarrow> app_error + response" where
  "inspect_answer hs rq answer =
     map_errR inspect_error (bindR answer (\<lambda>art. Inr (artifact_response art hs (pr_name (rq_processor rq)) (io_file (rq_object rq)))))"

end
