(* ===== verification/Inspect_Claims.thy ===== *)
theory Inspect_Claims imports Tools_Props Inspect_Pending Sample_Run begin

text \<open>The properties of the inspection of pending files, with runs of the real processors as witnesses.\<close>

section \<open>A schedule to run\<close>

datatype event = Arrive string string inspected | Advance nat | Step nat answer | Tick nat

definition fire :: "inspector \<Rightarrow> tools \<Rightarrow> downloads \<Rightarrow> event \<Rightarrow> inspection \<Rightarrow> inspection option" where
  "fire i may_run delivers ev s = (case ev of
     Arrive name out ob \<Rightarrow> (case admit_checks i name out (io_file ob) of Inl _ \<Rightarrow> None
       | Inr p \<Rightarrow> Some (s \<lparr>ix_requests := ix_requests s @ [\<lparr>rq_processor = p, rq_output = out, rq_object = ob, rq_phase = Looking 2\<rparr>]\<rparr>))
   | Advance n \<Rightarrow> (if n < length (ix_requests s) then (case get_step i (ix_requests s ! n) s of None \<Rightarrow> None
       | Some (ph, s') \<Rightarrow> Some (s' \<lparr>ix_requests := (ix_requests s)[n := (ix_requests s ! n) \<lparr>rq_phase := ph\<rparr>]\<rparr>)) else None)
   | Step n ans \<Rightarrow> (if n < length (ix_made s) \<and> answer_ok may_run delivers (ix_made s ! n) ans then run_job i ans n s else None)
   | Tick d \<Rightarrow> Some (s \<lparr>ix_now := ix_now s + d\<rparr>))"

fun play :: "inspector \<Rightarrow> tools \<Rightarrow> downloads \<Rightarrow> event list \<Rightarrow> inspection \<Rightarrow> inspection option" where
  "play i may_run delivers [] s = Some s"
| "play i may_run delivers (ev # evs) s = Option.bind (fire i may_run delivers ev s) (play i may_run delivers evs)"

definition asked :: "event \<Rightarrow> inspected set" where
  "asked ev = (case ev of Arrive _ _ ob \<Rightarrow> {ob} | _ \<Rightarrow> {})"

lemma fire_reach: "inspecting i may_run delivers versions s \<Longrightarrow> asked ev \<subseteq> versions \<Longrightarrow> fire i may_run delivers ev s = Some s' \<Longrightarrow>
    inspecting i may_run delivers versions s'"
  by (cases ev) (auto simp: fire_def asked_def split: sum.splits if_splits option.splits
      intro: inspecting.arrived inspecting.passed inspecting.acted act.request act.job)

lemma play_reach: "inspecting i may_run delivers versions s \<Longrightarrow> (\<forall>ev\<in>set evs. asked ev \<subseteq> versions) \<Longrightarrow> play i may_run delivers evs s = Some s' \<Longrightarrow>
    inspecting i may_run delivers versions s'"
  by (induction evs arbitrary: s) (auto simp: Option.bind_eq_Some_conv dest: fire_reach)

text \<open>A concrete inspector: exiftool and previews, an encoding of manifests that reads back.\<close>

fun enc_string :: "string \<Rightarrow> string" where
  "enc_string [] = ''e''"
| "enc_string (c # s) = CHR ''s'' # c # enc_string s"

fun dec_string :: "string \<Rightarrow> (string \<times> string) option" where
  "dec_string (d # r) = (if d = CHR ''e'' then Some ([], r)
     else (case r of c # t \<Rightarrow> map_option (\<lambda>(s, u). (c # s, u)) (dec_string t) | [] \<Rightarrow> None))"
| "dec_string [] = None"

lemma dec_enc [simp]: "dec_string (enc_string s @ t) = Some (s, t)"
  by (induction s) auto

fun enc_files :: "output_file list \<Rightarrow> string" where
  "enc_files [] = ''z''"
| "enc_files (f # fs) = ''f'' @ enc_string (of_name f) @ enc_string (of_file f) @ enc_string (of_type f) @ enc_files fs"

fun dec_files :: "nat \<Rightarrow> string \<Rightarrow> output_file list option" where
  "dec_files 0 s = None"
| "dec_files (Suc n) s = (case s of [] \<Rightarrow> None | d # r \<Rightarrow> if d = CHR ''z'' then Some []
     else Option.bind (dec_string r) (\<lambda>(a, r1). Option.bind (dec_string r1) (\<lambda>(b, r2). Option.bind (dec_string r2) (\<lambda>(c, r3).
       map_option ((#) \<lparr>of_name = a, of_file = b, of_type = c\<rparr>) (dec_files n r3)))))"

lemma dec_enc_files: "length fs < n \<Longrightarrow> dec_files n (enc_files fs) = Some fs"
proof (induction fs arbitrary: n)
  case Nil
  then show ?case by (cases n) auto
next
  case (Cons f fs)
  then show ?case by (cases n) auto
qed

lemma enc_files_length: "length fs < length (enc_files fs)"
  by (induction fs) auto

fun enc_manifest :: "manifest \<Rightarrow> string" where
  "enc_manifest (Reason r) = ''R'' @ r"
| "enc_manifest (Outputs fs) = ''O'' @ enc_files fs"

definition dec_manifest :: "string \<Rightarrow> manifest option" where
  "dec_manifest s = (case s of [] \<Rightarrow> None | c # r \<Rightarrow>
     if c = CHR ''R'' then Some (Reason r) else map_option Outputs (dec_files (length r) r))"

lemma manifest_back: "dec_manifest (enc_manifest m) = Some m"
  by (cases m) (auto simp: dec_manifest_def dec_enc_files enc_files_length)

definition sample_tool :: exiftool where
  "sample_tool = \<lparr>et_bin = ''/usr/bin/exiftool'', et_version = ''13.59''\<rparr>"

definition sample_inspector :: inspector where
  "sample_inspector = \<lparr>iq_processors = [preview_processor [''NEF''] 2048, exiftool_processor (Some sample_tool)],
     iq_ttl = 100, iq_max_bytes = 1000, iq_slots = 1, iq_sha256 = take 1,
     iq_to_json = enc_manifest, iq_of_json = dec_manifest, iq_rfc3339 = dec\<rparr>"

lemma sample_json: "\<forall>m. iq_of_json sample_inspector (iq_to_json sample_inspector m) = Some m"
  by (simp add: sample_inspector_def manifest_back)

definition sample_object :: inspected where
  "sample_object = \<lparr>io_key = ''pending/u/raw/a.nef'', io_version = ''etag1'', io_size = 3, io_file = ''a.nef''\<rparr>"

definition sample_listing :: run_end where
  "sample_listing = Ended (Done [\<lparr>of_name = LISTING, of_file = LISTING_FILE, of_type = ''text/plain; charset=utf-8''\<rparr>])"

definition sample_runs :: tools where
  "sample_runs p nm bytes r written \<longleftrightarrow> pr_name p = EXIFTOOL \<and> r = sample_listing \<and> written = [(LISTING_FILE, bytes)]"

definition sample_io :: store_io where
  "sample_io = \<lparr>st_write = True, st_exists = True, st_move = True, st_rename = True\<rparr>"

definition no_inspection :: inspection where
  "no_inspection = \<lparr>ix_now = 5, ix_dir = [], ix_free = 1, ix_made = [], ix_jobs = [], ix_requests = []\<rparr>"

text \<open>A request for the listing: it starts a job, the exiftool run is stored, and the answer is read.\<close>

definition sample_events :: "event list" where
  "sample_events = [Arrive EXIFTOOL LISTING sample_object, Advance 0, Advance 0, Step 0 Go, Step 0 (Created True), Step 0 (Fetched (Inr ''raw'')),
     Step 0 (Ran True sample_listing [(LISTING_FILE, ''raw'')] sample_io), Step 0 Go, Advance 0, Tick 7, Advance 0]"

definition sample_downloads :: downloads where
  "sample_downloads key len bytes \<longleftrightarrow> length bytes = len"

definition played :: "inspection option" where
  "played = play sample_inspector sample_runs sample_downloads sample_events no_inspection"

lemma played_answer: "(case played of None \<Rightarrow> False | Some s \<Rightarrow>
    (case ix_requests s of rq # _ \<Rightarrow> (case rq_phase rq of Answered (Inr art) \<Rightarrow> ar_body art = ''raw'' | _ \<Rightarrow> False) | [] \<Rightarrow> False))"
  by code_simp

lemma before_answer: "(case play sample_inspector sample_runs sample_downloads (butlast sample_events) no_inspection of None \<Rightarrow> False | Some s \<Rightarrow>
    ix_now s = 12 \<and> map (\<lambda>rq. rq_phase rq) (ix_requests s) = [Reading]
    \<and> map (\<lambda>rq. cache_id sample_inspector (rq_processor rq) (rq_object rq)) (ix_requests s) = map fst (ix_dir s)
    \<and> map snd (ix_dir s) = [Folder (AList.update MANIFEST (enc_manifest (Outputs [\<lparr>of_name = LISTING, of_file = LISTING_FILE, of_type = ''text/plain; charset=utf-8''\<rparr>])) [(LISTING_FILE, ''raw'')]) 5])"
  by code_simp

lemma play_append: "play i mr dl (xs @ ys) s = Option.bind (play i mr dl xs s) (play i mr dl ys)"
  by (induction xs arbitrary: s) (auto simp: bind_assoc intro!: arg_cong [of _ _ "Option.bind _"])

lemma play_one: "play i mr dl [ev] = fire i mr dl ev"
proof
  fix s
  show "play i mr dl [ev] s = fire i mr dl ev s" by (cases "fire i mr dl ev s") simp_all
qed

lemma play_last: "play sample_inspector sample_runs sample_downloads sample_events s
    = Option.bind (play sample_inspector sample_runs sample_downloads (butlast sample_events) s) (fire sample_inspector sample_runs sample_downloads (Advance 0))"
proof -
  have "sample_events = butlast sample_events @ [Advance 0]" by (simp add: sample_events_def)
  then show ?thesis
    using play_append [of sample_inspector sample_runs sample_downloads "butlast sample_events" "[Advance 0]" s] unfolding play_one by simp
qed

lemma sample_ok: "names_ok sample_inspector" "versions_ok {sample_object}" "hash_ok sample_inspector {sample_object}"
  by (simp_all add: names_ok_def versions_ok_def hash_ok_def sample_inspector_def sample_object_def preview_processor_def
      exiftool_processor_def id_text_def PREVIEW_def EXIFTOOL_def)

lemma sample_start: "inspecting sample_inspector mr dl versions no_inspection"
  using inspecting.start [of sample_inspector mr dl versions 5] by (simp add: no_inspection_def sample_inspector_def)

lemma played_reached: "played = Some s \<Longrightarrow> inspecting sample_inspector sample_runs sample_downloads {sample_object} s"
proof -
  have "\<forall>ev\<in>set sample_events. asked ev \<subseteq> {sample_object}" by (simp add: sample_events_def asked_def)
  then show "played = Some s \<Longrightarrow> ?thesis" unfolding played_def by (rule play_reach [OF sample_start])
qed

section \<open>Claims\<close>

text \<open>
  C2. Provenance and expiry: however requests, jobs, sweeps, restarts and clients that go away interleave, an
  inspection output that is answered was declared by its processor and written by a run of that processor, ended with
  a result, on a completed download pinned to the requested key and size; it is served with its reported type.
  A result enters the cache only in the step in which a job for the version that names it ends such a run, and is
  stamped with the time of that step; and a request is answered with an output only while its entry is younger than
  the configured time, the reported freshness being exactly what the entry has left. Nothing is cached of a run that
  failed, was cut off, panicked or reported files it did not write. Assumed: tags without a NUL byte, no collision
  among the hashes of the versions asked for, and a JSON encoding of manifests that reads back.
\<close>

theorem inspect_sound:
  assumes "inspecting i may_run delivers versions s" "names_ok i" "versions_ok versions" "hash_ok i versions"
    and "\<forall>m. iq_of_json i (iq_to_json i m) = Some m"
  shows "(\<forall>rq\<in>set (ix_requests s). \<forall>art. rq_phase rq = Answered (Inr art) \<longrightarrow> served i may_run delivers versions rq art)
    \<and> (\<forall>rid files t. map_of (ix_dir s) rid = Some (Folder files t) \<longrightarrow> t \<le> ix_now s \<and>
         (\<exists>p ob m written. p \<in> set (iq_processors i) \<and> ob \<in> versions \<and> rid = cache_id i p ob
            \<and> files = AList.update MANIFEST (iq_to_json i m) written \<and> produced i may_run delivers versions ob p m written))
    \<and> (\<forall>s'. act i may_run delivers s s' \<longrightarrow>
         (\<forall>rid files t. map_of (ix_dir s') rid = Some (Folder files t) \<longrightarrow>
            map_of (ix_dir s) rid = Some (Folder files t) \<or> stored_now i may_run delivers s rid files t)
       \<and> (\<forall>n art. n < length (ix_requests s) \<and> rq_phase (ix_requests s' ! n) = Answered (Inr art)
            \<and> rq_phase (ix_requests s ! n) \<noteq> Answered (Inr art) \<longrightarrow>
            (\<exists>files t. map_of (ix_dir s) (cache_id i (rq_processor (ix_requests s ! n)) (rq_object (ix_requests s ! n))) = Some (Folder files t)
               \<and> t \<le> ix_now s \<and> ix_now s < t + iq_ttl i \<and> ix_now s + ar_fresh art = t + iq_ttl i)))"
proof -
  note inv = inspecting_results [OF assms]
  note times = entry_times [OF assms]
  have young: "\<exists>files t. map_of (ix_dir s) (cache_id i (rq_processor (ix_requests s ! n)) (rq_object (ix_requests s ! n))) = Some (Folder files t)
      \<and> t \<le> ix_now s \<and> ix_now s < t + iq_ttl i \<and> ix_now s + ar_fresh art = t + iq_ttl i"
    if "act i may_run delivers s s'" "n < length (ix_requests s)" "rq_phase (ix_requests s' ! n) = Answered (Inr art)"
      "rq_phase (ix_requests s ! n) \<noteq> Answered (Inr art)" for s' n art
    using act_answer [OF that] times remaining_age by blast
  have "\<forall>rq\<in>set (ix_requests s). \<forall>art. rq_phase rq = Answered (Inr art) \<longrightarrow> served i may_run delivers versions rq art"
    using inv unfolding results_inv_def request_ok_def by blast
  moreover have "\<forall>rid files t. map_of (ix_dir s) rid = Some (Folder files t) \<longrightarrow> t \<le> ix_now s \<and>
       (\<exists>p ob m written. p \<in> set (iq_processors i) \<and> ob \<in> versions \<and> rid = cache_id i p ob
          \<and> files = AList.update MANIFEST (iq_to_json i m) written \<and> produced i may_run delivers versions ob p m written)"
    using inv times unfolding results_inv_def dir_inv_def by blast
  ultimately show ?thesis using act_entries [OF _ inv] young by blast
qed

text \<open>The listing was stored at time 5 for 100 units: at time 12 it is answered with 93 left.\<close>

theorem inspect_sound_witness:
  "\<exists>s rq art. inspecting sample_inspector sample_runs sample_downloads {sample_object} s \<and> ix_requests s = [rq]
    \<and> rq_phase rq = Answered (Inr art) \<and> ar_body art = ''raw'' \<and> ar_fresh art = 93
    \<and> served sample_inspector sample_runs sample_downloads {sample_object} rq art"
proof -
  let ?play = "play sample_inspector sample_runs sample_downloads"
  obtain s where s: "?play (butlast sample_events) no_inspection = Some s"
    using before_answer by (cases "?play (butlast sample_events) no_inspection") auto
  have pre: "ix_now s = 12" "map (\<lambda>rq. rq_phase rq) (ix_requests s) = [Reading]"
    "map (\<lambda>rq. cache_id sample_inspector (rq_processor rq) (rq_object rq)) (ix_requests s) = map fst (ix_dir s)"
    "map snd (ix_dir s) = [Folder (AList.update MANIFEST (enc_manifest (Outputs [\<lparr>of_name = LISTING, of_file = LISTING_FILE, of_type = ''text/plain; charset=utf-8''\<rparr>])) [(LISTING_FILE, ''raw'')]) 5]"
    using before_answer unfolding s by simp_all
  obtain rq0 where q0: "ix_requests s = [rq0]" "rq_phase rq0 = Reading" using pre(2) by (cases "ix_requests s") auto
  have reach: "inspecting sample_inspector sample_runs sample_downloads {sample_object} s"
    using s by (rule play_reach [OF sample_start, rotated]) (simp add: sample_events_def asked_def)
  obtain s' where s': "fire sample_inspector sample_runs sample_downloads (Advance 0) s = Some s'" "played = Some s'"
    using played_answer unfolding played_def play_last s by (cases "fire sample_inspector sample_runs sample_downloads (Advance 0) s") auto
  have step: "act sample_inspector sample_runs sample_downloads s s'"
    using s'(1) by (auto simp: fire_def split: if_splits option.splits intro: act.request)
  have reach': "inspecting sample_inspector sample_runs sample_downloads {sample_object} s'" by (rule inspecting.acted [OF reach step])
  obtain rq where rq: "ix_requests s' = [rq]" using s'(1) q0 by (auto simp: fire_def split: option.splits)
  obtain art where art: "rq_phase rq = Answered (Inr art)" "ar_body art = ''raw''"
    using played_answer unfolding s'(2) option.case rq list.case by (simp split: request_phase.splits sum.splits)
  have "served sample_inspector sample_runs sample_downloads {sample_object} rq art"
    using inspect_sound [OF reach' sample_ok sample_json] rq art(1) by simp
  moreover have "ar_fresh art = 93"
  proof -
    have "\<exists>files t. map_of (ix_dir s) (cache_id sample_inspector (rq_processor (ix_requests s ! 0)) (rq_object (ix_requests s ! 0))) = Some (Folder files t)
        \<and> ix_now s + ar_fresh art = t + iq_ttl sample_inspector"
      using inspect_sound [OF reach sample_ok sample_json] step q0 rq art(1) by fastforce
    moreover obtain e where "ix_dir s = [(cache_id sample_inspector (rq_processor rq0) (rq_object rq0), e)]"
      using pre(3,4) q0(1) by (cases "ix_dir s") auto
    ultimately show ?thesis using pre(1,4) q0(1) by (auto simp: sample_inspector_def)
  qed
  ultimately show ?thesis using reach' rq art by blast
qed

text \<open>
  C10. Inspection comes to an end: every step of a request or a job uses up work that was left, so with no new
  requests there are finitely many; and where no step is possible every request has its answer, every job is
  over and unregistered. So no request waits for ever, whatever the tools, the store and the disk do.
\<close>

theorem inspection_ends:
  assumes "inspecting i may_run delivers versions s"
  shows "(\<forall>s'. act i may_run delivers s s' \<longrightarrow> work_left i s' < work_left i s)
    \<and> ((\<nexists>s'. act i may_run delivers s s') \<longrightarrow> (\<forall>rq\<in>set (ix_requests s). \<exists>r. rq_phase rq = Answered r)
         \<and> (\<forall>j\<in>set (ix_made s). jb_phase j = Over) \<and> ix_jobs s = [])"
  using act_work stuck_done [OF inspecting_jobs [OF assms]] by blast

theorem inspection_ends_witness:
  "\<exists>s s'. play sample_inspector sample_runs sample_downloads [Arrive EXIFTOOL LISTING sample_object] no_inspection = Some s
     \<and> act sample_inspector sample_runs sample_downloads s s' \<and> work_left sample_inspector s' < work_left sample_inspector s"
proof -
  let ?play = "play sample_inspector sample_runs sample_downloads"
  have "\<not> Option.is_none (?play [Arrive EXIFTOOL LISTING sample_object, Advance 0] no_inspection)" by code_simp
  then obtain s s' where s: "?play [Arrive EXIFTOOL LISTING sample_object] no_inspection = Some s"
      and step: "fire sample_inspector sample_runs sample_downloads (Advance 0) s = Some s'"
    by (auto simp: Option.is_none_def Option.bind_eq_Some_conv)
  have "inspecting sample_inspector sample_runs sample_downloads {sample_object} s"
    using s by (rule play_reach [OF sample_start, rotated]) (simp add: asked_def)
  moreover have "act sample_inspector sample_runs sample_downloads s s'"
    using step by (auto simp: fire_def split: if_splits option.splits intro: act.request)
  ultimately show ?thesis using s inspection_ends by blast
qed

text \<open>
  C17. One job per object version: two jobs for the same version that have not both unregistered are the same job, the
  registered one, so concurrent requests share a download; at most the configured number of jobs (at
  least one) hold a slot, and every slot not held is free again.
\<close>

theorem jobs_shared:
  assumes "inspecting i may_run delivers versions s"
  shows "(\<forall>m n. m < length (ix_made s) \<and> n < length (ix_made s) \<and> registered (ix_made s ! m) \<and> registered (ix_made s ! n)
        \<and> same_version (jb_object (ix_made s ! m)) (jb_object (ix_made s ! n)) \<longrightarrow> m = n)
    \<and> length (filter holds_slot (ix_made s)) + ix_free s = max 1 (iq_slots i)"
proof -
  have inv: "jobs_inv i s" by (rule inspecting_jobs [OF assms(1)])
  have "map_of (ix_jobs s) (job_key (jb_object (ix_made s ! m))) = Some m" if "m < length (ix_made s)" "registered (ix_made s ! m)" for m
    using inv that by (simp add: jobs_inv_def)
  moreover have "job_key ob = job_key ob'" if "same_version ob ob'" for ob ob'
    using that by (simp add: job_key_def same_version_def)
  moreover have "sum_list (map slots_of js) = length (filter holds_slot js)" for js
    by (induction js) (auto simp: slots_of_def)
  moreover have "ix_free s + sum_list (map slots_of (ix_made s)) = max 1 (iq_slots i)"
    using inv unfolding jobs_inv_def by blast
  ultimately show ?thesis by (metis add.commute option.inject)
qed

theorem jobs_shared_witness:
  "\<exists>s. played = Some s \<and> length (filter holds_slot (ix_made s)) + ix_free s = 1"
proof -
  obtain s where s: "played = Some s" using played_answer by (cases played) auto
  have "max 1 (iq_slots sample_inspector) = 1" by (simp add: sample_inspector_def)
  then have "length (filter holds_slot (ix_made s)) + ix_free s = 1"
    using conjunct2 [OF jobs_shared [OF played_reached [OF s]]] by simp
  then show ?thesis using s by blast
qed

text \<open>What a capped pipe keeps does not depend on how the reads fell.\<close>

lemma read_capped_exact: "length acc \<le> cap \<Longrightarrow> read_capped cap acc over bufs = (take cap (acc @ concat bufs), over \<or> cap < length (acc @ concat bufs))"
proof (induction bufs arbitrary: acc over)
  case (Cons b bufs)
  let ?room = "cap - length acc"
  have "read_capped cap acc over (b # bufs) = read_capped cap (acc @ take ?room b) (over \<or> ?room < length b) bufs"
    by (simp add: Let_def min_def)
  also have "\<dots> = (take cap ((acc @ take ?room b) @ concat bufs), (over \<or> ?room < length b) \<or> cap < length ((acc @ take ?room b) @ concat bufs))"
    using Cons.prems by (intro Cons.IH) simp
  also have "\<dots> = (take cap (acc @ concat (b # bufs)), over \<or> cap < length (acc @ concat (b # bufs)))"
    using Cons.prems by (cases "?room < length b") (auto simp: min_def)
  finally show ?case .
qed simp

lemma ascii_valid: "\<forall>c\<in>set s. byte c < 128 \<Longrightarrow> utf8_valid s"
  by (induction s) simp_all

lemma escape_valid: "utf8_valid (concat (map (\<lambda>b. CHR 0x5C # ''x'' @ hex [b]) bs))"
proof (rule ascii_valid, rule ballI)
  fix c assume c: "c \<in> set (concat (map (\<lambda>b. CHR 0x5C # ''x'' @ hex [b]) bs))"
  have digit: "byte (low_hex n) < 128" if "n < 16" for n using low_hex_byte [OF that] that by simp
  have "byte b div 16 < 16" for b by (simp add: byte_def less_mult_imp_div_less)
  then have "byte (low_hex (byte b div 16)) < 128" "byte (low_hex (byte b mod 16)) < 128" for b by (intro digit; simp)+
  moreover have "byte (CHR 0x5C) < 128" "byte (CHR ''x'') < 128" by code_simp+
  ultimately show "byte c < 128" using c by (auto simp: hex_def split: if_splits)
qed

lemma note_valid: "utf8_valid truncation_note"
proof -
  have "utf8_valid (dec n)" for n using dec_digits by (intro ascii_valid) fastforce
  moreover have "utf8_valid ''[rawdb] output truncated after ''" "utf8_valid '' MiB''" "utf8_valid nl" by code_simp+
  ultimately show ?thesis unfolding truncation_note_def by (intro utf8_valid_append)
qed

text \<open>
  C23. The listing that is served is what exiftool printed: if a finished run counts as a result and the disk works,
  then until the result expires the request for it gets the first 4 MiB of the output (however its
  reads fell) as valid UTF-8, unchanged when it was valid, with a note when there was more; and any exit code counts
  as long as something was printed and memory did not run out.
\<close>

theorem listing_served:
  fixes i :: inspector and out :: "string list"
  defines "printed \<equiv> take MAX_OUTPUT (concat out)"
  defines "body \<equiv> to_utf8 printed @ (if MAX_OUTPUT < length (concat out) then truncation_note else [])"
  assumes "io_ok io" "\<forall>m. iq_of_json i (iq_to_json i m) = Some m" "concat out \<noteq> []"
    and ok: "\<not> contains_sub ''Out of memory'' (stderr_text (take MAX_STDERR (concat err)))"
  shows "(\<exists>dir'. run_processor i (exiftool_processor (Some t)) ob True
        (fst (exiftool_process (Some t) timeout memory (Finished out err (Exited code), True)))
        (snd (exiftool_process (Some t) timeout memory (Finished out err (Exited code), True))) io at dir = (Some (Inr ()), dir')
      \<and> (\<forall>now. at \<le> now \<and> now < at + iq_ttl i \<longrightarrow>
           lookup i now dir' (cache_id i (exiftool_processor (Some t)) ob) EXIFTOOL LISTING
           = Some (Inr \<lparr>ar_etag = cache_id i (exiftool_processor (Some t)) ob @ ''.listing'', ar_body = body,
               ar_type = ''text/plain; charset=utf-8'', ar_ext = ''txt'', ar_fresh = at + iq_ttl i - now\<rparr>)))
    \<and> utf8_valid body \<and> (utf8_valid printed \<longrightarrow> to_utf8 printed = printed)"
proof (intro conjI impI)
  let ?x = "(Finished out err (Exited code), True)"
  let ?f = "\<lparr>of_name = LISTING, of_file = LISTING_FILE, of_type = ''text/plain; charset=utf-8''\<rparr>"
  have "printed \<noteq> []" using assms(5) by (simp add: printed_def MAX_OUTPUT_def)
  then have "listing_failure printed (stderr_text (take MAX_STDERR (concat err))) (Exited code) memory = None"
    using ok by (simp add: listing_failure_def)
  then have "exiftool_run timeout memory ?x = Some (Inr body)"
    by (simp add: exiftool_run_def read_capped_exact printed_def body_def Let_def)
  then have run: "exiftool_process (Some t) timeout memory ?x = (Ended (Done [?f]), [(LISTING_FILE, body)])"
    by (simp add: exiftool_process_def)
  have "final_extension LISTING_FILE = Some ''txt''" by code_simp
  then show "\<exists>dir'. run_processor i (exiftool_processor (Some t)) ob True (fst (exiftool_process (Some t) timeout memory ?x))
        (snd (exiftool_process (Some t) timeout memory ?x)) io at dir = (Some (Inr ()), dir')
      \<and> (\<forall>now. at \<le> now \<and> now < at + iq_ttl i \<longrightarrow> lookup i now dir' (cache_id i (exiftool_processor (Some t)) ob) EXIFTOOL LISTING
           = Some (Inr \<lparr>ar_etag = cache_id i (exiftool_processor (Some t)) ob @ ''.listing'', ar_body = body,
               ar_type = ''text/plain; charset=utf-8'', ar_ext = ''txt'', ar_fresh = at + iq_ttl i - now\<rparr>))"
    using exif.stored_served [OF run, of ?f body io i ob at dir] assms(3,4)
    by (simp add: exiftool_processor_def LISTING_def)
  show "utf8_valid body"
    unfolding body_def to_utf8_def using decode_valid [OF escape_valid] note_valid by (auto intro: utf8_valid_append)
  show "utf8_valid printed \<Longrightarrow> to_utf8 printed = printed" unfolding to_utf8_def by (rule decode_same)
qed

theorem listing_served_witness:
  "\<exists>dir'. run_processor sample_inspector (exiftool_processor (Some sample_tool)) sample_object True
        (fst (exiftool_process (Some sample_tool) 60 0 (Finished [''ab'', ''c''] [] (Exited 1), True)))
        (snd (exiftool_process (Some sample_tool) 60 0 (Finished [''ab'', ''c''] [] (Exited 1), True))) sample_io 5 [] = (Some (Inr ()), dir')
      \<and> lookup sample_inspector 7 dir' (cache_id sample_inspector (exiftool_processor (Some sample_tool)) sample_object) EXIFTOOL LISTING
           = Some (Inr \<lparr>ar_etag = cache_id sample_inspector (exiftool_processor (Some sample_tool)) sample_object @ ''.listing'', ar_body = ''abc'',
               ar_type = ''text/plain; charset=utf-8'', ar_ext = ''txt'', ar_fresh = 98\<rparr>)"
proof -
  have io: "io_ok sample_io" by (simp add: io_ok_def sample_io_def)
  have mem: "\<not> contains_sub ''Out of memory'' (stderr_text (take MAX_STDERR (concat [])))" by code_simp
  have len: "take MAX_OUTPUT ''abc'' = ''abc''" "\<not> MAX_OUTPUT < 3" by (simp_all add: MAX_OUTPUT_def)
  have valid: "utf8_valid ''abc''" by code_simp
  note served = listing_served [OF io sample_json, of "[''ab'', ''c'']" "[]" sample_tool sample_object 60 0 1 5 "[]"]
  have "to_utf8 ''abc'' = ''abc''" using served mem valid len by simp
  then show ?thesis using conjunct1 [OF served] mem len by (auto simp: sample_inspector_def dest!: spec [of _ 7])
qed

text \<open>
  C26. The two processes agree: with settings that fit their types, a worker that runs to its end gives the preview
  that \<^verbatim>\<open>render\<close> makes for the server's own \<^verbatim>\<open>max_dim\<close> under the server's memory limit, written to the file the processor
  reports; no preview is the definitive answer, with the reason; and a limit, a write that fails, a
  panic, a signal or a time-out is a failure, so it is never cached as an answer.
\<close>

theorem preview_agrees:
  assumes "dim < 2 ^ 32" "memory < 2 ^ 64"
  shows "preview_process rw setrlimit write_file dim timeout memory input out Returned =
     (case (limit_memory setrlimit memory, render rw input dim, write_file (path_join out IMAGE_FILE)) of
        (Inr _, Inr jpeg, Inr _) \<Rightarrow> (Ended (Done [\<lparr>of_name = IMAGE, of_file = IMAGE_FILE, of_type = ''image/jpeg''\<rparr>]), [(IMAGE_FILE, jpeg)])
      | (Inr _, Inl reason, _) \<Rightarrow> (Ended (NoResult (stderr_text (reason @ nl))), [])
      | (Inl e, _) \<Rightarrow> (Ended (preview_outcome memory (Exited 64) (''setrlimit(RLIMIT_DATA): '' @ e @ nl)), [])
      | (_, _, Inl e) \<Rightarrow> (Ended (preview_outcome memory (Exited 64) (''write '' @ path_join out IMAGE_FILE @ '': '' @ e @ nl)), []))
    \<and> (\<forall>err. \<exists>reason. preview_outcome memory (Exited 64) err = Failed reason)
    \<and> (\<forall>fate. fate \<noteq> Returned \<longrightarrow> fst (preview_process rw setrlimit write_file dim timeout memory input out fate) \<in> {RunError} \<union> range (\<lambda>r. Ended (Failed r)))"
proof -
  have parse: "parse_uint w (dec n) = Some n" if "n < 2 ^ w" for w n
  proof -
    have "dec n \<noteq> []" by (subst dec.simps) simp
    then obtain c r where d: "dec n = c # r" by (cases "dec n") auto
    have digits: "list_all (in_range (CHR ''0'') (CHR ''9'')) (dec n)"
      unfolding list_all_iff in_range_def less_eq_char_def using dec_digits by (fastforce simp: byte_def)
    then have "c \<noteq> CHR ''+''" unfolding d by (auto simp: in_range_def)
    then have "strip_prefix ''+'' (dec n) = None" unfolding d by simp
    then show ?thesis using that digits dec_value [of n] d by (simp add: parse_uint_def Let_def)
  qed
  have worker: "worker rw setrlimit write_file [input, path_join out IMAGE_FILE, dec dim, dec memory] =
     (case limit_memory setrlimit memory of Inl e \<Rightarrow> (EXIT_USAGE, ''setrlimit(RLIMIT_DATA): '' @ e @ nl, None)
      | Inr _ \<Rightarrow> (case render rw input dim of Inl reason \<Rightarrow> (EXIT_NO_PREVIEW, reason @ nl, None)
        | Inr jpeg \<Rightarrow> (case write_file (path_join out IMAGE_FILE) of Inl e \<Rightarrow> (EXIT_USAGE, ''write '' @ path_join out IMAGE_FILE @ '': '' @ e @ nl, None)
          | Inr _ \<Rightarrow> (0, [], Some jpeg))))"
    by (simp add: worker_def parse [OF assms(1)] parse [OF assms(2)])
  have fails: "\<exists>reason. preview_outcome memory st err = Failed reason" if "status_code st \<notin> {Some 0, Some EXIT_NO_PREVIEW}" for st err
    using that by (simp add: preview_outcome_def Let_def)
  show ?thesis
  proof (intro conjI allI impI)
    show "fst (preview_process rw setrlimit write_file dim timeout memory input out fate) \<in> {RunError} \<union> range (\<lambda>r. Ended (Failed r))" if "fate \<noteq> Returned" for fate
      using that fails [of "Exited 101"] fails [of "Signaled n core" for n core]
      by (cases fate) (auto simp: preview_process_def EXIT_NO_PREVIEW_def image_iff)
    show "\<exists>reason. preview_outcome memory (Exited 64) err = Failed reason" for err
      by (rule fails) (simp add: EXIT_NO_PREVIEW_def)
  qed (simp add: preview_process_def worker preview_outcome_def EXIT_USAGE_def EXIT_NO_PREVIEW_def Let_def split: sum.split)
qed

theorem preview_agrees_witness:
  "preview_process \<lparr>rw_source = Inr, rw_decoder = (\<lambda>_. Inr ()), rw_preview = (\<lambda>_. Inr None), rw_thumbnail = (\<lambda>r. Inr (Some r)),
       rw_orientation = (\<lambda>_. Some 6), im_width = length, im_height = (\<lambda>_. 1), im_thumbnail = take, im_orient = (\<lambda>_. rev), im_jpeg = (\<lambda>_. Inr)\<rparr>
     (\<lambda>_. Inr ()) (\<lambda>_. Inr ()) 2 60 320 ''abc'' ''/out'' Returned
   = (Ended (Done [\<lparr>of_name = IMAGE, of_file = IMAGE_FILE, of_type = ''image/jpeg''\<rparr>]), [(IMAGE_FILE, ''ba'')])"
  using conjunct1 [OF preview_agrees [of 2 320 "\<lparr>rw_source = Inr, rw_decoder = (\<lambda>_. Inr ()), rw_preview = (\<lambda>_. Inr None), rw_thumbnail = (\<lambda>r. Inr (Some r)),
       rw_orientation = (\<lambda>_. Some 6), im_width = length, im_height = (\<lambda>_. 1), im_thumbnail = take, im_orient = (\<lambda>_. rev), im_jpeg = (\<lambda>_. Inr)\<rparr>"
     "\<lambda>_. Inr ()" "\<lambda>_. Inr ()" 60 "''abc''" "''/out''"]]
  by (simp add: limit_memory_def render_def embedded_def)

text \<open>
  Sweeping deletes expired results only and exactly: no lookup changes its answer, whatever of the rest can be
  deleted; every entry that is deleted is counted; and when all can be deleted exactly the fresh results are left.
\<close>

lemma sweep_keeps_fresh:
  assumes "sweep_results i removable now dir = (n, dir')"
  shows "(\<forall>rid name out. lookup i now dir' rid name out = lookup i now dir rid name out) \<and> n + length dir' = length dir
    \<and> (\<forall>rid. is_fresh i now dir' rid = is_fresh i now dir rid)
    \<and> ((\<forall>rid. removable rid) \<longrightarrow> map fst dir' = filter (is_fresh i now dir) (map fst dir))"
proof -
  let ?keep = "\<lambda>rid. is_fresh i now dir rid \<or> \<not> removable rid"
  have d: "dir' = filter (\<lambda>e. ?keep (fst e)) dir" "n = length (filter (\<lambda>e. \<not> ?keep (fst e)) dir)"
    using assms by (auto simp: sweep_results_def Let_def)
  have e: "map_of dir' rid = (if ?keep rid then map_of dir rid else None)" for rid
    unfolding d(1) by (rule map_of_filter_key [of ?keep])
  then have f: "fresh_for i now dir' rid = fresh_for i now dir rid" for rid
    by (auto simp: fresh_for_def is_fresh_def split: option.splits entry.splits)
  have "lookup i now dir' rid name out = lookup i now dir rid name out" for rid name out
  proof (cases "fresh_for i now dir rid")
    case (Some t)
    then have same: "read_in dir' rid = read_in dir rid" using e [of rid] by (simp add: read_in_def is_fresh_def fun_eq_iff)
    show ?thesis unfolding lookup_def f same by (rule refl)
  qed (simp add: lookup_def f)
  moreover have "n + length dir' = length dir"
    unfolding d using sum_length_filter_compl [of "\<lambda>e. ?keep (fst e)" dir] by simp
  moreover have "map fst dir' = filter (is_fresh i now dir) (map fst dir)" if "\<forall>rid. removable rid"
    using that by (simp add: d(1) filter_map o_def)
  moreover have "is_fresh i now dir' rid = is_fresh i now dir rid" for rid by (simp add: is_fresh_def f)
  ultimately show ?thesis by blast
qed

theorem sweep_keeps_fresh_witness:
  "lookup sample_inspector 200 [(''b'', Folder [(MANIFEST, ''RNo'')] 150)] ''b'' ''x'' ''y'' = Some (Inl (Unavailable ''No''))"
proof -
  let ?dir = "[(''a'', Plain), (''b'', Folder [(MANIFEST, ''RNo'')] 150), (''c'', Folder [(MANIFEST, ''RNo'')] 1)]"
  have l: "lookup sample_inspector 200 ?dir ''b'' ''x'' ''y'' = Some (Inl (Unavailable ''No''))" by code_simp
  have "sweep_results sample_inspector (\<lambda>_. True) 200 ?dir = (2, [(''b'', Folder [(MANIFEST, ''RNo'')] 150)])" by code_simp
  from sweep_keeps_fresh [OF this] show ?thesis using l by simp
qed

text \<open>
  C25. What a reviewer can inspect: a request that is let in comes from a session the guard accepts, asks for one file
  below that pending upload (no path climbs out), with a registered processor, one of its declared outputs and a file it
  handles, and the object's size is within the limit. Every refusal before that leaves the bucket untouched, and an
  answered body is never sniffed for another type.
\<close>

theorem inspect_confined:
  assumes "inspect_pending a i hs upload_id name out path p = (r, p')"
  shows "(case r of
       Inr rq \<Rightarrow> (\<exists>sess. fst (auth_guard a PENDING_VIEWERS hs p) = Inr sess)
         \<and> io_key (rq_object rq) = ''pending/'' @ upload_id @ ''/'' @ path \<and> \<not> contains_sub ''..'' path
         \<and> io_file (rq_object rq) = last_seg slash path
         \<and> rq_processor rq \<in> set (iq_processors i) \<and> pr_name (rq_processor rq) = name \<and> out \<in> set (pr_outputs (rq_processor rq))
         \<and> pr_check (rq_processor rq) (io_file (rq_object rq)) = Inr () \<and> io_size (rq_object rq) \<le> iq_max_bytes i
         \<and> rq_phase rq = Looking 2
     | Inl e \<Rightarrow> (fst (auth_guard a PENDING_VIEWERS hs p) = Inl e \<or> contains_sub ''..'' path
           \<or> (\<exists>err. admit_checks i name out (last_seg slash path) = Inl err)) \<longrightarrow> world p' = world (snd (auth_guard a PENDING_VIEWERS hs p)))
    \<and> (\<forall>art v. rs_status (artifact_response art hs name v) = 200 \<longrightarrow> (''x-content-type-options'', ''nosniff'') \<in> set (rs_headers (artifact_response art hs name v)))"
proof -
  obtain g p1 where g: "auth_guard a PENDING_VIEWERS hs p = (g, p1)" by fastforce
  have safe: "rs_status (artifact_response art hs name v) = 200 \<longrightarrow> (''x-content-type-options'', ''nosniff'') \<in> set (rs_headers (artifact_response art hs name v))" for art v
    by (simp add: artifact_response_def Let_def)
  show ?thesis
  proof (cases g)
    case (Inl e)
    then show ?thesis using assms g safe by (auto simp: inspect_pending_def bindE_def)
  next
    case (Inr sess)
    show ?thesis
    proof (cases "contains_sub ''..'' path")
      case True
      then show ?thesis using assms g Inr safe by (auto simp: inspect_pending_def pending_file_key_def cmd_defs)
    next
      case False
      show ?thesis
      proof (cases "admit_checks i name out (last_seg slash path)")
        case (Inl e)
        then show ?thesis using assms g Inr False safe
          by (auto simp: inspect_pending_def get_request_def pending_file_key_def cmd_defs on_world_def)
      next
        case (Inr wanted)
        then show ?thesis using assms g \<open>g = Inr sess\<close> False safe admitted [OF Inr]
          by (auto simp: inspect_pending_def get_request_def pending_file_key_def cmd_defs on_world_def admit_object_def
              split: sum.splits prod.splits option.splits if_splits)
      qed
    qed
  qed
qed

theorem inspect_confined_witness:
  "\<exists>rq. fst (inspect_pending sample_app (sample_inspector \<lparr>iq_max_bytes := 2 ^ 40\<rparr>) admin_request ''u1'' EXIFTOOL LISTING ''raw/a.CR3'' upload_pod) = Inr rq
    \<and> io_key (rq_object rq) = ''pending/u1/raw/a.CR3'' \<and> io_file (rq_object rq) = ''a.CR3''"
proof -
  let ?i = "sample_inspector \<lparr>iq_max_bytes := 2 ^ 40\<rparr>"
  have g: "auth_guard sample_app PENDING_VIEWERS admin_request p = (Inr admin_session, p)" for p
    by (rule admin_guard) (simp add: PENDING_VIEWERS_def ADMIN_BIT_def REVIEWER_BIT_def APPROVER_BIT_def)
  have path: "\<not> contains_sub ''..'' ''raw/a.CR3''" "last_seg slash ''raw/a.CR3'' = ''a.CR3''" by code_simp+
  have checks: "admit_checks ?i EXIFTOOL LISTING ''a.CR3'' = Inr (exiftool_processor (Some sample_tool))"
    by (simp add: admit_checks_def sample_inspector_def preview_processor_def exiftool_processor_def PREVIEW_def EXIFTOOL_def)
  obtain ob where ob: "mem_view upload_bucket ''pending/u1/raw/a.CR3'' = Some ob" "length (ob_bytes ob) \<le> 2 ^ 40"
    using upload_objects by auto
  obtain rq p' where run: "inspect_pending sample_app ?i admin_request ''u1'' EXIFTOOL LISTING ''raw/a.CR3'' upload_pod = (Inr rq, p')"
    using g [of upload_pod] path checks ob
    by (auto simp: inspect_pending_def pending_file_key_def get_request_def admit_object_def cmd_defs on_world_def upload_pod_def)
  show ?thesis using inspect_confined [OF run] run path by auto
qed

end
