(* ===== verification/Server.thy ===== *)
theory Server imports Public Apikey Db_Query Responses Scanner_Props begin

text \<open>
  \<^verbatim>\<open>src/backend/src/routes/mod.rs\<close>, \<^verbatim>\<open>routes/errors.rs\<close> and \<^verbatim>\<open>routes/metrics.rs\<close>: what stands around the handlers.
  The static file server of \<^verbatim>\<open>tower_http\<close>, the reading of \<^verbatim>\<open>index.html\<close> and the embedded pages are fields of \<open>site\<close>;
  the Prometheus encoder is a parameter. The route tables are the framework's and not modelled.
\<close>

section \<open>Error pages\<close>

record http_request =
  hr_method :: string
  hr_path :: string
  hr_headers :: headers

record site =
  site_serve :: "http_request \<Rightarrow> response"
  site_index :: "string option"
  PAGE_404 :: string
  PAGE_4XX :: string
  PAGE_5XX :: string

definition is_server_error :: "nat \<Rightarrow> bool" where
  "is_server_error st \<longleftrightarrow> 500 \<le> st \<and> st < 600"

definition is_client_error :: "nat \<Rightarrow> bool" where
  "is_client_error st \<longleftrightarrow> 400 \<le> st \<and> st < 500"

definition html_for_status :: "site \<Rightarrow> nat \<Rightarrow> string" where
  "html_for_status w st = (if st = 404 then PAGE_404 w else if is_server_error st then PAGE_5XX w else PAGE_4XX w)"

definition html_reply :: "nat \<Rightarrow> string \<Rightarrow> response" where
  "html_reply st body = \<lparr>rs_status = st, rs_headers = [(''content-type'', ''text/html; charset=utf-8'')], rs_body = body\<rparr>"

definition error_response :: "site \<Rightarrow> nat \<Rightarrow> response" where
  "error_response w st = html_reply st (html_for_status w st)"

section \<open>Requests that match no route\<close>

definition json_status :: "nat \<Rightarrow> string \<Rightarrow> response" where
  "json_status st body = \<lparr>rs_status = st, rs_headers = [(''content-type'', ''application/json'')], rs_body = body\<rparr>"

definition serve_index :: "site \<Rightarrow> response" where
  "serve_index w = (case site_index w of Some bytes \<Rightarrow> html_reply 200 bytes | None \<Rightarrow> error_response w 500)"

definition accepts_html :: "headers \<Rightarrow> bool" where
  "accepts_html hs = (case header_text ''accept'' hs of None \<Rightarrow> False | Some v \<Rightarrow> contains_sub ''text/html'' v)"

definition spa_fallback :: "site \<Rightarrow> http_request \<Rightarrow> response" where
  "spa_fallback w r =
     (if starts_with ''/api'' (hr_path r) \<or> starts_with ''/auth'' (hr_path r)
      then json_status (error_status MissingItem) ''{\"error\":\"not found\"}''
      else let resp = site_serve w r; status = rs_status resp in
        if status = 404
        then (if hr_method r = ''GET'' \<and> accepts_html (hr_headers r) then serve_index w else error_response w 404)
        else if (is_client_error status \<or> is_server_error status) \<and> accepts_html (hr_headers r) then error_response w status
        else resp)"

section \<open>Probes\<close>

definition healthz :: "bool \<Rightarrow> nat \<Rightarrow> response" where
  "healthz is_ready ready_param =
     (if ready_param = 1
      then (if is_ready then json_status 200 ''{\"ready\":true}'' else json_status 503 ''{\"ready\":false}'')
      else json_status 200 ''{\"alive\":true}'')"

definition live :: response where
  "live = json_status 200 ''{\"alive\":true}''"

definition ready :: "bool \<Rightarrow> response" where
  "ready is_ready = (if is_ready then json_status 200 ''{\"ready\":true}'' else json_status 503 ''{\"ready\":false}'')"

section \<open>Metrics\<close>

text \<open>An instrument with its attributes; counters add, gauges keep the last value. Values of histograms are dropped.\<close>

type_synonym attrs = "(string \<times> string) list"
type_synonym series = "string \<times> attrs \<Rightarrow> nat"

definition add :: "string \<Rightarrow> nat \<Rightarrow> attrs \<Rightarrow> series \<Rightarrow> series" where
  "add name n at s = s((name, at) := s (name, at) + n)"

definition http_requests :: string where "http_requests = ''rawdb.core.http.requests''"
definition internal_errors :: string where "internal_errors = ''rawdb.core.internal_errors''"
definition service_up :: string where "service_up = ''rawdb.service.up''"
definition catalog_size :: string where "catalog_size = ''rawdb.catalog.size''"

text \<open>\<^verbatim>\<open>track_http\<close> around the rest of the service, \<open>run\<close>, which may change the pod.\<close>

definition track_http :: "'s app \<Rightarrow> (http_request \<Rightarrow> 's pod \<Rightarrow> response \<times> 's pod) \<Rightarrow> http_request
    \<Rightarrow> series \<times> 's pod \<Rightarrow> response \<times> series \<times> 's pod" where
  "track_http a run r = (\<lambda>(s, p).
     let username = metric_username (Inr (lookup_key a (cache p) (hr_headers r)) :: unit + user_row option) in
     case run r p of (resp, p') \<Rightarrow>
     let status = rs_status resp;
         at = [(''method'', hr_method r), (''status_code'', dec status), (''username'', username)];
         s1 = add http_requests 1 at s
     in (resp, if is_server_error status then add internal_errors 1 ((''source'', ''http'') # at) s1 else s1, p'))"

text \<open>The address \<^verbatim>\<open>access_log\<close> writes down, and its line without the duration.\<close>

definition logged_ip :: "'s app \<Rightarrow> headers \<Rightarrow> string \<Rightarrow> string" where
  "logged_ip a hs peer =
     (case header_text ''x-forwarded-for'' hs of
        Some xff \<Rightarrow> (case parse_ip a (trim (hd (split_on (CHR '','') xff))) of Some ip \<Rightarrow> ip | None \<Rightarrow> peer)
      | None \<Rightarrow> (case header_text ''x-real-ip'' hs of
          Some xri \<Rightarrow> (case parse_ip a (trim xri) of Some ip \<Rightarrow> ip | None \<Rightarrow> peer)
        | None \<Rightarrow> peer))"

record log_line =
  lg_method :: string
  lg_path :: string
  lg_status :: nat
  lg_client_ip :: string

definition access_log :: "'s app \<Rightarrow> string \<Rightarrow> (http_request \<Rightarrow> 't \<Rightarrow> response \<times> 't) \<Rightarrow> http_request
    \<Rightarrow> log_line list \<times> 't \<Rightarrow> response \<times> log_line list \<times> 't" where
  "access_log a peer run r = (\<lambda>(lines, s).
     let ip = logged_ip a (hr_headers r) peer in
     case run r s of (resp, s') \<Rightarrow>
     (resp, lines @ [\<lparr>lg_method = hr_method r, lg_path = hr_path r, lg_status = rs_status resp, lg_client_ip = ip\<rparr>], s'))"

definition record_catalog :: "bool \<Rightarrow> db \<Rightarrow> series \<Rightarrow> series" where
  "record_catalog is_ready d s =
     (if \<not> is_ready then s
      else fold (\<lambda>(kind, n) s. s((catalog_size, [(''kind'', kind)]) := n))
        [(''models'', count_models d), (''special'', count_special d), (''files'', count_files d), (''pending'', count_pending d)] s)"

text \<open>\<^verbatim>\<open>/metrics\<close>, with the build's crate name and version and the encoder, whose format is \<open>format_type\<close>.\<close>

definition metrics :: "string \<Rightarrow> string \<Rightarrow> string \<Rightarrow> (series \<Rightarrow> string option) \<Rightarrow> bool \<Rightarrow> db \<Rightarrow> series \<Rightarrow> response \<times> series" where
  "metrics crate version format_type encode is_ready d s =
     (let s1 = record_catalog is_ready d (s((service_up, [(''crate'', crate), (''version'', version)]) := 1))
      in (case encode s1 of
            Some buffer \<Rightarrow> \<lparr>rs_status = 200, rs_headers = [(''content-type'', format_type)], rs_body = buffer\<rparr>
          | None \<Rightarrow> \<lparr>rs_status = 500, rs_headers = [], rs_body = ''error encoding metrics''\<rparr>, s1))"

section \<open>Facts\<close>

text \<open>
  The web client's paths: outside \<^verbatim>\<open>/api\<close> and \<^verbatim>\<open>/auth\<close> the status is the static layer's, except that a missing file
  is answered with the client's index to a browser's navigation.
\<close>

lemma fallback_status:
  assumes "\<not> starts_with ''/api'' (hr_path r)" "\<not> starts_with ''/auth'' (hr_path r)"
  shows "rs_status (spa_fallback w r) =
    (if rs_status (site_serve w r) = 404 \<and> hr_method r = ''GET'' \<and> accepts_html (hr_headers r)
     then (if site_index w = None then 500 else 200) else rs_status (site_serve w r))"
  using assms by (auto simp: spa_fallback_def Let_def serve_index_def error_response_def html_reply_def split: option.splits)

text \<open>The middleware passes the answer on and counts it once, as an error exactly for a 5xx.\<close>

lemma track_http_counts:
  assumes "track_http a run r (s, p) = (resp, s', p')"
  shows "run r p = (resp, p') \<and>
    (\<exists>at. s' (http_requests, at) = s (http_requests, at) + 1 \<and> (\<forall>k. fst k = http_requests \<and> snd k \<noteq> at \<longrightarrow> s' k = s k)
      \<and> (\<forall>at'. s' (internal_errors, at') = s (internal_errors, at')
          + (if 500 \<le> rs_status resp \<and> rs_status resp < 600 \<and> at' = (''source'', ''http'') # at then 1 else 0)))"
proof -
  have ne: "http_requests \<noteq> internal_errors" by (simp add: http_requests_def internal_errors_def)
  show ?thesis using assms ne ne [symmetric]
    unfolding track_http_def Let_def add_def is_server_error_def
    by (cases "run r p") (auto split: if_splits intro!: exI [of _ "[(''method'', hr_method r), (''status_code'', dec (rs_status resp)),
        (''username'', metric_username (Inr (lookup_key a (cache p) (hr_headers r)) :: unit + user_row option))]"])
qed

text \<open>
  The log names the address the download limiter counts, but for one case: a forwarding header that is
  no address hides \<^verbatim>\<open>x-real-ip\<close> from the log only.
\<close>

lemma logged_ip_counted:
  "logged_ip a hs peer = client_ip a hs peer \<longleftrightarrow>
    \<not> (\<exists>xff xri ip. header_text ''x-forwarded-for'' hs = Some xff \<and> parse_ip a (trim (hd (split_on (CHR '','') xff))) = None
        \<and> header_text ''x-real-ip'' hs = Some xri \<and> parse_ip a (trim xri) = Some ip \<and> ip \<noteq> peer)"
  by (auto simp: logged_ip_def client_ip_def split: option.splits)

text \<open>A pod that has just started is reported ready after a scan without transient failures, and not before.\<close>

lemma ready_after_scan:
  assumes "scan_round x c interval (False, p) = ((is_ready, p'), wait)"
  shows "rs_status (ready is_ready) = 200 \<longleftrightarrow> (\<exists>sm. fst (run_once x c p) = Inr sm \<and> sc_transient sm = 0)"
  using assms by (cases "run_once x c p"; cases "fst (run_once x c p)")
    (auto simp: scan_round_def Let_def ready_def json_status_def split: if_splits)

lemma gauges_set: "distinct (map fst kns) \<Longrightarrow>
    fold (\<lambda>(kind, n) s. s((g, [(''kind'', kind)]) := n)) kns s (g, [(''kind'', kind)])
      = (case map_of kns kind of Some n \<Rightarrow> n | None \<Rightarrow> s (g, [(''kind'', kind)]))"
proof (induction kns arbitrary: s)
  case (Cons e kns)
  obtain k n where e: "e = (k, n)" by fastforce
  have "map_of kns k = None" using Cons.prems by (simp add: e map_of_eq_None_iff)
  then show ?case using Cons.IH [of "s((g, [(''kind'', k)]) := n)"] Cons.prems by (auto simp: e split: option.splits)
qed simp

text \<open>A scrape of a pod that is not ready leaves the catalog's totals as they were; of a ready one, it sets them.\<close>

lemma catalog_totals:
  assumes "metrics crate version fmt encode is_ready d s = (resp, s')"
  shows "s' (catalog_size, [(''kind'', kind)]) =
    (case (if is_ready then map_of [(''models'', count_models d), (''special'', count_special d), (''files'', count_files d),
        (''pending'', count_pending d)] kind else None) of
       Some n \<Rightarrow> n | None \<Rightarrow> s (catalog_size, [(''kind'', kind)]))"
proof -
  have "service_up \<noteq> catalog_size" by (simp add: service_up_def catalog_size_def)
  then have other: "(s((service_up, at) := 1)) (catalog_size, at') = s (catalog_size, at')" for at at' by simp
  have s': "s' = record_catalog is_ready d (s((service_up, [(''crate'', crate), (''version'', version)]) := 1))"
    using assms unfolding metrics_def Let_def by simp
  have "distinct (map fst [(''models'', count_models d), (''special'', count_special d), (''files'', count_files d),
        (''pending'', count_pending d)])" by (simp only: list.map fst_conv) code_simp
  then show ?thesis unfolding s' record_catalog_def by (cases is_ready) (simp_all only: gauges_set other if_True if_False
      not_True_eq_False not_False_eq_True option.case)
qed

end
