(* ===== verification/Spec2Isabelle.thy ===== *)
theory Spec2Isabelle
  imports Data_Claims Scan_Claims Ready_Claims S3_Claims Response_Claims Sync_Claims Users_Claims Ratelimit_Claims
    Access_Claims Account_Claims Login_Claims Approve_Claims Edit_Claims Upload_Claims Verify_Claims Delete_Claims
    Catalog_Claims Feeds_Claims Inspect_Claims Server
begin

text \<open>
  A verification development of the rawdb backend (\<^verbatim>\<open>src/backend/src\<close>), a catalog of raw photographs.

  The program keeps every set of samples as objects of an S3 bucket: \<^verbatim>\<open>samples/<maker>/<model>/\<close> for
  approved sets, \<^verbatim>\<open>pending/<id>/\<close> for uploads under review, each with a \<^verbatim>\<open>rawdb-meta.toml\<close>, and
  \<^verbatim>\<open>_system/\<close> for the users file and the tick objects. Several pods serve the catalog; each has a cache
  in SQLite that its scanner fills from the bucket, and the pods tell one another of changes through the
  tick objects. Visitors search and download through the cache, uploaders send files, and reviewers edit,
  approve, reject and delete.

  Parts, in the order of the imports:

  \<^item> \<open>Prelude\<close>, \<open>Strings\<close>: commands with state and errors (functions from a state to a result and a state,
    the error in the left summand), their calculus (\<open>valid\<close>), and Rust's operations on texts, which are
    lists of bytes here.
  \<^item> \<open>Meta\<close>, \<open>Meta_Toml\<close> (\<^verbatim>\<open>meta.rs\<close>): the metadata format, its validation and serializer, and a reader
    of what the serializer writes, for the round trip.
  \<^item> \<open>Db\<close>, \<open>Sql_Order\<close>, \<open>Db_Query\<close>, \<open>Db_Search\<close> (\<^verbatim>\<open>cache/db.rs\<close>): the tables as lists of rows, the writes as
    transactions with key checks, cascades and rollback, the queries, search and export; \<open>Db_Inv\<close>,
    \<open>Db_Props\<close> hold the invariant and the lemmas, \<open>Samples\<close> concrete values, \<open>Data_Claims\<close> the properties.
  \<^item> \<open>S3\<close> (\<^verbatim>\<open>s3.rs\<close>): the wrapper over the SDK's calls, which are the fields of the record \<open>s3\<close>.
    \<open>Store\<close> states what those calls do to the bucket (\<open>store_ok\<close>: every call may be preceded by steps of
    other pods, \<open>quiet\<close> when there are none; an answered batch of deletions may still refuse keys, \<open>refusable\<close>)
    and derives what the wrapper does; \<open>prefixes_ok\<close> adds the listing by directories. \<open>Store_Mem\<close> shows the
    contract met by a bucket in memory; \<open>S3_Store\<close> is the interface the scanner uses, as a locale.
  \<^item> \<open>Scanner\<close>, \<open>Scanner_Props\<close>, \<open>Scan_Claims\<close> (\<^verbatim>\<open>cache/scanner.rs\<close>): the passes from the bucket into the
    cache, the sweeps and the retry loop. A \<open>pod\<close> is the world, the cache and the remembered ticks. \<open>Scan_Index\<close> is
    the interface of an indexed table as a locale (keys with a home prefix, a write, a deletion, what a reader
    is shown) with the lemmas on passes over it; \<open>Scan_Ready\<close> instantiates it with the sets and the uploads and
    composes the passes to rounds; \<open>Ready_Claims\<close> holds the properties: a cache is \<open>faithful\<close> when every entry shows
    the metadata its etag names, and \<open>reflects\<close> a bucket when every complete entry of it is shown as it is now.
  \<^item> \<open>Config\<close>, \<open>App\<close> (\<^verbatim>\<open>config.rs\<close>, \<^verbatim>\<open>state.rs\<close>, \<^verbatim>\<open>error.rs\<close>): the settings and their check, the shared state
    as the record \<open>app\<close>, the errors with their HTTP status. A \<open>handler\<close> is a command on a pod.
  \<^item> \<open>Responses\<close>, \<open>Response_Claims\<close> (\<^verbatim>\<open>cache/responses.rs\<close>): the response cache, keyed by the stamp of the
    change counters, against interleavings of requests and cache writes.
  \<^item> \<open>Sync\<close>, \<open>Sync_Claims\<close> (\<^verbatim>\<open>sync_tick.rs\<close>): ticks. \<open>Users\<close>, \<open>Users_Claims\<close> (\<^verbatim>\<open>users.rs\<close>): the compare-and-swap
    of the users file against arbitrary steps of other pods.
  \<^item> \<open>Ratelimit\<close>, \<open>Apikey\<close>, \<open>Auth\<close> with \<open>Ratelimit_Claims\<close> and \<open>Access_Claims\<close> (\<^verbatim>\<open>ratelimit.rs\<close>, \<^verbatim>\<open>apikey.rs\<close>,
    \<^verbatim>\<open>auth.rs\<close>): the download limiter, keys, sessions, roles and the guard of the handlers.
  \<^item> \<open>Public\<close> (\<^verbatim>\<open>routes/public.rs\<close>), \<open>Upload\<close> (\<^verbatim>\<open>routes/upload.rs\<close>), \<open>Admin_Edit\<close>, \<open>Admin_Review\<close>, \<open>Admin_Users\<close>
    (\<^verbatim>\<open>routes/admin.rs\<close>): the handlers, guards and early returns included.
  \<^item> \<open>Store_Delete\<close>, \<open>Frame\<close>, \<open>Admin_Props\<close>: what a command leaves alone, how a successful run splits into
    its steps, and what the steps do to an undisturbed bucket; \<open>Sample_Pod\<close>, \<open>Sample_App\<close>, \<open>Sample_Run\<close>:
    concrete pods, settings and requests; \<open>Approve_Claims\<close>, \<open>Edit_Claims\<close>, \<open>Upload_Claims\<close>, \<open>Verify_Claims\<close>,
    \<open>Delete_Claims\<close>: the properties of the handlers.

  \<^item> \<open>Account\<close>, \<open>Account_Claims\<close> (\<^verbatim>\<open>routes/me.rs\<close>, \<^verbatim>\<open>routes/export.rs\<close>): personal keys and the dump they open.
    \<open>Cookies\<close>, \<open>Idp\<close>, \<open>Login\<close>, \<open>Login_Claims\<close> (\<^verbatim>\<open>routes/auth.rs\<close>, \<^verbatim>\<open>auth_oidc.rs\<close>, \<^verbatim>\<open>auth_github.rs\<close>): password login
    and the two provider flows, whose clients are records of functions that read and change the world.
  \<^item> \<open>Xml\<close>, \<open>Feeds\<close>, \<open>Feeds_Claims\<close> (\<^verbatim>\<open>routes/feeds.rs\<close>): the Atom feeds, and a reader of XML events they are
    judged by. \<open>Catalog_Claims\<close>: the cached endpoints of \<open>Public\<close> and \<open>Feeds\<close> as instances of the response cache.
  \<^item> \<open>Utf8\<close>, \<open>Inspect\<close>, \<open>Inspect_Props\<close>, \<open>Tools\<close>, \<open>Tools_Props\<close>, \<open>Inspect_Pending\<close>, \<open>Inspect_Claims\<close> (\<^verbatim>\<open>inspect/mod.rs\<close>,
    \<^verbatim>\<open>inspect/exiftool.rs\<close>, \<^verbatim>\<open>inspect/preview.rs\<close> and the handler in \<^verbatim>\<open>routes/admin.rs\<close>): a request and a job are small
    state machines between whose steps others run (\<open>get_step\<close>, \<open>run_job\<close>); \<open>act\<close> is a step of one of them, \<open>inspecting\<close>
    the states reached with requests arriving and going away, sweeps, restarts and time passing; \<open>work_left\<close>
    is the measure that every step lowers. The processors are modelled down to the bytes of the tools' output.
  \<^item> \<open>Server\<close> (\<^verbatim>\<open>routes/mod.rs\<close>, \<^verbatim>\<open>routes/errors.rs\<close>, \<^verbatim>\<open>routes/metrics.rs\<close>): the fallback to the web client, error pages,
    probes, the access log, the request counters and the catalog gauges.

  What the properties say: the cache's writes do exactly what they claim and keep its keys (\<open>Data_Claims\<close>);
  scanning records only what the bucket holds (\<open>Scan_Claims\<close>), a ready pod reflected the bucket, a pod becomes
  ready on a store that answers, and a refresh shows what the bucket holds (\<open>Ready_Claims\<close>); no
  download, copy or batched deletion of the wrapper touches another byte (\<open>S3_Claims\<close>); cached responses
  are fresh (\<open>Response_Claims\<close>); ticks reach every peer (\<open>Sync_Claims\<close>); no users update is lost
  (\<open>Users_Claims\<close>); the limiter is a sliding window (\<open>Ratelimit_Claims\<close>); guards decide on live roles
  (\<open>Access_Claims\<close>); approvals, edits, uploads, verifications and deletions change the bucket as their
  comments say, or where they do not, how they fail (\<open>edit_swap_loses\<close>); a sign-in yields a session only for a
  vouched, registered user (\<open>Login_Claims\<close>), a minted key works at once (\<open>Account_Claims\<close>); no text breaks out of
  a feed (\<open>Feeds_Claims\<close>); inspection ends, shares its jobs and serves, for the configured time, only what its
  processors made of a download of the object (\<open>Inspect_Claims\<close>). Lemmas without an identifier in their text are further facts about the code.

  Bounds: loops over lists are structural recursion; retries recurse on the number of tries left, from
  the source's own constants (five for the users file and for broken streams); pages of a listing
  and chunks of a body are finite lists. Counters and sizes are natural numbers or integers, with
  \<^verbatim>\<open>u32\<close>, \<^verbatim>\<open>i64\<close> and saturation written out where the code converts; role sets are words of eight bits.

  Parameters: the AWS SDK's calls, TOML, JSON, RFC 3339 and JWT libraries, SHA-256, argon2, FTS5 matching,
  \<^verbatim>\<open>group_concat\<close> order, the random source, the standard hasher, percent-encoding, the identity providers, rawler and
  the image codecs, what exiftool prints and how it exits, the order in which concurrent tasks run. What is assumed of
  them is named in each property.

  Simplifications of the environment: the pages of one listing are one snapshot (\<open>list_ok\<close>); a conditional write
  is not refused on account of the SDK's own retry of it (\<open>put_ok\<close>); every time that is rendered reads back
  (\<open>time_ok\<close>); SQLite's sums of file sizes do not overflow (\<open>g_total_size\<close>); a lookup in the directory of inspection
  results and the move of a result into it are one step each (\<open>lookup\<close>, \<open>store\<close>); and nothing but the worker itself
  writes to its standard error (\<open>preview_process\<close>).

  Not modelled: opening and migrating the SQLite file and its connection pool; the construction of the clients of
  the identity providers; the route tables and the layers of the web framework, start-up; the API
  description, Kubernetes events, and the metrics outside \<open>Server\<close>: they only call libraries. Neither are the texts
  of error messages and logs. Outside the inspection a spawned task runs at once, and time-outs
  do not occur.
\<close>

end
